(* ===== verification/Prelude.thy ===== *)
theory Prelude
  imports Complex_Main
begin

text \<open>
  Shared vocabulary of the development.

  Every database-backed operation of the Go code is an \<open>op\<close>: a function from the state
  of the world to a result (an error or a value) and the next state. A Go function that
  returns \<open>(T, error)\<close> is an \<open>op\<close> returning \<open>T\<close>; the idiom
  \<open>if err != nil { return err }\<close> is \<open>bindE\<close>; a statement sent to Postgres is
  \<open>stmt\<close>, which may fail: the field \<open>faults\<close> of the world is a script that says,
  statement by statement, whether the statement fails (\<open>True\<close>) or runs. A crash of the
  process in the middle of an operation is a script whose remaining entries are all
  \<open>True\<close>: nothing after it changes the state. A Postgres transaction is
  \<open>atomically\<close>: an error inside it restores the tables.

  The theory also holds the model of \<open>decimal.Decimal\<close> values as rationals, of the
  column type \<open>NUMERIC(36,18)\<close>, the table operations the SQL statements are made of,
  and the rules (\<open>frame_rules\<close>, \<open>keeps_rules\<close>, \<open>hoare_rules\<close>) that the component
  theories use to walk through an operation.
\<close>

section \<open>Collections\<close>

named_theorems frame_rules \<open>an operation leaves an observation of the world unchanged\<close>
named_theorems read_rules \<open>an operation only queries\<close>
named_theorems keeps_rules \<open>an operation preserves a predicate of the world\<close>
named_theorems hoare_rules \<open>pre- and postconditions of operations\<close>
named_theorems wp_rules \<open>symbolic execution of an operation\<close>
named_theorems op_simps \<open>running an operation on a concrete world\<close>

section \<open>Identifiers, time, errors\<close>

text \<open>A UUID is its canonical text; times and durations are nanoseconds, as in Go.\<close>

type_synonym uuid = string
type_synonym time = int

definition second :: time where "second = 1000000000"
definition minute :: time where "minute = 60 * second"

definition uuid_nil :: uuid where
  "uuid_nil = ''00000000-0000-0000-0000-000000000000''"

text \<open>
  The sentinel errors of the packages (Go compares them with \<open>errors.Is\<close>; those of the
  ledger have constructors of their own, \<open>Sentinel\<close> carries the text of any other), a failed
  statement (\<open>DbErr\<close>), a row that violates a unique index (\<open>UniqueErr\<close>, SQLSTATE 23505) or
  another constraint of the schema (\<open>ConstraintErr\<close>) and an error without a sentinel
  (\<open>OtherErr\<close>, with the text that identifies it). \<open>Tagged\<close> is a sentinel returned by a callback that
  leaves the error itself in a variable of the caller.
\<close>

datatype err =
    DbErr
  | ConstraintErr string
  | UniqueErr string
  | Sentinel string
  | OtherErr string
  | ErrAlreadyPosted | ErrNoEntries | ErrUnbalanced | ErrInvalidEntry
  | ErrDiscrepancyAlreadyResolved
  | ErrNotFound string
  | OutOfFuel
  | Tagged string err

section \<open>Operations\<close>

type_synonym ('s, 'a) op = "'s \<Rightarrow> (err + 'a) \<times> 's"

definition ret :: "'a \<Rightarrow> ('s, 'a) op" where
  "ret x = (\<lambda>w. (Inr x, w))"

definition fail :: "err \<Rightarrow> ('s, 'a) op" where
  "fail e = (\<lambda>w. (Inl e, w))"

definition bindE :: "('s, 'a) op \<Rightarrow> ('a \<Rightarrow> ('s, 'b) op) \<Rightarrow> ('s, 'b) op" where
  "bindE m f = (\<lambda>w. case m w of (Inl e, w') \<Rightarrow> (Inl e, w') | (Inr x, w') \<Rightarrow> f x w')"

definition thenE :: "('s, 'a) op \<Rightarrow> ('s, 'b) op \<Rightarrow> ('s, 'b) op" where
  "thenE m k = bindE m (\<lambda>_. k)"

text \<open>\<open>onErr m h\<close>: the code looks at the error of \<open>m\<close> instead of returning it.\<close>

definition onErr :: "('s, 'a) op \<Rightarrow> (err \<Rightarrow> ('s, 'a) op) \<Rightarrow> ('s, 'a) op" where
  "onErr m h = (\<lambda>w. case m w of (Inl e, w') \<Rightarrow> h e w' | (Inr x, w') \<Rightarrow> (Inr x, w'))"

text \<open>\<open>attemptE m\<close>: the result of \<open>m\<close> as a value, error or not.\<close>

definition attemptE :: "('s, 'a) op \<Rightarrow> ('s, err + 'a) op" where
  "attemptE m = (\<lambda>w. case m w of (r, w') \<Rightarrow> (Inr r, w'))"

definition gets :: "('s \<Rightarrow> 'a) \<Rightarrow> ('s, 'a) op" where
  "gets f = (\<lambda>w. (Inr (f w), w))"

definition modify :: "('s \<Rightarrow> 's) \<Rightarrow> ('s, unit) op" where
  "modify f = (\<lambda>w. (Inr (), f w))"

definition guardE :: "bool \<Rightarrow> err \<Rightarrow> ('s, unit) op" where
  "guardE b e = (if b then ret () else fail e)"

fun forE :: "'a list \<Rightarrow> ('a \<Rightarrow> ('s, unit) op) \<Rightarrow> ('s, unit) op" where
  "forE [] f = ret ()"
| "forE (x # xs) f = thenE (f x) (forE xs f)"

text \<open>The loop that collects what each step returns.\<close>

fun mapE :: "'a list \<Rightarrow> ('a \<Rightarrow> ('s, 'b) op) \<Rightarrow> ('s, 'b list) op" where
  "mapE [] f = ret []"
| "mapE (x # xs) f = bindE (f x) (\<lambda>y. bindE (mapE xs f) (\<lambda>ys. ret (y # ys)))"

lemmas op_defs = ret_def fail_def bindE_def thenE_def onErr_def gets_def modify_def guardE_def

lemma bindE_assoc: "bindE (bindE m f) g = bindE m (\<lambda>x. bindE (f x) g)"
  by (rule ext) (simp add: bindE_def split: prod.split sum.split)

lemma bindE_ret [simp]: "bindE (ret x) f = f x" "bindE m ret = m"
  by (rule ext, simp add: bindE_def ret_def split: prod.split sum.split)+

lemma ret_apply [op_simps]: "ret x w = (Inr x, w)"
  by (simp add: ret_def)

lemma fail_apply [op_simps]: "fail e w = (Inl e, w)"
  by (simp add: fail_def)

lemma gets_apply [op_simps]: "gets f w = (Inr (f w), w)"
  by (simp add: gets_def)

lemma modify_apply [op_simps]: "modify f w = (Inr (), f w)"
  by (simp add: modify_def)

lemma guardE_apply [op_simps]: "guardE b e w = (if b then (Inr (), w) else (Inl e, w))"
  by (simp add: guardE_def ret_def fail_def)

lemma bindE_apply_Inr [op_simps]: "m w = (Inr x, w') \<Longrightarrow> bindE m f w = f x w'"
  by (simp add: bindE_def)

lemma bindE_apply_Inl [op_simps]: "m w = (Inl e, w') \<Longrightarrow> bindE m f w = (Inl e, w')"
  by (simp add: bindE_def)

lemma thenE_apply_Inr [op_simps]: "m w = (Inr x, w') \<Longrightarrow> thenE m k w = k w'"
  by (simp add: thenE_def bindE_def)

lemma thenE_apply_Inl [op_simps]: "m w = (Inl e, w') \<Longrightarrow> thenE m k w = (Inl e, w')"
  by (simp add: thenE_def bindE_def)

lemma onErr_apply_Inr [op_simps]: "m w = (Inr x, w') \<Longrightarrow> onErr m h w = (Inr x, w')"
  by (simp add: onErr_def)

lemma onErr_apply_Inl [op_simps]: "m w = (Inl e, w') \<Longrightarrow> onErr m h w = h e w'"
  by (simp add: onErr_def)

lemma attemptE_apply [op_simps]: "m w = (r, w') \<Longrightarrow> attemptE m w = (Inr r, w')"
  by (simp add: attemptE_def)

lemma bindE_InrE:
  assumes "bindE m f w = (Inr y, w'')"
  obtains x w' where "m w = (Inr x, w')" and "f x w' = (Inr y, w'')"
  using assms by (auto simp: bindE_def split: prod.splits sum.splits)

lemma thenE_InrE:
  assumes "thenE m k w = (Inr y, w'')"
  obtains x w' where "m w = (Inr x, w')" and "k w' = (Inr y, w'')"
  using assms by (auto simp: thenE_def bindE_def split: prod.splits sum.splits)

section \<open>Frames: what an operation leaves alone\<close>

definition frame :: "('s \<Rightarrow> 'b) \<Rightarrow> ('s, 'a) op \<Rightarrow> bool" where
  "frame f m \<longleftrightarrow> (\<forall>w. f (snd (m w)) = f w)"

lemma frameD: "frame f m \<Longrightarrow> f (snd (m w)) = f w"
  by (simp add: frame_def)

lemma frame_ret [frame_rules]: "frame f (ret x)"
  by (simp add: frame_def ret_def)

lemma frame_fail [frame_rules]: "frame f (fail e)"
  by (simp add: frame_def fail_def)

lemma frame_gets [frame_rules]: "frame f (gets g)"
  by (simp add: frame_def gets_def)

lemma frame_guardE [frame_rules]: "frame f (guardE b e)"
  by (simp add: frame_def guardE_def ret_def fail_def)

lemma frame_modify [frame_rules]: "(\<And>w. f (g w) = f w) \<Longrightarrow> frame f (modify g)"
  by (simp add: frame_def modify_def)

lemma frameI: "(\<And>w r w'. m w = (r, w') \<Longrightarrow> f w' = f w) \<Longrightarrow> frame f m"
  by (simp add: frame_def) (metis prod.collapse)

lemma frame_eq: "frame f m \<Longrightarrow> m w = (r, w') \<Longrightarrow> f w' = f w"
  by (drule frameD [where w = w]) simp

lemma frame_bindE [frame_rules]: "frame f m \<Longrightarrow> (\<And>x. frame f (k x)) \<Longrightarrow> frame f (bindE m k)"
  by (rule frameI) (auto simp: bindE_def split: prod.splits sum.splits; metis frame_eq)

lemma frame_thenE [frame_rules]: "frame f m \<Longrightarrow> frame f k \<Longrightarrow> frame f (thenE m k)"
  by (simp add: thenE_def frame_bindE)

lemma frame_onErr [frame_rules]: "frame f m \<Longrightarrow> (\<And>e. frame f (h e)) \<Longrightarrow> frame f (onErr m h)"
  by (rule frameI) (auto simp: onErr_def split: prod.splits sum.splits; metis frame_eq)

lemma frame_attemptE [frame_rules]: "frame f m \<Longrightarrow> frame f (attemptE m)"
  by (rule frameI) (auto simp: attemptE_def split: prod.splits dest: frame_eq)

lemma frame_forE [frame_rules]: "(\<And>x. frame f (g x)) \<Longrightarrow> frame f (forE xs g)"
  by (induction xs) (auto intro: frame_rules)

lemma frame_mapE [frame_rules]: "(\<And>x. frame f (g x)) \<Longrightarrow> frame f (mapE xs g)"
  by (induction xs) (auto intro!: frame_rules)

lemma frame_if [frame_rules]: "(b \<Longrightarrow> frame f m) \<Longrightarrow> (\<not> b \<Longrightarrow> frame f k) \<Longrightarrow> frame f (if b then m else k)"
  by simp

lemma frame_case_option [frame_rules]:
  "frame f m \<Longrightarrow> (\<And>x. frame f (k x)) \<Longrightarrow> frame f (case v of None \<Rightarrow> m | Some x \<Rightarrow> k x)"
  by (cases v) auto

lemma frame_case_sum [frame_rules]:
  "(\<And>x. frame f (m x)) \<Longrightarrow> (\<And>x. frame f (k x)) \<Longrightarrow> frame f (case v of Inl x \<Rightarrow> m x | Inr x \<Rightarrow> k x)"
  by (cases v) auto

lemma frame_case_prod [frame_rules]:
  "(\<And>x y. frame f (m x y)) \<Longrightarrow> frame f (case v of (x, y) \<Rightarrow> m x y)"
  by (cases v) auto

lemma frame_case_list [frame_rules]:
  "frame f m \<Longrightarrow> (\<And>x xs. frame f (k x xs)) \<Longrightarrow> frame f (case v of [] \<Rightarrow> m | x # xs \<Rightarrow> k x xs)"
  by (cases v) auto

lemma frame_Let [frame_rules]: "(\<And>x. frame f (k x)) \<Longrightarrow> frame f (Let v k)"
  by (simp add: Let_def)

section \<open>Pre- and postconditions\<close>

text \<open>
  \<open>hoare P m Q E\<close>: from a world with \<open>P\<close>, a successful run of \<open>m\<close> ends with \<open>Q\<close>
  of the result and the world, and a failing run ends with \<open>E\<close>. \<open>keeps P m\<close>: \<open>P\<close>
  holds afterwards, whatever the outcome.
\<close>

definition hoare :: "('s \<Rightarrow> bool) \<Rightarrow> ('s, 'a) op \<Rightarrow> ('a \<Rightarrow> 's \<Rightarrow> bool) \<Rightarrow> (err \<Rightarrow> 's \<Rightarrow> bool) \<Rightarrow> bool" where
  "hoare P m Q E \<longleftrightarrow>
     (\<forall>w. P w \<longrightarrow> (case m w of (Inl e, w') \<Rightarrow> E e w' | (Inr x, w') \<Rightarrow> Q x w'))"

definition keeps :: "('s \<Rightarrow> bool) \<Rightarrow> ('s, 'a) op \<Rightarrow> bool" where
  "keeps P m \<longleftrightarrow> (\<forall>w. P w \<longrightarrow> P (snd (m w)))"

lemma keepsD: "keeps P m \<Longrightarrow> P w \<Longrightarrow> P (snd (m w))"
  by (simp add: keeps_def)

lemma keeps_frame: "frame f m \<Longrightarrow> keeps (\<lambda>w. P (f w)) m"
  by (simp add: keeps_def frame_def)

lemma keeps_hoare: "keeps P m \<longleftrightarrow> hoare P m (\<lambda>_. P) (\<lambda>_. P)"
proof -
  have "P (snd (m w)) \<longleftrightarrow> (case m w of (Inl e, w') \<Rightarrow> P w' | (Inr x, w') \<Rightarrow> P w')" for w
    by (cases "m w"; cases "fst (m w)") auto
  then show ?thesis by (simp add: keeps_def hoare_def)
qed

lemma hoareI:
  "(\<And>w x w'. P w \<Longrightarrow> m w = (Inr x, w') \<Longrightarrow> Q x w') \<Longrightarrow>
   (\<And>w e w'. P w \<Longrightarrow> m w = (Inl e, w') \<Longrightarrow> E e w') \<Longrightarrow> hoare P m Q E"
  by (auto simp: hoare_def split: prod.splits sum.splits)

lemma hoare_InrD: "hoare P m Q E \<Longrightarrow> P w \<Longrightarrow> m w = (Inr x, w') \<Longrightarrow> Q x w'"
  by (fastforce simp: hoare_def)

lemma hoare_InlD: "hoare P m Q E \<Longrightarrow> P w \<Longrightarrow> m w = (Inl e, w') \<Longrightarrow> E e w'"
  by (fastforce simp: hoare_def)

lemma hoare_weaken:
  "hoare P m Q E \<Longrightarrow> (\<And>w. P' w \<Longrightarrow> P w) \<Longrightarrow> (\<And>x w. Q x w \<Longrightarrow> Q' x w) \<Longrightarrow>
   (\<And>e w. E e w \<Longrightarrow> E' e w) \<Longrightarrow> hoare P' m Q' E'"
  by (fastforce simp: hoare_def split: prod.splits sum.splits)

lemma hoare_pre: "hoare P m Q E \<Longrightarrow> (\<And>w. P' w \<Longrightarrow> P w) \<Longrightarrow> hoare P' m Q E"
  by (rule hoare_weaken)

lemma hoare_ret: "hoare (Q x) (ret x) Q E"
  by (simp add: hoare_def ret_def)

lemma hoare_fail: "hoare (E e) (fail e) Q E"
  by (simp add: hoare_def fail_def)

lemma hoare_gets: "hoare (\<lambda>w. Q (f w) w) (gets f) Q E"
  by (simp add: hoare_def gets_def)

lemma hoare_modify: "hoare (\<lambda>w. Q () (f w)) (modify f) Q E"
  by (simp add: hoare_def modify_def)

lemma hoare_bindE:
  "hoare P m R E \<Longrightarrow> (\<And>x. hoare (R x) (k x) Q E) \<Longrightarrow> hoare P (bindE m k) Q E"
  by (fastforce simp: hoare_def bindE_def split: prod.splits sum.splits)

lemma hoare_thenE:
  "hoare P m (\<lambda>_. R) E \<Longrightarrow> hoare R k Q E \<Longrightarrow> hoare P (thenE m k) Q E"
  by (fastforce simp: hoare_def thenE_def bindE_def split: prod.splits sum.splits)

lemma keeps_conj: "keeps P m \<Longrightarrow> keeps Q m \<Longrightarrow> keeps (\<lambda>w. P w \<and> Q w) m"
  by (simp add: keeps_def)

lemma keeps_ret [keeps_rules]: "keeps P (ret x)"
  by (simp add: keeps_def ret_def)

lemma keeps_fail [keeps_rules]: "keeps P (fail e)"
  by (simp add: keeps_def fail_def)

lemma keeps_gets [keeps_rules]: "keeps P (gets g)"
  by (simp add: keeps_def gets_def)

lemma keeps_guardE [keeps_rules]: "keeps P (guardE b e)"
  by (simp add: keeps_def guardE_def ret_def fail_def)

lemma keeps_modify [keeps_rules]: "(\<And>w. P w \<Longrightarrow> P (g w)) \<Longrightarrow> keeps P (modify g)"
  by (simp add: keeps_def modify_def)

lemma keeps_bindE [keeps_rules]: "keeps P m \<Longrightarrow> (\<And>x. keeps P (k x)) \<Longrightarrow> keeps P (bindE m k)"
  unfolding keeps_hoare by (rule hoare_bindE)

lemma keeps_thenE [keeps_rules]: "keeps P m \<Longrightarrow> keeps P k \<Longrightarrow> keeps P (thenE m k)"
  by (simp add: thenE_def keeps_bindE)

lemma keepsI: "(\<And>w r w'. P w \<Longrightarrow> m w = (r, w') \<Longrightarrow> P w') \<Longrightarrow> keeps P m"
  by (simp add: keeps_def) (metis prod.collapse)

lemma keeps_eq: "keeps P m \<Longrightarrow> m w = (r, w') \<Longrightarrow> P w \<Longrightarrow> P w'"
  by (drule keepsD [where w = w]) simp_all

lemma keeps_onErr [keeps_rules]: "keeps P m \<Longrightarrow> (\<And>e. keeps P (h e)) \<Longrightarrow> keeps P (onErr m h)"
  by (rule keepsI) (auto simp: onErr_def split: prod.splits sum.splits; metis keeps_eq)

lemma keeps_attemptE [keeps_rules]: "keeps P m \<Longrightarrow> keeps P (attemptE m)"
  by (rule keepsI) (auto simp: attemptE_def split: prod.splits dest: keeps_eq)

lemma keeps_forE [keeps_rules]: "(\<And>x. x \<in> set xs \<Longrightarrow> keeps P (g x)) \<Longrightarrow> keeps P (forE xs g)"
  by (induction xs) (auto intro: keeps_rules)

lemma keeps_mapE [keeps_rules]: "(\<And>x. x \<in> set xs \<Longrightarrow> keeps P (g x)) \<Longrightarrow> keeps P (mapE xs g)"
  by (induction xs) (auto intro!: keeps_rules)

lemma keeps_if [keeps_rules]: "(b \<Longrightarrow> keeps P m) \<Longrightarrow> (\<not> b \<Longrightarrow> keeps P k) \<Longrightarrow> keeps P (if b then m else k)"
  by simp

lemma keeps_case_option [keeps_rules]:
  "(v = None \<Longrightarrow> keeps P m) \<Longrightarrow> (\<And>x. v = Some x \<Longrightarrow> keeps P (k x)) \<Longrightarrow>
   keeps P (case v of None \<Rightarrow> m | Some x \<Rightarrow> k x)"
  by (cases v) auto

lemma keeps_case_sum [keeps_rules]:
  "(\<And>x. keeps P (m x)) \<Longrightarrow> (\<And>x. keeps P (k x)) \<Longrightarrow> keeps P (case v of Inl x \<Rightarrow> m x | Inr x \<Rightarrow> k x)"
  by (cases v) auto

lemma keeps_case_prod [keeps_rules]:
  "(\<And>x y. keeps P (m x y)) \<Longrightarrow> keeps P (case v of (x, y) \<Rightarrow> m x y)"
  by (cases v) auto

lemma keeps_case_list [keeps_rules]:
  "keeps P m \<Longrightarrow> (\<And>x xs. keeps P (k x xs)) \<Longrightarrow> keeps P (case v of [] \<Rightarrow> m | x # xs \<Rightarrow> k x xs)"
  by (cases v) auto

lemma keeps_Let [keeps_rules]: "(\<And>x. keeps P (k x)) \<Longrightarrow> keeps P (Let v k)"
  by (simp add: Let_def)

section \<open>Symbolic execution\<close>

text \<open>
  \<open>wp m Q w\<close>: running \<open>m\<close> from \<open>w\<close> ends in a result and a world with \<open>Q\<close>. The rules
  \<open>wp_rules\<close> walk through an operation statement by statement; \<open>wp_bind k Q\<close> is \<open>Q\<close> after
  the continuation \<open>k\<close>. A statement is followed on both of its outcomes, with whatever is
  left of the script of faults.
\<close>

definition wp :: "('s, 'a) op \<Rightarrow> (err + 'a \<Rightarrow> 's \<Rightarrow> bool) \<Rightarrow> 's \<Rightarrow> bool" where
  "wp m Q w = Q (fst (m w)) (snd (m w))"

definition wp_bind :: "('a \<Rightarrow> ('s, 'b) op) \<Rightarrow> (err + 'b \<Rightarrow> 's \<Rightarrow> bool) \<Rightarrow> err + 'a \<Rightarrow> 's \<Rightarrow> bool" where
  "wp_bind k Q r w = (case r of Inl e \<Rightarrow> Q (Inl e) w | Inr x \<Rightarrow> wp (k x) Q w)"

lemma wpD: "wp m Q w \<Longrightarrow> m w = (r, w') \<Longrightarrow> Q r w'"
  by (simp add: wp_def)

lemma wpI: "(\<And>r w'. m w = (r, w') \<Longrightarrow> Q r w') \<Longrightarrow> wp m Q w"
  by (simp add: wp_def)

lemma wp_conseq: "wp m R w \<Longrightarrow> (\<And>r w'. R r w' \<Longrightarrow> Q r w') \<Longrightarrow> wp m Q w"
  by (simp add: wp_def)

lemma wp_conj: "wp m P w \<Longrightarrow> wp m Q w \<Longrightarrow> wp m (\<lambda>r w. P r w \<and> Q r w) w"
  by (simp add: wp_def)

lemma keeps_wp: "(\<And>w. P w \<Longrightarrow> wp m (\<lambda>_. P) w) \<Longrightarrow> keeps P m"
  by (simp add: keeps_def wp_def)

lemma wp_keeps: "keeps P m \<Longrightarrow> P w \<Longrightarrow> (\<And>r w'. P w' \<Longrightarrow> Q r w') \<Longrightarrow> wp m Q w"
  by (simp add: keeps_def wp_def)

lemma wp_ret [wp_rules]: "Q (Inr x) w \<Longrightarrow> wp (ret x) Q w"
  by (simp add: wp_def ret_def)

lemma wp_fail [wp_rules]: "Q (Inl e) w \<Longrightarrow> wp (fail e) Q w"
  by (simp add: wp_def fail_def)

lemma wp_gets [wp_rules]: "Q (Inr (f w)) w \<Longrightarrow> wp (gets f) Q w"
  by (simp add: wp_def gets_def)

lemma wp_modify [wp_rules]: "Q (Inr ()) (f w) \<Longrightarrow> wp (modify f) Q w"
  by (simp add: wp_def modify_def)

lemma wp_guardE [wp_rules]: "(b \<Longrightarrow> Q (Inr ()) w) \<Longrightarrow> (\<not> b \<Longrightarrow> Q (Inl e) w) \<Longrightarrow> wp (guardE b e) Q w"
  by (simp add: wp_def guardE_def ret_def fail_def)

lemma wp_bindE [wp_rules]: "wp m (wp_bind k Q) w \<Longrightarrow> wp (bindE m k) Q w"
  by (auto simp: wp_def wp_bind_def bindE_def split: prod.splits sum.splits)

lemma wp_thenE [wp_rules]: "wp m (wp_bind (\<lambda>_. k) Q) w \<Longrightarrow> wp (thenE m k) Q w"
  by (simp add: thenE_def wp_bindE)

lemma wp_bind_Inr [wp_rules]: "wp (k x) Q w \<Longrightarrow> wp_bind k Q (Inr x) w"
  by (simp add: wp_bind_def)

lemma wp_bind_Inl [wp_rules]: "Q (Inl e) w \<Longrightarrow> wp_bind k Q (Inl e) w"
  by (simp add: wp_bind_def)

lemma wp_unbind: "wp (bindE m k) Q w \<Longrightarrow> wp m (wp_bind k Q) w"
  by (auto simp: wp_def wp_bind_def bindE_def split: prod.splits sum.splits)

text \<open>Calling an operation whose specification is known.\<close>

lemma wp_call:
  assumes "wp m R w" and "\<And>e w'. R (Inl e) w' \<Longrightarrow> Q (Inl e) w'" and "\<And>x w'. R (Inr x) w' \<Longrightarrow> wp (k x) Q w'"
  shows "wp m (wp_bind k Q) w"
  using assms by (auto simp: wp_def wp_bind_def split: sum.split)

lemma wp_onErr: "wp m (\<lambda>r w'. case r of Inl e \<Rightarrow> wp (h e) Q w' | Inr x \<Rightarrow> Q (Inr x) w') w \<Longrightarrow> wp (onErr m h) Q w"
  by (auto simp: wp_def onErr_def split: prod.splits sum.splits)

lemma wp_attemptE: "wp m (\<lambda>r w'. Q (Inr r) w') w \<Longrightarrow> wp (attemptE m) Q w"
  by (cases "m w") (simp add: wp_def attemptE_def)

lemma wp_if [wp_rules]: "(b \<Longrightarrow> wp m Q w) \<Longrightarrow> (\<not> b \<Longrightarrow> wp k Q w) \<Longrightarrow> wp (if b then m else k) Q w"
  by simp

lemma wp_case_option [wp_rules]:
  "(v = None \<Longrightarrow> wp m Q w) \<Longrightarrow> (\<And>x. v = Some x \<Longrightarrow> wp (k x) Q w) \<Longrightarrow>
   wp (case v of None \<Rightarrow> m | Some x \<Rightarrow> k x) Q w"
  by (cases v) auto

lemma wp_case_sum [wp_rules]:
  "(\<And>x. v = Inl x \<Longrightarrow> wp (m x) Q w) \<Longrightarrow> (\<And>x. v = Inr x \<Longrightarrow> wp (k x) Q w) \<Longrightarrow>
   wp (case v of Inl x \<Rightarrow> m x | Inr x \<Rightarrow> k x) Q w"
  by (cases v) auto

lemma wp_case_prod [wp_rules]:
  "(\<And>x y. v = (x, y) \<Longrightarrow> wp (m x y) Q w) \<Longrightarrow> wp (case v of (x, y) \<Rightarrow> m x y) Q w"
  by (cases v) auto

lemma wp_Let [wp_rules]: "wp (k v) Q w \<Longrightarrow> wp (Let v k) Q w"
  by (simp add: Let_def)

lemma wp_forE:
  assumes "I w" and "\<And>x w. x \<in> set xs \<Longrightarrow> I w \<Longrightarrow> wp (f x) (\<lambda>r w'. case r of Inl e \<Rightarrow> Q (Inl e) w' | Inr _ \<Rightarrow> I w') w"
    and "\<And>w. I w \<Longrightarrow> Q (Inr ()) w"
  shows "wp (forE xs f) Q w"
  using assms
proof (induction xs arbitrary: w)
  case Nil
  then show ?case by (simp add: wp_ret)
next
  case (Cons x xs)
  have rest: "wp (forE xs f) Q v" if "I v" for v
    by (rule Cons.IH [OF that]) (use Cons.prems in auto)
  have "wp (f x) (wp_bind (\<lambda>_. forE xs f) Q) w"
    by (rule wp_conseq [OF Cons.prems(2) [OF _ Cons.prems(1)]])
      (auto simp: wp_bind_def split: sum.splits intro: rest)
  then show ?case by (simp add: wp_thenE)
qed

section \<open>The database: statements, transactions, generated ids, the clock\<close>

text \<open>
  \<open>uuid_src\<close> is the stream of ids that Postgres' \<open>gen_random_uuid()\<close> will return and
  \<open>uuid_next\<close> the position in it; that the stream has no repetition is a hypothesis of
  the theorems that need it. \<open>now\<close> is the time, which the environment advances between
  operations and which stands still during one.
\<close>

record base =
  faults :: "bool list"
  now :: time
  uuid_src :: "nat \<Rightarrow> uuid"
  uuid_next :: nat

definition tick_fault :: "('x base_scheme, unit) op" where
  "tick_fault = (\<lambda>w. case faults w of
       [] \<Rightarrow> (Inr (), w)
     | b # bs \<Rightarrow> (if b then (Inl DbErr, w\<lparr>faults := bs\<rparr>) else (Inr (), w\<lparr>faults := bs\<rparr>)))"

definition stmt :: "('x base_scheme, 'a) op \<Rightarrow> ('x base_scheme, 'a) op" where
  "stmt m = thenE tick_fault m"

definition query :: "('x base_scheme \<Rightarrow> 'a) \<Rightarrow> ('x base_scheme, 'a) op" where
  "query f = stmt (gets f)"

definition exec :: "('x base_scheme \<Rightarrow> 'x base_scheme) \<Rightarrow> ('x base_scheme, unit) op" where
  "exec f = stmt (modify f)"

definition gen_uuid :: "('x base_scheme, uuid) op" where
  "gen_uuid = (\<lambda>w. (Inr (uuid_src w (uuid_next w)), w\<lparr>uuid_next := Suc (uuid_next w)\<rparr>))"

text \<open>
  \<open>Begin\<close>, the body, \<open>Commit\<close>: an error anywhere rolls the tables back. The script
  of faults and the id generator are not tables and keep what was consumed.
\<close>

definition atomically :: "('x base_scheme, 'a) op \<Rightarrow> ('x base_scheme, 'a) op" where
  "atomically m = (\<lambda>w. case m w of
       (Inl e, w') \<Rightarrow> (Inl e, w\<lparr>faults := faults w', uuid_next := max (uuid_next w) (uuid_next w')\<rparr>)
     | (Inr x, w') \<Rightarrow> (Inr x, w'))"

abbreviation begin_tx :: "('x base_scheme, unit) op" where "begin_tx \<equiv> tick_fault"
abbreviation commit_tx :: "('x base_scheme, unit) op" where "commit_tx \<equiv> tick_fault"

lemma tick_fault_Nil [op_simps]: "faults w = [] \<Longrightarrow> tick_fault w = (Inr (), w)"
  by (simp add: tick_fault_def)

lemma tick_fault_False [op_simps]:
  "faults w = False # bs \<Longrightarrow> tick_fault w = (Inr (), w\<lparr>faults := bs\<rparr>)"
  by (simp add: tick_fault_def)

lemma tick_fault_True [op_simps]:
  "faults w = True # bs \<Longrightarrow> tick_fault w = (Inl DbErr, w\<lparr>faults := bs\<rparr>)"
  by (simp add: tick_fault_def)

lemma stmt_Nil [op_simps]: "faults w = [] \<Longrightarrow> stmt m w = m w"
  by (simp add: stmt_def thenE_def bindE_def tick_fault_def)

lemma stmt_False [op_simps]: "faults w = False # bs \<Longrightarrow> stmt m w = m (w\<lparr>faults := bs\<rparr>)"
  by (simp add: stmt_def thenE_def bindE_def tick_fault_def)

lemma stmt_True [op_simps]: "faults w = True # bs \<Longrightarrow> stmt m w = (Inl DbErr, w\<lparr>faults := bs\<rparr>)"
  by (simp add: stmt_def thenE_def bindE_def tick_fault_def)

lemma query_Nil [op_simps]: "faults w = [] \<Longrightarrow> query f w = (Inr (f w), w)"
  by (simp add: query_def op_simps)

lemma exec_Nil [op_simps]: "faults w = [] \<Longrightarrow> exec f w = (Inr (), f w)"
  by (simp add: exec_def op_simps)

lemma gen_uuid_apply [op_simps]:
  "gen_uuid w = (Inr (uuid_src w (uuid_next w)), w\<lparr>uuid_next := Suc (uuid_next w)\<rparr>)"
  by (simp add: gen_uuid_def)

lemma atomically_Inr [op_simps]: "m w = (Inr x, w') \<Longrightarrow> atomically m w = (Inr x, w')"
  by (simp add: atomically_def)

lemma atomically_Inl [op_simps]:
  "m w = (Inl e, w') \<Longrightarrow> atomically m w = (Inl e, w\<lparr>faults := faults w', uuid_next := max (uuid_next w) (uuid_next w')\<rparr>)"
  by (simp add: atomically_def)

text \<open>
  The same for the first step of a sequence; these also apply when the value is a truth value,
  which the simplifier does not match against \<open>Inr x\<close>.
\<close>

lemma bindE_steps [op_simps]:
  "bindE (gets f) k w = k (f w) w"
  "bindE gen_uuid h w = h (uuid_src w (uuid_next w)) (w\<lparr>uuid_next := Suc (uuid_next w)\<rparr>)"
  "thenE (modify g) j w = j (g w)"
  "thenE (ret x) j w = j w"
  "bindE (fail e) k' w = (Inl e, w)"
  "thenE (fail e) j w = (Inl e, w)"
  "thenE (guardE b e) j w = (if b then j w else (Inl e, w))"
  by (simp_all add: bindE_def thenE_def gets_def modify_def ret_def fail_def guardE_def gen_uuid_def)

lemma sequence_steps [op_simps]:
  "bindE (bindE m f) k w = bindE m (\<lambda>x. bindE (f x) k) w"
  "bindE (thenE m' j) k w = thenE m' (bindE j k) w"
  "thenE (bindE m f) j' w = bindE m (\<lambda>x. thenE (f x) j') w"
  "thenE (thenE m' j) j' w = thenE m' (thenE j j') w"
  by (simp_all add: thenE_def bindE_assoc)

lemma stmt_steps [op_simps]:
  "faults w = [] \<Longrightarrow> bindE (query f) k w = k (f w) w"
  "faults w = [] \<Longrightarrow> bindE (stmt m) k' w = bindE m k' w"
  "faults w = [] \<Longrightarrow> thenE (stmt m') j w = thenE m' j w"
  "faults w = [] \<Longrightarrow> thenE (exec g) j w = j (g w)"
  "faults w = [] \<Longrightarrow> thenE tick_fault j w = j w"
  by (simp_all add: bindE_def thenE_def query_def exec_def stmt_def gets_def modify_def tick_fault_def)

text \<open>
  An observation that does not look at the script and the id generator is kept by
  everything that only consumes those.
\<close>

definition db_view :: "('x base_scheme \<Rightarrow> 'b) \<Rightarrow> bool" where
  "db_view f \<longleftrightarrow> (\<forall>w bs n. f (w\<lparr>faults := bs\<rparr>) = f w \<and> f (w\<lparr>uuid_next := n\<rparr>) = f w)"

lemma db_viewI:
  "(\<And>w bs. f (w\<lparr>faults := bs\<rparr>) = f w) \<Longrightarrow> (\<And>w n. f (w\<lparr>uuid_next := n\<rparr>) = f w) \<Longrightarrow> db_view f"
  by (simp add: db_view_def)

lemma db_view_faults: "db_view f \<Longrightarrow> f (w\<lparr>faults := bs\<rparr>) = f w"
  by (simp only: db_view_def)

lemma db_view_uuid_next: "db_view f \<Longrightarrow> f (w\<lparr>uuid_next := n\<rparr>) = f w"
  by (simp only: db_view_def)

lemma db_view_both: "db_view f \<Longrightarrow> f (w\<lparr>faults := bs, uuid_next := n\<rparr>) = f w"
  by (simp only: db_view_faults db_view_uuid_next)

lemma snd_tick_fault: "snd (tick_fault w) = w \<or> (\<exists>bs. snd (tick_fault w) = w\<lparr>faults := bs\<rparr>)"
  by (auto simp: tick_fault_def split: list.split)

lemma frame_tick_fault [frame_rules]:
  assumes "db_view f"
  shows "frame f tick_fault"
  unfolding frame_def using snd_tick_fault db_view_faults [OF assms] by metis

lemma frame_stmt [frame_rules]: "db_view f \<Longrightarrow> frame f m \<Longrightarrow> frame f (stmt m)"
  by (simp add: stmt_def frame_rules)

lemma frame_query [frame_rules]: "db_view f \<Longrightarrow> frame f (query g)"
  by (simp add: query_def frame_rules)

lemma frame_exec [frame_rules]: "db_view f \<Longrightarrow> (\<And>w. f (g w) = f w) \<Longrightarrow> frame f (exec g)"
  by (simp add: exec_def frame_rules)

lemma frame_gen_uuid [frame_rules]:
  assumes "db_view f"
  shows "frame f gen_uuid"
  by (simp add: frame_def gen_uuid_def db_view_uuid_next [OF assms])

lemma frame_atomically [frame_rules]:
  assumes "db_view f" and "frame f m"
  shows "frame f (atomically m)"
  by (rule frameI)
    (auto simp: atomically_def db_view_both [OF assms(1)] split: prod.splits sum.splits
      dest: frame_eq [OF assms(2)])

text \<open>
  A predicate that survives the consumption of script entries and of ids: it may depend on
  the generator, as long as using up more ids keeps it.
\<close>

definition db_mono :: "('x base_scheme \<Rightarrow> bool) \<Rightarrow> bool" where
  "db_mono P \<longleftrightarrow> (\<forall>w bs n. P w \<longrightarrow> P (w\<lparr>faults := bs\<rparr>) \<and> (uuid_next w \<le> n \<longrightarrow> P (w\<lparr>uuid_next := n\<rparr>)))"

lemma db_view_mono: "db_view P \<Longrightarrow> db_mono P"
  by (simp only: db_view_def db_mono_def) blast

lemma db_mono_faults: "db_mono P \<Longrightarrow> P w \<Longrightarrow> P (w\<lparr>faults := bs\<rparr>)"
  by (simp only: db_mono_def)

lemma db_mono_uuid: "db_mono P \<Longrightarrow> P w \<Longrightarrow> uuid_next w \<le> n \<Longrightarrow> P (w\<lparr>uuid_next := n\<rparr>)"
  by (simp only: db_mono_def)

lemma db_mono_both:
  "db_mono P \<Longrightarrow> P w \<Longrightarrow> P (w\<lparr>faults := bs, uuid_next := max (uuid_next w) n\<rparr>)"
  using db_mono_uuid [of P "w\<lparr>faults := bs\<rparr>" "max (uuid_next w) n"] db_mono_faults [of P w bs] by simp

lemma keeps_tick_fault [keeps_rules]: "db_mono P \<Longrightarrow> keeps P tick_fault"
  unfolding keeps_def using snd_tick_fault db_mono_faults by metis

lemma keeps_stmt [keeps_rules]: "db_mono P \<Longrightarrow> keeps P m \<Longrightarrow> keeps P (stmt m)"
  by (simp add: stmt_def keeps_rules)

lemma keeps_query [keeps_rules]: "db_mono P \<Longrightarrow> keeps P (query g)"
  by (simp add: query_def keeps_rules)

lemma keeps_exec [keeps_rules]: "db_mono P \<Longrightarrow> (\<And>w. P w \<Longrightarrow> P (g w)) \<Longrightarrow> keeps P (exec g)"
  by (simp add: exec_def keeps_rules)

lemma keeps_gen_uuid [keeps_rules]: "db_mono P \<Longrightarrow> keeps P gen_uuid"
  by (simp add: keeps_def gen_uuid_def db_mono_uuid)

text \<open>
  The transaction rule: a predicate that the body establishes when it succeeds, from a
  world where it holds, is kept by the transaction, although the body may break it on the
  way to an error.
\<close>

lemma keeps_atomically_hoare:
  assumes "db_mono P" and "hoare P m (\<lambda>_. P) (\<lambda>_ _. True)"
  shows "keeps P (atomically m)"
  by (rule keepsI)
    (auto simp: atomically_def split: prod.splits sum.splits
      dest: hoare_InrD [OF assms(2)] intro: db_mono_both [OF assms(1)])

lemma keeps_atomically [keeps_rules]: "db_mono P \<Longrightarrow> keeps P m \<Longrightarrow> keeps P (atomically m)"
  by (erule keeps_atomically_hoare) (simp only: keeps_hoare, erule hoare_weaken, simp_all)

lemma atomically_error:
  "atomically m w = (Inl e, w') \<Longrightarrow>
   \<exists>bs n. w' = w\<lparr>faults := bs, uuid_next := n\<rparr> \<and> uuid_next w \<le> n"
  by (auto simp: atomically_def split: prod.splits sum.splits)
    (metis max.cobounded1)

lemma unchanged_base: "\<exists>bs n. w = w\<lparr>faults := bs, uuid_next := n\<rparr> \<and> uuid_next w \<le> n"
  by (rule exI [of _ "faults w"], rule exI [of _ "uuid_next w"]) simp

text \<open>Symbolic execution of statements and transactions.\<close>

lemma wp_tick_fault [wp_rules]:
  "(\<And>bs. Q (Inl DbErr) (w\<lparr>faults := bs\<rparr>)) \<Longrightarrow> (\<And>bs. Q (Inr ()) (w\<lparr>faults := bs\<rparr>)) \<Longrightarrow> wp tick_fault Q w"
proof -
  assume fail: "\<And>bs. Q (Inl DbErr) (w\<lparr>faults := bs\<rparr>)" and run: "\<And>bs. Q (Inr ()) (w\<lparr>faults := bs\<rparr>)"
  have "Q (Inr ()) w" using run [of "faults w"] by simp
  with fail run show ?thesis
    by (auto simp: wp_def tick_fault_def split: list.splits)
qed

lemma wp_stmt [wp_rules]:
  "(\<And>bs. Q (Inl DbErr) (w\<lparr>faults := bs\<rparr>)) \<Longrightarrow> (\<And>bs. wp m Q (w\<lparr>faults := bs\<rparr>)) \<Longrightarrow> wp (stmt m) Q w"
  unfolding stmt_def by (intro wp_rules)

lemma wp_query [wp_rules]:
  "(\<And>bs. Q (Inl DbErr) (w\<lparr>faults := bs\<rparr>)) \<Longrightarrow>
   (\<And>bs. Q (Inr (f (w\<lparr>faults := bs\<rparr>))) (w\<lparr>faults := bs\<rparr>)) \<Longrightarrow> wp (query f) Q w"
  unfolding query_def by (intro wp_rules)

lemma wp_exec [wp_rules]:
  "(\<And>bs. Q (Inl DbErr) (w\<lparr>faults := bs\<rparr>)) \<Longrightarrow>
   (\<And>bs. Q (Inr ()) (f (w\<lparr>faults := bs\<rparr>))) \<Longrightarrow> wp (exec f) Q w"
  unfolding exec_def by (intro wp_rules)

lemma wp_gen_uuid [wp_rules]:
  "Q (Inr (uuid_src w (uuid_next w))) (w\<lparr>uuid_next := Suc (uuid_next w)\<rparr>) \<Longrightarrow> wp gen_uuid Q w"
  by (simp add: wp_def gen_uuid_def)

definition wp_tx :: "'x base_scheme \<Rightarrow> (err + 'a \<Rightarrow> 'x base_scheme \<Rightarrow> bool) \<Rightarrow> err + 'a \<Rightarrow> 'x base_scheme \<Rightarrow> bool" where
  "wp_tx w0 Q r w = (case r of
     Inl e \<Rightarrow> (\<forall>bs n. uuid_next w0 \<le> n \<longrightarrow> Q (Inl e) (w0\<lparr>faults := bs, uuid_next := n\<rparr>))
   | Inr x \<Rightarrow> Q (Inr x) w)"

lemma wp_atomically [wp_rules]: "wp m (wp_tx w Q) w \<Longrightarrow> wp (atomically m) Q w"
  by (auto simp: wp_def wp_tx_def atomically_def split: prod.splits sum.splits)

lemma wp_tx_Inr [wp_rules]: "Q (Inr x) w \<Longrightarrow> wp_tx w0 Q (Inr x) w"
  by (simp add: wp_tx_def)

lemma wp_tx_Inl [wp_rules]:
  "(\<And>bs n. uuid_next w0 \<le> n \<Longrightarrow> Q (Inl e) (w0\<lparr>faults := bs, uuid_next := n\<rparr>)) \<Longrightarrow> wp_tx w0 Q (Inl e) w"
  by (simp add: wp_tx_def)

text \<open>An operation that only queries: it consumes entries of the script and changes nothing.\<close>

definition reads_only :: "('x base_scheme, 'a) op \<Rightarrow> bool" where
  "reads_only m \<longleftrightarrow> (\<forall>w. \<exists>bs. snd (m w) = w\<lparr>faults := bs\<rparr>)"

lemma same_script: "\<exists>bs. w = w\<lparr>faults := bs\<rparr>"
  by (rule exI [of _ "faults w"]) simp

lemma reads_basic [read_rules]: "reads_only (ret x)" "reads_only (fail e)" "reads_only (gets f)" "reads_only (guardE b e)"
  by (simp_all add: reads_only_def op_defs same_script)

lemma reads_bindE [read_rules]: "reads_only m \<Longrightarrow> (\<And>x. reads_only (k x)) \<Longrightarrow> reads_only (bindE m k)"
  unfolding reads_only_def
proof (intro allI)
  fix w assume m: "\<forall>w. \<exists>bs. snd (m w) = w\<lparr>faults := bs\<rparr>" and k: "\<And>x. \<forall>w. \<exists>bs. snd (k x w) = w\<lparr>faults := bs\<rparr>"
  obtain bs where bs: "snd (m w) = w\<lparr>faults := bs\<rparr>" using m by blast
  show "\<exists>bs. snd (bindE m k w) = w\<lparr>faults := bs\<rparr>"
  proof (cases "fst (m w)")
    case (Inl e)
    then show ?thesis using bs by (cases "m w") (auto simp: bindE_def)
  next
    case (Inr x)
    obtain cs where "snd (k x (w\<lparr>faults := bs\<rparr>)) = w\<lparr>faults := bs\<rparr>\<lparr>faults := cs\<rparr>" using k by blast
    then show ?thesis using bs Inr by (cases "m w") (auto simp: bindE_def)
  qed
qed

lemma reads_thenE [read_rules]: "reads_only m \<Longrightarrow> reads_only k \<Longrightarrow> reads_only (thenE m k)"
  by (simp add: thenE_def reads_bindE)

lemma reads_onErr [read_rules]: "reads_only m \<Longrightarrow> (\<And>e. reads_only (h e)) \<Longrightarrow> reads_only (onErr m h)"
proof -
  assume "reads_only m" "\<And>e. reads_only (h e)"
  moreover have "onErr m h = bindE (attemptE m) (\<lambda>r. case r of Inl e \<Rightarrow> h e | Inr x \<Rightarrow> ret x)"
    by (rule ext) (auto simp: onErr_def attemptE_def bindE_def ret_def split: prod.split sum.split)
  moreover have "reads_only (attemptE m)" if "reads_only m"
    using that by (simp add: reads_only_def attemptE_def split_beta)
  ultimately show ?thesis by (auto intro!: reads_bindE reads_basic split: sum.split)
qed

lemma reads_tick_fault [read_rules]: "reads_only tick_fault"
  unfolding reads_only_def using snd_tick_fault same_script by metis

lemma reads_query [read_rules]: "reads_only (query f)"
  by (simp add: query_def stmt_def read_rules)

lemma wp_reads:
  assumes "reads_only m" and "\<And>e bs. Q (Inl e) (w\<lparr>faults := bs\<rparr>)" and "\<And>x bs. Q (Inr x) (w\<lparr>faults := bs\<rparr>)"
  shows "wp m Q w"
proof -
  obtain bs where "snd (m w) = w\<lparr>faults := bs\<rparr>" using assms(1) by (auto simp: reads_only_def)
  then show ?thesis using assms(2, 3) by (cases "fst (m w)") (simp_all add: wp_def)
qed

lemma keeps_reads: "reads_only m \<Longrightarrow> db_mono P \<Longrightarrow> keeps P m"
  unfolding keeps_def reads_only_def by (metis db_mono_faults)

lemma frame_reads: "reads_only m \<Longrightarrow> db_view f \<Longrightarrow> frame f m"
  unfolding frame_def reads_only_def by (metis db_view_faults)

text \<open>What a successful statement did.\<close>

lemma tick_fault_InrD: "tick_fault w = (Inr u, w') \<Longrightarrow> \<exists>bs. w' = w\<lparr>faults := bs\<rparr>"
  by (cases "faults w") (auto simp: tick_fault_def split: if_splits intro: exI [of _ "faults w"])

lemma stmt_InrD: "stmt m w = (Inr x, w') \<Longrightarrow> \<exists>bs. m (w\<lparr>faults := bs\<rparr>) = (Inr x, w')"
  unfolding stmt_def by (elim thenE_InrE) (auto dest: tick_fault_InrD)

lemma query_InrD: "query f w = (Inr x, w') \<Longrightarrow> \<exists>bs. x = f (w\<lparr>faults := bs\<rparr>) \<and> w' = w\<lparr>faults := bs\<rparr>"
  by (auto simp: query_def gets_def dest: stmt_InrD)

lemma exec_InrD: "exec f w = (Inr u, w') \<Longrightarrow> \<exists>bs. w' = f (w\<lparr>faults := bs\<rparr>)"
  by (auto simp: exec_def modify_def dest: stmt_InrD)

lemma exec_InlD: "exec f w = (Inl e, w') \<Longrightarrow> e = DbErr \<and> (\<exists>bs. w' = w\<lparr>faults := bs\<rparr>)"
  by (cases "faults w")
    (auto simp: exec_def stmt_def thenE_def bindE_def modify_def tick_fault_def split: if_splits)

lemma atomically_success: "atomically m w = (Inr x, w') \<longleftrightarrow> m w = (Inr x, w')"
  by (auto simp: atomically_def split: prod.splits sum.splits)

lemma atomically_error_unchanged:
  assumes "atomically m w = (Inl e, w')" and "db_view f"
  shows "f w' = f w"
  using assms(1) by (auto simp: atomically_def db_view_both [OF assms(2)] split: prod.splits sum.splits)

section \<open>Tables\<close>

text \<open>
  A table is the list of its rows, in the order they were inserted. \<open>UPDATE t SET .. WHERE
  c\<close> maps the rows that satisfy \<open>c\<close>; the number of affected rows is \<open>count_where\<close>.
\<close>

definition update_where :: "('r \<Rightarrow> bool) \<Rightarrow> ('r \<Rightarrow> 'r) \<Rightarrow> 'r list \<Rightarrow> 'r list" where
  "update_where c f rs = map (\<lambda>r. if c r then f r else r) rs"

definition count_where :: "('r \<Rightarrow> bool) \<Rightarrow> 'r list \<Rightarrow> nat" where
  "count_where c rs = length (filter c rs)"

text \<open>\<open>ORDER BY k LIMIT 1\<close>: the first row with the least key.\<close>

fun first_min :: "('r \<Rightarrow> 'k::linorder) \<Rightarrow> 'r list \<Rightarrow> 'r option" where
  "first_min k [] = None"
| "first_min k (r # rs) = (case first_min k rs of
       None \<Rightarrow> Some r
     | Some r' \<Rightarrow> (if k r \<le> k r' then Some r else Some r'))"

lemma length_update_where [simp]: "length (update_where c f rs) = length rs"
  by (simp add: update_where_def)

lemma update_where_Nil [simp]: "update_where c f [] = []"
  by (simp add: update_where_def)

lemma update_where_Cons [simp]:
  "update_where c f (r # rs) = (if c r then f r else r) # update_where c f rs"
  by (simp add: update_where_def)

lemma count_where_Nil [simp]: "count_where c [] = 0"
  by (simp add: count_where_def)

lemma count_where_Cons [simp]:
  "count_where c (r # rs) = (if c r then Suc (count_where c rs) else count_where c rs)"
  by (simp add: count_where_def)

lemma update_where_none: "count_where c rs = 0 \<Longrightarrow> update_where c f rs = rs"
  by (induction rs) (auto split: if_splits)

lemma count_where_0_iff: "count_where c rs = 0 \<longleftrightarrow> (\<forall>r \<in> set rs. \<not> c r)"
  by (induction rs) auto

lemma count_update_le: "(\<And>s. d s \<Longrightarrow> c (f s) \<Longrightarrow> c s) \<Longrightarrow> count_where c (update_where d f xs) \<le> count_where c xs"
  by (induction xs) auto

lemma count_update_less:
  "x \<in> set xs \<Longrightarrow> d x \<Longrightarrow> c x \<Longrightarrow> (\<And>s. d s \<Longrightarrow> \<not> c (f s)) \<Longrightarrow> count_where c (update_where d f xs) < count_where c xs"
proof (induction xs)
  case (Cons y xs)
  have le: "count_where c (update_where d f xs) \<le> count_where c xs"
    by (rule count_update_le) (use Cons.prems(4) in blast)
  show ?case
  proof (cases "x = y")
    case True
    with Cons.prems le show ?thesis by simp
  next
    case False
    with Cons have "count_where c (update_where d f xs) < count_where c xs" by simp
    with Cons.prems(4) show ?thesis by auto
  qed
qed simp

lemma map_update_where: "(\<And>r. c r \<Longrightarrow> k (f r) = k r) \<Longrightarrow> map k (update_where c f rs) = map k rs"
  by (induction rs) auto

lemma filter_update_where: "(\<And>r. c r \<Longrightarrow> \<not> P r \<and> \<not> P (f r)) \<Longrightarrow> filter P (update_where c f rs) = filter P rs"
  by (induction rs) auto

lemma set_update_where: "set (update_where c f rs) = f ` {r \<in> set rs. c r} \<union> {r \<in> set rs. \<not> c r}"
  by (auto simp: update_where_def)

lemma distinct_replace:
  assumes "distinct (map k cs)" and "distinct (map h cs)" and "\<not> list_ex (\<lambda>c. h c \<noteq> i \<and> k new = k c) cs"
  shows "distinct (map k (update_where (\<lambda>c. h c = i) (\<lambda>_. new) cs))"
  using assms
proof (induction cs)
  case Nil
  then show ?case by simp
next
  case (Cons c cs)
  show ?case
  proof (cases "h c = i")
    case True
    then have other: "\<forall>x \<in> set cs. h x \<noteq> i"
      using Cons.prems(2) by (auto simp: image_iff)
    then have "update_where (\<lambda>c. h c = i) (\<lambda>_. new) cs = cs"
      by (intro update_where_none) (simp add: count_where_0_iff)
    with other True Cons.prems show ?thesis
      by (auto simp: list_ex_iff)
  next
    case False
    then have "k c \<notin> k ` set (update_where (\<lambda>c. h c = i) (\<lambda>_. new) cs)"
      using Cons.prems by (auto simp: set_update_where list_ex_iff)
    with Cons False show ?thesis by simp
  qed
qed

lemma first_min_None [simp]: "first_min k rs = None \<longleftrightarrow> rs = []"
  by (cases rs) (auto split: option.split)

lemma first_min_in_set: "first_min k rs = Some r \<Longrightarrow> r \<in> set rs"
  by (induction rs arbitrary: r) (auto split: option.splits if_splits)

lemma first_min_least: "first_min k rs = Some r \<Longrightarrow> r' \<in> set rs \<Longrightarrow> k r \<le> k r'"
proof (induction rs arbitrary: r)
  case Nil
  then show ?case by simp
next
  case (Cons a rs)
  then show ?case
    by (fastforce split: option.splits if_splits simp: first_min_None)
qed

lemma find_Some_mem: "find P xs = Some x \<Longrightarrow> x \<in> set xs \<and> P x"
  by (auto simp: find_Some_iff)

section \<open>Generated ids\<close>

text \<open>
  The ids of the rows of a table, all taken from the stream, none twice: then the next one
  is new.
\<close>

definition ids_fresh :: "uuid list \<Rightarrow> 'x base_scheme \<Rightarrow> bool" where
  "ids_fresh ids w \<longleftrightarrow> inj (uuid_src w) \<and> distinct ids \<and> (\<forall>i \<in> set ids. \<exists>n < uuid_next w. i = uuid_src w n)"

lemma ids_fresh_next: "ids_fresh ids w \<Longrightarrow> uuid_src w (uuid_next w) \<notin> set ids"
  by (auto simp: ids_fresh_def dest: injD)

lemma ids_fresh_append:
  "ids_fresh ids w \<Longrightarrow> uuid_src w' = uuid_src w \<Longrightarrow> uuid_next w' = Suc (uuid_next w) \<Longrightarrow>
   ids_fresh (ids @ [uuid_src w (uuid_next w)]) w'"
  using ids_fresh_next [of ids w] by (auto simp: ids_fresh_def less_Suc_eq)

lemma ids_fresh_mono:
  "ids_fresh ids w \<Longrightarrow> uuid_src w' = uuid_src w \<Longrightarrow> uuid_next w \<le> uuid_next w' \<Longrightarrow> ids_fresh ids w'"
  unfolding ids_fresh_def by (metis order_less_le_trans)

lemma ids_fresh_faults [simp]: "ids_fresh ids (w\<lparr>faults := bs\<rparr>) = ids_fresh ids w"
  by (simp add: ids_fresh_def)

lemma ids_fresh_subset: "ids_fresh ids w \<Longrightarrow> distinct ids' \<Longrightarrow> set ids' \<subseteq> set ids \<Longrightarrow> ids_fresh ids' w"
  by (auto simp: ids_fresh_def)

text \<open>A stream of ids for the witnesses.\<close>

definition sample_src :: "nat \<Rightarrow> uuid" where
  "sample_src n = replicate (Suc n) (CHR ''u'')"

lemma inj_sample_src: "inj sample_src"
  by (rule injI) (simp add: sample_src_def replicate_eq_replicate)

section \<open>Decimals\<close>

text \<open>
  A \<open>decimal.Decimal\<close> is an exact decimal fraction; its sums, products and comparisons
  are those of its value, a rational. A column of type \<open>NUMERIC(36,18)\<close> keeps eighteen
  digits after the point, rounding half away from zero, and refuses a value with more than
  eighteen digits before it.
\<close>

definition round_half_away :: "nat \<Rightarrow> rat \<Rightarrow> rat" where
  "round_half_away n x = sgn x * (of_int \<lfloor>\<bar>x\<bar> * 10 ^ n + 1 / 2\<rfloor> / 10 ^ n)"

lemma floor_numeral_div: "\<lfloor>numeral a / (numeral b :: rat)\<rfloor> = numeral a div numeral b"
  using floor_divide_of_int_eq [of "numeral a" "numeral b", where ?'a = rat] by simp

definition numeric_36_18 :: "rat \<Rightarrow> rat option" where
  "numeric_36_18 x = (let r = round_half_away 18 x in if \<bar>r\<bar> < 10 ^ 18 then Some r else None)"

definition scale_ok :: "nat \<Rightarrow> rat \<Rightarrow> bool" where
  "scale_ok n x \<longleftrightarrow> of_int \<lfloor>x * 10 ^ n\<rfloor> = x * 10 ^ n"

text \<open>The other \<open>NUMERIC(p, n)\<close> columns.\<close>

definition numeric_col :: "nat \<Rightarrow> nat \<Rightarrow> rat \<Rightarrow> rat option" where
  "numeric_col p n x = (let r = round_half_away n x in if \<bar>r\<bar> < 10 ^ (p - n) then Some r else None)"

text \<open>A 32-bit \<open>INT\<close> column.\<close>

definition int4_ok :: "int \<Rightarrow> bool" where
  "int4_ok i \<longleftrightarrow> - (2 ^ 31) \<le> i \<and> i < 2 ^ 31"

lemma scale_okI: "x * 10 ^ n = of_int k \<Longrightarrow> scale_ok n x"
  by (simp add: scale_ok_def)

lemma scale_okE:
  assumes "scale_ok n x"
  obtains k where "x * 10 ^ n = of_int k"
  using assms unfolding scale_ok_def by metis

lemma scale_ok_0 [simp]: "scale_ok n 0"
  by (simp add: scale_ok_def)

lemma scale_ok_add: "scale_ok n x \<Longrightarrow> scale_ok n y \<Longrightarrow> scale_ok n (x + y)"
  by (elim scale_okE, rule scale_okI) (simp add: distrib_right flip: of_int_add)

lemma scale_ok_minus: "scale_ok n x \<Longrightarrow> scale_ok n (- x)"
  by (elim scale_okE, rule scale_okI) (simp flip: of_int_minus)

lemma scale_ok_diff: "scale_ok n x \<Longrightarrow> scale_ok n y \<Longrightarrow> scale_ok n (x - y)"
  using scale_ok_add [of n x "- y"] by (simp add: scale_ok_minus)

lemma round_half_away_exact: "scale_ok n x \<Longrightarrow> round_half_away n x = x"
proof -
  assume "scale_ok n x"
  then obtain k where k: "x * 10 ^ n = of_int k" by (rule scale_okE)
  have a: "\<bar>x\<bar> * 10 ^ n = of_int \<bar>k\<bar>"
    using k by (metis abs_mult abs_of_nonneg of_int_abs zero_le_numeral zero_le_power)
  have "\<lfloor>(of_int \<bar>k\<bar> :: rat) + 1 / 2\<rfloor> = \<bar>k\<bar>"
    by linarith
  then have "\<lfloor>\<bar>x\<bar> * 10 ^ n + 1 / 2\<rfloor> = \<bar>k\<bar>"
    using a by simp
  then have "round_half_away n x = sgn x * (\<bar>x\<bar> * 10 ^ n / 10 ^ n)"
    using a by (simp add: round_half_away_def)
  then show ?thesis by (simp add: mult_sgn_abs)
qed

lemma round_half_away_scale: "scale_ok n (round_half_away n x)"
proof -
  have "round_half_away n x * 10 ^ n = sgn x * of_int \<lfloor>\<bar>x\<bar> * 10 ^ n + 1 / 2\<rfloor>"
    by (simp add: round_half_away_def)
  also have "\<dots> = of_int ((if x > 0 then 1 else if x = 0 then 0 else -1) * \<lfloor>\<bar>x\<bar> * 10 ^ n + 1 / 2\<rfloor>)"
    by (simp add: sgn_if)
  finally show ?thesis by (rule scale_okI)
qed

lemma round_half_away_error: "\<bar>round_half_away n x - x\<bar> \<le> 1 / (2 * 10 ^ n)"
proof -
  define y where "y = \<bar>x\<bar> * 10 ^ n"
  have a: "\<bar>of_int \<lfloor>y + 1 / 2\<rfloor> - y\<bar> \<le> 1 / 2"
    by linarith
  have "round_half_away n x - x = sgn x * ((of_int \<lfloor>y + 1 / 2\<rfloor> - y) / 10 ^ n)"
    by (simp add: round_half_away_def y_def diff_divide_distrib right_diff_distrib mult_sgn_abs)
  then have "\<bar>round_half_away n x - x\<bar> = \<bar>sgn x\<bar> * (\<bar>of_int \<lfloor>y + 1 / 2\<rfloor> - y\<bar> / 10 ^ n)"
    by (simp add: abs_mult)
  also have "\<dots> \<le> 1 * ((1 / 2) / 10 ^ n)"
    using a by (intro mult_mono divide_right_mono) (auto simp: sgn_if)
  finally show ?thesis by simp
qed

lemma numeric_col_error: "numeric_col p n x = Some y \<Longrightarrow> \<bar>y - x\<bar> \<le> 1 / (2 * 10 ^ n)"
  using round_half_away_error by (auto simp: numeric_col_def Let_def split: if_splits)

lemma round_half_away_minus: "round_half_away n (- x) = - round_half_away n x"
  by (simp add: round_half_away_def)

lemma round_half_away_0 [simp]: "round_half_away n 0 = 0"
  by (simp add: round_half_away_def)

lemma numeric_exact: "scale_ok 18 x \<Longrightarrow> \<bar>x\<bar> < 10 ^ 18 \<Longrightarrow> numeric_36_18 x = Some x"
  by (simp add: numeric_36_18_def round_half_away_exact)

lemma numeric_scale: "numeric_36_18 x = Some y \<Longrightarrow> scale_ok 18 y"
  by (auto simp: numeric_36_18_def Let_def round_half_away_scale split: if_splits)

lemma numeric_bound: "numeric_36_18 x = Some y \<Longrightarrow> \<bar>y\<bar> < 10 ^ 18"
  by (auto simp: numeric_36_18_def Let_def split: if_splits)

lemma numeric_exact_eq: "scale_ok 18 x \<Longrightarrow> numeric_36_18 x = Some y \<Longrightarrow> y = x"
  by (auto simp: numeric_36_18_def Let_def round_half_away_exact split: if_splits)

end
