(* ===== verification/Eventbus.thy ===== *)
theory Eventbus
  imports Prelude
begin

text \<open>
  The transactional outbox of \<^verbatim>\<open>internal/platform/eventbus\<close>: \<open>publish\<close> inserts a row as part
  of the caller's transaction, \<open>dispatch_one\<close> claims the oldest undispatched row, runs its
  handlers and marks it, all in one transaction, and \<open>dispatch_batch\<close> repeats that up to
  the batch size. One dispatcher runs at a time, so \<open>FOR UPDATE SKIP LOCKED\<close> never skips a
  row; rows with equal \<open>created_at\<close> are taken in insertion order.
\<close>

section \<open>State\<close>

datatype pval = PStr string | PDec rat | PNull

type_synonym payload = "(string \<times> pval) list"

record event =
  ev_id :: uuid
  ev_type :: string
  ev_agg_type :: string
  ev_agg_id :: uuid
  ev_payload :: payload
  ev_created :: time
  ev_dispatched :: "time option"
  ev_attempts :: nat

record bus_db = base +
  outbox :: "event list"
  bus_on :: bool

section \<open>Operations\<close>

definition publish :: "string \<Rightarrow> string \<Rightarrow> uuid \<Rightarrow> payload \<Rightarrow> ('x bus_db_scheme, unit) op" where
  "publish ty agg_type agg_id pl =
     stmt (bindE gen_uuid (\<lambda>i. modify (\<lambda>w. w\<lparr>outbox := outbox w @
       [\<lparr>ev_id = i, ev_type = ty, ev_agg_type = agg_type, ev_agg_id = agg_id, ev_payload = pl,
         ev_created = now w, ev_dispatched = None, ev_attempts = 0\<rparr>]\<rparr>)))"

text \<open>\<open>if s.bus != nil { .. Publish .. }\<close>\<close>

definition publish_if_bus :: "string \<Rightarrow> string \<Rightarrow> uuid \<Rightarrow> payload \<Rightarrow> ('x bus_db_scheme, unit) op" where
  "publish_if_bus ty agg_type agg_id pl =
     bindE (gets bus_on) (\<lambda>on. if on then publish ty agg_type agg_id pl else ret ())"

type_synonym 'x handler = "event \<Rightarrow> ('x bus_db_scheme, unit) op"
type_synonym 'x handlers = "string \<Rightarrow> 'x handler list"

definition subscribe :: "'x handlers \<Rightarrow> string \<Rightarrow> 'x handler \<Rightarrow> 'x handlers" where
  "subscribe hs ty h = hs(ty := hs ty @ [h])"

definition next_event :: "'x bus_db_scheme \<Rightarrow> event option" where
  "next_event w = first_min ev_created (filter (\<lambda>r. ev_dispatched r = None) (outbox w))"

definition mark_dispatched :: "uuid \<Rightarrow> ('x bus_db_scheme, unit) op" where
  "mark_dispatched i = exec (\<lambda>w. w\<lparr>outbox := update_where (\<lambda>r. ev_id r = i)
     (\<lambda>r. r\<lparr>ev_dispatched := Some (now w), ev_attempts := Suc (ev_attempts r)\<rparr>) (outbox w)\<rparr>)"

definition dispatch_one :: "'x handlers \<Rightarrow> ('x bus_db_scheme, bool) op" where
  "dispatch_one hs = atomically (thenE begin_tx
     (bindE (query next_event) (\<lambda>r. case r of
        None \<Rightarrow> ret False
      | Some e \<Rightarrow>
          thenE (forE (hs (ev_type e)) (\<lambda>h. h e))
            (thenE (mark_dispatched (ev_id e))
              (thenE commit_tx (ret True))))))"

text \<open>\<open>dispatchBatch\<close> logs an error and returns; it has no result.\<close>

fun dispatch_batch :: "'x handlers \<Rightarrow> nat \<Rightarrow> 'x bus_db_scheme \<Rightarrow> 'x bus_db_scheme" where
  "dispatch_batch hs 0 w = w"
| "dispatch_batch hs (Suc n) w = (case dispatch_one hs w of
       (Inl e, w') \<Rightarrow> w'
     | (Inr dispatched, w') \<Rightarrow> if dispatched then dispatch_batch hs n w' else w')"

definition delete_dispatched_before :: "time \<Rightarrow> ('x bus_db_scheme, unit) op" where
  "delete_dispatched_before cutoff = exec (\<lambda>w. w\<lparr>outbox :=
     filter (\<lambda>r. \<not> (case ev_dispatched r of None \<Rightarrow> False | Some t \<Rightarrow> t < cutoff)) (outbox w)\<rparr>)"

definition pending :: "'x bus_db_scheme \<Rightarrow> event list" where
  "pending w = filter (\<lambda>r. ev_dispatched r = None) (outbox w)"

section \<open>Lemmas\<close>

lemma db_view_outbox [simp]: "db_view outbox" "db_view pending" "db_view next_event" "db_view bus_on"
  by (simp_all add: db_view_def pending_def next_event_def)

lemma frame_publish [frame_rules]:
  "db_view f \<Longrightarrow> (\<And>w es. f (w\<lparr>outbox := es\<rparr>) = f w) \<Longrightarrow> frame f (publish ty a i pl)"
  by (auto simp: publish_def intro!: frame_rules)

lemma frame_publish_if_bus [frame_rules]:
  "db_view f \<Longrightarrow> (\<And>w es. f (w\<lparr>outbox := es\<rparr>) = f w) \<Longrightarrow> frame f (publish_if_bus ty a i pl)"
  by (auto simp: publish_if_bus_def intro!: frame_rules)

lemma keeps_publish [keeps_rules]:
  "db_mono P \<Longrightarrow> (\<And>w es. P w \<Longrightarrow> P (w\<lparr>outbox := es\<rparr>)) \<Longrightarrow> keeps P (publish ty a i pl)"
  by (auto simp: publish_def intro!: keeps_rules)

lemma keeps_publish_if_bus [keeps_rules]:
  "db_mono P \<Longrightarrow> (\<And>w es. P w \<Longrightarrow> P (w\<lparr>outbox := es\<rparr>)) \<Longrightarrow> keeps P (publish_if_bus ty a i pl)"
  by (auto simp: publish_if_bus_def intro!: keeps_rules)

lemma pending_mark_dispatched:
  "filter (\<lambda>r. ev_dispatched r = None) (update_where (\<lambda>r. ev_id r = i)
      (\<lambda>r. r\<lparr>ev_dispatched := Some t, ev_attempts := Suc (ev_attempts r)\<rparr>) es) =
   filter (\<lambda>r. ev_id r \<noteq> i) (filter (\<lambda>r. ev_dispatched r = None) es)"
  by (induction es) auto

text \<open>An event is only claimed, handled and marked as a whole.\<close>

lemma dispatch_one_error_unchanged:
  "dispatch_one hs w = (Inl e, w') \<Longrightarrow> db_view f \<Longrightarrow> f w' = f w"
  unfolding dispatch_one_def by (rule atomically_error_unchanged)

lemma dispatch_one_idle: "next_event w = None \<Longrightarrow> faults w = [] \<Longrightarrow> dispatch_one hs w = (Inr False, w)"
  by (simp add: dispatch_one_def op_simps)

lemma dispatch_one_head_fails:
  assumes head: "next_event w = Some e"
    and fails: "\<And>v. next_event v = Some e \<Longrightarrow> \<exists>err v'. forE (hs (ev_type e)) (\<lambda>h. h e) v = (Inl err, v')"
  shows "\<exists>err w'. dispatch_one hs w = (Inl err, w')"
proof (cases "tick_fault w")
  case (Pair r w1)
  show ?thesis
  proof (cases r)
    case (Inl err)
    with Pair show ?thesis by (simp add: dispatch_one_def op_simps)
  next
    case (Inr u)
    have w1: "next_event w1 = Some e"
      using frame_eq [OF frame_tick_fault [OF db_view_outbox(3)] Pair] head by simp
    show ?thesis
    proof (cases "tick_fault w1")
      case (Pair r2 w2)
      have w2: "next_event w2 = Some e"
        using frame_eq [OF frame_tick_fault [OF db_view_outbox(3)] Pair] w1 by simp
      from fails [OF w2] obtain err v' where f: "forE (hs (ev_type e)) (\<lambda>h. h e) w2 = (Inl err, v')"
        by blast
      show ?thesis
        using \<open>tick_fault w = (r, w1)\<close> Inr Pair f w2
        by (cases r2) (simp_all add: dispatch_one_def query_def stmt_def op_simps)
    qed
  qed
qed

lemma dispatch_one_head_ok:
  assumes "faults w = []" and "next_event w = Some e"
    and "forE (hs (ev_type e)) (\<lambda>h. h e) w = (Inr (), w')" and "faults w' = []"
  shows "dispatch_one hs w = (Inr True,
    w'\<lparr>outbox := update_where (\<lambda>r. ev_id r = ev_id e)
      (\<lambda>r. r\<lparr>ev_dispatched := Some (now w'), ev_attempts := Suc (ev_attempts r)\<rparr>) (outbox w')\<rparr>)"
  using assms by (simp add: dispatch_one_def mark_dispatched_def op_simps)

text \<open>
  The contract of the handlers in a batch that runs without database failures: under the condition \<open>J\<close> on the
  world and its events they succeed, and neither touch the outbox nor use up the script of faults; \<open>handled\<close> is
  what they do for an event, and nothing undoes it. (The handlers of the code that only write their own tables
  satisfy it; those of sessions and settlements publish events themselves.)
\<close>

definition dispatched_at :: "time \<Rightarrow> event \<Rightarrow> event" where
  "dispatched_at t r = r\<lparr>ev_dispatched := Some t, ev_attempts := Suc (ev_attempts r)\<rparr>"

locale quiet_handlers =
  fixes hs :: "'x handlers" and J :: "'x bus_db_scheme \<Rightarrow> bool" and handled :: "event \<Rightarrow> 'x bus_db_scheme \<Rightarrow> bool"
  assumes handlers_succeed: "h \<in> set (hs (ev_type e)) \<Longrightarrow> e \<in> set (outbox w) \<Longrightarrow> J w \<Longrightarrow> faults w = [] \<Longrightarrow>
    \<exists>w'. h e w = (Inr (), w') \<and> faults w' = [] \<and> outbox w' = outbox w \<and> J w' \<and> handled e w' \<and> (\<forall>e'. handled e' w \<longrightarrow> handled e' w')"
    and marking: "J w \<Longrightarrow> J (w\<lparr>outbox := update_where c (dispatched_at t) (outbox w)\<rparr>)"
      "handled e w \<Longrightarrow> handled e (w\<lparr>outbox := update_where c (dispatched_at t) (outbox w)\<rparr>)"
begin

lemma run_handlers:
  "set l \<subseteq> set (hs (ev_type e)) \<Longrightarrow> e \<in> set (outbox w) \<Longrightarrow> J w \<Longrightarrow> faults w = [] \<Longrightarrow>
   \<exists>w'. forE l (\<lambda>h. h e) w = (Inr (), w') \<and> faults w' = [] \<and> outbox w' = outbox w \<and> J w' \<and>
     (l \<noteq> [] \<longrightarrow> handled e w') \<and> (\<forall>e'. handled e' w \<longrightarrow> handled e' w')"
proof (induction l arbitrary: w)
  case Nil
  then show ?case by (simp add: op_simps)
next
  case (Cons h l)
  then obtain w1 where w1: "h e w = (Inr (), w1)" "faults w1 = []" "outbox w1 = outbox w" "J w1" "handled e w1" "\<forall>e'. handled e' w \<longrightarrow> handled e' w1"
    using handlers_succeed [of h e w] by auto
  then obtain w2 where "forE l (\<lambda>h. h e) w1 = (Inr (), w2)" "faults w2 = []" "outbox w2 = outbox w1" "J w2" "\<forall>e'. handled e' w1 \<longrightarrow> handled e' w2"
    using Cons.IH [of w1] Cons.prems by auto
  with w1 show ?case by (simp add: op_simps)
qed

lemma dispatch_one_progress:
  assumes "faults w = []" and "next_event w = Some e" and "J w"
  shows "\<exists>w'. dispatch_one hs w = (Inr True, w') \<and> faults w' = [] \<and> J w' \<and> (hs (ev_type e) \<noteq> [] \<longrightarrow> handled e w') \<and>
    (\<forall>e'. handled e' w \<longrightarrow> handled e' w') \<and> pending w' = filter (\<lambda>r. ev_id r \<noteq> ev_id e) (pending w)"
proof -
  have "e \<in> set (outbox w)" using assms(2) by (auto simp: next_event_def dest!: first_min_in_set)
  then obtain w1 where w1: "forE (hs (ev_type e)) (\<lambda>h. h e) w = (Inr (), w1)" "faults w1 = []" "outbox w1 = outbox w" "J w1"
    "hs (ev_type e) \<noteq> [] \<longrightarrow> handled e w1" "\<forall>e'. handled e' w \<longrightarrow> handled e' w1"
    using run_handlers [OF subset_refl _ assms(3, 1)] by blast
  define v where "v = w1\<lparr>outbox := update_where (\<lambda>r. ev_id r = ev_id e) (dispatched_at (now w1)) (outbox w1)\<rparr>"
  have "dispatch_one hs w = (Inr True, v)"
    using dispatch_one_head_ok [where hs = hs and w' = w1, OF assms(1, 2)] w1(1, 2) by (simp add: v_def dispatched_at_def [abs_def])
  moreover have "pending v = filter (\<lambda>r. ev_id r \<noteq> ev_id e) (pending w)"
    by (simp add: v_def pending_def dispatched_at_def [abs_def] pending_mark_dispatched w1(3))
  moreover have "faults v = []" "J v" using w1(2) marking(1) [OF w1(4)] by (simp_all add: v_def)
  moreover have "handled e' v" if "handled e' w1" for e' using marking(2) [OF that] by (simp add: v_def)
  ultimately show ?thesis using w1(5, 6) by blast
qed

lemma batch_drains:
  "faults w = [] \<Longrightarrow> J w \<Longrightarrow> length (pending w) \<le> n \<Longrightarrow> distinct (map ev_id (pending w)) \<Longrightarrow>
   pending (dispatch_batch hs n w) = [] \<and> (\<forall>e \<in> set (pending w). hs (ev_type e) \<noteq> [] \<longrightarrow> handled e (dispatch_batch hs n w)) \<and>
   (\<forall>e. handled e w \<longrightarrow> handled e (dispatch_batch hs n w))"
proof (induction n arbitrary: w)
  case 0
  then show ?case by simp
next
  case (Suc n)
  show ?case
  proof (cases "next_event w")
    case None
    then have "pending w = []" by (simp add: next_event_def pending_def)
    with None Suc.prems show ?thesis by (simp add: dispatch_one_idle)
  next
    case (Some e)
    then have mem: "e \<in> set (pending w)"
      by (auto simp: next_event_def pending_def dest: first_min_in_set)
    obtain w' where w': "dispatch_one hs w = (Inr True, w')" "faults w' = []" "J w'" "hs (ev_type e) \<noteq> [] \<longrightarrow> handled e w'"
        "\<forall>e'. handled e' w \<longrightarrow> handled e' w'" "pending w' = filter (\<lambda>r. ev_id r \<noteq> ev_id e) (pending w)"
      using dispatch_one_progress [OF Suc.prems(1) Some Suc.prems(2)] by blast
    have "length (pending w') < length (pending w)"
      unfolding w'(6) using mem by (intro length_filter_less) auto
    moreover have "distinct (map ev_id (pending w'))" unfolding w'(6) using Suc.prems(4) by (simp add: distinct_map_filter)
    ultimately have ih: "pending (dispatch_batch hs n w') = []"
      "\<forall>x \<in> set (pending w'). hs (ev_type x) \<noteq> [] \<longrightarrow> handled x (dispatch_batch hs n w')"
      "\<forall>x. handled x w' \<longrightarrow> handled x (dispatch_batch hs n w')"
      using Suc.IH [of w'] Suc.prems(3) w'(2, 3) by auto
    have "x = e \<or> x \<in> set (pending w')" if "x \<in> set (pending w)" for x
      using that mem Suc.prems(4) unfolding w'(6) by (auto simp: distinct_map inj_on_def)
    with ih w'(1, 4, 5) show ?thesis by auto
  qed
qed

end

end
