(* ===== verification/Ledger.thy ===== *)
theory Ledger
  imports Eventbus "HOL-Library.AList"
begin

text \<open>
  The double-entry ledger, \<^verbatim>\<open>internal/ledger\<close>: \<open>post\<close> (\<^verbatim>\<open>Ledger.Post\<close>) is the only write path
  into the transactions, entries and cached balances; \<open>sweep_once\<close> (\<^verbatim>\<open>reconcile.go\<close>) compares
  the cached balances with a fresh sum of the entries and opens discrepancies. The tables
  are those of migrations 000004 and 000023, with their constraints.
\<close>

section \<open>State\<close>

definition Debit :: string where "Debit = ''debit''"
definition Credit :: string where "Credit = ''credit''"

lemma direction_distinct [simp]: "Debit \<noteq> Credit" "Credit \<noteq> Debit"
  by (simp_all add: Debit_def Credit_def)

record entry =
  e_account :: uuid
  e_direction :: string
  e_amount :: rat
  e_asset :: string

record txn =
  t_key :: string
  t_type :: string
  t_ref_type :: string
  t_ref_id :: uuid
  t_created_by :: string
  t_entries :: "entry list"

record account_row =
  acc_id :: uuid
  acc_tenant :: "uuid option"
  acc_type :: string
  acc_asset :: string
  acc_unit :: string
  acc_name :: string

record txn_row =
  tr_id :: uuid
  tr_key :: string
  tr_type :: string
  tr_ref_type :: string
  tr_ref_id :: uuid
  tr_created_by :: string

record entry_row =
  er_txn :: uuid
  er_account :: uuid
  er_direction :: string
  er_amount :: rat
  er_asset :: string

record discrepancy =
  d_id :: uuid
  d_account :: uuid
  d_cached :: rat
  d_computed :: rat
  d_drift :: rat
  d_detected :: time
  d_resolved_at :: "time option"
  d_resolved_by :: "uuid option"
  d_note :: "string option"

record ledger_db = bus_db +
  accounts :: "account_row list"
  txns :: "txn_row list"
  entries :: "entry_row list"
  balances :: "(uuid \<times> rat) list"
  discrepancies :: "discrepancy list"

section \<open>Posting\<close>

fun check_entries :: "entry list \<Rightarrow> err option" where
  "check_entries [] = None"
| "check_entries (e # es) =
     (if e_direction e \<noteq> Debit \<and> e_direction e \<noteq> Credit then Some ErrInvalidEntry
      else if e_amount e \<le> 0 then Some ErrInvalidEntry
      else if e_asset e = '''' then Some ErrInvalidEntry
      else check_entries es)"

text \<open>\<open>validateBalance\<close>: one running sum per asset code, all of which must be zero.\<close>

fun add_sums :: "(string \<times> rat) list \<Rightarrow> entry list \<Rightarrow> (string \<times> rat) list" where
  "add_sums acc [] = acc"
| "add_sums acc (e # es) =
     (let s = (case map_of acc (e_asset e) of None \<Rightarrow> 0 | Some s \<Rightarrow> s) in
      add_sums (AList.update (e_asset e)
        (if e_direction e = Debit then s + e_amount e else s - e_amount e) acc) es)"

definition validate_balance :: "entry list \<Rightarrow> err option" where
  "validate_balance es = (if list_all (\<lambda>(a, s). s = 0) (add_sums [] es) then None else Some ErrUnbalanced)"

text \<open>\<open>INSERT INTO ledger_transactions .. ON CONFLICT (idempotency_key) DO NOTHING RETURNING id\<close>\<close>

definition insert_txn :: "txn \<Rightarrow> ('x ledger_db_scheme, uuid option) op" where
  "insert_txn t = stmt (bindE (gets (\<lambda>w. t_key t \<in> set (map tr_key (txns w)))) (\<lambda>dup.
     if dup then ret None
     else bindE gen_uuid (\<lambda>i. thenE
       (modify (\<lambda>w. w\<lparr>txns := txns w @ [\<lparr>tr_id = i, tr_key = t_key t, tr_type = t_type t,
          tr_ref_type = t_ref_type t, tr_ref_id = t_ref_id t, tr_created_by = t_created_by t\<rparr>]\<rparr>))
       (ret (Some i)))))"

definition account_exists :: "uuid \<Rightarrow> 'x ledger_db_scheme \<Rightarrow> bool" where
  "account_exists a w \<longleftrightarrow> a \<in> set (map acc_id (accounts w))"

definition insert_entry :: "uuid \<Rightarrow> entry \<Rightarrow> ('x ledger_db_scheme, unit) op" where
  "insert_entry tid e = stmt (case numeric_36_18 (e_amount e) of
       None \<Rightarrow> fail (ConstraintErr ''ledger_entries.amount overflow'')
     | Some amount \<Rightarrow>
         thenE (guardE (amount > 0) (ConstraintErr ''ledger_entries.amount > 0''))
           (bindE (gets (account_exists (e_account e))) (\<lambda>ok.
              thenE (guardE ok (ConstraintErr ''ledger_entries.account_id''))
                (modify (\<lambda>w. w\<lparr>entries := entries w @ [\<lparr>er_txn = tid, er_account = e_account e,
                   er_direction = e_direction e, er_amount = amount, er_asset = e_asset e\<rparr>]\<rparr>)))))"

definition cached_balance :: "'x ledger_db_scheme \<Rightarrow> uuid \<Rightarrow> rat" where
  "cached_balance w a = (case map_of (balances w) a of None \<Rightarrow> 0 | Some b \<Rightarrow> b)"

text \<open>
  \<open>INSERT INTO ledger_balances .. ON CONFLICT (account_id) DO UPDATE SET balance = balance + $2\<close>:
  the parameter is added unrounded and the sum is stored in a \<open>NUMERIC(36,18)\<close> column.
\<close>

definition add_balance :: "uuid \<Rightarrow> rat \<Rightarrow> ('x ledger_db_scheme, unit) op" where
  "add_balance a delta = stmt (bindE (gets (\<lambda>w. numeric_36_18 (cached_balance w a + delta))) (\<lambda>b.
     case b of
       None \<Rightarrow> fail (ConstraintErr ''ledger_balances.balance overflow'')
     | Some v \<Rightarrow> modify (\<lambda>w. w\<lparr>balances := AList.update a v (balances w)\<rparr>)))"

definition entry_delta :: "entry \<Rightarrow> rat" where
  "entry_delta e = (if e_direction e = Credit then - e_amount e else e_amount e)"

definition post_entry :: "uuid \<Rightarrow> entry \<Rightarrow> ('x ledger_db_scheme, unit) op" where
  "post_entry tid e = thenE (insert_entry tid e) (add_balance (e_account e) (entry_delta e))"

definition post :: "txn \<Rightarrow> ('x ledger_db_scheme, uuid) op" where
  "post t =
     (if t_entries t = [] then fail ErrNoEntries
      else case check_entries (t_entries t) of
        Some e \<Rightarrow> fail e
      | None \<Rightarrow> (case validate_balance (t_entries t) of
          Some e \<Rightarrow> fail e
        | None \<Rightarrow>
            atomically (thenE begin_tx
              (bindE (insert_txn t) (\<lambda>r. case r of
                 None \<Rightarrow> fail ErrAlreadyPosted
               | Some tid \<Rightarrow>
                   thenE (forE (t_entries t) (post_entry tid))
                     (thenE commit_tx (ret tid)))))))"

section \<open>Accounts and balances\<close>

text \<open>
  \<open>UNIQUE NULLS NOT DISTINCT (tenant_id, account_type, asset_code)\<close>: platform accounts have
  no tenant and two absent tenants are equal.
\<close>

definition get_or_create_account ::
  "uuid option \<Rightarrow> string \<Rightarrow> string \<Rightarrow> string \<Rightarrow> string \<Rightarrow> ('x ledger_db_scheme, uuid) op" where
  "get_or_create_account tenant atype asset unit_type name = stmt
     (thenE (guardE (unit_type = ''crypto'' \<or> unit_type = ''fiat'') (ConstraintErr ''ledger_accounts.unit_type''))
       (bindE (gets (\<lambda>w. find (\<lambda>r. acc_tenant r = tenant \<and> acc_type r = atype \<and> acc_asset r = asset) (accounts w)))
         (\<lambda>r. case r of
            Some row \<Rightarrow> ret (acc_id row)
          | None \<Rightarrow> bindE gen_uuid (\<lambda>i. thenE
              (modify (\<lambda>w. w\<lparr>accounts := accounts w @ [\<lparr>acc_id = i, acc_tenant = tenant, acc_type = atype,
                 acc_asset = asset, acc_unit = unit_type, acc_name = name\<rparr>]\<rparr>))
              (ret i)))))"

definition get_balance :: "uuid \<Rightarrow> ('x ledger_db_scheme, rat) op" where
  "get_balance a = query (\<lambda>w. case map_of (balances w) a of None \<Rightarrow> 0 | Some b \<Rightarrow> b)"

definition get_balance_for_tenant :: "uuid \<Rightarrow> string \<Rightarrow> string \<Rightarrow> ('x ledger_db_scheme, rat) op" where
  "get_balance_for_tenant tenant atype asset = query (\<lambda>w.
     case find (\<lambda>r. acc_tenant r = Some tenant \<and> acc_type r = atype \<and> acc_asset r = asset) (accounts w) of
       None \<Rightarrow> 0
     | Some r \<Rightarrow> (case map_of (balances w) (acc_id r) of None \<Rightarrow> 0 | Some b \<Rightarrow> b))"

section \<open>Reconciliation\<close>

definition row_delta :: "entry_row \<Rightarrow> rat" where
  "row_delta r = (if er_direction r = Debit then er_amount r else - er_amount r)"

definition entries_net :: "entry_row list \<Rightarrow> uuid \<Rightarrow> rat" where
  "entries_net rs a = sum_list (map row_delta (filter (\<lambda>r. er_account r = a) rs))"

definition drifted :: "'x ledger_db_scheme \<Rightarrow> (uuid \<times> uuid option \<times> rat \<times> rat) list" where
  "drifted w = concat (map (\<lambda>(a, cached). case find (\<lambda>r. acc_id r = a) (accounts w) of
       None \<Rightarrow> []
     | Some r \<Rightarrow> (if cached \<noteq> entries_net (entries w) a
                  then [(a, acc_tenant r, cached, entries_net (entries w) a)] else []))
     (balances w))"

definition discrepancy_open :: "uuid \<Rightarrow> 'x ledger_db_scheme \<Rightarrow> bool" where
  "discrepancy_open a w \<longleftrightarrow> list_ex (\<lambda>d. d_account d = a \<and> d_resolved_at d = None) (discrepancies w)"

text \<open>
  The three amounts come from \<open>NUMERIC(36,18)\<close> columns and are exact there; a sum may have
  outgrown the column it is written to.
\<close>

definition drift_fits :: "rat \<Rightarrow> rat \<Rightarrow> bool" where
  "drift_fits cached computed \<longleftrightarrow>
     \<bar>cached\<bar> < 10 ^ 18 \<and> \<bar>computed\<bar> < 10 ^ 18 \<and> \<bar>cached - computed\<bar> < 10 ^ 18"

definition insert_discrepancy :: "uuid \<Rightarrow> rat \<Rightarrow> rat \<Rightarrow> ('x ledger_db_scheme, uuid) op" where
  "insert_discrepancy a cached computed = stmt (thenE
     (guardE (drift_fits cached computed) (ConstraintErr ''ledger_discrepancies overflow''))
     (bindE gen_uuid (\<lambda>i. thenE
       (modify (\<lambda>w. w\<lparr>discrepancies := discrepancies w @ [\<lparr>d_id = i, d_account = a, d_cached = cached,
          d_computed = computed, d_drift = cached - computed, d_detected = now w,
          d_resolved_at = None, d_resolved_by = None, d_note = None\<rparr>]\<rparr>))
       (ret i))))"

definition flag_drift :: "uuid \<Rightarrow> uuid option \<Rightarrow> rat \<Rightarrow> rat \<Rightarrow> ('x ledger_db_scheme, unit) op" where
  "flag_drift a tenant cached computed = atomically (thenE begin_tx
     (bindE (query (discrepancy_open a)) (\<lambda>already_open.
        if already_open then ret ()
        else thenE (insert_discrepancy a cached computed)
          (thenE (publish_if_bus ''ledger.drift_detected'' ''ledger_account'' a
             [(''tenant_id'', case tenant of None \<Rightarrow> PNull | Some t \<Rightarrow> PStr t),
              (''account_id'', PStr a), (''drift_amount'', PDec (cached - computed))])
            commit_tx))))"

definition sweep_once :: "('x ledger_db_scheme, unit) op" where
  "sweep_once = bindE (query drifted) (\<lambda>ds.
     forE ds (\<lambda>(a, tenant, cached, computed). flag_drift a tenant cached computed))"

definition list_discrepancies :: "bool \<Rightarrow> ('x ledger_db_scheme, discrepancy list) op" where
  "list_discrepancies resolved = query (\<lambda>w.
     sort_key (\<lambda>d. - d_detected d) (filter (\<lambda>d. (d_resolved_at d \<noteq> None) = resolved) (discrepancies w)))"

definition resolve_discrepancy :: "uuid \<Rightarrow> uuid \<Rightarrow> string \<Rightarrow> ('x ledger_db_scheme, discrepancy) op" where
  "resolve_discrepancy i admin note = stmt
     (bindE (gets (\<lambda>w. (find (\<lambda>d. d_id d = i \<and> d_resolved_at d = None) (discrepancies w), now w)))
       (\<lambda>(r, t). case r of
          None \<Rightarrow> fail ErrDiscrepancyAlreadyResolved
        | Some d \<Rightarrow> (let f = (\<lambda>d. d\<lparr>d_resolved_at := Some t, d_resolved_by := Some admin, d_note := Some note\<rparr>) in
            thenE (modify (\<lambda>w. w\<lparr>discrepancies :=
              update_where (\<lambda>d. d_id d = i \<and> d_resolved_at d = None) f (discrepancies w)\<rparr>))
            (ret (f d)))))"

section \<open>Balance of a transaction\<close>

text \<open>The reference: the signed sum of the entries of one asset.\<close>

definition signed :: "entry \<Rightarrow> rat" where
  "signed e = (if e_direction e = Debit then e_amount e else - e_amount e)"

definition asset_net :: "entry list \<Rightarrow> string \<Rightarrow> rat" where
  "asset_net es a = sum_list (map signed (filter (\<lambda>e. e_asset e = a) es))"

definition sum_of :: "(string \<times> rat) list \<Rightarrow> string \<Rightarrow> rat" where
  "sum_of acc a = (case map_of acc a of None \<Rightarrow> 0 | Some s \<Rightarrow> s)"

lemma sum_of_Nil: "sum_of [] a = 0"
  by (simp add: sum_of_def)

lemma sum_of_update: "sum_of (AList.update k v acc) a = (if a = k then v else sum_of acc a)"
  by (simp add: sum_of_def update_conv')

lemma add_sums_sum_of: "sum_of (add_sums acc es) a = sum_of acc a + asset_net es a"
  by (induction acc es rule: add_sums.induct)
    (auto simp: asset_net_def signed_def sum_of_update Let_def sum_of_def [symmetric])

lemma distinct_add_sums: "distinct (map fst acc) \<Longrightarrow> distinct (map fst (add_sums acc es))"
  by (induction acc es rule: add_sums.induct) (auto simp: Let_def distinct_update)

lemma all_zero_iff: "distinct (map fst acc) \<Longrightarrow> list_all (\<lambda>(a, s). s = 0) acc \<longleftrightarrow> (\<forall>a. sum_of acc a = 0)"
  by (fastforce simp: list_all_iff sum_of_def split: option.splits dest: map_of_SomeD map_of_is_SomeI)

lemma validate_balance_iff: "validate_balance es = None \<longleftrightarrow> (\<forall>a. asset_net es a = 0)"
  using all_zero_iff [OF distinct_add_sums, of "[]" es]
  by (simp add: validate_balance_def add_sums_sum_of sum_of_Nil)

lemma check_entries_iff:
  "check_entries es = None \<longleftrightarrow>
   (\<forall>e \<in> set es. (e_direction e = Debit \<or> e_direction e = Credit) \<and> e_amount e > 0 \<and> e_asset e \<noteq> '''')"
  by (induction es) auto

section \<open>What a successful post did\<close>

definition stored :: "uuid \<Rightarrow> entry \<Rightarrow> entry_row" where
  "stored tid e = \<lparr>er_txn = tid, er_account = e_account e, er_direction = e_direction e,
     er_amount = round_half_away 18 (e_amount e), er_asset = e_asset e\<rparr>"

lemma stored_sel [simp]:
  "er_txn (stored tid e) = tid" "er_account (stored tid e) = e_account e"
  "er_direction (stored tid e) = e_direction e" "er_asset (stored tid e) = e_asset e"
  "er_amount (stored tid e) = round_half_away 18 (e_amount e)"
  by (simp_all add: stored_def)

lemma numeric_Some: "numeric_36_18 x = Some y \<Longrightarrow> y = round_half_away 18 x"
  by (auto simp: numeric_36_18_def Let_def split: if_splits)

lemma insert_entry_success:
  "insert_entry tid e w = (Inr u, w') \<Longrightarrow>
   account_exists (e_account e) w \<and> round_half_away 18 (e_amount e) > 0 \<and>
   (\<exists>bs. w' = w\<lparr>faults := bs, entries := entries w @ [stored tid e]\<rparr>)"
  unfolding insert_entry_def
  by (drule stmt_InrD)
    (auto simp: op_defs stored_def account_exists_def split: option.splits if_splits dest: numeric_Some)

lemma add_balance_success:
  "add_balance a delta w = (Inr u, w') \<Longrightarrow>
   (\<exists>bs v. numeric_36_18 (cached_balance w a + delta) = Some v \<and>
     w' = w\<lparr>faults := bs, balances := AList.update a v (balances w)\<rparr>)"
  unfolding add_balance_def
  by (drule stmt_InrD) (auto simp: op_defs cached_balance_def split: option.splits)

lemma post_entry_success:
  assumes "post_entry tid e w = (Inr u, w')"
  shows "account_exists (e_account e) w \<and> round_half_away 18 (e_amount e) > 0 \<and>
   (\<exists>bs v. numeric_36_18 (cached_balance w (e_account e) + entry_delta e) = Some v \<and>
     w' = w\<lparr>faults := bs, entries := entries w @ [stored tid e],
            balances := AList.update (e_account e) v (balances w)\<rparr>)"
proof -
  from assms obtain w1 where i: "insert_entry tid e w = (Inr (), w1)"
    and b: "add_balance (e_account e) (entry_delta e) w1 = (Inr u, w')"
    unfolding post_entry_def by (auto elim: thenE_InrE)
  from insert_entry_success [OF i] obtain bs1 where
    acc: "account_exists (e_account e) w" "round_half_away 18 (e_amount e) > 0"
    and w1: "w1 = w\<lparr>faults := bs1, entries := entries w @ [stored tid e]\<rparr>" by blast
  from add_balance_success [OF b] obtain bs v where
    v: "numeric_36_18 (cached_balance w1 (e_account e) + entry_delta e) = Some v"
    and w': "w' = w1\<lparr>faults := bs, balances := AList.update (e_account e) v (balances w1)\<rparr>" by blast
  have "w' = w\<lparr>faults := bs, entries := entries w @ [stored tid e],
            balances := AList.update (e_account e) v (balances w)\<rparr>"
    unfolding w' w1 by (rule ledger_db.equality) simp_all
  moreover have "cached_balance w1 = cached_balance w"
    by (rule ext) (simp add: w1 cached_balance_def)
  ultimately show ?thesis using acc v by auto
qed

lemma cached_balance_update:
  "cached_balance (w\<lparr>faults := bs, entries := es, balances := AList.update a v (balances w)\<rparr>) =
   (cached_balance w)(a := v)"
  by (rule ext) (simp add: cached_balance_def update_conv')

text \<open>The cache, entry by entry, as the column type rounds it.\<close>

fun fold_balance :: "(uuid \<Rightarrow> rat) \<Rightarrow> entry list \<Rightarrow> uuid \<Rightarrow> rat" where
  "fold_balance b [] = b"
| "fold_balance b (e # es) =
     fold_balance (b(e_account e := round_half_away 18 (b (e_account e) + entry_delta e))) es"

lemma post_entries_success:
  "forE es (post_entry tid) w = (Inr u, w') \<Longrightarrow>
   (\<forall>e \<in> set es. account_exists (e_account e) w \<and> round_half_away 18 (e_amount e) > 0) \<and>
   cached_balance w' = fold_balance (cached_balance w) es \<and>
   (\<exists>bs bals. w' = w\<lparr>faults := bs, entries := entries w @ map (stored tid) es, balances := bals\<rparr>)"
proof (induction es arbitrary: w)
  case Nil
  then show ?case
    by (auto simp: ret_def intro!: exI [of _ "faults w"] exI [of _ "balances w"])
next
  case (Cons e es)
  from Cons.prems obtain w1 where step: "post_entry tid e w = (Inr (), w1)"
    and rest: "forE es (post_entry tid) w1 = (Inr u, w')"
    by (auto elim: thenE_InrE)
  from post_entry_success [OF step] obtain bs v where
    acc: "account_exists (e_account e) w" "round_half_away 18 (e_amount e) > 0"
    and v: "numeric_36_18 (cached_balance w (e_account e) + entry_delta e) = Some v"
    and w1: "w1 = w\<lparr>faults := bs, entries := entries w @ [stored tid e],
                   balances := AList.update (e_account e) v (balances w)\<rparr>"
    by blast
  have cb: "cached_balance w1 = (cached_balance w)(e_account e := v)"
    unfolding w1 by (rule cached_balance_update)
  from Cons.IH [OF rest] obtain bs' bals where
    w': "w' = w1\<lparr>faults := bs', entries := entries w1 @ map (stored tid) es, balances := bals\<rparr>"
    by blast
  have "w' = w\<lparr>faults := bs', entries := entries w @ map (stored tid) (e # es), balances := bals\<rparr>"
    unfolding w' w1 by (rule ledger_db.equality) simp_all
  moreover have "cached_balance w' = fold_balance (cached_balance w) (e # es)"
    using Cons.IH [OF rest] cb numeric_Some [OF v] by (simp add: fun_upd_def)
  moreover have "\<forall>x \<in> set (e # es). account_exists (e_account x) w \<and> round_half_away 18 (e_amount x) > 0"
    using Cons.IH [OF rest] acc by (simp add: w1 account_exists_def)
  ultimately show ?case by blast
qed

definition new_txn :: "uuid \<Rightarrow> txn \<Rightarrow> txn_row" where
  "new_txn i t = \<lparr>tr_id = i, tr_key = t_key t, tr_type = t_type t, tr_ref_type = t_ref_type t,
     tr_ref_id = t_ref_id t, tr_created_by = t_created_by t\<rparr>"

lemma tr_key_new_txn [simp]: "tr_key (new_txn i t) = t_key t" "tr_id (new_txn i t) = i"
  by (simp_all add: new_txn_def)

lemma insert_txn_success:
  assumes "insert_txn t w = (Inr r, w')"
  shows "(r = None \<and> t_key t \<in> set (map tr_key (txns w)) \<and> (\<exists>bs. w' = w\<lparr>faults := bs\<rparr>)) \<or>
    (r = Some (uuid_src w (uuid_next w)) \<and> t_key t \<notin> set (map tr_key (txns w)) \<and>
     (\<exists>bs. w' = w\<lparr>faults := bs, uuid_next := Suc (uuid_next w),
        txns := txns w @ [new_txn (uuid_src w (uuid_next w)) t]\<rparr>))"
proof -
  obtain bs where "bindE (gets (\<lambda>w. t_key t \<in> set (map tr_key (txns w)))) (\<lambda>dup.
     if dup then ret None
     else bindE gen_uuid (\<lambda>i. thenE
       (modify (\<lambda>w. w\<lparr>txns := txns w @ [\<lparr>tr_id = i, tr_key = t_key t, tr_type = t_type t,
          tr_ref_type = t_ref_type t, tr_ref_id = t_ref_id t, tr_created_by = t_created_by t\<rparr>]\<rparr>))
       (ret (Some i)))) (w\<lparr>faults := bs\<rparr>) = (Inr r, w')"
    using assms unfolding insert_txn_def by (auto dest: stmt_InrD)
  then show ?thesis
    by (auto simp: op_defs gen_uuid_def new_txn_def split: if_splits)
qed

text \<open>
  The whole effect of a successful post: the key was new, one transaction row and one entry
  row per entry were appended, the cache was folded over the entries, and nothing else
  changed.
\<close>

lemma post_success:
  assumes "post t w = (Inr tid, w')"
  shows "t_entries t \<noteq> [] \<and> check_entries (t_entries t) = None \<and> validate_balance (t_entries t) = None \<and>
    t_key t \<notin> set (map tr_key (txns w)) \<and> tid = uuid_src w (uuid_next w) \<and>
    (\<forall>e \<in> set (t_entries t). account_exists (e_account e) w \<and> round_half_away 18 (e_amount e) > 0) \<and>
    cached_balance w' = fold_balance (cached_balance w) (t_entries t) \<and>
    (\<exists>bs bals. w' = w\<lparr>faults := bs, uuid_next := Suc (uuid_next w),
       txns := txns w @ [new_txn tid t], entries := entries w @ map (stored tid) (t_entries t),
       balances := bals\<rparr>)"
proof -
  from assms have pre: "t_entries t \<noteq> []" "check_entries (t_entries t) = None"
      "validate_balance (t_entries t) = None"
    and body: "thenE begin_tx
              (bindE (insert_txn t) (\<lambda>r. case r of
                 None \<Rightarrow> fail ErrAlreadyPosted
               | Some tid \<Rightarrow>
                   thenE (forE (t_entries t) (post_entry tid))
                     (thenE commit_tx (ret tid)))) w = (Inr tid, w')"
    by (auto simp: post_def fail_def atomically_success split: if_splits option.splits)
  from body obtain w1 r w2 where w1: "tick_fault w = (Inr (), w1)"
    and ins: "insert_txn t w1 = (Inr r, w2)"
    and rest: "(case r of None \<Rightarrow> fail ErrAlreadyPosted
        | Some tid \<Rightarrow> thenE (forE (t_entries t) (post_entry tid)) (thenE commit_tx (ret tid))) w2 = (Inr tid, w')"
    by (auto elim!: thenE_InrE bindE_InrE)
  from rest obtain i where r: "r = Some i"
    by (cases r) (auto simp: fail_def)
  from rest r obtain w3 where es: "forE (t_entries t) (post_entry i) w2 = (Inr (), w3)"
    and last: "tick_fault w3 = (Inr (), w')" and tid: "tid = i"
    by (auto elim!: thenE_InrE simp: ret_def)
  obtain bs1 where b1: "w1 = w\<lparr>faults := bs1\<rparr>" using tick_fault_InrD [OF w1] by blast
  obtain bs2 where key: "t_key t \<notin> set (map tr_key (txns w))" and i: "i = uuid_src w (uuid_next w)"
    and b2: "w2 = w\<lparr>faults := bs2, uuid_next := Suc (uuid_next w), txns := txns w @ [new_txn i t]\<rparr>"
    using insert_txn_success [OF ins] r b1 by auto
  obtain bs3 where b3: "w' = w3\<lparr>faults := bs3\<rparr>" using tick_fault_InrD [OF last] by blast
  have cb: "cached_balance w2 = cached_balance w" "cached_balance w' = cached_balance w3"
    by (rule ext, simp add: b2 b3 cached_balance_def)+
  from post_entries_success [OF es] obtain bs bals where
    w3: "w3 = w2\<lparr>faults := bs, entries := entries w2 @ map (stored i) (t_entries t), balances := bals\<rparr>"
    by blast
  have "w' = w\<lparr>faults := bs3, uuid_next := Suc (uuid_next w),
       txns := txns w @ [new_txn tid t], entries := entries w @ map (stored tid) (t_entries t),
       balances := bals\<rparr>"
    unfolding b3 w3 b2 tid by (rule ledger_db.equality) simp_all
  moreover have "\<forall>e \<in> set (t_entries t). account_exists (e_account e) w \<and> round_half_away 18 (e_amount e) > 0"
    using post_entries_success [OF es] by (simp add: b2 account_exists_def)
  moreover have "cached_balance w' = fold_balance (cached_balance w) (t_entries t)"
    using post_entries_success [OF es] cb by simp
  ultimately show ?thesis
    using pre key tid i by blast
qed

lemma post_error:
  assumes "post t w = (Inl e, w')"
  shows "\<exists>bs n. w' = w\<lparr>faults := bs, uuid_next := n\<rparr> \<and> uuid_next w \<le> n"
  using assms unfolding post_def
  by (auto simp: fail_def split: if_splits option.splits intro: unchanged_base dest: atomically_error)

section \<open>Invariants of the tables\<close>

text \<open>The signed sum of the stored entries of one transaction in one asset.\<close>

definition txn_net :: "entry_row list \<Rightarrow> uuid \<Rightarrow> string \<Rightarrow> rat" where
  "txn_net rs tid a = sum_list (map row_delta (filter (\<lambda>r. er_txn r = tid \<and> er_asset r = a) rs))"

text \<open>
  The ids handed out so far are those of the stored transactions, so a new id is fresh.
\<close>

definition ids_ok :: "'x ledger_db_scheme \<Rightarrow> bool" where
  "ids_ok w \<longleftrightarrow> inj (uuid_src w) \<and> (\<forall>r \<in> set (entries w). \<exists>n < uuid_next w. er_txn r = uuid_src w n)"

definition ledger_balanced :: "'x ledger_db_scheme \<Rightarrow> bool" where
  "ledger_balanced w \<longleftrightarrow> ids_ok w \<and> (\<forall>tid a. txn_net (entries w) tid a = 0)"

definition cache_ok :: "'x ledger_db_scheme \<Rightarrow> bool" where
  "cache_ok w \<longleftrightarrow> (\<forall>a. cached_balance w a = entries_net (entries w) a) \<and>
     (\<forall>r \<in> set (entries w). scale_ok 18 (er_amount r))"

definition keys_unique :: "'x ledger_db_scheme \<Rightarrow> bool" where
  "keys_unique w \<longleftrightarrow> distinct (map tr_key (txns w))"

definition posted_keys :: "'x ledger_db_scheme \<Rightarrow> string set" where
  "posted_keys w = set (map tr_key (txns w))"

definition exact_txn :: "txn \<Rightarrow> bool" where
  "exact_txn t \<longleftrightarrow> (\<forall>e \<in> set (t_entries t). scale_ok 18 (e_amount e))"

lemma db_view_ledger [simp]:
  "db_view accounts" "db_view txns" "db_view entries" "db_view balances" "db_view discrepancies"
  "db_view cached_balance" "db_view posted_keys" "db_view cache_ok" "db_view keys_unique"
  by (simp_all add: db_view_def fun_eq_iff cached_balance_def posted_keys_def cache_ok_def keys_unique_def)

lemma posted_keys_update [simp]:
  "posted_keys (w\<lparr>faults := bs\<rparr>) = posted_keys w" "posted_keys (w\<lparr>uuid_next := n\<rparr>) = posted_keys w"
  "posted_keys (w\<lparr>outbox := es\<rparr>) = posted_keys w" "posted_keys (w\<lparr>entries := rs\<rparr>) = posted_keys w"
  "posted_keys (w\<lparr>balances := bals\<rparr>) = posted_keys w" "posted_keys (w\<lparr>accounts := accs\<rparr>) = posted_keys w"
  "posted_keys (w\<lparr>discrepancies := ds\<rparr>) = posted_keys w"
  by (simp_all add: posted_keys_def)

text \<open>What any post does, whatever the statements do: all of it or nothing.\<close>

lemma post_cases [consumes 1, case_names error success]:
  assumes "post t w = (r, w')"
  obtains (error) e bs n where "r = Inl e" "w' = w\<lparr>faults := bs, uuid_next := n\<rparr>" "uuid_next w \<le> n"
  | (success) tid bs bals where "r = Inr tid" "tid = uuid_src w (uuid_next w)"
      "check_entries (t_entries t) = None" "validate_balance (t_entries t) = None"
      "t_entries t \<noteq> []" "t_key t \<notin> posted_keys w"
      "cached_balance w' = fold_balance (cached_balance w) (t_entries t)"
      "w' = w\<lparr>faults := bs, uuid_next := Suc (uuid_next w), txns := txns w @ [new_txn tid t],
         entries := entries w @ map (stored tid) (t_entries t), balances := bals\<rparr>"
proof (cases r)
  case (Inl e)
  with assms post_error [of t w e w'] error show ?thesis by blast
next
  case (Inr tid)
  with assms post_success [of t w tid w'] success show ?thesis
    by (auto simp: posted_keys_def)
qed

lemma frame_post [frame_rules]:
  fixes f :: "'x ledger_db_scheme \<Rightarrow> 'b"
  assumes "db_view f" and "\<And>w x. f (w\<lparr>txns := x\<rparr>) = f w"
    and "\<And>w x. f (w\<lparr>entries := x\<rparr>) = f w" and "\<And>w x. f (w\<lparr>balances := x\<rparr>) = f w"
  shows "frame f (post t)"
proof (rule frameI)
  fix w w' :: "'x ledger_db_scheme" and r
  assume "post t w = (r, w')"
  then show "f w' = f w"
  proof (cases rule: post_cases)
    case (error e bs n)
    then show ?thesis by (simp only: db_view_both [OF assms(1)])
  next
    case (success tid bs bals)
    then show ?thesis
      by (simp only: assms(2-4) db_view_faults [OF assms(1)] db_view_uuid_next [OF assms(1)])
  qed
qed

subsection \<open>Idempotency keys\<close>

lemma post_duplicate:
  "t_key t \<in> posted_keys w \<Longrightarrow> post t w = (r, w') \<Longrightarrow> \<exists>e. r = Inl e"
  by (erule post_cases) auto

lemma post_AlreadyPosted_iff:
  assumes "faults w = []" and "t_entries t \<noteq> []" and "check_entries (t_entries t) = None"
    and "validate_balance (t_entries t) = None" and "t_key t \<in> posted_keys w"
  shows "post t w = (Inl ErrAlreadyPosted, w)"
  using assms by (simp add: post_def insert_txn_def op_simps posted_keys_def)

lemma keeps_keys_unique: "keeps keys_unique (post t)"
proof (rule keepsI)
  fix w r w'
  assume "keys_unique w" and "post t w = (r, w')"
  from this(2,1) show "keys_unique w'"
    by (cases rule: post_cases) (auto simp: keys_unique_def posted_keys_def)
qed

lemma post_posted_keys:
  assumes "post t w = (r, w')"
  shows "posted_keys w' = (case r of Inl e \<Rightarrow> posted_keys w | Inr tid \<Rightarrow> insert (t_key t) (posted_keys w))"
  using assms by (cases rule: post_cases) (auto simp: posted_keys_def)

subsection \<open>Balanced transactions\<close>

lemma stored_exact: "scale_ok 18 (e_amount e) \<Longrightarrow> row_delta (stored tid e) = signed e"
  by (simp add: row_delta_def signed_def round_half_away_exact)

lemma txn_net_append: "txn_net (rs @ rs') tid a = txn_net rs tid a + txn_net rs' tid a"
  by (simp add: txn_net_def)

lemma txn_net_stored:
  "(\<forall>e \<in> set es. scale_ok 18 (e_amount e)) \<Longrightarrow>
   txn_net (map (stored tid) es) t a = (if t = tid then asset_net es a else 0)"
  by (induction es) (auto simp: txn_net_def asset_net_def stored_exact)

lemma txn_net_fresh: "(\<forall>r \<in> set rs. er_txn r \<noteq> tid) \<Longrightarrow> txn_net rs tid a = 0"
  by (simp add: txn_net_def filter_False)

lemma keeps_ledger_balanced:
  assumes "exact_txn t"
  shows "keeps ledger_balanced (post t)"
proof (rule keepsI)
  fix w r w'
  assume inv: "ledger_balanced w" and run: "post t w = (r, w')"
  from run show "ledger_balanced w'"
  proof (cases rule: post_cases)
    case (error e bs n)
    with inv show ?thesis
      by (auto simp: ledger_balanced_def ids_ok_def) (meson less_le_trans)
  next
    case (success tid bs bals)
    have net: "txn_net (map (stored tid) (t_entries t)) i a = 0" for i a
      using success(4) assms by (simp add: txn_net_stored exact_txn_def validate_balance_iff)
    have ids: "\<exists>n < Suc (uuid_next w). er_txn x = uuid_src w n"
      if "x \<in> set (entries w) \<or> x \<in> set (map (stored tid) (t_entries t))" for x
      using that inv success(2) by (auto simp: ledger_balanced_def ids_ok_def) (meson less_SucI)
    show ?thesis
      using inv net ids success(8) by (simp add: ledger_balanced_def ids_ok_def txn_net_append)
  qed
qed

subsection \<open>The cache is the sum\<close>

lemma entries_net_append: "entries_net (rs @ rs') a = entries_net rs a + entries_net rs' a"
  by (simp add: entries_net_def)

lemma entry_delta_signed:
  "e_direction e = Debit \<or> e_direction e = Credit \<Longrightarrow> entry_delta e = signed e"
  by (auto simp: entry_delta_def signed_def)

lemma scale_ok_signed: "scale_ok n (e_amount e) \<Longrightarrow> scale_ok n (signed e)"
  by (simp add: signed_def scale_ok_minus)

lemma scale_ok_entries_net: "(\<forall>r \<in> set rs. scale_ok n (er_amount r)) \<Longrightarrow> scale_ok n (entries_net rs a)"
  by (induction rs) (auto simp: entries_net_def row_delta_def intro: scale_ok_add scale_ok_diff)

lemma fold_balance_exact:
  assumes "\<forall>e \<in> set es. scale_ok 18 (e_amount e) \<and> (e_direction e = Debit \<or> e_direction e = Credit)"
    and "\<forall>a. scale_ok 18 (b a)"
  shows "fold_balance b es a = b a + entries_net (map (stored tid) es) a"
  using assms
proof (induction es arbitrary: b)
  case Nil
  then show ?case by (simp add: entries_net_def)
next
  case (Cons e es)
  let ?b = "b(e_account e := b (e_account e) + signed e)"
  have s: "scale_ok 18 (b (e_account e) + signed e)"
    using Cons.prems by (intro scale_ok_add scale_ok_signed) auto
  with Cons.prems have "\<forall>a. scale_ok 18 (?b a)" by simp
  with Cons.IH [of ?b] Cons.prems have "fold_balance ?b es a = ?b a + entries_net (map (stored tid) es) a"
    by (simp add: fun_upd_def)
  moreover have "fold_balance b (e # es) = fold_balance ?b es"
    using Cons.prems s by (simp add: entry_delta_signed round_half_away_exact)
  moreover have "entries_net (map (stored tid) (e # es)) a =
      (if e_account e = a then signed e else 0) + entries_net (map (stored tid) es) a"
    using Cons.prems by (simp add: entries_net_def stored_exact)
  ultimately show ?case by (simp add: fun_upd_def)
qed

lemma keeps_cache_ok:
  assumes "exact_txn t"
  shows "keeps cache_ok (post t)"
proof (rule keepsI)
  fix w r w'
  assume inv: "cache_ok w" and run: "post t w = (r, w')"
  from run show "cache_ok w'"
  proof (cases rule: post_cases)
    case (error e bs n)
    with inv show ?thesis by (simp add: cache_ok_def cached_balance_def)
  next
    case (success tid bs bals)
    have sc: "\<forall>a. scale_ok 18 (cached_balance w a)"
      using inv by (simp add: cache_ok_def scale_ok_entries_net)
    have es: "\<forall>e \<in> set (t_entries t). scale_ok 18 (e_amount e) \<and> (e_direction e = Debit \<or> e_direction e = Credit)"
      using assms success(3) by (simp add: exact_txn_def check_entries_iff)
    have "cached_balance w' a = cached_balance w a + entries_net (map (stored tid) (t_entries t)) a" for a
      using success(7) fold_balance_exact [OF es sc, of a tid] by simp
    moreover have "entries w' = entries w @ map (stored tid) (t_entries t)"
      using success(8) by simp
    ultimately show ?thesis
      using inv by (auto simp: cache_ok_def entries_net_append round_half_away_scale)
  qed
qed

subsection \<open>Reconciliation\<close>

lemma cached_balance_mem:
  "distinct (map fst (balances w)) \<Longrightarrow> (a, b) \<in> set (balances w) \<Longrightarrow> cached_balance w a = b"
  by (simp add: cached_balance_def)

lemma drifted_empty:
  "cache_ok w \<Longrightarrow> distinct (map fst (balances w)) \<Longrightarrow> drifted w = []"
  by (force simp: drifted_def cache_ok_def dest: cached_balance_mem split: option.splits)

lemma drifted_mem:
  "(a, ten, c, s) \<in> set (drifted w) \<longleftrightarrow>
   (\<exists>r. (a, c) \<in> set (balances w) \<and> find (\<lambda>r. acc_id r = a) (accounts w) = Some r \<and>
      ten = acc_tenant r \<and> s = entries_net (entries w) a \<and> c \<noteq> s)"
  by (force simp: drifted_def split: option.splits if_splits)

definition one_open :: "'x ledger_db_scheme \<Rightarrow> bool" where
  "one_open w \<longleftrightarrow> (\<forall>a. count_where (\<lambda>d. d_account d = a \<and> d_resolved_at d = None) (discrepancies w) \<le> 1)"

lemma count_where_append: "count_where c (rs @ rs') = count_where c rs + count_where c rs'"
  by (simp add: count_where_def)

lemma discrepancy_open_count:
  "\<not> discrepancy_open a w \<longleftrightarrow> count_where (\<lambda>d. d_account d = a \<and> d_resolved_at d = None) (discrepancies w) = 0"
  by (auto simp: discrepancy_open_def count_where_0_iff list_ex_iff)

lemma frame_flag_drift [frame_rules]:
  assumes "db_view f" and "\<And>w x. f (w\<lparr>outbox := x\<rparr>) = f w" and "\<And>w x. f (w\<lparr>discrepancies := x\<rparr>) = f w"
  shows "frame f (flag_drift a ten c s)"
  unfolding flag_drift_def insert_discrepancy_def
  by (intro frame_rules assms)

lemma frame_sweep_once [frame_rules]:
  assumes "db_view f" and "\<And>w x. f (w\<lparr>outbox := x\<rparr>) = f w" and "\<And>w x. f (w\<lparr>discrepancies := x\<rparr>) = f w"
  shows "frame f sweep_once"
  unfolding sweep_once_def by (intro frame_rules assms)

definition new_discrepancy :: "uuid \<Rightarrow> uuid \<Rightarrow> rat \<Rightarrow> rat \<Rightarrow> time \<Rightarrow> discrepancy" where
  "new_discrepancy i a cached computed t = \<lparr>d_id = i, d_account = a, d_cached = cached,
     d_computed = computed, d_drift = cached - computed, d_detected = t,
     d_resolved_at = None, d_resolved_by = None, d_note = None\<rparr>"

lemma insert_discrepancy_success:
  "insert_discrepancy a c s w = (Inr i, w') \<Longrightarrow>
   discrepancies w' = discrepancies w @ [new_discrepancy i a c s (now w)]"
  unfolding insert_discrepancy_def
  by (drule stmt_InrD) (auto simp: op_defs gen_uuid_def new_discrepancy_def split: if_splits)

lemma flag_drift_success:
  assumes "flag_drift a ten c s w = (Inr u, w')"
  shows "(discrepancy_open a w \<and> discrepancies w' = discrepancies w) \<or>
    (\<not> discrepancy_open a w \<and> (\<exists>i t. discrepancies w' = discrepancies w @ [new_discrepancy i a c s t]))"
proof -
  let ?pub = "publish_if_bus ''ledger.drift_detected'' ''ledger_account'' a
             [(''tenant_id'', case ten of None \<Rightarrow> PNull | Some t \<Rightarrow> PStr t),
              (''account_id'', PStr a), (''drift_amount'', PDec (c - s))]"
  from assms obtain w1 w2 b where t: "tick_fault w = (Inr (), w1)"
    and q: "query (discrepancy_open a) w1 = (Inr b, w2)"
    and rest: "(if b then ret () else thenE (insert_discrepancy a c s) (thenE ?pub commit_tx)) w2 = (Inr u, w')"
    unfolding flag_drift_def atomically_success by (auto elim!: thenE_InrE bindE_InrE)
  have b: "b = discrepancy_open a w" and d2: "discrepancies w2 = discrepancies w"
    using tick_fault_InrD [OF t] query_InrD [OF q] by (auto simp: discrepancy_open_def)
  show ?thesis
  proof (cases b)
    case True
    with rest b d2 show ?thesis by (simp add: ret_def)
  next
    case False
    with rest obtain i w3 w4 where i: "insert_discrepancy a c s w2 = (Inr i, w3)"
      and p: "?pub w3 = (Inr (), w4)" and cm: "tick_fault w4 = (Inr u, w')"
      by (auto elim!: thenE_InrE)
    have "frame discrepancies ?pub"
      by (intro frame_rules) simp_all
    from frame_eq [OF this p] tick_fault_InrD [OF cm] insert_discrepancy_success [OF i] d2
    have "discrepancies w' = discrepancies w @ [new_discrepancy i a c s (now w2)]" by auto
    with False b show ?thesis by blast
  qed
qed

lemma flag_drift_error: "flag_drift a ten c s w = (Inl e, w') \<Longrightarrow> discrepancies w' = discrepancies w"
  unfolding flag_drift_def by (drule atomically_error) auto

lemma keeps_one_open_flag: "keeps one_open (flag_drift a ten c s)"
proof (rule keepsI)
  fix w :: "'x ledger_db_scheme" and r w'
  assume inv: "one_open w" and run: "flag_drift a ten c s w = (r, w')"
  show "one_open w'"
  proof (cases r)
    case (Inl e)
    with inv flag_drift_error [of a ten c s w e w'] run show ?thesis by (simp add: one_open_def)
  next
    case (Inr u)
    with flag_drift_success [of a ten c s w u w'] run inv show ?thesis
      by (auto simp: one_open_def count_where_append new_discrepancy_def discrepancy_open_count)
  qed
qed

lemma db_mono_one_open [simp]: "db_mono one_open"
  by (rule db_view_mono) (simp add: db_view_def one_open_def)

lemma keeps_one_open_sweep: "keeps one_open sweep_once"
  unfolding sweep_once_def
  by (intro keeps_rules db_mono_one_open) (auto intro!: keeps_rules keeps_one_open_flag)

text \<open>Without database failures the sweep runs to its end and opens a case for every drift.\<close>

lemma publish_if_bus_Nil:
  "faults w = [] \<Longrightarrow> \<exists>w'. publish_if_bus ty ag i pl w = (Inr (), w') \<and> faults w' = []"
  by (auto simp: publish_if_bus_def publish_def op_simps)

lemma flag_drift_Nil:
  assumes "faults w = []" and "drift_fits c s"
  shows "\<exists>w'. flag_drift a ten c s w = (Inr (), w') \<and> faults w' = [] \<and> discrepancy_open a w' \<and>
    (\<forall>b. discrepancy_open b w \<longrightarrow> discrepancy_open b w')"
proof (cases "discrepancy_open a w")
  case True
  then show ?thesis
    using assms by (simp add: flag_drift_def op_simps)
next
  case False
  obtain i w1 where i: "insert_discrepancy a c s w = (Inr i, w1)" and f1: "faults w1 = []"
    using assms by (simp add: insert_discrepancy_def op_simps)
  obtain w2 where p: "publish_if_bus ''ledger.drift_detected'' ''ledger_account'' a
             [(''tenant_id'', case ten of None \<Rightarrow> PNull | Some t \<Rightarrow> PStr t),
              (''account_id'', PStr a), (''drift_amount'', PDec (c - s))] w1 = (Inr (), w2)"
    and f2: "faults w2 = []"
    using publish_if_bus_Nil [OF f1] by blast
  have run: "flag_drift a ten c s w = (Inr (), w2)"
    using assms False i f1 p f2 by (simp add: flag_drift_def op_simps)
  from flag_drift_success [OF run] False obtain i' t where
    "discrepancies w2 = discrepancies w @ [new_discrepancy i' a c s t]" by auto
  then have "discrepancy_open a w2" and "\<forall>b. discrepancy_open b w \<longrightarrow> discrepancy_open b w2"
    by (auto simp: discrepancy_open_def new_discrepancy_def)
  with run f2 show ?thesis by blast
qed

lemma flag_all_Nil:
  assumes "faults w = []" and "\<forall>(a, ten, c, s) \<in> set ds. drift_fits c s"
  shows "\<exists>w'. forE ds (\<lambda>(a, ten, c, s). flag_drift a ten c s) w = (Inr (), w') \<and> faults w' = [] \<and>
    (\<forall>(a, x) \<in> set ds. discrepancy_open a w') \<and> (\<forall>b. discrepancy_open b w \<longrightarrow> discrepancy_open b w')"
  using assms
proof (induction ds arbitrary: w)
  case Nil
  then show ?case by (simp add: op_simps)
next
  case (Cons d ds)
  obtain a ten c s where d: "d = (a, ten, c, s)" by (cases d) auto
  obtain w1 where w1: "flag_drift a ten c s w = (Inr (), w1)" "faults w1 = []" "discrepancy_open a w1"
      "\<forall>b. discrepancy_open b w \<longrightarrow> discrepancy_open b w1"
    using flag_drift_Nil [OF Cons.prems(1), of c s a ten] Cons.prems(2) by (auto simp: d)
  obtain w2 where w2: "forE ds (\<lambda>(a, ten, c, s). flag_drift a ten c s) w1 = (Inr (), w2)" "faults w2 = []"
      "\<forall>(a, x) \<in> set ds. discrepancy_open a w2" "\<forall>b. discrepancy_open b w1 \<longrightarrow> discrepancy_open b w2"
    using Cons.IH [OF w1(2)] Cons.prems(2) by auto
  show ?case
    using w1 w2 by (auto simp: d thenE_apply_Inr)
qed

section \<open>The claim contract\<close>

text \<open>
  What the callers of \<open>Post\<close> rely on: a claim records its key exactly when it succeeds, and
  it succeeds only for a key that was not recorded. \<open>winners\<close> are the claims of a sequence
  that succeed, whatever each statement of each claim does.
\<close>

fun winners :: "('t \<Rightarrow> ('s, 'r) op) \<Rightarrow> 't list \<Rightarrow> 's \<Rightarrow> 't list" where
  "winners claim [] w = []"
| "winners claim (t # ts) w = (case claim t w of
       (Inl e, w') \<Rightarrow> winners claim ts w'
     | (Inr x, w') \<Rightarrow> t # winners claim ts w')"

locale atomic_claims =
  fixes claim :: "'t \<Rightarrow> ('s, 'r) op"
    and key :: "'t \<Rightarrow> string"
    and claimed :: "'s \<Rightarrow> string set"
  assumes claim_records: "claim t w = (r, w') \<Longrightarrow>
      claimed w' = (case r of Inl e \<Rightarrow> claimed w | Inr x \<Rightarrow> insert (key t) (claimed w))"
    and claim_fresh: "claim t w = (Inr x, w') \<Longrightarrow> key t \<notin> claimed w"
begin

lemma winners_fresh: "key ` set (winners claim ts w) \<inter> claimed w = {}"
proof (induction ts arbitrary: w)
  case Nil
  then show ?case by simp
next
  case (Cons t ts)
  obtain r w' where c: "claim t w = (r, w')" by (cases "claim t w") auto
  show ?case
  proof (cases r)
    case (Inl e)
    with c claim_records [OF c] Cons.IH [of w'] show ?thesis by simp
  next
    case (Inr x)
    with c claim_records [OF c] claim_fresh [of t w x w'] Cons.IH [of w'] show ?thesis by auto
  qed
qed

lemma winners_distinct: "distinct (map key (winners claim ts w))"
proof (induction ts arbitrary: w)
  case Nil
  then show ?case by simp
next
  case (Cons t ts)
  obtain r w' where c: "claim t w = (r, w')" by fastforce
  show ?case
  proof (cases r)
    case (Inl e)
    with c Cons.IH show ?thesis by simp
  next
    case (Inr x)
    with claim_records [OF c] have "key t \<in> claimed w'" by simp
    with winners_fresh [of ts w'] have "key t \<notin> key ` set (winners claim ts w')" by blast
    with c Inr Cons.IH show ?thesis by simp
  qed
qed

end

interpretation ledger_claims: atomic_claims post t_key posted_keys
  by unfold_locales (auto simp: post_posted_keys elim: post_cases)

section \<open>Properties\<close>

text \<open>A small ledger for the witnesses: a treasury account and a tenant account, no postings.\<close>

definition sample_accounts :: "account_row list" where
  "sample_accounts =
     [\<lparr>acc_id = ''A'', acc_tenant = None, acc_type = ''treasury_fiat_operating'', acc_asset = ''NGN'',
       acc_unit = ''fiat'', acc_name = ''Treasury''\<rparr>,
      \<lparr>acc_id = ''B'', acc_tenant = Some ''T'', acc_type = ''tenant_payable'', acc_asset = ''NGN'',
       acc_unit = ''fiat'', acc_name = ''Tenant''\<rparr>]"

definition sample_ledger :: ledger_db where
  "sample_ledger = \<lparr>faults = [], now = 0, uuid_src = sample_src, uuid_next = 0, outbox = [], bus_on = True,
     accounts = sample_accounts, txns = [], entries = [], balances = [], discrepancies = []\<rparr>"

definition sample_txn :: "string \<Rightarrow> uuid \<Rightarrow> uuid \<Rightarrow> rat \<Rightarrow> txn" where
  "sample_txn k d c x = \<lparr>t_key = k, t_type = ''test'', t_ref_type = ''session'', t_ref_id = ''S'',
     t_created_by = ''test'', t_entries =
       [\<lparr>e_account = d, e_direction = Debit, e_amount = x, e_asset = ''NGN''\<rparr>,
        \<lparr>e_account = c, e_direction = Credit, e_amount = x, e_asset = ''NGN''\<rparr>]\<rparr>"

lemma sample_ledger_balanced: "ledger_balanced sample_ledger" "cache_ok sample_ledger" "one_open sample_ledger"
  by (simp_all add: ledger_balanced_def ids_ok_def sample_ledger_def inj_sample_src txn_net_def
      cache_ok_def cached_balance_def entries_net_def one_open_def)

text \<open>
  C2. A post that fails, for whatever reason and at whatever statement, leaves every table
  exactly as it was: a partial post is never observed.
\<close>

theorem post_all_or_nothing:
  assumes "post t w = (Inl e, w')"
  shows "accounts w' = accounts w \<and> txns w' = txns w \<and> entries w' = entries w \<and>
    balances w' = balances w \<and> discrepancies w' = discrepancies w \<and> outbox w' = outbox w"
  using post_error [OF assms] by auto

theorem post_all_or_nothing_witness:
  "entries (snd (post (sample_txn ''k'' ''A'' ''B'' 5) (sample_ledger\<lparr>faults := [False, False, False, True]\<rparr>))) = []"
proof -
  let ?w = "sample_ledger\<lparr>faults := [False, False, False, True]\<rparr>"
  have run: "post (sample_txn ''k'' ''A'' ''B'' 5) ?w = (Inl DbErr, snd (post (sample_txn ''k'' ''A'' ''B'' 5) ?w))"
    by (rule prod_eqI) (simp_all add: post_def sample_txn_def Debit_def Credit_def validate_balance_def
        insert_txn_def insert_entry_def add_balance_def post_entry_def sample_ledger_def atomically_def
        thenE_def bindE_def stmt_def tick_fault_def gen_uuid_def op_defs numeric_36_18_def round_half_away_def
        account_exists_def sample_accounts_def Let_def floor_divide_of_int_eq)
  from post_all_or_nothing [OF run] show ?thesis
    by (simp add: sample_ledger_def)
qed

text \<open>
  In any sequence of posts, under any failures of their statements, each idempotency key
  succeeds at most once, and never when it was already posted: the key is the atomic claim.
\<close>

lemma post_claims_once:
  "distinct (map t_key (winners post ts w)) \<and> t_key ` set (winners post ts w) \<inter> posted_keys w = {}"
  using ledger_claims.winners_distinct ledger_claims.winners_fresh by blast





text \<open>
  C21. \<open>validateBalance\<close>, which keeps one running sum per asset, accepts exactly the entry
  lists whose signed sum is zero in every asset.
\<close>

theorem validate_balance_correct:
  "validate_balance es = None \<longleftrightarrow> (\<forall>a. asset_net es a = 0)"
  by (rule validate_balance_iff)

text \<open>
  The reconciliation sweep, run without database failures and with sums that fit the
  columns of the case table, opens a case for every account whose cached balance differs from
  the sum of its entries.
\<close>

lemma sweep_flags_every_drift:
  assumes "faults w = []" and "(a, ten, cached, computed) \<in> set (drifted w)"
    and "\<forall>(a, ten, c, s) \<in> set (drifted w). drift_fits c s"
  shows "discrepancy_open a (snd (sweep_once w))"
proof -
  obtain w' where "forE (drifted w) (\<lambda>(a, ten, c, s). flag_drift a ten c s) w = (Inr (), w')"
      "\<forall>(a, x) \<in> set (drifted w). discrepancy_open a w'"
    using flag_all_Nil [OF assms(1,3)] by blast
  with assms(1,2) show ?thesis by (auto simp: sweep_once_def op_simps)
qed

text \<open>
  Whatever fails during a sweep, an account never has more than one open discrepancy, and
  the sweep never writes the ledger itself: transactions, entries and cached balances stay.
\<close>

lemma sweep_one_case_no_repair:
  assumes "one_open w"
  shows "one_open (snd (sweep_once w)) \<and> txns (snd (sweep_once w)) = txns w \<and>
    entries (snd (sweep_once w)) = entries w \<and> balances (snd (sweep_once w)) = balances w"
proof -
  have "txns (snd (sweep_once w)) = txns w" "entries (snd (sweep_once w)) = entries w"
      "balances (snd (sweep_once w)) = balances w"
    by (rule frameD, intro frame_rules; simp)+
  then show ?thesis
    using keepsD [OF keeps_one_open_sweep assms] by simp
qed

text \<open>
  Amounts with more than eighteen digits break both invariants through \<open>Post\<close> alone,
  because \<open>validateBalance\<close> and the balance update use the unrounded amount while each entry
  is stored rounded: a posting and its exact reversal leave a cached balance that differs from
  the sum of the entries, which the sweep then reports.
\<close>

lemma post_rounding_drifts:
  "let x = 3 / (2 * 10 ^ 18);
       (r1, w1) = post (sample_txn ''k1'' ''A'' ''B'' x) sample_ledger;
       (r2, w2) = post (sample_txn ''k2'' ''B'' ''A'' x) w1
   in r1 = Inr (sample_src 0) \<and> r2 = Inr (sample_src 1) \<and>
      drifted w2 = [(''A'', None, 1 / 10 ^ 18, 0), (''B'', Some ''T'', - 1 / 10 ^ 18, 0)]"
proof -
  let ?x = "3 / (2 * 10 ^ 18) :: rat"
  note run = post_def sample_txn_def Debit_def Credit_def validate_balance_def entry_delta_def
        insert_txn_def insert_entry_def add_balance_def post_entry_def sample_ledger_def atomically_def
        thenE_def bindE_def stmt_def tick_fault_def gen_uuid_def op_defs numeric_36_18_def round_half_away_def
        account_exists_def sample_accounts_def Let_def floor_divide_of_int_eq cached_balance_def
        drifted_def entries_net_def row_delta_def
  obtain w1 where w1: "post (sample_txn ''k1'' ''A'' ''B'' ?x) sample_ledger = (Inr (sample_src 0), w1)"
    and s1: "w1 = sample_ledger\<lparr>uuid_next := 1,
       txns := [new_txn (sample_src 0) (sample_txn ''k1'' ''A'' ''B'' ?x)],
       entries := map (stored (sample_src 0)) (t_entries (sample_txn ''k1'' ''A'' ''B'' ?x)),
       balances := [(''A'', 2 / 10 ^ 18), (''B'', - 2 / 10 ^ 18)]\<rparr>"
    by (simp add: run new_txn_def stored_def)
  show ?thesis
    unfolding Let_def w1 prod.case s1
    by (simp add: run new_txn_def stored_def)
qed

end
