(* ===== verification/Text.thy ===== *)
theory Text
  imports Prelude
begin

text \<open>
  The functions of \<^verbatim>\<open>strings\<close>, \<^verbatim>\<open>encoding/hex\<close> and \<^verbatim>\<open>encoding/base64\<close> that the code
  calls. A string is the list of its bytes; the texts the code upper-cases or trims (codes of
  assets, networks and currencies, secrets) are ASCII.
\<close>

definition byte :: "char \<Rightarrow> nat" where "byte c = of_char c"

definition upper_char :: "char \<Rightarrow> char" where
  "upper_char c = (if 97 \<le> byte c \<and> byte c \<le> 122 then char_of (byte c - 32) else c)"

definition lower_char :: "char \<Rightarrow> char" where
  "lower_char c = (if 65 \<le> byte c \<and> byte c \<le> 90 then char_of (byte c + 32) else c)"

definition to_upper :: "string \<Rightarrow> string" where "to_upper s = map upper_char s"
definition to_lower :: "string \<Rightarrow> string" where "to_lower s = map lower_char s"

definition is_space :: "char \<Rightarrow> bool" where
  "is_space c \<longleftrightarrow> byte c = 32 \<or> (9 \<le> byte c \<and> byte c \<le> 13)"

definition trim_space :: "string \<Rightarrow> string" where
  "trim_space s = rev (dropWhile is_space (rev (dropWhile is_space s)))"

definition has_prefix :: "string \<Rightarrow> string \<Rightarrow> bool" where
  "has_prefix s p \<longleftrightarrow> take (length p) s = p"

text \<open>\<open>strings.CutPrefix\<close> and \<open>strings.TrimRight(s, "/")\<close>.\<close>

definition cut_prefix :: "string \<Rightarrow> string \<Rightarrow> string option" where
  "cut_prefix s p = (if has_prefix s p then Some (drop (length p) s) else None)"

definition trim_slashes :: "string \<Rightarrow> string" where
  "trim_slashes s = rev (dropWhile (\<lambda>c. c = CHR ''/'') (rev s))"

text \<open>The decimal digits of an integer, as \<open>%d\<close> and \<open>strconv\<close> print them.\<close>

definition digit :: "nat \<Rightarrow> char" where "digit n = ''0123456789'' ! n"

fun dec_nat :: "nat \<Rightarrow> string" where
  "dec_nat n = (if n < 10 then [digit n] else dec_nat (n div 10) @ [digit (n mod 10)])"

declare dec_nat.simps [simp del]

definition dec_int :: "int \<Rightarrow> string" where
  "dec_int i = (if i < 0 then ''-'' @ dec_nat (nat (- i)) else dec_nat (nat i))"

text \<open>\<open>html.EscapeString\<close>\<close>

definition html_char :: "char \<Rightarrow> string" where
  "html_char c = (if c = CHR ''&'' then ''&amp;'' else if byte c = 39 then ''&#39;'' else if c = CHR ''<'' then ''&lt;''
     else if c = CHR ''>'' then ''&gt;'' else if byte c = 34 then ''&#34;'' else [c])"

definition html_escape :: "string \<Rightarrow> string" where
  "html_escape s = concat (map html_char s)"

section \<open>Encodings of bytes\<close>

definition hex_digit :: "nat \<Rightarrow> char" where
  "hex_digit n = ''0123456789abcdef'' ! n"

definition hex_encode :: "string \<Rightarrow> string" where
  "hex_encode s = concat (map (\<lambda>c. [hex_digit (byte c div 16), hex_digit (byte c mod 16)]) s)"

definition base64_digit :: "nat \<Rightarrow> char" where
  "base64_digit n = ''ABCDEFGHIJKLMNOPQRSTUVWXYZabcdefghijklmnopqrstuvwxyz0123456789+/'' ! n"

fun base64_encode :: "string \<Rightarrow> string" where
  "base64_encode [] = []"
| "base64_encode [a] = (let n = byte a * 16 in
     [base64_digit (n div 64), base64_digit (n mod 64), CHR ''='', CHR ''=''])"
| "base64_encode [a, b] = (let n = (byte a * 256 + byte b) * 4 in
     [base64_digit (n div 4096), base64_digit (n div 64 mod 64), base64_digit (n mod 64), CHR ''=''])"
| "base64_encode (a # b # c # s) = (let n = (byte a * 256 + byte b) * 256 + byte c in
     base64_digit (n div 262144) # base64_digit (n div 4096 mod 64) # base64_digit (n div 64 mod 64)
       # base64_digit (n mod 64) # base64_encode s)"

section \<open>The encodings are injective\<close>

lemma byte_less [simp]: "byte c < 256"
  by (simp add: byte_def)

lemma byte_inject [simp]: "byte a = byte b \<longleftrightarrow> a = b"
  by (simp add: byte_def)

lemma distinct_hex: "distinct ''0123456789abcdef''"
  by simp

lemma hex_digit_inject: "m < 16 \<Longrightarrow> n < 16 \<Longrightarrow> hex_digit m = hex_digit n \<longleftrightarrow> m = n"
  unfolding hex_digit_def by (rule nth_eq_iff_index_eq [OF distinct_hex]) simp_all

lemma hex_encode_simps [simp]:
  "hex_encode [] = []"
  "hex_encode (c # s) = hex_digit (byte c div 16) # hex_digit (byte c mod 16) # hex_encode s"
  by (simp_all add: hex_encode_def)

lemma hex_encode_inject: "hex_encode s = hex_encode t \<longleftrightarrow> s = t"
proof (induction s arbitrary: t)
  case Nil
  then show ?case by (cases t) simp_all
next
  case (Cons c s)
  have "byte c = byte d" if "hex_digit (byte c div 16) = hex_digit (byte d div 16)"
    "hex_digit (byte c mod 16) = hex_digit (byte d mod 16)" for d
  proof -
    have "byte c div 16 < 16" "byte d div 16 < 16"
      using byte_less [of c] byte_less [of d] by (simp_all add: div_less_iff_less_mult del: byte_less)
    with that have "byte c div 16 = byte d div 16" "byte c mod 16 = byte d mod 16"
      by (simp_all add: hex_digit_inject)
    then show ?thesis by (metis div_mult_mod_eq)
  qed
  with Cons.IH show ?case by (cases t) auto
qed

section \<open>Decimal digits\<close>

lemma dec_nat_small [simp]: "n < 10 \<Longrightarrow> dec_nat n = [digit n]"
  by (simp add: dec_nat.simps)

lemma dec_nat_large: "10 \<le> n \<Longrightarrow> dec_nat n = dec_nat (n div 10) @ [digit (n mod 10)]"
  by (subst dec_nat.simps) simp

lemma dec_nat_not_Nil [simp]: "dec_nat n \<noteq> []" "[] \<noteq> dec_nat n"
  by (subst dec_nat.simps, simp)+

lemma digit_inject: "m < 10 \<Longrightarrow> n < 10 \<Longrightarrow> digit m = digit n \<longleftrightarrow> m = n"
  unfolding digit_def by (rule nth_eq_iff_index_eq) simp_all

lemma digit_mem: "n < 10 \<Longrightarrow> digit n \<in> set ''0123456789''"
  unfolding digit_def by (rule nth_mem) simp

lemma dec_nat_digits: "set (dec_nat n) \<subseteq> set ''0123456789''"
proof (induction n rule: dec_nat.induct)
  case (1 n)
  have "digit (n mod 10) \<in> set ''0123456789''" by (simp only: digit_mem mod_less_divisor zero_less_numeral)
  then have last: "set [digit (n mod 10)] \<subseteq> set ''0123456789''" by (simp only: list.set insert_subset) blast
  show ?case
  proof (cases "n < 10")
    case True
    then show ?thesis using last by (simp only: dec_nat_small mod_less)
  next
    case False
    then show ?thesis using "1.IH" last by (simp only: dec_nat_large not_less set_append Un_subset_iff)
  qed
qed

lemma dec_nat_inject [simp]: "dec_nat m = dec_nat n \<longleftrightarrow> m = n"
proof (induction m arbitrary: n rule: dec_nat.induct)
  case (1 m)
  show ?case
  proof (cases "m < 10"; cases "n < 10")
    assume mn: "\<not> m < 10" "\<not> n < 10"
    then have "dec_nat m = dec_nat n \<longleftrightarrow> dec_nat (m div 10) = dec_nat (n div 10) \<and> m mod 10 = n mod 10"
      by (simp add: dec_nat_large digit_inject)
    also have "\<dots> \<longleftrightarrow> m div 10 = n div 10 \<and> m mod 10 = n mod 10"
      using "1.IH" [OF mn(1)] by simp
    also have "\<dots> \<longleftrightarrow> m = n" by (metis div_mult_mod_eq)
    finally show ?thesis .
  qed (auto simp: dec_nat_large digit_inject)
qed

text \<open>A number at the end of a text, after a separator that is no digit.\<close>

lemma numbered_inject:
  assumes "a @ sep # dec_nat m = b @ sep # dec_nat n" and "sep \<notin> set ''0123456789''"
  shows "a = b \<and> m = n"
proof -
  have m: "sep \<notin> set (dec_nat m)" and n: "sep \<notin> set (dec_nat n)"
    using dec_nat_digits assms(2) by blast+
  have tail: "takeWhile (\<lambda>c. c \<noteq> sep) (rev (x @ sep # y)) = rev y" if "sep \<notin> set y" for x y
    using that by (subst rev_append, subst rev.simps(2), subst append_assoc, subst takeWhile_append2) auto
  have "rev (dec_nat m) = rev (dec_nat n)"
    using tail [OF m, of a] tail [OF n, of b] assms(1) by simp
  then show ?thesis using assms(1) by simp
qed

end
