(* ===== verification/Json.thy ===== *)
theory Json
  imports Text
begin

text \<open>
  JSON values as \<open>encoding/json\<close> decodes them into \<open>any\<close> and Postgres keeps them in a
  \<open>JSONB\<close> column. A \<open>json.RawMessage\<close> is absent (\<open>RawNil\<close>), not JSON (\<open>RawInvalid\<close>)
  or a value. In an object with a repeated key the last binding counts, for both.
\<close>

datatype json =
    JNull
  | JBool bool
  | JNum rat
  | JStr string
  | JArr "json list"
  | JObj "(string \<times> json) list"

datatype raw_json = RawNil | RawInvalid | RawJson json

text \<open>\<open>json.Unmarshal(raw, &m)\<close> for \<open>m map[string]any\<close>, skipped for an absent message.\<close>

fun object_fields :: "raw_json \<Rightarrow> (string \<times> json) list option" where
  "object_fields RawNil = Some []"
| "object_fields RawInvalid = None"
| "object_fields (RawJson JNull) = Some []"
| "object_fields (RawJson (JObj kvs)) = Some kvs"
| "object_fields (RawJson _) = None"

definition json_get :: "(string \<times> json) list \<Rightarrow> string \<Rightarrow> json option" where
  "json_get kvs k = map_of (rev kvs) k"

text \<open>\<open>m[k].(string)\<close> and the value is not empty.\<close>

definition has_text :: "(string \<times> json) list \<Rightarrow> string \<Rightarrow> bool" where
  "has_text kvs k = (case json_get kvs k of Some (JStr s) \<Rightarrow> s \<noteq> '''' | _ \<Rightarrow> False)"

text \<open>The required fields that are absent, not a string, or empty.\<close>

definition missing_fields :: "string list \<Rightarrow> (string \<times> json) list \<Rightarrow> string list" where
  "missing_fields req kvs = filter (\<lambda>k. \<not> has_text kvs k) req"

lemma missing_fields_Nil_iff: "missing_fields req kvs = [] \<longleftrightarrow> (\<forall>k \<in> set req. has_text kvs k)"
  by (simp add: missing_fields_def filter_empty_conv)

lemma has_text_iff: "has_text kvs k \<longleftrightarrow> (\<exists>s. json_get kvs k = Some (JStr s) \<and> s \<noteq> '''')"
  by (auto simp: has_text_def split: option.splits json.splits)

section \<open>Decoding into a struct\<close>

text \<open>
  \<open>json.Unmarshal\<close> into a struct matches the keys without regard to case (the model folds ASCII
  letters only) and visits the bindings in order: a later one overwrites, \<open>null\<close> leaves a field
  alone and clears a pointer, a value of the wrong type is skipped and makes the call return an
  error in the end. \<open>str_lax\<close> is the field afterwards, \<open>str_field\<close> is \<open>None\<close> when there was such an
  error. Field names are given in lower case.
\<close>

definition vals_at :: "(string \<times> json) list \<Rightarrow> string \<Rightarrow> json list" where
  "vals_at kvs n = map snd (filter (\<lambda>(k, v). to_lower k = n) kvs)"

definition str_lax :: "(string \<times> json) list \<Rightarrow> string \<Rightarrow> string" where
  "str_lax kvs n = fold (\<lambda>j s. case j of JStr t \<Rightarrow> t | _ \<Rightarrow> s) (vals_at kvs n) ''''"

definition str_field :: "(string \<times> json) list \<Rightarrow> string \<Rightarrow> string option" where
  "str_field kvs n = (if list_all (\<lambda>j. case j of JStr t \<Rightarrow> True | JNull \<Rightarrow> True | _ \<Rightarrow> False) (vals_at kvs n)
     then Some (str_lax kvs n) else None)"

text \<open>A nested struct, and a pointer to one: two bindings of an object are merged.\<close>

definition obj_lax :: "(string \<times> json) list \<Rightarrow> string \<Rightarrow> (string \<times> json) list" where
  "obj_lax kvs n = concat (map (\<lambda>j. case j of JObj o' \<Rightarrow> o' | _ \<Rightarrow> []) (vals_at kvs n))"

definition obj_field :: "(string \<times> json) list \<Rightarrow> string \<Rightarrow> (string \<times> json) list option" where
  "obj_field kvs n = (if list_all (\<lambda>j. case j of JObj o' \<Rightarrow> True | JNull \<Rightarrow> True | _ \<Rightarrow> False) (vals_at kvs n)
     then Some (obj_lax kvs n) else None)"

definition obj_ptr :: "(string \<times> json) list \<Rightarrow> string \<Rightarrow> (string \<times> json) list option option" where
  "obj_ptr kvs n = (if list_all (\<lambda>j. case j of JObj o' \<Rightarrow> True | JNull \<Rightarrow> True | _ \<Rightarrow> False) (vals_at kvs n)
     then Some (fold (\<lambda>j p. case j of JObj o' \<Rightarrow> (case p of None \<Rightarrow> Some o' | Some q \<Rightarrow> Some (q @ o')) | _ \<Rightarrow> None) (vals_at kvs n) None)
     else None)"

text \<open>A \<open>*bool\<close>, and an integer field with its range.\<close>

definition bool_ptr_lax :: "(string \<times> json) list \<Rightarrow> string \<Rightarrow> bool option" where
  "bool_ptr_lax kvs n = fold (\<lambda>j p. case j of JBool b \<Rightarrow> Some b | JNull \<Rightarrow> None | _ \<Rightarrow> p) (vals_at kvs n) None"

definition int64_value :: "rat \<Rightarrow> bool" where
  "int64_value x \<longleftrightarrow> of_int \<lfloor>x\<rfloor> = x \<and> - (2 ^ 63) \<le> x \<and> x < 2 ^ 63"

definition int_field :: "(string \<times> json) list \<Rightarrow> string \<Rightarrow> int option" where
  "int_field kvs n = (if list_all (\<lambda>j. case j of JNum x \<Rightarrow> int64_value x | JNull \<Rightarrow> True | _ \<Rightarrow> False) (vals_at kvs n)
     then Some (fold (\<lambda>j i. case j of JNum x \<Rightarrow> \<lfloor>x\<rfloor> | _ \<Rightarrow> i) (vals_at kvs n) 0) else None)"

text \<open>The bindings of a whole document: \<open>null\<close> decodes to an empty struct.\<close>

fun struct_fields :: "json option \<Rightarrow> (string \<times> json) list option" where
  "struct_fields (Some (JObj kvs)) = Some kvs"
| "struct_fields (Some JNull) = Some []"
| "struct_fields _ = None"

text \<open>
  A \<open>bool\<close>, a \<open>uint32\<close>, and a slice of structs, where a \<open>null\<close> element is a zero struct. A key that
  holds two arrays does not occur (Go would decode the second into the elements of the first).
\<close>

definition bool_field :: "(string \<times> json) list \<Rightarrow> string \<Rightarrow> bool option" where
  "bool_field kvs n = (if list_all (\<lambda>j. case j of JBool b \<Rightarrow> True | JNull \<Rightarrow> True | _ \<Rightarrow> False) (vals_at kvs n)
     then Some (fold (\<lambda>j b. case j of JBool c \<Rightarrow> c | _ \<Rightarrow> b) (vals_at kvs n) False) else None)"

definition uint32_field :: "(string \<times> json) list \<Rightarrow> string \<Rightarrow> int option" where
  "uint32_field kvs n = (if list_all (\<lambda>j. case j of JNum x \<Rightarrow> 0 \<le> x \<and> x < 2 ^ 32 | _ \<Rightarrow> True) (vals_at kvs n)
     then int_field kvs n else None)"

fun struct_elements :: "json \<Rightarrow> (string \<times> json) list list option" where
  "struct_elements JNull = Some []"
| "struct_elements (JArr js) = those (map (\<lambda>j. struct_fields (Some j)) js)"
| "struct_elements _ = None"

definition objs_field :: "(string \<times> json) list \<Rightarrow> string \<Rightarrow> (string \<times> json) list list option" where
  "objs_field kvs n = map_option (\<lambda>xs. if xs = [] then [] else last xs) (those (map struct_elements (vals_at kvs n)))"

text \<open>A whole document that is such a slice.\<close>

definition struct_list :: "json option \<Rightarrow> (string \<times> json) list list option" where
  "struct_list d = (case d of None \<Rightarrow> None | Some j \<Rightarrow> struct_elements j)"

end
