(* ===== verification/Schema.thy ===== *)
theory Schema
  imports Ledger Json Text "HOL-Library.Word"
begin

text \<open>
  The tables that more than one component reads, and the state of the whole engine: the
  ledger and the outbox extended with every other table the model covers. Each row record
  has the columns of its table (migrations under \<^verbatim>\<open>src/migrations\<close>) that the code reads or
  writes; \<open>env\<close> holds what the process takes from outside, which no operation changes.
\<close>

section \<open>Corridors and entitlements\<close>

record corridor_in =
  co_asset :: string
  co_network :: string
  co_fiat :: string
  co_active :: bool
  co_min :: "rat option"
  co_max :: "rat option"
  co_threshold :: "rat option"
  co_window :: time
  co_hold :: time
  co_fields :: "string list"

record corridor = corridor_in +
  co_id :: uuid
  co_created :: time

record binding_in =
  pb_type :: string
  pb_name :: string
  pb_priority :: int

record binding = binding_in +
  pb_id :: uuid
  pb_corridor :: uuid
  pb_active :: bool
  pb_config :: json

record entitlement =
  en_tenant :: uuid
  en_corridor :: uuid
  en_active :: bool
  en_fee_override :: "int option"
  en_disabled_by_admin :: bool

section \<open>Rates\<close>

record system_rate =
  sr_fiat :: string
  sr_current :: rat
  sr_merchant :: rat
  sr_profit :: rat
  sr_updated :: time

record quote =
  q_provider :: string
  q_rate :: rat
  q_fetched :: time

record provider_rate =
  pr_provider :: string
  pr_fiat :: string
  pr_rate :: rat
  pr_fetched :: time

record current_rate =
  cr_fiat :: string
  cr_rate :: rat
  cr_provider :: string
  cr_computed :: time

record lock =
  lk_id :: uuid
  lk_asset :: string
  lk_fiat :: string
  lk_rate :: rat
  lk_price :: rat
  lk_provider :: string
  lk_locked :: time
  lk_expires :: time

section \<open>Compliance cases\<close>

record compliance_case =
  cc_id :: uuid
  cc_type :: string
  cc_ref_type :: string
  cc_ref_id :: uuid
  cc_status :: string
  cc_provider :: "string option"
  cc_reason :: "string option"
  cc_data :: json
  cc_hold_expires :: "time option"
  cc_resolved_by :: "uuid option"
  cc_created :: time
  cc_resolved_at :: "time option"
  cc_currencies :: "string list"

record jurisdiction =
  ju_id :: uuid
  ju_fiat :: string
  ju_name :: string
  ju_fields :: "string list"

section \<open>Treasury\<close>

record reservation =
  rv_id :: uuid
  rv_tenant :: uuid
  rv_corridor :: uuid
  rv_provider :: string
  rv_custody :: string
  rv_asset :: string
  rv_network :: string
  rv_address :: string
  rv_tag :: string
  rv_reference :: string
  rv_status :: string
  rv_reserved_at :: time
  rv_released_at :: "time option"

record deposit =
  dp_id :: uuid
  dp_reservation :: uuid
  dp_status :: string
  dp_asset :: string
  dp_amount :: rat
  dp_tx :: string
  dp_payload :: string
  dp_detected_at :: "time option"
  dp_confirmed_at :: "time option"
  dp_swept_at :: "time option"

record instructions =
  di_reservation :: uuid
  di_tenant :: uuid
  di_provider :: string
  di_asset :: string
  di_network :: string
  di_address :: string
  di_tag :: string
  di_amount :: string
  di_expires :: "time option"

section \<open>Sessions\<close>

record session =
  s_id :: uuid
  s_tenant :: uuid
  s_corridor :: uuid
  s_status :: string
  s_fiat :: string
  s_fiat_amount :: rat
  s_asset :: string
  s_network :: string
  s_case :: "uuid option"
  s_lock :: "uuid option"
  s_reservation :: "uuid option"
  s_sla :: "time option"
  s_destination :: json
  s_instructions :: "instructions option"
  s_created :: time
  s_updated :: time

section \<open>Settlements\<close>

record settlement =
  st_id :: uuid
  st_session :: uuid
  st_tenant :: uuid
  st_corridor :: uuid
  st_status :: string
  st_asset :: string
  st_crypto_amount :: rat
  st_fiat :: string
  st_fiat_value :: rat
  st_payable :: rat
  st_attempts :: int
  st_deadline :: "time option"
  st_paged :: "time option"
  st_destination :: "json option"
  st_created :: time
  st_updated :: time

record attempt =
  at_id :: uuid
  at_settlement :: uuid
  at_number :: int
  at_provider :: string
  at_key :: string
  at_status :: string
  at_reference :: "string option"
  at_reason :: "string option"
  at_payload :: json
  at_dispatched :: time
  at_resolved :: "time option"

record reversal =
  re_id :: uuid
  re_settlement :: uuid
  re_session :: uuid
  re_status :: string
  re_reason :: string
  re_reported :: time
  re_resolved_by :: "uuid option"
  re_resolved_at :: "time option"
  re_note :: "string option"

record payout_request =
  pq_session :: uuid
  pq_number :: int
  pq_key :: string
  pq_fiat :: string
  pq_amount :: rat
  pq_destination :: json

datatype outcome = OutcomeAccepted | OutcomeRejectedRetryable | OutcomeRejectedTerminal | OutcomeUncertain

record payout_result =
  px_outcome :: outcome
  px_reference :: string
  px_reason :: string

section \<open>Sweeps\<close>

record sweep =
  sw_id :: uuid
  sw_reservation :: uuid
  sw_asset :: string
  sw_amount :: rat
  sw_destination :: string
  sw_status :: string
  sw_tx :: "string option"

section \<open>Tenants and their credentials\<close>

record tenant =
  tn_id :: uuid
  tn_name :: string
  tn_status :: string
  tn_email :: "string option"
  tn_webhook :: "string option"
  tn_secret :: "string option"
  tn_created :: time
  tn_deleted :: "time option"

record api_key =
  ak_id :: uuid
  ak_tenant :: uuid
  ak_key :: string
  ak_secret :: string
  ak_active :: bool
  ak_created :: time
  ak_revoked :: "time option"
  ak_tier :: string
  ak_cidrs :: "string list"
  ak_permissions :: "string list"

record magic_link =
  ml_hash :: string
  ml_tenant :: uuid
  ml_expires :: time
  ml_consumed :: "time option"

record portal_session =
  po_hash :: string
  po_tenant :: uuid
  po_expires :: time

record idempotency_key =
  ik_tenant :: uuid
  ik_key :: string
  ik_response :: "(int \<times> json option) option"

text \<open>The two windows of the request counter of one key (\<^verbatim>\<open>internal/platform/ratelimit\<close>), kept in memory.\<close>

record bucket =
  bk_start :: time
  bk_prev :: int
  bk_curr :: int

section \<open>Notifications\<close>

text \<open>The body of a delivery: the event, its aggregate, its tenant, its payload and when it was written.\<close>

record delivery_body =
  db_event :: string
  db_agg_type :: string
  db_agg_id :: uuid
  db_tenant :: "uuid option"
  db_payload :: "(string \<times> pval) list"
  db_created :: time

record delivery =
  nd_id :: uuid
  nd_tenant :: "uuid option"
  nd_event :: string
  nd_agg_type :: string
  nd_agg_id :: uuid
  nd_channel :: string
  nd_destination :: string
  nd_body :: delivery_body
  nd_status :: string
  nd_attempts :: nat
  nd_next :: time
  nd_error :: "string option"
  nd_delivered :: "time option"
  nd_created :: time

text \<open>What the watcher tells a tenant about a deposit to a wallet of its own.\<close>

record deposit_notice =
  dn_event :: string
  dn_tenant :: uuid
  dn_reservation :: uuid
  dn_asset :: string
  dn_network :: string
  dn_address :: string
  dn_amount :: rat
  dn_tx :: string
  dn_time :: time

section \<open>The crypto catalog and the identity checks\<close>

record catalog_entry =
  ce_code :: string
  ce_name :: string
  ce_active :: bool
  ce_created :: time
  ce_updated :: time

record kyc_check =
  kc_id :: uuid
  kc_tenant :: uuid
  kc_api_key :: "uuid option"
  kc_provider :: string
  kc_type :: string
  kc_hash :: string
  kc_result :: string
  kc_checks :: "(string \<times> string) list"
  kc_fee :: "(rat \<times> string option) option"
  kc_created :: time

section \<open>Administrators\<close>

record admin_user =
  au_id :: uuid
  au_email :: string
  au_hash :: "string option"
  au_disabled :: "time option"
  au_subject :: "string option"

record admin_session =
  as_hash :: string
  as_admin :: uuid
  as_expires :: time

record admin_action =
  aa_id :: uuid
  aa_admin :: uuid
  aa_action :: string
  aa_target :: string
  aa_metadata :: json
  aa_created :: time

record request_record =
  rr_request :: string
  rr_method :: string
  rr_path :: string
  rr_action :: string
  rr_resource :: "string option \<times> string option"
  rr_client_ip :: string
  rr_user_agent :: string
  rr_body_hash :: string
  rr_status :: int
  rr_millis :: int
  rr_tenant :: "uuid option"
  rr_api_key :: "uuid option"
  rr_admin :: "uuid option"

section \<open>What comes from outside\<close>

text \<open>
  The externals: the divisions, roundings and texts of the decimal library, the screening
  vendors, the collection partner, the price source, the payout providers and the Telegram Bot
  API, HMAC-SHA256, the key derivation and address encodings of the wallet libraries, AES-GCM, the
  parsers of UUIDs, JSON texts and floating-point numbers, and the configuration. An answer from the network may depend on everything asked before, so
  those functions take the log of the calls made so far.
\<close>

text \<open>
  A reply over HTTP: none (with the reason the client reports), or a status and a body. The
  requests to Hyparrow's money-transfer API and to the Telegram Bot API.
\<close>

datatype http_reply = NoReply string | Reply int string

record hy_send =
  hs_amount :: string
  hs_account :: string
  hs_bank :: string
  hs_name :: string
  hs_phone :: string
  hs_email :: string
  hs_lastname :: string
  hs_othernames :: string
  hs_narration :: string
  hs_ref :: string

datatype hy_request = HyInquiry string string | HySend hy_send | HyStatus string

record tg_button =
  tb_text :: string
  tb_callback :: string
  tb_copy :: "string option"

datatype tg_call =
    TgSend string "tg_button list list option"
  | TgAnswer string string bool
  | TgClear int int

record adapter_config =
  ad_enabled :: bool
  ad_secret :: string

record hyparrow_config =
  hc_enabled :: bool
  hc_url :: string
  hc_key :: string
  hc_api_secret :: string
  hc_secret :: string
  hc_phone :: string
  hc_email :: string
  hc_lastname :: string
  hc_othernames :: string

record telegram_config =
  tc_enabled :: bool
  tc_token :: string
  tc_chat :: string
  tc_secret :: string

record provider_address =
  pa_address :: string
  pa_tag :: string
  pa_reference :: string
  pa_amount :: string
  pa_expires :: "time option"

text \<open>A transfer of the Busha Business API, as its replies and events carry it.\<close>

record busha_transfer =
  bt_id :: string
  bt_source :: string
  bt_target :: string
  bt_amount :: rat
  bt_status :: string
  bt_type :: string
  bt_address :: string
  bt_network :: string
  bt_memo :: string
  bt_expires :: "time option"

record decision =
  de_approved :: bool
  de_hold :: bool
  de_reason :: string

text \<open>
  The requests to the block explorers, the EVM nodes and the Tron node. An IP address is four or
  sixteen bytes (\<open>IPv4\<close> also when Go keeps four bytes in the sixteen of a mapped address, as \<open>To4\<close>
  undoes that everywhere), the result of parsing a URL the parts the code looks at, and a private key the
  path it was derived on, in the wallet of a mnemonic.
\<close>

datatype chain_request =
    EsploraTxs string
  | EsploraUtxos string
  | EsploraTip
  | EsploraBroadcast string
  | ScanTxList string string
  | ScanTokenTx string string string
  | ScanNonce string string
  | ScanGasPrice string
  | ScanBalance string string
  | ScanTip string
  | ScanSendRaw string string
  | GridTransfers string string
  | GridAccount string
  | GridNowBlock
  | TronTransfer string string int
  | TronTokenTransfer string string string int int

datatype ip_address = IPv4 "32 word" | IPv6 "128 word"

record url_parts =
  ur_scheme :: string
  ur_host :: string
  ur_hostname :: string
  ur_path :: string
  ur_opaque :: bool
  ur_user :: bool
  ur_query :: bool
  ur_fragment :: bool

type_synonym private_key = "string \<times> 32 word list"

record kyc_lookup =
  kl_type :: string
  kl_number :: string
  kl_first :: string
  kl_last :: string

record chain_config =
  ch_enabled :: bool
  ch_min_confirmations :: int

record email_config =
  em_enabled :: bool
  em_provider :: string
  em_ops :: string

datatype ext_call =
    CallPayout string payout_request
  | CallHyparrow hy_request
  | CallTelegram tg_call
  | CallScreen string uuid
  | CallBushaQuote string string rat
  | CallBushaTransfer string
  | CallPrice string
  | CallRate string string
  | CallChain chain_request
  | CallWebhook string string string
  | CallEmail string string string
  | CallKyc kyc_lookup
  | CallResolve string

record externals =
  x_div :: "rat \<Rightarrow> rat \<Rightarrow> rat"
  x_round_up :: "nat \<Rightarrow> rat \<Rightarrow> rat"
  x_dec_text :: "rat \<Rightarrow> string"
  x_screen :: "string \<Rightarrow> (ext_call list \<Rightarrow> compliance_case \<Rightarrow> err + decision) option"
  x_busha_quote :: "ext_call list \<Rightarrow> string \<Rightarrow> string \<Rightarrow> rat \<Rightarrow> err + string"
  x_busha_transfer :: "ext_call list \<Rightarrow> string \<Rightarrow> err + busha_transfer"
  x_busha_decode :: "string \<Rightarrow> (string \<times> busha_transfer) option"
  x_hmac :: "string \<Rightarrow> string \<Rightarrow> string"
  x_address :: "string \<Rightarrow> string \<Rightarrow> 32 word list \<Rightarrow> err + string"
  x_valid_address :: "string \<Rightarrow> string \<Rightarrow> bool"
  x_mnemonic_ok :: "string \<Rightarrow> bool"
  x_encrypt :: "nat \<Rightarrow> string \<Rightarrow> string \<Rightarrow> err + string"
  x_decrypt :: "string \<Rightarrow> string \<Rightarrow> err + string"
  x_price :: "ext_call list \<Rightarrow> string \<Rightarrow> err + rat"
  x_live_rate :: "ext_call list \<Rightarrow> string \<Rightarrow> string \<Rightarrow> err + rat"
  x_round :: "nat \<Rightarrow> rat \<Rightarrow> rat"
  x_fixed :: "nat \<Rightarrow> rat \<Rightarrow> string"
  x_decimal_ok :: "string \<Rightarrow> bool"
  x_json :: "string \<Rightarrow> json option"
  x_float_nanos :: "string \<Rightarrow> int option"
  x_uuid_parse :: "string \<Rightarrow> uuid option"
  x_http_payout :: "ext_call list \<Rightarrow> string \<Rightarrow> payout_request \<Rightarrow> string + http_reply"
  x_hyparrow :: "ext_call list \<Rightarrow> hy_request \<Rightarrow> http_reply"
  x_telegram :: "ext_call list \<Rightarrow> tg_call \<Rightarrow> bool"
  x_chain :: "ext_call list \<Rightarrow> chain_request \<Rightarrow> http_reply"
  x_decimal :: "string \<Rightarrow> rat option"
  x_keccak :: "string \<Rightarrow> string"
  x_sign :: "private_key \<Rightarrow> string \<Rightarrow> string"
  x_key_address :: "private_key \<Rightarrow> string \<Rightarrow> string"
  x_btc_tx :: "private_key \<Rightarrow> (string \<times> nat \<times> int) list \<Rightarrow> string \<Rightarrow> int \<Rightarrow> err + string"
  x_sha256 :: "string \<Rightarrow> string"
  x_random :: "nat \<Rightarrow> nat \<Rightarrow> string"
  x_url :: "string \<Rightarrow> url_parts option"
  x_resolve :: "ext_call list \<Rightarrow> string \<Rightarrow> ip_address list option"
  x_webhook :: "ext_call list \<Rightarrow> string \<Rightarrow> string \<Rightarrow> string \<Rightarrow> http_reply"
  x_email :: "ext_call list \<Rightarrow> string \<Rightarrow> string \<Rightarrow> string \<Rightarrow> string option"
  x_body_text :: "delivery_body \<Rightarrow> string"
  x_notice_text :: "deposit_notice \<Rightarrow> string"
  x_ip :: "string \<Rightarrow> ip_address option"
  x_cidr :: "string \<Rightarrow> (ip_address \<times> nat) option"
  x_kyc :: "ext_call list \<Rightarrow> kyc_lookup \<Rightarrow> http_reply"
  x_date :: "string \<Rightarrow> string \<Rightarrow> string option"
  x_password :: "string \<Rightarrow> string \<Rightarrow> bool"
  x_password_hash :: "nat \<Rightarrow> string \<Rightarrow> err + string"
  cfg_chain :: "string \<Rightarrow> chain_config"
  cfg_sweeper :: bool
  cfg_sweep_threshold :: rat
  cfg_sweep_backstop :: time
  cfg_tron_node :: bool
  cfg_tenant_webhooks :: bool
  cfg_webhook_retries :: nat
  cfg_email :: email_config
  cfg_origins :: "string list"
  cfg_secret_key :: string
  cfg_clock_skew :: time
  cfg_kyc :: "string option"
  cfg_kyc_secret :: string
  cfg_admin_ttl :: time
  cfg_busha :: bool
  cfg_busha_key :: string
  cfg_busha_secret :: string
  cfg_sandbox :: bool
  cfg_adapters :: "string \<Rightarrow> adapter_config"
  cfg_hyparrow :: hyparrow_config
  cfg_rate_enabled :: "string \<Rightarrow> bool"
  cfg_telegram :: telegram_config

section \<open>The state\<close>

record world = ledger_db +
  env :: externals
  ext_log :: "ext_call list"
  corridors :: "corridor list"
  bindings :: "binding list"
  entitlements :: "entitlement list"
  system_rates :: "system_rate list"
  provider_rates :: "provider_rate list"
  current_rates :: "current_rate list"
  locks :: "lock list"
  price_cache :: "(string \<times> (rat \<times> time)) list"
  cases :: "compliance_case list"
  jurisdictions :: "jurisdiction list"
  reservations :: "reservation list"
  deposits :: "deposit list"
  custody_balances :: "((string \<times> string) \<times> (rat \<times> time)) list"
  custom_wallets :: "((uuid \<times> string) \<times> (string \<times> string)) list"
  seed_row :: "string option"
  seed :: "string option"
  hd_accounts :: "(uuid \<times> nat) list"
  hd_counter :: "nat option"
  hd_indices :: "((string \<times> uuid) \<times> nat) list"
  derived :: "(string \<times> uuid \<times> nat \<times> string) list"
  sessions :: "session list"
  settlements :: "settlement list"
  attempts :: "attempt list"
  reversals :: "reversal list"
  sweeps :: "sweep list"
  sweep_destinations :: "((string \<times> string) \<times> string) list"
  tenants :: "tenant list"
  api_keys :: "api_key list"
  magic_links :: "magic_link list"
  portal_sessions :: "portal_session list"
  idempotency_keys :: "idempotency_key list"
  deliveries :: "delivery list"
  networks :: "catalog_entry list"
  assets :: "catalog_entry list"
  asset_networks :: "(string \<times> string) list"
  kyc_checks :: "kyc_check list"
  admin_users :: "admin_user list"
  admin_sessions :: "admin_session list"
  admin_actions :: "admin_action list"
  request_log :: "(time \<times> request_record) list"
  limiter :: "string \<Rightarrow> bucket option"

type_synonym 'a run = "(world, 'a) op"

text \<open>A call to the outside: it is logged, and no rollback takes it back.\<close>

definition ask :: "ext_call \<Rightarrow> (externals \<Rightarrow> ext_call list \<Rightarrow> 'a) \<Rightarrow> 'a run" where
  "ask c f = (\<lambda>w. (Inr (f (env w) (ext_log w)), w\<lparr>ext_log := ext_log w @ [c]\<rparr>))"

definition lift_sum :: "err + 'a \<Rightarrow> ('s, 'a) op" where
  "lift_sum r = (case r of Inl e \<Rightarrow> fail e | Inr x \<Rightarrow> ret x)"

lemma ask_apply [op_simps]: "ask c f w = (Inr (f (env w) (ext_log w)), w\<lparr>ext_log := ext_log w @ [c]\<rparr>)"
  by (simp add: ask_def)

lemma lift_sum_simps [simp]: "lift_sum (Inl e) = fail e" "lift_sum (Inr x) = ret x"
  by (simp_all add: lift_sum_def)

lemma wp_ask [wp_rules]:
  "Q (Inr (f (env w) (ext_log w))) (w\<lparr>ext_log := ext_log w @ [c]\<rparr>) \<Longrightarrow> wp (ask c f) Q w"
  by (simp add: wp_def ask_def)

lemma wp_lift_sum [wp_rules]:
  "(\<And>e. r = Inl e \<Longrightarrow> Q (Inl e) w) \<Longrightarrow> (\<And>x. r = Inr x \<Longrightarrow> Q (Inr x) w) \<Longrightarrow> wp (lift_sum r) Q w"
  by (cases r) (auto intro: wp_rules)

lemma frame_ask [frame_rules]: "(\<And>w l. f (w\<lparr>ext_log := l\<rparr>) = f w) \<Longrightarrow> frame f (ask c g)"
  by (simp add: frame_def ask_def)

lemma frame_lift_sum [frame_rules]: "frame f (lift_sum r)"
  by (cases r) (auto intro: frame_rules)

lemma keeps_ask [keeps_rules]: "(\<And>w l. P w \<Longrightarrow> P (w\<lparr>ext_log := l\<rparr>)) \<Longrightarrow> keeps P (ask c g)"
  by (simp add: keeps_def ask_def)

lemma keeps_lift_sum [keeps_rules]: "keeps P (lift_sum r)"
  by (cases r) (auto intro: keeps_rules)

lemma reads_lift_sum [read_rules]: "reads_only (lift_sum r)"
  by (cases r) (simp_all add: read_rules)

section \<open>A world for the witnesses\<close>

text \<open>
  Decimals with sixteen digits after a division, partners that accept everything, one
  enabled adapter of each kind, and empty tables.
\<close>

definition sample_env :: externals where
  "sample_env = \<lparr>x_div = (\<lambda>a b. round_half_away 16 (a / b)),
     x_round_up = (\<lambda>n x. sgn x * (of_int \<lceil>\<bar>x\<bar> * 10 ^ n\<rceil> / 10 ^ n)),
     x_dec_text = (\<lambda>x. ''amount''),
     x_screen = (\<lambda>name. if name = ''vendor'' then Some (\<lambda>log c. Inr \<lparr>de_approved = True, de_hold = False, de_reason = ''ok''\<rparr>) else None),
     x_busha_quote = (\<lambda>log asset network amount. Inr ''quote''),
     x_busha_transfer = (\<lambda>log quote. Inl (OtherErr ''treasury: Busha returned HTTP 500'')),
     x_busha_decode = (\<lambda>body. None), x_hmac = (\<lambda>key body. key @ body),
     x_address = (\<lambda>mnemonic format path. Inr (format @ concat (map (\<lambda>k. ''/'' @ replicate (unat k mod 1000) (CHR ''1'')) path))),
     x_valid_address = (\<lambda>format address. True), x_mnemonic_ok = (\<lambda>m. True),
     x_encrypt = (\<lambda>nonce key text. Inr (key @ text)), x_decrypt = (\<lambda>key text. Inr (drop (length key) text)),
     x_price = (\<lambda>log asset. Inr 2),
     x_live_rate = (\<lambda>log name fiat. Inr 1500),
     x_round = round_half_away, x_fixed = (\<lambda>n x. ''amount''), x_decimal_ok = (\<lambda>s. True),
     x_json = (\<lambda>s. if s = ''accepted'' then Some (JObj [(''reference_id'', JStr ''R'')]) else None),
     x_float_nanos = (\<lambda>s. Some 0), x_uuid_parse = Some,
     x_http_payout = (\<lambda>log name req. Inr (Reply 200 ''accepted'')),
     x_hyparrow = (\<lambda>log req. NoReply ''timeout''), x_telegram = (\<lambda>log c. True),
     x_chain = (\<lambda>log req. NoReply ''timeout''), x_decimal = (\<lambda>s. None), x_keccak = (\<lambda>s. s),
     x_sign = (\<lambda>k h. h), x_key_address = (\<lambda>(m, path) format. format @ concat (map (\<lambda>k. ''/'' @ replicate (unat k mod 1000) (CHR ''1'')) path)),
     x_btc_tx = (\<lambda>k us dest n. Inr dest), x_sha256 = (\<lambda>s. s), x_random = (\<lambda>n k. replicate (Suc n) (CHR ''r'')),
     x_url = (\<lambda>s. Some \<lparr>ur_scheme = ''https'', ur_host = s, ur_hostname = s, ur_path = [], ur_opaque = False, ur_user = False,
       ur_query = False, ur_fragment = False\<rparr>),
     x_resolve = (\<lambda>log h. Some [IPv4 0x08080808]), x_webhook = (\<lambda>log url body sig. Reply 200 ''ok''), x_email = (\<lambda>log to subject body. None),
     x_body_text = (\<lambda>b. ''body''), x_notice_text = dn_event, x_ip = (\<lambda>s. Some (IPv4 0x08080808)), x_cidr = (\<lambda>s. None), x_kyc = (\<lambda>log l. NoReply ''timeout''),
     x_date = (\<lambda>layout s. Some s), x_password = (\<lambda>h p. h = p), x_password_hash = (\<lambda>n p. Inr p),
     cfg_chain = (\<lambda>c. \<lparr>ch_enabled = True, ch_min_confirmations = 3\<rparr>), cfg_sweeper = True, cfg_sweep_threshold = 1000,
     cfg_sweep_backstop = 0, cfg_tron_node = True, cfg_tenant_webhooks = True, cfg_webhook_retries = 3,
     cfg_email = \<lparr>em_enabled = True, em_provider = ''resend'', em_ops = ''ops''\<rparr>, cfg_origins = [''https://portal''],
     cfg_secret_key = ''key'', cfg_clock_skew = 300 * second, cfg_kyc = Some ''sandbox'', cfg_kyc_secret = ''key'', cfg_admin_ttl = 3600 * second,
     cfg_busha = False, cfg_busha_key = ''k'', cfg_busha_secret = ''s'', cfg_sandbox = False, 
     cfg_adapters = (\<lambda>name. \<lparr>ad_enabled = name = ''paystack'', ad_secret = ''s''\<rparr>),
     cfg_hyparrow = \<lparr>hc_enabled = False, hc_url = [], hc_key = [], hc_api_secret = [], hc_secret = [], hc_phone = [], hc_email = [],
       hc_lastname = [], hc_othernames = []\<rparr>,
     cfg_rate_enabled = (\<lambda>name. False),
     cfg_telegram = \<lparr>tc_enabled = False, tc_token = [], tc_chat = [], tc_secret = []\<rparr>\<rparr>"

definition empty_world :: world where
  "empty_world = \<lparr>faults = [], now = 0, uuid_src = sample_src, uuid_next = 0, outbox = [], bus_on = True,
     accounts = [], txns = [], entries = [], balances = [], discrepancies = [],
     env = sample_env, ext_log = [], corridors = [], bindings = [], entitlements = [], system_rates = [],
     provider_rates = [], current_rates = [], locks = [], price_cache = [], cases = [], jurisdictions = [],
     reservations = [], deposits = [], custody_balances = [], custom_wallets = [], seed_row = None, seed = None, hd_accounts = [],
     hd_counter = None, hd_indices = [], derived = [], sessions = [], settlements = [], attempts = [],
     reversals = [], sweeps = [], sweep_destinations = [], tenants = [], api_keys = [], magic_links = [], portal_sessions = [],
     idempotency_keys = [], deliveries = [], networks = [], assets = [], asset_networks = [], kyc_checks = [],
     admin_users = [], admin_sessions = [], admin_actions = [], request_log = [], limiter = (\<lambda>_. None)\<rparr>"


end
