(* ===== verification/Corridor.thy ===== *)
theory Corridor
  imports Schema
begin

text \<open>
  The corridor store, \<^verbatim>\<open>internal/corridor/corridor.go\<close>: looking corridors up, the admin
  operations that create, change and delete them, and the provider bindings in priority
  order. A row of \<open>corridors\<close> keeps its durations as whole seconds. Rows with equal
  priority come in insertion order.
\<close>

section \<open>The destination check\<close>

abbreviation ErrCorridorNotFound :: err where "ErrCorridorNotFound \<equiv> Sentinel ''corridor: not found''"
abbreviation ErrDestinationInvalid :: err where
  "ErrDestinationInvalid \<equiv> Sentinel ''corridor: payout destination invalid''"
abbreviation ErrAlreadyExists :: err where "ErrAlreadyExists \<equiv> Sentinel ''corridor: already exists''"
abbreviation ErrInUse :: err where "ErrInUse \<equiv> Sentinel ''corridor: has payment history''"

definition validate_destination :: "('z corridor_in_scheme) \<Rightarrow> raw_json \<Rightarrow> err option" where
  "validate_destination c dest =
     (if co_fields c = [] then None
      else case object_fields dest of
        None \<Rightarrow> Some ErrDestinationInvalid
      | Some kvs \<Rightarrow> if missing_fields (co_fields c) kvs \<noteq> [] then Some ErrDestinationInvalid else None)"

section \<open>Columns\<close>

text \<open>\<open>int(d.Seconds())\<close>; the durations of the callers are whole seconds.\<close>

definition trunc_seconds :: "time \<Rightarrow> int" where
  "trunc_seconds d = (if d < 0 then - ((- d) div second) else d div second)"

definition opt_numeric :: "rat option \<Rightarrow> rat option option" where
  "opt_numeric v = (case v of None \<Rightarrow> Some None | Some x \<Rightarrow> map_option Some (numeric_36_18 x))"

text \<open>The values of a corridor as its columns keep them, if they fit.\<close>

definition corridor_cols :: "'z corridor_in_scheme \<Rightarrow> 'z corridor_in_scheme option" where
  "corridor_cols c = (case (opt_numeric (co_min c), opt_numeric (co_max c), opt_numeric (co_threshold c)) of
     (Some mn, Some mx, Some th) \<Rightarrow>
       (if int4_ok (trunc_seconds (co_window c)) \<and> int4_ok (trunc_seconds (co_hold c))
        then Some (c\<lparr>co_min := mn, co_max := mx, co_threshold := th,
               co_window := trunc_seconds (co_window c) * second,
               co_hold := trunc_seconds (co_hold c) * second\<rparr>)
        else None)
   | _ \<Rightarrow> None)"

definition same_key :: "'y corridor_in_scheme \<Rightarrow> 'z corridor_in_scheme \<Rightarrow> bool" where
  "same_key a b \<longleftrightarrow> co_asset a = co_asset b \<and> co_network a = co_network b \<and> co_fiat a = co_fiat b"

definition new_corridor :: "corridor_in \<Rightarrow> uuid \<Rightarrow> time \<Rightarrow> corridor" where
  "new_corridor c i t = corridor_in.extend c (corridor.fields i t)"

section \<open>Reading\<close>

definition get_corridor :: "string \<Rightarrow> string \<Rightarrow> string \<Rightarrow> corridor run" where
  "get_corridor asset network fiat = bindE
     (query (\<lambda>w. find (\<lambda>c. co_asset c = asset \<and> co_network c = network \<and> co_fiat c = fiat \<and> co_active c)
        (corridors w)))
     (\<lambda>r. case r of None \<Rightarrow> fail ErrCorridorNotFound | Some c \<Rightarrow> ret c)"

definition get_corridor_by_id :: "uuid \<Rightarrow> corridor run" where
  "get_corridor_by_id i = bindE (query (\<lambda>w. find (\<lambda>c. co_id c = i) (corridors w)))
     (\<lambda>r. case r of None \<Rightarrow> fail ErrCorridorNotFound | Some c \<Rightarrow> ret c)"

text \<open>\<open>LIMIT $2 OFFSET $3\<close> when the limit is positive.\<close>

definition page :: "int \<Rightarrow> int \<Rightarrow> 'a list \<Rightarrow> 'a list" where
  "page limit offset xs = (if limit > 0 then take (nat limit) (drop (nat offset) xs) else xs)"

definition list_corridors :: "bool \<Rightarrow> int \<Rightarrow> int \<Rightarrow> (corridor list \<times> nat) run" where
  "list_corridors active_only limit offset = bindE
     (query (\<lambda>w. count_where (\<lambda>c. \<not> active_only \<or> co_active c) (corridors w)))
     (\<lambda>total. bindE
       (query (\<lambda>w. page limit offset (sort_key (\<lambda>c. - co_created c)
          (filter (\<lambda>c. \<not> active_only \<or> co_active c) (corridors w)))))
       (\<lambda>out. ret (out, total)))"

definition fiat_currency_for_corridor :: "uuid \<Rightarrow> string run" where
  "fiat_currency_for_corridor i = bindE (get_corridor_by_id i) (\<lambda>c. ret (co_fiat c))"

text \<open>\<open>SELECT DISTINCT fiat_currency .. ORDER BY fiat_currency\<close>, in the order of the bytes.\<close>

definition str_key :: "string \<Rightarrow> nat list" where
  "str_key s = map of_char s"

fun insert_str :: "string \<Rightarrow> string list \<Rightarrow> string list" where
  "insert_str x [] = [x]"
| "insert_str x (y # ys) = (if x = y then y # ys
     else if ord_class.lexordp (str_key x) (str_key y) then x # y # ys
     else y # insert_str x ys)"

definition list_active_fiat_currencies :: "(string list) run" where
  "list_active_fiat_currencies =
     query (\<lambda>w. fold insert_str (map co_fiat (filter co_active (corridors w))) [])"

definition has_active_corridor_for_fiat :: "string \<Rightarrow> bool run" where
  "has_active_corridor_for_fiat fiat =
     query (\<lambda>w. list_ex (\<lambda>c. co_active c \<and> co_fiat c = fiat) (corridors w))"

definition has_history :: "uuid \<Rightarrow> world \<Rightarrow> bool" where
  "has_history i w \<longleftrightarrow> list_ex (\<lambda>s. s_corridor s = i) (sessions w) \<or>
     list_ex (\<lambda>s. st_corridor s = i) (settlements w) \<or>
     list_ex (\<lambda>r. rv_corridor r = i) (reservations w)"

definition has_payment_history :: "uuid \<Rightarrow> bool run" where
  "has_payment_history i = query (has_history i)"

definition ProviderTypeCollection :: string where "ProviderTypeCollection = ''collection''"
definition ProviderTypeSettlement :: string where "ProviderTypeSettlement = ''settlement''"
definition ProviderTypeCompliance :: string where "ProviderTypeCompliance = ''compliance''"
definition ProviderTypeRate :: string where "ProviderTypeRate = ''rate''"

definition active_providers :: "uuid \<Rightarrow> string \<Rightarrow> world \<Rightarrow> binding list" where
  "active_providers i ty w = sort_key pb_priority
     (filter (\<lambda>b. pb_corridor b = i \<and> pb_type b = ty \<and> pb_active b) (bindings w))"

definition list_active_providers :: "uuid \<Rightarrow> string \<Rightarrow> (binding list) run" where
  "list_active_providers i ty = query (active_providers i ty)"

text \<open>
  \<open>ListActiveBindings\<close> returns a map from corridor id to its bindings, ordered by type and
  priority; a corridor without active bindings has no entry, which reads as the empty list.
\<close>

definition active_bindings :: "world \<Rightarrow> uuid \<Rightarrow> binding list" where
  "active_bindings w i = concat (map (\<lambda>ty. active_providers i ty w)
     [ProviderTypeCollection, ProviderTypeCompliance, ProviderTypeRate, ProviderTypeSettlement])"

definition list_active_bindings :: "uuid list \<Rightarrow> ((uuid \<times> binding list) list) run" where
  "list_active_bindings is = (if is = [] then ret []
     else query (\<lambda>w. map (\<lambda>i. (i, active_bindings w i)) (filter (\<lambda>i. active_bindings w i \<noteq> []) (remdups is))))"

section \<open>Writing\<close>

definition upsert_corridor :: "corridor_in \<Rightarrow> uuid run" where
  "upsert_corridor c = stmt (case corridor_cols c of
       None \<Rightarrow> fail (ConstraintErr ''corridors'')
     | Some r \<Rightarrow> bindE (gets (\<lambda>w. find (same_key r) (corridors w))) (\<lambda>old. case old of
          Some o1 \<Rightarrow> thenE
            (modify (\<lambda>w. w\<lparr>corridors := update_where (same_key r)
               (\<lambda>x. corridor_in.extend r (corridor_in.more x)) (corridors w)\<rparr>))
            (ret (co_id o1))
        | None \<Rightarrow> bindE gen_uuid (\<lambda>i. thenE
            (modify (\<lambda>w. w\<lparr>corridors := corridors w @ [new_corridor r i (now w)]\<rparr>))
            (ret i))))"

definition insert_corridor :: "corridor_in \<Rightarrow> corridor run" where
  "insert_corridor c = stmt (case corridor_cols c of
       None \<Rightarrow> fail (ConstraintErr ''corridors'')
     | Some r \<Rightarrow> bindE (gets (\<lambda>w. list_ex (same_key r) (corridors w))) (\<lambda>dup.
          if dup then fail (UniqueErr ''corridors'')
          else bindE gen_uuid (\<lambda>i. bindE (gets (\<lambda>w. new_corridor r i (now w))) (\<lambda>row. thenE
            (modify (\<lambda>w. w\<lparr>corridors := corridors w @ [row]\<rparr>)) (ret row)))))"

definition provider_types :: "string list" where
  "provider_types = [''collection'', ''settlement'', ''compliance'', ''rate'']"

definition binding_ok :: "uuid \<Rightarrow> binding_in \<Rightarrow> world \<Rightarrow> bool" where
  "binding_ok i b w \<longleftrightarrow> pb_type b \<in> set provider_types \<and> int4_ok (pb_priority b) \<and>
     list_ex (\<lambda>c. co_id c = i) (corridors w)"

definition binding_at :: "uuid \<Rightarrow> string \<Rightarrow> string \<Rightarrow> binding \<Rightarrow> bool" where
  "binding_at i ty name b \<longleftrightarrow> pb_corridor b = i \<and> pb_type b = ty \<and> pb_name b = name"

definition new_binding :: "uuid \<Rightarrow> string \<Rightarrow> string \<Rightarrow> int \<Rightarrow> bool \<Rightarrow> json \<Rightarrow> uuid \<Rightarrow> binding" where
  "new_binding i ty name prio act cfg bid = \<lparr>pb_type = ty, pb_name = name, pb_priority = prio, pb_id = bid,
     pb_corridor = i, pb_active = act, pb_config = cfg\<rparr>"

definition insert_binding :: "uuid \<Rightarrow> binding_in \<Rightarrow> binding run" where
  "insert_binding i b = stmt (bindE (gets (\<lambda>w. (binding_ok i b w, list_ex (binding_at i (pb_type b) (pb_name b)) (bindings w))))
     (\<lambda>(ok, dup).
        if \<not> ok then fail (ConstraintErr ''corridor_providers'')
        else if dup then fail (UniqueErr ''corridor_providers'')
        else bindE gen_uuid (\<lambda>bid.
          let row = new_binding i (pb_type b) (pb_name b) (pb_priority b) True (JObj []) bid in
          thenE (modify (\<lambda>w. w\<lparr>bindings := bindings w @ [row]\<rparr>)) (ret row))))"

definition unique_to :: "err \<Rightarrow> err \<Rightarrow> ('s, 'a) op" where
  "unique_to named e = fail (case e of UniqueErr _ \<Rightarrow> named | _ \<Rightarrow> e)"

definition create_corridor :: "corridor_in \<Rightarrow> binding_in list \<Rightarrow> (corridor \<times> binding list) run" where
  "create_corridor c bs = atomically (thenE begin_tx
     (bindE (onErr (insert_corridor c) (unique_to ErrAlreadyExists)) (\<lambda>row.
        bindE (mapE bs (\<lambda>b. onErr (insert_binding (co_id row) b) (unique_to ErrAlreadyExists))) (\<lambda>created.
          thenE commit_tx (ret (row, created))))))"

text \<open>The columns the \<open>UPDATE\<close> sets; the currency and the id are not among them.\<close>

definition set_columns :: "corridor \<Rightarrow> corridor \<Rightarrow> corridor" where
  "set_columns old r = old\<lparr>co_network := co_network r, co_asset := co_asset r, co_active := co_active r,
     co_min := co_min r, co_max := co_max r, co_threshold := co_threshold r,
     co_window := co_window r, co_hold := co_hold r, co_fields := co_fields r\<rparr>"

definition write_corridor :: "uuid \<Rightarrow> corridor \<Rightarrow> corridor run" where
  "write_corridor i next = stmt (case corridor_cols next of
       None \<Rightarrow> fail (ConstraintErr ''corridors'')
     | Some r \<Rightarrow> bindE (gets (\<lambda>w. find (\<lambda>c. co_id c = i) (corridors w))) (\<lambda>cur. case cur of
          None \<Rightarrow> fail ErrCorridorNotFound
        | Some old \<Rightarrow>
            bindE (gets (\<lambda>w. list_ex (\<lambda>c. co_id c \<noteq> i \<and> same_key (set_columns old r) c) (corridors w))) (\<lambda>dup.
              if dup then fail (UniqueErr ''corridors'')
              else thenE (modify (\<lambda>w. w\<lparr>corridors :=
                     update_where (\<lambda>c. co_id c = i) (\<lambda>_. set_columns old r) (corridors w)\<rparr>))
                (ret (set_columns old r)))))"

text \<open>The change is a function of the caller, run inside the transaction; it may query the database itself.\<close>

definition update_corridor :: "uuid \<Rightarrow> (corridor \<Rightarrow> corridor run) \<Rightarrow> (corridor \<times> corridor) run" where
  "update_corridor i apply = atomically (thenE begin_tx
     (bindE (query (\<lambda>w. find (\<lambda>c. co_id c = i) (corridors w))) (\<lambda>r. case r of
        None \<Rightarrow> fail ErrCorridorNotFound
      | Some before \<Rightarrow> bindE (apply before) (\<lambda>next.
            if co_fiat next \<noteq> co_fiat before then fail (OtherErr ''corridor: fiat_currency can't change'')
            else bindE (if co_asset next \<noteq> co_asset before \<or> co_network next \<noteq> co_network before
                        then query (has_history i) else ret False)
              (\<lambda>used. if used then fail ErrInUse
                 else bindE (onErr (write_corridor i next) (unique_to ErrAlreadyExists)) (\<lambda>after.
                   thenE commit_tx (ret (before, after))))))))"

definition deactivate_bindings :: "uuid \<Rightarrow> unit run" where
  "deactivate_bindings i = exec (\<lambda>w. w\<lparr>bindings :=
     update_where (\<lambda>b. pb_corridor b = i) (\<lambda>b. b\<lparr>pb_active := False\<rparr>) (bindings w)\<rparr>)"

text \<open>\<open>INSERT .. ON CONFLICT (corridor_id, provider_type, provider_name) DO UPDATE\<close>; \<open>upd\<close> is the update.\<close>

definition upsert_binding_row :: "uuid \<Rightarrow> binding_in \<Rightarrow> bool \<Rightarrow> json \<Rightarrow> (binding \<Rightarrow> binding) \<Rightarrow> binding run" where
  "upsert_binding_row i b act cfg upd = stmt (bindE
     (gets (\<lambda>w. (binding_ok i b w, find (binding_at i (pb_type b) (pb_name b)) (bindings w))))
     (\<lambda>(ok, old).
        if \<not> ok then fail (ConstraintErr ''corridor_providers'')
        else case old of
          Some o1 \<Rightarrow> thenE (modify (\<lambda>w. w\<lparr>bindings :=
              update_where (binding_at i (pb_type b) (pb_name b)) upd (bindings w)\<rparr>)) (ret (upd o1))
        | None \<Rightarrow> bindE gen_uuid (\<lambda>bid.
            let row = new_binding i (pb_type b) (pb_name b) (pb_priority b) act cfg bid in
            thenE (modify (\<lambda>w. w\<lparr>bindings := bindings w @ [row]\<rparr>)) (ret row))))"

definition replace_provider_bindings :: "uuid \<Rightarrow> binding_in list \<Rightarrow> (binding list) run" where
  "replace_provider_bindings i bs = atomically (thenE begin_tx
     (bindE (query (\<lambda>w. list_ex (\<lambda>c. co_id c = i) (corridors w))) (\<lambda>found.
        if \<not> found then fail ErrCorridorNotFound
        else thenE (deactivate_bindings i)
          (bindE (mapE bs (\<lambda>b. upsert_binding_row i b True (JObj [])
                    (\<lambda>x. x\<lparr>pb_active := True, pb_priority := pb_priority b\<rparr>))) (\<lambda>out.
             thenE commit_tx (ret out))))))"

definition upsert_provider_binding :: "uuid \<Rightarrow> binding_in \<Rightarrow> bool \<Rightarrow> raw_json \<Rightarrow> uuid run" where
  "upsert_provider_binding i b act config = (case config of
       RawInvalid \<Rightarrow> stmt (fail (ConstraintErr ''corridor_providers.config''))
     | _ \<Rightarrow> let cfg = (case config of RawJson j \<Rightarrow> j | _ \<Rightarrow> JObj []) in
         bindE (upsert_binding_row i b act cfg
                  (\<lambda>x. x\<lparr>pb_priority := pb_priority b, pb_active := act, pb_config := cfg\<rparr>))
           (\<lambda>row. ret (pb_id row)))"

text \<open>
  The last \<open>DELETE\<close> fails on the foreign keys of sessions, settlements and reservations,
  which are the tables \<open>has_history\<close> looks at.
\<close>

definition delete_corridor :: "uuid \<Rightarrow> (corridor \<times> binding list) run" where
  "delete_corridor i = atomically (thenE begin_tx
     (bindE (query (\<lambda>w. find (\<lambda>c. co_id c = i) (corridors w))) (\<lambda>r. case r of
        None \<Rightarrow> fail ErrCorridorNotFound
      | Some c \<Rightarrow> bindE (query (has_history i)) (\<lambda>used. if used then fail ErrInUse
          else bindE (stmt (bindE (gets (\<lambda>w. filter (\<lambda>b. pb_corridor b = i) (bindings w))) (\<lambda>gone.
                  thenE (modify (\<lambda>w. w\<lparr>bindings := filter (\<lambda>b. pb_corridor b \<noteq> i) (bindings w)\<rparr>)) (ret gone))))
            (\<lambda>gone. thenE (exec (\<lambda>w. w\<lparr>entitlements := filter (\<lambda>e. en_corridor e \<noteq> i) (entitlements w)\<rparr>))
              (thenE (stmt (bindE (gets (has_history i)) (\<lambda>fk. if fk then fail ErrInUse
                   else modify (\<lambda>w. w\<lparr>corridors := filter (\<lambda>c. co_id c \<noteq> i) (corridors w)\<rparr>))))
                (thenE commit_tx (ret (c, gone)))))))))"

section \<open>The commands\<close>

text \<open>The operations that write, as one type of commands.\<close>

datatype corridor_cmd =
    CmdUpsert corridor_in
  | CmdCreate corridor_in "binding_in list"
  | CmdUpdate uuid "corridor \<Rightarrow> err + corridor"
  | CmdReplace uuid "binding_in list"
  | CmdBind uuid binding_in bool raw_json
  | CmdDelete uuid

fun corridor_step :: "corridor_cmd \<Rightarrow> unit run" where
  "corridor_step (CmdUpsert c) = thenE (upsert_corridor c) (ret ())"
| "corridor_step (CmdCreate c bs) = thenE (create_corridor c bs) (ret ())"
| "corridor_step (CmdUpdate i f) = thenE (update_corridor i (\<lambda>c. lift_sum (f c))) (ret ())"
| "corridor_step (CmdReplace i bs) = thenE (replace_provider_bindings i bs) (ret ())"
| "corridor_step (CmdBind i b act cfg) = thenE (upsert_provider_binding i b act cfg) (ret ())"
| "corridor_step (CmdDelete i) = thenE (delete_corridor i) (ret ())"

section \<open>The invariant of the tables\<close>

definition nat_key :: "'z corridor_in_scheme \<Rightarrow> string \<times> string \<times> string" where
  "nat_key c = (co_asset c, co_network c, co_fiat c)"

definition corridor_ids :: "world \<Rightarrow> uuid set" where
  "corridor_ids w = co_id ` set (corridors w)"

text \<open>Keys are unique and every reference to a corridor is to an existing one.\<close>

definition corridors_ok :: "world \<Rightarrow> bool" where
  "corridors_ok w \<longleftrightarrow> ids_fresh (map co_id (corridors w)) w \<and> distinct (map nat_key (corridors w)) \<and>
     pb_corridor ` set (bindings w) \<subseteq> corridor_ids w \<and>
     en_corridor ` set (entitlements w) \<subseteq> corridor_ids w \<and>
     s_corridor ` set (sessions w) \<subseteq> corridor_ids w \<and>
     st_corridor ` set (settlements w) \<subseteq> corridor_ids w \<and>
     rv_corridor ` set (reservations w) \<subseteq> corridor_ids w"

definition bindings_unique :: "world \<Rightarrow> bool" where
  "bindings_unique w \<longleftrightarrow> distinct (map (\<lambda>b. (pb_corridor b, pb_type b, pb_name b)) (bindings w))"

lemma same_key_iff: "same_key a b \<longleftrightarrow> nat_key a = nat_key b"
  by (simp add: same_key_def nat_key_def)

lemma corridor_extend_sel [simp]:
  "nat_key (corridor_in.extend r (corridor_in.more (x :: corridor))) = nat_key r"
  "co_id (corridor_in.extend r (corridor_in.more x)) = co_id x"
  "co_fiat (corridor_in.extend r (corridor_in.more x)) = co_fiat r"
  "co_asset (corridor_in.extend r (corridor_in.more x)) = co_asset r"
  "co_network (corridor_in.extend r (corridor_in.more x)) = co_network r"
  by (simp_all add: nat_key_def corridor_in.defs, cases x, simp)

lemma new_corridor_sel [simp]:
  "co_id (new_corridor c i t) = i" "nat_key (new_corridor c i t) = nat_key c"
  by (simp_all add: new_corridor_def nat_key_def corridor_in.defs corridor.defs)

lemma update_same_key:
  "map co_id (update_where (same_key r) (\<lambda>x. corridor_in.extend r (corridor_in.more x)) cs) = map co_id cs"
  "map nat_key (update_where (same_key r) (\<lambda>x. corridor_in.extend r (corridor_in.more x)) cs) = map nat_key (cs :: corridor list)"
  by (induction cs) (auto simp: same_key_iff)

text \<open>The invariant after a change that adds at most one corridor.\<close>

lemma corridors_ok_step:
  assumes ok: "corridors_ok w"
    and rows: "map co_id (corridors w') = map co_id (corridors w) \<and> uuid_next w \<le> uuid_next w' \<or>
        map co_id (corridors w') = map co_id (corridors w) @ [uuid_src w (uuid_next w)] \<and>
        uuid_next w' = Suc (uuid_next w)"
    and keys: "distinct (map nat_key (corridors w'))"
    and gen: "uuid_src w' = uuid_src w"
    and refs: "pb_corridor ` set (bindings w') \<subseteq> corridor_ids w" "set (entitlements w') \<subseteq> set (entitlements w)"
    and rest: "sessions w' = sessions w" "settlements w' = settlements w" "reservations w' = reservations w"
  shows "corridors_ok w'"
proof -
  have "corridor_ids w \<subseteq> corridor_ids w'"
    using rows unfolding corridor_ids_def by (metis UnCI list.set_map set_append subsetI)
  moreover have "ids_fresh (map co_id (corridors w')) w'"
    using ok rows gen unfolding corridors_ok_def
    by (metis ids_fresh_append ids_fresh_mono)
  moreover have "en_corridor ` set (entitlements w') \<subseteq> corridor_ids w"
    using ok refs(2) unfolding corridors_ok_def by (meson image_mono subset_trans)
  ultimately show ?thesis
    using ok keys refs(1) rest by (auto simp: corridors_ok_def)
qed

lemma corridors_ok_keys: "corridors_ok w \<Longrightarrow> distinct (map nat_key (corridors w))"
  by (simp add: corridors_ok_def)

lemma corridors_ok_bindings: "corridors_ok w \<Longrightarrow> pb_corridor ` set (bindings w) \<subseteq> corridor_ids w"
  by (simp add: corridors_ok_def)

lemma keeps_corridors_ok_upsert: "keeps corridors_ok (upsert_corridor c)"
proof (rule keeps_wp)
  fix w assume ok: "corridors_ok w"
  show "wp (upsert_corridor c) (\<lambda>_. corridors_ok) w"
    unfolding upsert_corridor_def
    apply (intro wp_rules)
    apply (rule corridors_ok_step [OF ok]; simp add: update_same_key corridors_ok_bindings corridors_ok_keys ok; fail)+
    apply (rule corridors_ok_step [OF ok]; use corridors_ok_keys [OF ok] corridors_ok_bindings [OF ok] in \<open>auto simp: find_None_iff same_key_iff\<close>)
    apply (rule corridors_ok_step [OF ok]; simp add: update_same_key corridors_ok_bindings corridors_ok_keys ok; fail)+
    done
qed

lemma keeps_corridors_ok_insert: "keeps corridors_ok (insert_corridor c)"
proof (rule keeps_wp)
  fix w assume ok: "corridors_ok w"
  show "wp (insert_corridor c) (\<lambda>_. corridors_ok) w"
    unfolding insert_corridor_def
    apply (intro wp_rules)
    apply (rule corridors_ok_step [OF ok]; simp add: update_same_key corridors_ok_bindings corridors_ok_keys ok; fail)+
    apply (rule corridors_ok_step [OF ok]; use corridors_ok_keys [OF ok] corridors_ok_bindings [OF ok] in \<open>auto simp: list_ex_iff same_key_iff\<close>)
    done
qed

lemma binding_ok_id: "binding_ok i b w \<Longrightarrow> i \<in> corridor_ids w"
  by (auto simp: binding_ok_def corridor_ids_def list_ex_iff)

lemma keeps_corridors_ok_insert_binding: "keeps corridors_ok (insert_binding i b)"
proof (rule keeps_wp)
  fix w assume ok: "corridors_ok w"
  show "wp (insert_binding i b) (\<lambda>_. corridors_ok) w"
    unfolding insert_binding_def
    apply (intro wp_rules)
    apply (rule corridors_ok_step [OF ok]; use corridors_ok_keys [OF ok] corridors_ok_bindings [OF ok] in \<open>auto simp: binding_ok_def corridor_ids_def list_ex_iff new_binding_def\<close>)+
    done
qed


lemma keeps_corridors_ok_upsert_binding:
  assumes upd: "\<And>x. pb_corridor (upd x) = pb_corridor x"
  shows "keeps corridors_ok (upsert_binding_row i b act cfg upd)"
proof (rule keeps_wp)
  fix w assume ok: "corridors_ok w"
  show "wp (upsert_binding_row i b act cfg upd) (\<lambda>_. corridors_ok) w"
    unfolding upsert_binding_row_def
    apply (intro wp_rules)
    apply (rule corridors_ok_step [OF ok]; use corridors_ok_keys [OF ok] corridors_ok_bindings [OF ok] in
        \<open>auto simp: binding_ok_def corridor_ids_def list_ex_iff new_binding_def set_update_where upd\<close>)+
    done
qed

lemma set_columns_sel [simp]:
  "co_id (set_columns old r) = co_id old" "co_fiat (set_columns old r) = co_fiat old"
  "co_asset (set_columns old r) = co_asset r" "co_network (set_columns old r) = co_network r"
  by (simp_all add: set_columns_def)

lemma keeps_corridors_ok_write: "keeps corridors_ok (write_corridor i next)"
proof (rule keeps_wp)
  fix w assume ok: "corridors_ok w"
  have ids: "distinct (map co_id (corridors w))" using ok by (simp add: corridors_ok_def ids_fresh_def)
  show "wp (write_corridor i next) (\<lambda>_. corridors_ok) w"
    unfolding write_corridor_def Let_def
    apply (intro wp_rules)
    apply (rule corridors_ok_step [OF ok]; simp add: corridors_ok_bindings corridors_ok_keys ok; fail)+
    apply (rule corridors_ok_step [OF ok];
        simp add: corridors_ok_bindings corridors_ok_keys ok distinct_replace [OF _ ids] same_key_iff)
    apply (rule map_update_where)
    apply (auto dest: find_Some_mem)
    done
qed

lemma db_mono_corridors_ok [simp]: "db_mono corridors_ok"
  unfolding db_mono_def corridors_ok_def corridor_ids_def by (auto elim: ids_fresh_mono)

lemma keeps_corridors_ok_deactivate: "keeps corridors_ok (deactivate_bindings i)"
  unfolding deactivate_bindings_def
proof (rule keeps_exec, simp)
  fix w assume ok: "corridors_ok w"
  show "corridors_ok (w\<lparr>bindings := update_where (\<lambda>b. pb_corridor b = i) (\<lambda>b. b\<lparr>pb_active := False\<rparr>) (bindings w)\<rparr>)"
    by (rule corridors_ok_step [OF ok]; use corridors_ok_keys [OF ok] corridors_ok_bindings [OF ok] in
        \<open>auto simp: set_update_where\<close>)
qed

lemma keeps_corridors_ok_delete: "keeps corridors_ok (delete_corridor i)"
proof (rule keeps_wp)
  fix w assume ok: "corridors_ok w"
  have gone: "corridors_ok (w\<lparr>bindings := filter (\<lambda>b. pb_corridor b \<noteq> i) (bindings w),
      entitlements := filter (\<lambda>e. en_corridor e \<noteq> i) (entitlements w),
      corridors := filter (\<lambda>c. co_id c \<noteq> i) (corridors w), faults := bs\<rparr>)"
    if "\<not> has_history i w" for bs
  proof -
    have "ids_fresh (map co_id (filter (\<lambda>c. co_id c \<noteq> i) (corridors w))) w"
      using ok by (auto simp: corridors_ok_def ids_fresh_def distinct_map_filter)
    moreover have "distinct (map nat_key (filter (\<lambda>c. co_id c \<noteq> i) (corridors w)))"
      using ok by (simp add: corridors_ok_def distinct_map_filter)
    moreover have "s_corridor ` set (sessions w) \<subseteq> corridor_ids w - {i}"
        "st_corridor ` set (settlements w) \<subseteq> corridor_ids w - {i}"
        "rv_corridor ` set (reservations w) \<subseteq> corridor_ids w - {i}"
      using ok that by (auto simp: corridors_ok_def has_history_def list_ex_iff)
    moreover have "co_id ` {c \<in> set (corridors w). co_id c \<noteq> i} = corridor_ids w - {i}"
      by (auto simp: corridor_ids_def)
    ultimately show ?thesis
      using ok by (auto simp: corridors_ok_def corridor_ids_def ids_fresh_def)
  qed
  have view: "has_history i (w\<lparr>faults := bs\<rparr>) = has_history i w" for bs
    by (simp add: has_history_def)
  have keep: "corridors_ok (w\<lparr>faults := bs, uuid_next := n\<rparr>)" if "uuid_next w \<le> n" for bs n
    using ok that by (auto simp: corridors_ok_def corridor_ids_def elim: ids_fresh_mono)
  show "wp (delete_corridor i) (\<lambda>_. corridors_ok) w"
    unfolding delete_corridor_def
    by (intro wp_rules) (use gone in \<open>simp_all add: keep has_history_def\<close>)
qed

lemma keeps_corridors_ok_update:
  "(\<And>c. reads_only (f c)) \<Longrightarrow> keeps corridors_ok (update_corridor i f)"
  unfolding update_corridor_def unique_to_def
  by (intro keeps_rules keeps_reads keeps_corridors_ok_write) simp_all

lemma corridors_ok_step_cmd: "keeps corridors_ok (corridor_step cmd)"
  by (cases cmd)
    (auto simp: create_corridor_def reads_lift_sum replace_provider_bindings_def upsert_provider_binding_def unique_to_def Let_def
       intro!: keeps_rules keeps_corridors_ok_upsert keeps_corridors_ok_insert keeps_corridors_ok_insert_binding
         keeps_corridors_ok_update keeps_corridors_ok_deactivate keeps_corridors_ok_upsert_binding keeps_corridors_ok_delete
       split: raw_json.split)


section \<open>Corridors with payment history\<close>

text \<open>The corridor \<open>i\<close> exists under the key \<open>k\<close> and a payment refers to it.\<close>

definition used_as :: "uuid \<Rightarrow> string \<times> string \<times> string \<Rightarrow> world \<Rightarrow> bool" where
  "used_as i k w \<longleftrightarrow> has_history i w \<and> (\<exists>c \<in> set (corridors w). co_id c = i \<and> nat_key c = k)"

lemma used_as_step:
  "used_as i k w \<Longrightarrow> sessions w' = sessions w \<Longrightarrow> settlements w' = settlements w \<Longrightarrow>
   reservations w' = reservations w \<Longrightarrow>
   (\<And>c. c \<in> set (corridors w) \<Longrightarrow> co_id c = i \<Longrightarrow> nat_key c = k \<Longrightarrow>
      \<exists>c' \<in> set (corridors w'). co_id c' = i \<and> nat_key c' = k) \<Longrightarrow> used_as i k w'"
  by (auto simp: used_as_def has_history_def)

lemma db_mono_used_as [simp]: "db_mono (used_as i k)"
  by (simp add: db_mono_def used_as_def has_history_def)

lemma keeps_used_as_bindings:
  "keeps (used_as i k) (insert_binding j b)" "keeps (used_as i k) (upsert_binding_row j b act cfg upd)"
  "keeps (used_as i k) (deactivate_bindings j)"
  unfolding insert_binding_def upsert_binding_row_def deactivate_bindings_def Let_def
  by (intro keeps_rules db_mono_used_as; auto elim!: used_as_step)+

lemma keeps_used_as_insert: "keeps (used_as i k) (insert_corridor c)"
  unfolding insert_corridor_def by (intro keeps_rules db_mono_used_as) (auto elim!: used_as_step)

lemma keeps_used_as_upsert: "keeps (used_as i k) (upsert_corridor c)"
  unfolding upsert_corridor_def
proof (intro keeps_rules db_mono_used_as)
  fix r and w :: world assume u: "used_as i k w"
  show "used_as i k (w\<lparr>corridors := update_where (same_key r)
               (\<lambda>x. corridor_in.extend r (corridor_in.more x)) (corridors w)\<rparr>)"
  proof (rule used_as_step [OF u])
    fix c assume c: "c \<in> set (corridors w)" "co_id c = i" "nat_key c = k"
    show "\<exists>c' \<in> set (corridors (w\<lparr>corridors := update_where (same_key r)
               (\<lambda>x. corridor_in.extend r (corridor_in.more x)) (corridors w)\<rparr>)). co_id c' = i \<and> nat_key c' = k"
    proof (cases "same_key r c")
      case True
      with c show ?thesis
        by (intro bexI [of _ "corridor_in.extend r (corridor_in.more c)"]) (auto simp: set_update_where same_key_iff)
    next
      case False
      with c show ?thesis by (auto simp: set_update_where)
    qed
  qed simp_all
qed (auto elim!: used_as_step)

lemma find_by_id:
  assumes "corridors_ok w" and "find (\<lambda>c. co_id c = j) (corridors w) = Some b" and "c \<in> set (corridors w)" and "co_id c = j"
  shows "c = b"
proof -
  have "b \<in> set (corridors w)" "co_id b = j" using find_Some_mem [OF assms(2)] by auto
  with assms show ?thesis
    by (auto simp: corridors_ok_def ids_fresh_def distinct_map dest: inj_onD)
qed

lemma wp_write_corridor_used_as:
  assumes ok: "corridors_ok w" and u: "used_as i k w"
    and same: "j = i \<Longrightarrow> co_asset next = fst k \<and> co_network next = fst (snd k)"
  shows "wp (write_corridor j next) (\<lambda>_. used_as i k) w"
proof -
  have key: "co_asset r = co_asset next \<and> co_network r = co_network next" if "corridor_cols next = Some r" for r
    using that by (auto simp: corridor_cols_def split: option.splits if_splits)
  have row: "used_as i k w'"
    if "corridors w' = update_where (\<lambda>c. co_id c = j) (\<lambda>_. new) (corridors w)"
      and rest: "sessions w' = sessions w" "settlements w' = settlements w" "reservations w' = reservations w"
      and old: "find (\<lambda>c. co_id c = j) (corridors w) = Some old"
      and new: "co_id new = co_id old" "co_fiat new = co_fiat old"
        "co_asset new = co_asset next" "co_network new = co_network next" for w' old new
  proof (rule used_as_step [OF u])
    fix c assume c: "c \<in> set (corridors w)" "co_id c = i" "nat_key c = k"
    show "\<exists>c' \<in> set (corridors w'). co_id c' = i \<and> nat_key c' = k"
    proof (cases "j = i")
      case True
      have "c = old" by (rule find_by_id [OF ok old]) (use c True in auto)
      with True c new same show ?thesis
        by (intro bexI [of _ new]) (auto simp: set_update_where nat_key_def that(1))
    next
      case False
      with c show ?thesis by (auto simp: set_update_where that(1))
    qed
  qed (simp_all add: rest)
  have keep: "used_as i k (w\<lparr>faults := bs\<rparr>)" for bs
    by (rule used_as_step [OF u]) auto
  show ?thesis
    unfolding write_corridor_def Let_def
    apply (intro wp_rules; (simp add: keep; fail)?)
    subgoal for bs r old by (rule row [of _ "set_columns old r" old]; use key [of r] in simp)
    done
qed

lemma keeps_used_as_update:
  assumes reads: "\<And>c. reads_only (f c)"
  shows "keeps (\<lambda>w. corridors_ok w \<and> used_as i k w) (update_corridor j f)" (is "keeps ?I _")
proof (rule keeps_wp)
  fix w assume pre: "?I w"
  have mono: "?I (v\<lparr>faults := bs, uuid_next := n\<rparr>)" if "?I v" "uuid_next v \<le> n" for v bs n
    using that by (auto simp: used_as_def has_history_def corridors_ok_def corridor_ids_def elim: ids_fresh_mono)
  have mono': "?I (v\<lparr>faults := bs\<rparr>)" if "?I v" for v bs
    using mono [OF that order_refl] by simp
  have wr: "wp (onErr (write_corridor j nx) (unique_to ErrAlreadyExists))
       (wp_bind (\<lambda>after. thenE commit_tx (ret (b, after))) (wp_tx w (\<lambda>_. ?I))) v"
    if I: "?I v" and "j = i \<Longrightarrow> co_asset nx = fst k \<and> co_network nx = fst (snd k)" for nx b v
  proof -
    have spec: "wp (write_corridor j nx) (\<lambda>_. ?I) v"
      using I by (intro wp_conj wp_write_corridor_used_as that(2))
        (auto intro: wp_keeps [OF keeps_corridors_ok_write])
    show ?thesis
      by (rule wp_onErr, rule wp_conseq [OF spec])
        (auto split: sum.splits simp: unique_to_def intro!: wp_rules mono mono' pre)
  qed
  have same: "co_asset b = fst k \<and> co_network b = fst (snd k) \<and> has_history j w"
    if "find (\<lambda>c. co_id c = j) (corridors w) = Some b" "j = i" for b
    using pre find_by_id [OF conjunct1 [OF pre] that(1)] that(2) by (auto simp: used_as_def nat_key_def)
  show "wp (update_corridor j f) (\<lambda>_. ?I) w"
    unfolding update_corridor_def
    apply (intro wp_rules wp_reads [OF reads]; (rule mono [OF pre]; simp; fail)?)
    apply (rule wr; use same mono' [OF pre] in \<open>force simp: has_history_def\<close>)+
    done
qed

lemma keeps_used_as_delete: "keeps (used_as i k) (delete_corridor j)"
proof (rule keeps_wp)
  fix w assume u: "used_as i k w"
  have keep: "used_as i k (w\<lparr>faults := bs, uuid_next := n\<rparr>)" for bs n
    by (rule used_as_step [OF u]) auto
  have gone: "used_as i k (w\<lparr>bindings := bs, entitlements := es,
      corridors := filter (\<lambda>c. co_id c \<noteq> j) (corridors w), faults := fs\<rparr>)" if "\<not> has_history j w" for bs es fs
    by (rule used_as_step [OF u]) (use u that in \<open>auto simp: used_as_def\<close>)
  show "wp (delete_corridor j) (\<lambda>_. used_as i k) w"
    unfolding delete_corridor_def
    by (intro wp_rules) (use gone in \<open>simp_all add: keep has_history_def\<close>)
qed

section \<open>Replacing the active bindings\<close>

lemma upsert_binding_row_success:
  assumes "upsert_binding_row i b act cfg upd w = (Inr row, w')"
  shows "(\<exists>bid. bindings w' = (if list_ex (binding_at i (pb_type b) (pb_name b)) (bindings w)
      then update_where (binding_at i (pb_type b) (pb_name b)) upd (bindings w)
      else bindings w @ [new_binding i (pb_type b) (pb_name b) (pb_priority b) act cfg bid]))"
proof -
  have "wp (upsert_binding_row i b act cfg upd) (\<lambda>r w'. case r of Inl e \<Rightarrow> True | Inr row \<Rightarrow>
      (\<exists>bid. bindings w' = (if list_ex (binding_at i (pb_type b) (pb_name b)) (bindings w)
      then update_where (binding_at i (pb_type b) (pb_name b)) upd (bindings w)
      else bindings w @ [new_binding i (pb_type b) (pb_name b) (pb_priority b) act cfg bid]))) w"
    unfolding upsert_binding_row_def Let_def
    by (intro wp_rules) (auto simp: list_ex_iff find_None_iff dest: find_Some_mem)
  from wpD [OF this assms] show ?thesis by simp
qed

text \<open>What is left of a binding row when the set of active bindings is replaced.\<close>

definition binding_key :: "binding \<Rightarrow> string \<times> string" where
  "binding_key b = (pb_type b, pb_name b)"

definition active_keys :: "uuid \<Rightarrow> binding list \<Rightarrow> (string \<times> string) set" where
  "active_keys i rs = binding_key ` {b \<in> set rs. pb_corridor b = i \<and> pb_active b}"

definition rows_kept :: "uuid \<Rightarrow> binding list \<Rightarrow> binding list \<Rightarrow> bool" where
  "rows_kept i rs rs' \<longleftrightarrow>
     filter (\<lambda>b. pb_corridor b \<noteq> i) rs' = filter (\<lambda>b. pb_corridor b \<noteq> i) rs \<and>
     (\<exists>new. map (\<lambda>b. (pb_id b, pb_corridor b, binding_key b, pb_config b)) rs' =
        map (\<lambda>b. (pb_id b, pb_corridor b, binding_key b, pb_config b)) rs @ new)"

lemma rows_kept_refl: "rows_kept i rs rs"
  by (simp add: rows_kept_def)

lemma rows_kept_trans: "rows_kept i rs rs' \<Longrightarrow> rows_kept i rs' rs'' \<Longrightarrow> rows_kept i rs rs''"
  by (fastforce simp: rows_kept_def)

lemma rows_kept_update:
  assumes "\<And>b. c b \<Longrightarrow> pb_corridor b = i"
    and "\<And>b. pb_id (f b) = pb_id b \<and> pb_corridor (f b) = pb_corridor b \<and> binding_key (f b) = binding_key b \<and> pb_config (f b) = pb_config b"
  shows "rows_kept i rs (update_where c f rs)"
  using assms by (auto simp: rows_kept_def filter_update_where map_update_where)

lemma rows_kept_append: "pb_corridor b = i \<Longrightarrow> rows_kept i rs (rs @ [b])"
  by (simp add: rows_kept_def)

lemma binding_key_upd [simp]: "binding_key (b\<lparr>pb_active := a\<rparr>) = binding_key b" "binding_key (b\<lparr>pb_priority := p\<rparr>) = binding_key b"
  by (simp_all add: binding_key_def)

lemma active_keys_simps [simp]:
  "active_keys i [] = {}"
  "active_keys i (b # rs) = (if pb_corridor b = i \<and> pb_active b then insert (binding_key b) (active_keys i rs) else active_keys i rs)"
  "active_keys i (rs @ rs') = active_keys i rs \<union> active_keys i rs'"
  by (auto simp: active_keys_def)

lemma active_keys_update:
  assumes "\<And>b. c b \<Longrightarrow> pb_corridor b = i \<and> binding_key b = k"
    and "\<And>b. pb_corridor (f b) = pb_corridor b \<and> binding_key (f b) = binding_key b \<and> pb_active (f b)"
  shows "active_keys i (update_where c f rs) = (if list_ex c rs then insert k (active_keys i rs) else active_keys i rs)"
  by (induction rs) (use assms in \<open>auto simp: insert_commute\<close>)

lemma upsert_replace_rows:
  fixes b :: binding_in
  defines "upd \<equiv> (\<lambda>x :: binding. x\<lparr>pb_active := True, pb_priority := pb_priority b\<rparr>)"
  assumes "upsert_binding_row i b True (JObj []) upd w = (Inr row, w')"
  shows "rows_kept i (bindings w) (bindings w') \<and>
    active_keys i (bindings w') = insert (pb_type b, pb_name b) (active_keys i (bindings w))"
proof (cases "list_ex (binding_at i (pb_type b) (pb_name b)) (bindings w)")
  case True
  then have w': "bindings w' = update_where (binding_at i (pb_type b) (pb_name b)) upd (bindings w)"
    using upsert_binding_row_success [OF assms(2)] by simp
  have "active_keys i (bindings w') = insert (pb_type b, pb_name b) (active_keys i (bindings w))"
    unfolding w' by (subst active_keys_update [where k = "(pb_type b, pb_name b)"])
      (simp_all add: True binding_at_def binding_key_def upd_def)
  moreover have "rows_kept i (bindings w) (bindings w')"
    unfolding w' by (rule rows_kept_update) (auto simp: binding_at_def upd_def binding_key_def)
  ultimately show ?thesis by simp
next
  case False
  then obtain bid where w': "bindings w' = bindings w @ [new_binding i (pb_type b) (pb_name b) (pb_priority b) True (JObj []) bid]"
    using upsert_binding_row_success [OF assms(2)] by auto
  then show ?thesis
    by (simp add: w' rows_kept_append new_binding_def binding_key_def)
qed

lemma upsert_all_rows:
  "mapE bs (\<lambda>b. upsert_binding_row i b True (JObj []) (\<lambda>x. x\<lparr>pb_active := True, pb_priority := pb_priority b\<rparr>)) w = (Inr out, w') \<Longrightarrow>
   rows_kept i (bindings w) (bindings w') \<and>
   active_keys i (bindings w') = active_keys i (bindings w) \<union> (\<lambda>b. (pb_type b, pb_name b)) ` set bs"
proof (induction bs arbitrary: w out)
  case Nil
  then show ?case by (simp add: ret_def rows_kept_refl)
next
  case (Cons b bs)
  from Cons.prems obtain row w1 out1 where
    step: "upsert_binding_row i b True (JObj []) (\<lambda>x. x\<lparr>pb_active := True, pb_priority := pb_priority b\<rparr>) w = (Inr row, w1)"
    and rest: "mapE bs (\<lambda>b. upsert_binding_row i b True (JObj []) (\<lambda>x. x\<lparr>pb_active := True, pb_priority := pb_priority b\<rparr>)) w1 = (Inr out1, w')"
    by (auto elim!: bindE_InrE simp: ret_def)
  from upsert_replace_rows [OF step] Cons.IH [OF rest] show ?case
    by (auto intro: rows_kept_trans)
qed

lemma replace_rows:
  assumes "replace_provider_bindings i bs w = (Inr out, w')"
  shows "rows_kept i (bindings w) (bindings w') \<and>
    active_keys i (bindings w') = (\<lambda>b. (pb_type b, pb_name b)) ` set bs"
proof -
  let ?off = "update_where (\<lambda>b. pb_corridor b = i) (\<lambda>b. b\<lparr>pb_active := False\<rparr>) (bindings w)"
  let ?spec = "\<lambda>r w'. case r of Inl e \<Rightarrow> True | Inr (out :: binding list) \<Rightarrow> rows_kept i (bindings w) (bindings w') \<and>
    active_keys i (bindings w') = (\<lambda>b. (pb_type b, pb_name b)) ` set bs"
  have off1: "rows_kept i (bindings w) ?off"
    by (rule rows_kept_update) simp_all
  have off2: "active_keys i (update_where (\<lambda>b. pb_corridor b = i) (\<lambda>b. b\<lparr>pb_active := False\<rparr>) rs) = {}" for rs
    by (induction rs) simp_all
  note off = off1 off2
  have loop: "wp (mapE bs (\<lambda>b. upsert_binding_row i b True (JObj []) (\<lambda>x. x\<lparr>pb_active := True, pb_priority := pb_priority b\<rparr>)))
      (wp_bind (\<lambda>out. thenE commit_tx (ret out)) (wp_tx w ?spec)) v" if "bindings v = ?off" for v
  proof (rule wpI)
    fix r v' assume run: "mapE bs (\<lambda>b. upsert_binding_row i b True (JObj []) (\<lambda>x. x\<lparr>pb_active := True, pb_priority := pb_priority b\<rparr>)) v = (r, v')"
    show "wp_bind (\<lambda>out. thenE commit_tx (ret out)) (wp_tx w ?spec) r v'"
    proof (cases r)
      case (Inl e)
      then show ?thesis by (auto intro!: wp_rules)
    next
      case (Inr out)
      with upsert_all_rows [OF run [unfolded Inr]] off that show ?thesis
        by (auto intro!: wp_rules intro: rows_kept_trans)
    qed
  qed
  have "wp (replace_provider_bindings i bs) ?spec w"
    unfolding replace_provider_bindings_def deactivate_bindings_def
    by (intro wp_rules loop; simp)
  from wpD [OF this assms] show ?thesis by simp
qed

lemma active_providers_spec:
  "sorted (map pb_priority (active_providers i ty w)) \<and>
   set (active_providers i ty w) = {b \<in> set (bindings w). pb_corridor b = i \<and> pb_type b = ty \<and> pb_active b}"
  by (auto simp: active_providers_def)

section \<open>Properties\<close>

lemma keeps_used_as_cmd: "keeps (\<lambda>w. corridors_ok w \<and> used_as i k w) (corridor_step cmd)"
proof (cases cmd)
  case (CmdUpdate j f)
  then show ?thesis by (auto simp: reads_lift_sum intro!: keeps_rules keeps_used_as_update)
next
  case (CmdBind j b act cfg)
  have "keeps (used_as i k) (corridor_step cmd)"
    by (auto simp: CmdBind upsert_provider_binding_def Let_def intro!: keeps_rules keeps_used_as_bindings
        split: raw_json.split)
  with corridors_ok_step_cmd show ?thesis by (rule keeps_conj)
next
  case (CmdCreate c bs)
  have "keeps (used_as i k) (corridor_step cmd)"
    by (auto simp: CmdCreate create_corridor_def unique_to_def intro!: keeps_rules keeps_used_as_insert keeps_used_as_bindings)
  with corridors_ok_step_cmd show ?thesis by (rule keeps_conj)
next
  case (CmdReplace j bs)
  have "keeps (used_as i k) (corridor_step cmd)"
    by (auto simp: CmdReplace replace_provider_bindings_def intro!: keeps_rules keeps_used_as_bindings)
  with corridors_ok_step_cmd show ?thesis by (rule keeps_conj)
next
  case (CmdUpsert c)
  have "keeps (used_as i k) (corridor_step cmd)"
    by (auto simp: CmdUpsert intro!: keeps_rules keeps_used_as_upsert)
  with corridors_ok_step_cmd show ?thesis by (rule keeps_conj)
next
  case (CmdDelete j)
  have "keeps (used_as i k) (corridor_step cmd)"
    by (auto simp: CmdDelete intro!: keeps_rules keeps_used_as_delete)
  with corridors_ok_step_cmd show ?thesis by (rule keeps_conj)
qed

definition sample_corridor_in :: corridor_in where
  "sample_corridor_in = \<lparr>co_asset = ''USDT'', co_network = ''TRC20'', co_fiat = ''NGN'', co_active = True,
     co_min = None, co_max = None, co_threshold = Some 1000, co_window = 86400 * second,
     co_hold = 3600 * second, co_fields = [''account_number'']\<rparr>"

definition sample_corridor :: corridor where
  "sample_corridor = new_corridor sample_corridor_in (sample_src 0) 0"

definition sample_reservation :: reservation where
  "sample_reservation = \<lparr>rv_id = ''r'', rv_tenant = ''T'', rv_corridor = sample_src 0, rv_provider = ''busha'',
     rv_custody = ''partner_custodied'', rv_asset = ''USDT'', rv_network = ''TRC20'', rv_address = ''addr'',
     rv_tag = '''', rv_reference = ''ref'', rv_status = ''reserved'', rv_reserved_at = 0, rv_released_at = None\<rparr>"

definition corridor_world :: world where
  "corridor_world = empty_world\<lparr>uuid_next := 1, corridors := [sample_corridor], reservations := [sample_reservation]\<rparr>"

lemma corridor_world_ok: "corridors_ok corridor_world" "used_as (sample_src 0) (''USDT'', ''TRC20'', ''NGN'') corridor_world"
  by (simp_all add: corridor_world_def empty_world_def corridors_ok_def corridor_ids_def ids_fresh_def inj_sample_src
      used_as_def has_history_def sample_reservation_def sample_corridor_def sample_corridor_in_def nat_key_def)
    (simp add: new_corridor_def corridor_in.defs corridor.defs)

text \<open>
  C22. Every command on corridors keeps the tables consistent, whatever fails on the way: ids
  and natural keys stay unique, and no binding, entitlement, session, settlement or
  reservation is left pointing at a corridor that does not exist.
\<close>

theorem corridor_commands_keep_tables:
  assumes "corridors_ok w"
  shows "corridors_ok (snd (corridor_step cmd w))"
  using corridors_ok_step_cmd assms by (rule keepsD)

theorem corridor_commands_keep_tables_witness:
  "corridors_ok (snd (corridor_step (CmdDelete (sample_src 0)) (corridor_world\<lparr>reservations := []\<rparr>)))"
proof (rule corridor_commands_keep_tables)
  show "corridors_ok (corridor_world\<lparr>reservations := []\<rparr>)"
    using corridor_world_ok(1) by (simp add: corridors_ok_def corridor_ids_def ids_fresh_def)
qed

text \<open>
  C23. Once a payment has used a corridor, no command deletes it or changes its asset,
  network or currency: past payments keep pointing at what they ran on.
\<close>

theorem used_corridor_is_frozen:
  assumes "corridors_ok w" and "used_as i k w"
  shows "used_as i k (snd (corridor_step cmd w))"
  using keepsD [OF keeps_used_as_cmd conjI [OF assms]] by blast

theorem used_corridor_is_frozen_witness:
  "used_as (sample_src 0) (''USDT'', ''TRC20'', ''NGN'')
     (snd (corridor_step (CmdUpdate (sample_src 0) (\<lambda>c. Inr (c\<lparr>co_network := ''ERC20''\<rparr>))) corridor_world))"
  by (rule used_corridor_is_frozen [OF corridor_world_ok])

text \<open>
  A successful \<open>ReplaceProviderBindings\<close> leaves exactly the given providers active on
  the corridor, and loses nothing: every earlier binding row is still there with its id and
  configuration, and the rows of other corridors are untouched.
\<close>

lemma replace_bindings_exact:
  assumes "replace_provider_bindings i bs w = (Inr out, w')"
  shows "active_keys i (bindings w') = (\<lambda>b. (pb_type b, pb_name b)) ` set bs \<and>
    rows_kept i (bindings w) (bindings w')"
  using replace_rows [OF assms] by simp

text \<open>
  The bindings a caller fails over along are exactly the active ones of that corridor and
  type, by ascending priority.
\<close>

lemma active_providers_by_priority:
  "sorted (map pb_priority (active_providers i ty w)) \<and>
   set (active_providers i ty w) = {b \<in> set (bindings w). pb_corridor b = i \<and> pb_type b = ty \<and> pb_active b}"
  by (rule active_providers_spec)

text \<open>
  A payout destination is accepted exactly when the corridor requires nothing, or the
  destination is a JSON object (or absent) in which every required field is a non-empty string.
\<close>

lemma destination_accepted_iff:
  "validate_destination c dest = None \<longleftrightarrow>
   co_fields c = [] \<or>
   (\<exists>kvs. object_fields dest = Some kvs \<and> list_all (\<lambda>k. \<exists>s. json_get kvs k = Some (JStr s) \<and> s \<noteq> '''') (co_fields c))"
  by (auto simp: validate_destination_def missing_fields_Nil_iff has_text_iff list_all_iff split: option.splits if_splits)

end
