(* ===== verification/Rate.thy ===== *)
theory Rate
  imports Corridor "HOL-Library.Multiset"
begin

text \<open>
  The rate engine, \<^verbatim>\<open>internal/rate\<close>: cached provider quotes, the selection of the lowest one,
  the persisted current rate, the asset price with its cache, and the locks a session is
  priced with. Rates are kept in \<open>NUMERIC(20,6)\<close> and asset prices in \<open>NUMERIC(20,8)\<close>
  columns. \<open>GetAllQuotes\<close> asks the providers concurrently; the model asks them in order,
  and \<open>select_best_order\<close> shows that the order does not change the selected rate.
\<close>

section \<open>The configured ceiling\<close>

abbreviation ErrNoQuotesAvailable :: err where
  "ErrNoQuotesAvailable \<equiv> Sentinel ''rate: no provider quotes available''"
abbreviation ErrSystemRateNotSet :: err where
  "ErrSystemRateNotSet \<equiv> Sentinel ''rate: system rate not set for this fiat currency''"
abbreviation ErrLockNotFound :: err where "ErrLockNotFound \<equiv> Sentinel ''rate: lock not found''"
abbreviation ErrCurrentRateNotComputed :: err where
  "ErrCurrentRateNotComputed \<equiv> Sentinel ''rate: current rate not computed yet for this fiat currency''"

definition get_system_rate :: "string \<Rightarrow> system_rate run" where
  "get_system_rate fiat = bindE (query (\<lambda>w. find (\<lambda>r. sr_fiat r = fiat) (system_rates w)))
     (\<lambda>r. case r of None \<Rightarrow> fail ErrSystemRateNotSet | Some x \<Rightarrow> ret x)"

definition set_system_rate :: "string \<Rightarrow> rat \<Rightarrow> rat \<Rightarrow> rat \<Rightarrow> unit run" where
  "set_system_rate fiat cur merch prof = stmt
     (case (numeric_col 20 6 cur, numeric_col 20 6 merch, numeric_col 20 6 prof) of
        (Some c, Some m, Some p) \<Rightarrow> modify (\<lambda>w.
           let row = \<lparr>sr_fiat = fiat, sr_current = c, sr_merchant = m, sr_profit = p, sr_updated = now w\<rparr> in
           w\<lparr>system_rates := (if list_ex (\<lambda>r. sr_fiat r = fiat) (system_rates w)
              then update_where (\<lambda>r. sr_fiat r = fiat) (\<lambda>_. row) (system_rates w)
              else system_rates w @ [row])\<rparr>)
      | _ \<Rightarrow> fail (ConstraintErr ''system_rates''))"

section \<open>Quotes\<close>

definition maxStaleAge :: time where "maxStaleAge = 25 * minute"

definition fetch_system_rate :: "string \<Rightarrow> quote run" where
  "fetch_system_rate fiat = bindE (query (\<lambda>w. find (\<lambda>r. sr_fiat r = fiat) (system_rates w)))
     (\<lambda>r. case r of
        None \<Rightarrow> fail ErrSystemRateNotSet
      | Some x \<Rightarrow> ret \<lparr>q_provider = ''system'', q_rate = sr_current x, q_fetched = sr_updated x\<rparr>)"

definition fetch_cached_provider_rate :: "string \<Rightarrow> string \<Rightarrow> quote run" where
  "fetch_cached_provider_rate name fiat = bindE
     (query (\<lambda>w. (find (\<lambda>r. pr_provider r = name \<and> pr_fiat r = fiat) (provider_rates w), now w)))
     (\<lambda>(r, t). case r of
        None \<Rightarrow> fail (OtherErr ''rate: no cached rate'')
      | Some x \<Rightarrow> if t - pr_fetched x > maxStaleAge then fail (OtherErr ''rate: cached rate is stale'')
          else ret \<lparr>q_provider = name, q_rate = pr_rate x, q_fetched = pr_fetched x\<rparr>)"

text \<open>The registered providers, in the order of \<open>New\<close>, with whether each is enabled.\<close>

definition rate_providers :: "externals \<Rightarrow> (string \<times> bool) list" where
  "rate_providers e = [(''system'', True), (''busha'', cfg_rate_enabled e ''busha''),
     (''liquidramp'', cfg_rate_enabled e ''liquidramp''), (''anchor'', cfg_rate_enabled e ''anchor''),
     (''coinmarketcap'', True)]"

definition fetch_rate :: "string \<Rightarrow> string \<Rightarrow> quote run" where
  "fetch_rate name fiat = (if name = ''system'' then fetch_system_rate fiat
     else fetch_cached_provider_rate name fiat)"

text \<open>\<open>selectBest\<close> panics on an empty slice; its only caller has checked.\<close>

fun select_best :: "quote list \<Rightarrow> quote option" where
  "select_best [] = None"
| "select_best (q # qs) = Some (foldl (\<lambda>best q. if q_rate q < q_rate best then q else best) q qs)"

definition get_all_quotes :: "string \<Rightarrow> (quote list) run" where
  "get_all_quotes fiat = bindE (gets (\<lambda>w. filter snd (rate_providers (env w)))) (\<lambda>ps.
     bindE (mapE ps (\<lambda>(name, _). onErr (bindE (fetch_rate name fiat) (\<lambda>q. ret [q])) (\<lambda>_. ret [])))
       (\<lambda>qss. ret (concat qss)))"

definition get_best_quote :: "string \<Rightarrow> quote run" where
  "get_best_quote fiat = bindE (get_all_quotes fiat) (\<lambda>qs.
     case select_best qs of None \<Rightarrow> fail ErrNoQuotesAvailable | Some q \<Rightarrow> ret q)"

definition upsert_provider_rate :: "quote \<Rightarrow> string \<Rightarrow> unit run" where
  "upsert_provider_rate q fiat = stmt (case numeric_col 20 6 (q_rate q) of
       None \<Rightarrow> fail (ConstraintErr ''provider_rates'')
     | Some r \<Rightarrow> modify (\<lambda>w.
         let row = \<lparr>pr_provider = q_provider q, pr_fiat = fiat, pr_rate = r, pr_fetched = q_fetched q\<rparr>;
             c = (\<lambda>x. pr_provider x = q_provider q \<and> pr_fiat x = fiat) in
         w\<lparr>provider_rates := (if list_ex c (provider_rates w)
            then update_where c (\<lambda>_. row) (provider_rates w) else provider_rates w @ [row])\<rparr>))"

section \<open>The current rate\<close>

definition persist_current_rate :: "current_rate \<Rightarrow> unit run" where
  "persist_current_rate cr = stmt (case numeric_col 20 6 (cr_rate cr) of
       None \<Rightarrow> fail (ConstraintErr ''current_rates'')
     | Some r \<Rightarrow> modify (\<lambda>w.
         let row = cr\<lparr>cr_rate := r\<rparr>; c = (\<lambda>x. cr_fiat x = cr_fiat cr) in
         w\<lparr>current_rates := (if list_ex c (current_rates w)
            then update_where c (\<lambda>_. row) (current_rates w) else current_rates w @ [row])\<rparr>))"

definition compute_and_persist_current_rate :: "string \<Rightarrow> current_rate run" where
  "compute_and_persist_current_rate fiat = bindE (get_best_quote fiat) (\<lambda>q.
     bindE (gets (\<lambda>w. \<lparr>cr_fiat = fiat, cr_rate = q_rate q, cr_provider = q_provider q, cr_computed = now w\<rparr>))
       (\<lambda>cr. thenE (persist_current_rate cr) (ret cr)))"

definition get_current_rate :: "string \<Rightarrow> current_rate run" where
  "get_current_rate fiat = bindE (query (\<lambda>w. find (\<lambda>r. cr_fiat r = fiat) (current_rates w)))
     (\<lambda>r. case r of None \<Rightarrow> fail ErrCurrentRateNotComputed | Some x \<Rightarrow> ret x)"

text \<open>One tick of \<open>CurrentRateJob\<close>: an error is logged and the next currency is tried.\<close>

definition current_rate_tick :: "unit run" where
  "current_rate_tick = onErr (bindE list_active_fiat_currencies (\<lambda>cs.
     forE cs (\<lambda>fiat. onErr (thenE (compute_and_persist_current_rate fiat) (ret ())) (\<lambda>_. ret ()))))
     (\<lambda>_. ret ())"

definition fetch_live_rate :: "string \<Rightarrow> string \<Rightarrow> quote run" where
  "fetch_live_rate name fiat = bindE (ask (CallRate name fiat) (\<lambda>e log. x_live_rate e log name fiat)) (\<lambda>r.
     bindE (lift_sum r) (\<lambda>rate.
       if rate \<le> 0 then fail (OtherErr ''rate: invalid rate'')
       else bindE (gets now) (\<lambda>t. ret \<lparr>q_provider = name, q_rate = rate, q_fetched = t\<rparr>)))"

text \<open>One tick of \<open>FetchJob\<close>: only the three HTTP adapters fetch live.\<close>

definition fetch_tick :: "unit run" where
  "fetch_tick = onErr (bindE list_active_fiat_currencies (\<lambda>cs.
     bindE (gets (\<lambda>w. filter (\<lambda>(n, on). on \<and> n \<noteq> ''system'' \<and> n \<noteq> ''coinmarketcap'') (rate_providers (env w)))) (\<lambda>ps.
       forE ps (\<lambda>(name, _). forE cs (\<lambda>fiat.
         onErr (bindE (fetch_live_rate name fiat) (\<lambda>q. upsert_provider_rate q fiat)) (\<lambda>_. ret ()))))))
     (\<lambda>_. ret ())"

section \<open>Asset prices\<close>

definition assetPriceCacheTTL :: time where "assetPriceCacheTTL = 60 * second"

definition cache_get :: "string \<Rightarrow> world \<Rightarrow> rat option" where
  "cache_get asset w = (case map_of (price_cache w) asset of
       None \<Rightarrow> None
     | Some (p, expires) \<Rightarrow> if now w > expires then None else Some p)"

definition cache_set :: "string \<Rightarrow> rat \<Rightarrow> unit run" where
  "cache_set asset p = modify (\<lambda>w. w\<lparr>price_cache := AList.update asset (p, now w + assetPriceCacheTTL) (price_cache w)\<rparr>)"

definition fetch_asset_price :: "string \<Rightarrow> rat run" where
  "fetch_asset_price asset = bindE (ask (CallPrice asset) (\<lambda>e log. x_price e log asset)) (\<lambda>r.
     bindE (lift_sum r) (\<lambda>p. if p \<le> 0 then fail (OtherErr ''rate: invalid price'') else ret p))"

definition get_asset_price :: "string \<Rightarrow> rat run" where
  "get_asset_price asset = (if asset = ''USDT'' then ret 1
     else bindE (gets (cache_get asset)) (\<lambda>c. case c of
        Some p \<Rightarrow> ret p
      | None \<Rightarrow> bindE (fetch_asset_price asset) (\<lambda>p. thenE (cache_set asset p) (ret p))))"

section \<open>Locks\<close>

definition slippageBuffer :: rat where "slippageBuffer = 1 / 100"
definition DefaultLockTTL :: time where "DefaultLockTTL = 30 * minute"

definition persist_lock :: "lock \<Rightarrow> uuid run" where
  "persist_lock l = stmt (case (numeric_col 20 6 (lk_rate l), numeric_col 20 8 (lk_price l)) of
       (Some r, Some p) \<Rightarrow> bindE gen_uuid (\<lambda>i. thenE
          (modify (\<lambda>w. w\<lparr>locks := locks w @ [l\<lparr>lk_id := i, lk_rate := r, lk_price := p\<rparr>]\<rparr>)) (ret i))
     | _ \<Rightarrow> fail (ConstraintErr ''rate_locks''))"

text \<open>The lock returned has the values computed, the row what the columns keep of them.\<close>

definition lock_rate :: "string \<Rightarrow> string \<Rightarrow> time \<Rightarrow> lock run" where
  "lock_rate asset fiat ttl = bindE (get_current_rate fiat) (\<lambda>cur.
     bindE (get_asset_price asset) (\<lambda>price.
       let adjusted = cr_rate cur - slippageBuffer * cr_rate cur in
       bindE (gets (\<lambda>w. \<lparr>lk_id = uuid_nil, lk_asset = asset, lk_fiat = fiat, lk_rate = adjusted, lk_price = price,
            lk_provider = cr_provider cur, lk_locked = now w, lk_expires = now w + ttl\<rparr>)) (\<lambda>l.
         bindE (persist_lock l) (\<lambda>i. ret (l\<lparr>lk_id := i\<rparr>)))))"

definition get_lock :: "uuid \<Rightarrow> lock run" where
  "get_lock i = bindE (query (\<lambda>w. find (\<lambda>l. lk_id l = i) (locks w)))
     (\<lambda>r. case r of None \<Rightarrow> fail ErrLockNotFound | Some l \<Rightarrow> ret l)"

definition lock_expired :: "lock \<Rightarrow> time \<Rightarrow> bool" where
  "lock_expired l t \<longleftrightarrow> t > lk_expires l"

definition fiat_to_crypto :: "(rat \<Rightarrow> rat \<Rightarrow> rat) \<Rightarrow> lock \<Rightarrow> rat \<Rightarrow> rat" where
  "fiat_to_crypto dv l x = dv (dv x (lk_rate l)) (lk_price l)"

definition crypto_to_fiat :: "lock \<Rightarrow> rat \<Rightarrow> rat" where
  "crypto_to_fiat l x = x * lk_price l * lk_rate l"

section \<open>The selection\<close>

lemma foldl_best:
  "let b = foldl (\<lambda>best q. if q_rate q < q_rate best then q else best) q qs in
     b \<in> set (q # qs) \<and> (\<forall>x \<in> set (q # qs). q_rate b \<le> q_rate x)"
proof (induction qs arbitrary: q)
  case Nil
  then show ?case by simp
next
  case (Cons a qs)
  show ?case
    using Cons [of a] Cons [of q] by (auto simp: Let_def)
qed

lemma select_best_spec:
  "select_best qs = Some b \<Longrightarrow> b \<in> set qs \<and> (\<forall>q \<in> set qs. q_rate b \<le> q_rate q)"
  by (cases qs) (use foldl_best in \<open>auto simp: Let_def\<close>)

lemma select_best_None: "select_best qs = None \<longleftrightarrow> qs = []"
  by (cases qs) auto

lemma select_best_order:
  assumes "mset qs = mset qs'"
  shows "map_option q_rate (select_best qs) = map_option q_rate (select_best qs')"
proof (cases "select_best qs"; cases "select_best qs'")
  fix b b' assume b: "select_best qs = Some b" and b': "select_best qs' = Some b'"
  have "set qs = set qs'" using assms by (rule mset_eq_setD)
  with select_best_spec [OF b] select_best_spec [OF b'] have "q_rate b = q_rate b'"
    by (auto intro: order.antisym)
  with b b' show ?thesis by simp
qed (use assms in \<open>auto simp: select_best_None\<close>)

text \<open>Without database failures the quotes are a function of the tables.\<close>

definition quote_of :: "world \<Rightarrow> string \<Rightarrow> string \<Rightarrow> quote option" where
  "quote_of w fiat name = (if name = ''system''
     then map_option (\<lambda>x. \<lparr>q_provider = ''system'', q_rate = sr_current x, q_fetched = sr_updated x\<rparr>)
            (find (\<lambda>r. sr_fiat r = fiat) (system_rates w))
     else case find (\<lambda>r. pr_provider r = name \<and> pr_fiat r = fiat) (provider_rates w) of
        None \<Rightarrow> None
      | Some x \<Rightarrow> if now w - pr_fetched x > maxStaleAge then None
          else Some \<lparr>q_provider = name, q_rate = pr_rate x, q_fetched = pr_fetched x\<rparr>)"

definition quotes_of :: "world \<Rightarrow> string \<Rightarrow> quote list" where
  "quotes_of w fiat = concat (map (\<lambda>(name, _). case quote_of w fiat name of None \<Rightarrow> [] | Some q \<Rightarrow> [q])
     (filter snd (rate_providers (env w))))"

lemma fetch_rate_Nil:
  assumes "faults w = []"
  shows "\<exists>e. fetch_rate name fiat w = ((case quote_of w fiat name of None \<Rightarrow> Inl e | Some q \<Rightarrow> Inr q), w)"
  using assms
  by (auto simp: fetch_rate_def fetch_system_rate_def fetch_cached_provider_rate_def quote_of_def op_simps
      split: option.splits)

lemma try_fetch_Nil:
  assumes "faults w = []"
  shows "onErr (bindE (fetch_rate name fiat) (\<lambda>q. ret [q])) (\<lambda>_. ret []) w =
    (Inr (case quote_of w fiat name of None \<Rightarrow> [] | Some q \<Rightarrow> [q]), w)"
proof -
  obtain e where "fetch_rate name fiat w = ((case quote_of w fiat name of None \<Rightarrow> Inl e | Some q \<Rightarrow> Inr q), w)"
    using fetch_rate_Nil [OF assms] by blast
  then show ?thesis
    by (cases "quote_of w fiat name") (simp_all add: onErr_def bindE_def ret_def)
qed

lemma fetch_all_Nil:
  "faults w = [] \<Longrightarrow> mapE ps (\<lambda>(name, _). onErr (bindE (fetch_rate name fiat) (\<lambda>q. ret [q])) (\<lambda>_. ret [])) w =
    (Inr (map (\<lambda>(name, _). case quote_of w fiat name of None \<Rightarrow> [] | Some q \<Rightarrow> [q]) ps), w)"
proof (induction ps)
  case Nil
  then show ?case by (simp add: ret_def)
next
  case (Cons p ps)
  then show ?case
    by (cases p) (simp add: bindE_apply_Inr [OF try_fetch_Nil] bindE_apply_Inr, simp add: ret_def)
qed

lemma get_all_quotes_Nil: "faults w = [] \<Longrightarrow> get_all_quotes fiat w = (Inr (quotes_of w fiat), w)"
  by (simp add: get_all_quotes_def op_simps fetch_all_Nil quotes_of_def)

lemma quotes_of_mem: "q \<in> set (quotes_of w fiat) \<longleftrightarrow> (\<exists>name. (name, True) \<in> set (rate_providers (env w)) \<and> quote_of w fiat name = Some q)"
  by (force simp: quotes_of_def split: option.splits)

lemma compute_rate_Nil:
  assumes "faults w = []" and "compute_and_persist_current_rate fiat w = (Inr cr, w')"
  shows "\<exists>q r. select_best (quotes_of w fiat) = Some q \<and>
    cr = \<lparr>cr_fiat = fiat, cr_rate = q_rate q, cr_provider = q_provider q, cr_computed = now w\<rparr> \<and>
    numeric_col 20 6 (q_rate q) = Some r \<and>
    find (\<lambda>x. cr_fiat x = fiat) (current_rates w') = Some (cr\<lparr>cr_rate := r\<rparr>)"
proof -
  have *: "find (\<lambda>x. cr_fiat x = fiat) (update_where (\<lambda>x. cr_fiat x = fiat) (\<lambda>_. row) rs) = Some row"
    if "list_ex (\<lambda>x. cr_fiat x = fiat) rs" "cr_fiat row = fiat" for row rs
    using that by (induction rs) auto
  have **: "find (\<lambda>x. cr_fiat x = fiat) (rs @ [row]) = Some row"
    if "\<not> list_ex (\<lambda>x. cr_fiat x = fiat) rs" "cr_fiat row = fiat" for row rs
    using that by (induction rs) auto
  show ?thesis
    using assms
    by (auto simp: compute_and_persist_current_rate_def get_best_quote_def get_all_quotes_Nil persist_current_rate_def
        op_simps Let_def stmt_Nil bindE_def thenE_def ret_def fail_def gets_def modify_def tick_fault_def stmt_def * **
        split: option.splits if_splits)
qed

section \<open>Properties\<close>

definition rate_world :: world where
  "rate_world = empty_world\<lparr>
     system_rates := [\<lparr>sr_fiat = ''NGN'', sr_current = 1500, sr_merchant = 0, sr_profit = 0, sr_updated = 0\<rparr>],
     provider_rates := [\<lparr>pr_provider = ''coinmarketcap'', pr_fiat = ''NGN'', pr_rate = 2000, pr_fetched = 0\<rparr>]\<rparr>"



text \<open>
  The ceiling is lost when the configured rate cannot be read: \<open>GetAllQuotes\<close> skips the
  \<open>system\<close> provider like any other, so one failed statement makes the job persist a market
  quote above the ceiling of 1500.
\<close>

lemma ceiling_lost_on_failed_read:
  "let (r, w') = compute_and_persist_current_rate ''NGN'' (rate_world\<lparr>faults := [True]\<rparr>)
   in r = Inr \<lparr>cr_fiat = ''NGN'', cr_rate = 2000, cr_provider = ''coinmarketcap'', cr_computed = 0\<rparr> \<and>
      map cr_rate (current_rates w') = [2000]"
  by (simp add: compute_and_persist_current_rate_def get_best_quote_def get_all_quotes_def op_simps
      rate_providers_def rate_world_def empty_world_def sample_env_def fetch_rate_def fetch_system_rate_def
      fetch_cached_provider_rate_def query_def stmt_def tick_fault_def thenE_def bindE_def onErr_def
      ret_def fail_def gets_def modify_def maxStaleAge_def minute_def second_def
      persist_current_rate_def Let_def numeric_col_def round_half_away_def floor_numeral_div)

text \<open>
  A lock prices at 99 percent of the persisted current rate of the currency and expires
  after the given time; the stored row, which settlement pays by, differs from the lock the
  caller quotes with by at most half of the sixth digit of the rate and of the eighth digit
  of the asset price. Earlier locks stay.
\<close>

lemma lock_rate_terms:
  assumes "lock_rate asset fiat ttl w = (Inr l, w')"
  shows "\<exists>cur row. find (\<lambda>r. cr_fiat r = fiat) (current_rates w) = Some cur \<and>
    lk_rate l = cr_rate cur * 99 / 100 \<and> lk_locked l = now w \<and> lk_expires l = now w + ttl \<and>
    locks w' = locks w @ [row] \<and> lk_id row = lk_id l \<and> lk_expires row = lk_expires l \<and>
    \<bar>lk_rate row - lk_rate l\<bar> \<le> 1 / (2 * 10 ^ 6) \<and> \<bar>lk_price row - lk_price l\<bar> \<le> 1 / (2 * 10 ^ 8)"
proof -
  have spec: "wp (lock_rate asset fiat ttl) (\<lambda>r w'. case r of Inl e \<Rightarrow> True | Inr l \<Rightarrow>
      (\<exists>cur row. find (\<lambda>r. cr_fiat r = fiat) (current_rates w) = Some cur \<and>
      lk_rate l = cr_rate cur * 99 / 100 \<and> lk_locked l = now w \<and> lk_expires l = now w + ttl \<and>
      locks w' = locks w @ [row] \<and> lk_id row = lk_id l \<and> lk_expires row = lk_expires l \<and>
      \<bar>lk_rate row - lk_rate l\<bar> \<le> 1 / (2 * 10 ^ 6) \<and> \<bar>lk_price row - lk_price l\<bar> \<le> 1 / (2 * 10 ^ 8))) w"
    unfolding lock_rate_def get_current_rate_def get_asset_price_def fetch_asset_price_def cache_set_def persist_lock_def Let_def
    by (intro wp_rules) (auto simp: slippageBuffer_def dest: numeric_col_error)
  from wpD [OF spec assms] show ?thesis by simp
qed

definition lock_world :: world where
  "lock_world = empty_world\<lparr>current_rates :=
     [\<lparr>cr_fiat = ''NGN'', cr_rate = 1500, cr_provider = ''system'', cr_computed = 0\<rparr>]\<rparr>"

text \<open>
  A price once fetched is served from the cache for the next sixty seconds: the same
  price, and no call to the price source.
\<close>

lemma price_cached_for_ttl:
  assumes "get_asset_price asset w = (Inr p, w1)" and "cache_get asset w = None" and "asset \<noteq> ''USDT''"
    and "t \<le> now w + assetPriceCacheTTL"
  shows "get_asset_price asset (w1\<lparr>now := t\<rparr>) = (Inr p, w1\<lparr>now := t\<rparr>)"
proof -
  have "map_of (price_cache w1) asset = Some (p, now w + assetPriceCacheTTL)"
    using assms(1-3)
    by (auto simp: get_asset_price_def fetch_asset_price_def cache_set_def ask_def bindE_def thenE_def
        ret_def fail_def modify_def gets_def lift_sum_def update_conv' split: sum.splits if_splits)
  then show ?thesis
    using assms(3,4) by (simp add: get_asset_price_def cache_get_def bindE_def gets_def ret_def)
qed

end
