(* ===== verification/Wallet.thy ===== *)
theory Wallet
  imports Schema
begin

text \<open>
  The part of \<^verbatim>\<open>internal/treasury/wallet/wallet.go\<close> that decides which key an address belongs
  to: the networks a corridor may name, the derivation path of a key and the address format of a
  chain. Deriving a key along a path and encoding its address are the wallet libraries'
  (\<open>x_address\<close>, a function of the seed, the format and the path). A path component is a
  \<open>uint32\<close>, so the sums wrap.
\<close>

definition Bitcoin :: string where "Bitcoin = ''bitcoin''"
definition Ethereum :: string where "Ethereum = ''ethereum''"
definition BSC :: string where "BSC = ''bsc''"
definition Tron :: string where "Tron = ''tron''"

lemmas chain_defs = Bitcoin_def Ethereum_def BSC_def Tron_def

definition network_aliases :: "(string \<times> string) list" where
  "network_aliases =
     [(''BITCOIN'', Bitcoin), (''BTC'', Bitcoin),
      (''ETHEREUM'', Ethereum), (''ETH'', Ethereum), (''ERC20'', Ethereum),
      (''BSC'', BSC), (''BEP20'', BSC), (''BNB'', BSC),
      (''TRON'', Tron), (''TRX'', Tron), (''TRC20'', Tron)]"

definition chain_for_network :: "string \<Rightarrow> string \<times> bool" where
  "chain_for_network network = (let key = to_upper (trim_space network) in
     case map_of network_aliases key of Some c \<Rightarrow> (c, True) | None \<Rightarrow> (to_lower key, False))"

section \<open>Derivation paths\<close>

definition slip44_coin_type :: "string \<Rightarrow> 32 word" where
  "slip44_coin_type c = (if c = Bitcoin then 0 else if c = Ethereum then 60 else if c = BSC then 60
     else if c = Tron then 195 else 0)"

definition purpose :: "string \<Rightarrow> 32 word option" where
  "purpose c = (if c = Bitcoin then Some 84 else if c \<in> {Ethereum, BSC, Tron} then Some 44 else None)"

definition HardenedKeyStart :: "32 word" where "HardenedKeyStart = 0x80000000"

definition derivation_path :: "string \<Rightarrow> 32 word \<Rightarrow> 32 word \<Rightarrow> 32 word list option" where
  "derivation_path c account index = map_option
     (\<lambda>p. [HardenedKeyStart + p, HardenedKeyStart + slip44_coin_type c, HardenedKeyStart + account, 0, index])
     (purpose c)"

definition depositAccount :: "32 word" where "depositAccount = 0"
definition gasFundingAccount :: "32 word" where "gasFundingAccount = 1"
definition TenantAccountOffset :: nat where "TenantAccountOffset = 2"

text \<open>Which encoding \<open>addressForChain\<close> uses; Ethereum and BSC share one.\<close>

definition address_format :: "string \<Rightarrow> string option" where
  "address_format c = (if c = Bitcoin then Some ''btc'' else if c \<in> {Ethereum, BSC} then Some ''evm''
     else if c = Tron then Some ''tron'' else None)"

definition unsupported_chain :: err where "unsupported_chain = OtherErr ''wallet: unsupported chain''"

definition derive_address_at_account :: "externals \<Rightarrow> string \<Rightarrow> string \<Rightarrow> 32 word \<Rightarrow> 32 word \<Rightarrow> err + string" where
  "derive_address_at_account e sd c account index =
     (case (derivation_path c account index, address_format c) of
        (Some path, Some fmt) \<Rightarrow> x_address e sd fmt path
      | _ \<Rightarrow> Inl unsupported_chain)"

definition derive_address :: "externals \<Rightarrow> string \<Rightarrow> string \<Rightarrow> 32 word \<Rightarrow> err + string" where
  "derive_address e sd c index = derive_address_at_account e sd c depositAccount index"

definition validate_address :: "externals \<Rightarrow> string \<Rightarrow> string \<Rightarrow> err option" where
  "validate_address e c address = (case address_format c of
     None \<Rightarrow> Some unsupported_chain
   | Some fmt \<Rightarrow> if x_valid_address e fmt address then None else Some (OtherErr ''wallet: invalid address''))"

section \<open>Paths do not collide\<close>

lemma chains_distinct [simp]:
  "Bitcoin \<noteq> Ethereum" "Bitcoin \<noteq> BSC" "Bitcoin \<noteq> Tron" "Ethereum \<noteq> BSC" "Ethereum \<noteq> Tron" "BSC \<noteq> Tron"
  "Ethereum \<noteq> Bitcoin" "BSC \<noteq> Bitcoin" "Tron \<noteq> Bitcoin" "BSC \<noteq> Ethereum" "Tron \<noteq> Ethereum" "Tron \<noteq> BSC"
  by (simp_all add: chain_defs)

lemma derivation_path_eqD:
  assumes "derivation_path c a i = Some p" and "derivation_path c' a' i' = Some p"
  shows "a = a' \<and> i = i' \<and> purpose c = purpose c' \<and> slip44_coin_type c = slip44_coin_type c'"
  using assms by (auto simp: derivation_path_def)

lemma same_coin_chains:
  assumes "purpose c \<noteq> None" and "purpose c' \<noteq> None" and "slip44_coin_type c = slip44_coin_type c'"
  shows "c = c' \<or> {c, c'} = {Ethereum, BSC}"
  using assms by (auto simp: purpose_def slip44_coin_type_def split: if_splits)

text \<open>Two keys share a path only for the same account and index, on the same chain or on the two EVM chains.\<close>

lemma derivation_path_inject:
  assumes "derivation_path c a i = Some p" and "derivation_path c' a' i' = Some p"
  shows "a = a' \<and> i = i' \<and> (c = c' \<or> {c, c'} = {Ethereum, BSC})"
proof -
  have "purpose c \<noteq> None" "purpose c' \<noteq> None"
    using assms by (auto simp: derivation_path_def)
  with derivation_path_eqD [OF assms] same_coin_chains show ?thesis by blast
qed

lemma ethereum_bsc_same_address:
  "derive_address_at_account e sd BSC a i = derive_address_at_account e sd Ethereum a i"
  by (simp add: derive_address_at_account_def derivation_path_def address_format_def purpose_def slip44_coin_type_def)

end
