(* ===== verification/Treasury.thy ===== *)
theory Treasury
  imports Rate Wallet
begin

text \<open>
  Crypto collection, \<^verbatim>\<open>internal/treasury\<close>: reserving a deposit address from the corridor's
  providers in priority order (Busha's quote and transfer, the self-custody HD wallet, a wallet
  the tenant registered, the sandbox), the deposits recorded by the Busha webhook and the chain
  watcher, and the custody balances. The tables \<open>treasury_address_reservations\<close> and
  \<open>treasury_deposits\<close> are \<open>reservations\<close> and \<open>deposits\<close>; their unique indexes (an open
  address, a reservation with a transaction) are conditions of the statements that write them.
\<close>

abbreviation ErrNoProviderAvailable :: err where
  "ErrNoProviderAvailable \<equiv> Sentinel ''treasury: no active, enabled collection provider available for this corridor''"
abbreviation ErrReservationNotFound :: err where
  "ErrReservationNotFound \<equiv> Sentinel ''treasury: reservation not found''"
abbreviation ErrBushaSignature :: err where
  "ErrBushaSignature \<equiv> Sentinel ''treasury: invalid webhook signature''"
abbreviation ErrUnknownReservation :: err where
  "ErrUnknownReservation \<equiv> Sentinel ''treasury: webhook references an unknown reservation''"
abbreviation ErrInvalidDepositEvent :: err where
  "ErrInvalidDepositEvent \<equiv> Sentinel ''treasury: invalid Busha deposit event''"
abbreviation ErrTenantWalletNotRegistered :: err where
  "ErrTenantWalletNotRegistered \<equiv> Sentinel ''treasury: tenant has not registered a custom wallet for this chain''"
abbreviation ErrHDWalletAlreadyInitialized :: err where
  "ErrHDWalletAlreadyInitialized \<equiv> Sentinel ''treasury: hd wallet seed already initialized''"
abbreviation ErrHDWalletNotInitialized :: err where
  "ErrHDWalletNotInitialized \<equiv> Sentinel ''treasury: hd wallet seed not initialized''"

definition CustodyTypeSelf :: string where "CustodyTypeSelf = ''self_custody''"
definition CustodyTypePartner :: string where "CustodyTypePartner = ''partner_custodied''"
definition CustodyTypeTenantProvided :: string where "CustodyTypeTenantProvided = ''tenant_provided''"

lemmas custody_defs = CustodyTypeSelf_def CustodyTypePartner_def CustodyTypeTenantProvided_def

section \<open>The HD wallet\<close>

definition initialize_hd_wallet_seed :: "string \<Rightarrow> string \<Rightarrow> unit run" where
  "initialize_hd_wallet_seed mnemonic key =
     bindE (gets (\<lambda>w. x_encrypt (env w) (uuid_next w) key mnemonic)) (\<lambda>c. bindE (lift_sum c) (\<lambda>ciphertext.
       stmt (bindE (gets seed_row) (\<lambda>row. case row of
          Some _ \<Rightarrow> fail ErrHDWalletAlreadyInitialized
        | None \<Rightarrow> modify (\<lambda>w. w\<lparr>seed_row := Some ciphertext\<rparr>)))))"

definition load_hd_wallet_seed :: "string \<Rightarrow> unit run" where
  "load_hd_wallet_seed key = bindE (query seed_row) (\<lambda>row. case row of
       None \<Rightarrow> fail ErrHDWalletNotInitialized
     | Some ciphertext \<Rightarrow> bindE (gets (\<lambda>w. x_decrypt (env w) key ciphertext)) (\<lambda>d. bindE (lift_sum d) (\<lambda>mnemonic.
         bindE (gets (\<lambda>w. x_mnemonic_ok (env w) mnemonic)) (\<lambda>ok.
           if ok then modify (\<lambda>w. w\<lparr>seed := Some mnemonic\<rparr>) else fail (OtherErr ''wallet: invalid mnemonic'')))))"

text \<open>
  \<open>INSERT .. VALUES (1, 3) ON CONFLICT DO UPDATE next + 1 RETURNING next - 1\<close>, and the row of
  the tenant, unique in the tenant and in the account. A violated index makes the code start
  over; the recursion is bounded by the fuel of its caller.
\<close>

definition next_account :: "nat run" where
  "next_account = stmt (bindE (gets hd_counter) (\<lambda>c. case c of
       None \<Rightarrow> thenE (modify (\<lambda>w. w\<lparr>hd_counter := Some 3\<rparr>)) (ret 2)
     | Some n \<Rightarrow> thenE (modify (\<lambda>w. w\<lparr>hd_counter := Some (Suc n)\<rparr>)) (ret n)))"

definition insert_hd_account :: "uuid \<Rightarrow> nat \<Rightarrow> unit run" where
  "insert_hd_account tenant account = stmt (bindE
     (gets (\<lambda>w. list_ex (\<lambda>(t, a). t = tenant \<or> a = account) (hd_accounts w))) (\<lambda>dup.
       if dup then fail (UniqueErr ''treasury_tenant_hd_accounts'')
       else modify (\<lambda>w. w\<lparr>hd_accounts := hd_accounts w @ [(tenant, account)]\<rparr>)))"

fun get_or_allocate_tenant_account :: "nat \<Rightarrow> uuid \<Rightarrow> (32 word) run" where
  "get_or_allocate_tenant_account 0 tenant = fail OutOfFuel"
| "get_or_allocate_tenant_account (Suc fuel) tenant =
     bindE (query (\<lambda>w. map_of (hd_accounts w) tenant)) (\<lambda>r. case r of
       Some account \<Rightarrow> ret (of_nat account)
     | None \<Rightarrow> bindE next_account (\<lambda>account.
         bindE (attemptE (insert_hd_account tenant account)) (\<lambda>ins. case ins of
             Inr _ \<Rightarrow> ret (of_nat account)
           | Inl e \<Rightarrow> (case e of UniqueErr _ \<Rightarrow> get_or_allocate_tenant_account fuel tenant | _ \<Rightarrow> fail e))))"

definition address_reserved :: "world \<Rightarrow> string \<Rightarrow> bool" where
  "address_reserved w addr \<longleftrightarrow> list_ex (\<lambda>r. rv_address r = addr \<and> rv_status r = ''reserved'') (reservations w)"

definition find_free_derived_address :: "uuid \<Rightarrow> string \<Rightarrow> string option run" where
  "find_free_derived_address tenant chain = query (\<lambda>w. map_option (\<lambda>(_, _, _, addr). addr)
     (first_min (\<lambda>(_, _, i, _). i)
       (filter (\<lambda>(c, t, _, addr). c = chain \<and> t = tenant \<and> \<not> address_reserved w addr) (derived w))))"

definition allocate_next_index :: "uuid \<Rightarrow> string \<Rightarrow> nat run" where
  "allocate_next_index tenant chain = stmt (bindE (gets (\<lambda>w. map_of (hd_indices w) (chain, tenant))) (\<lambda>r.
     let n = (case r of None \<Rightarrow> 0 | Some n \<Rightarrow> n) in
     thenE (modify (\<lambda>w. w\<lparr>hd_indices := AList.update (chain, tenant) (Suc n) (hd_indices w)\<rparr>)) (ret n)))"

definition insert_derived_address :: "string \<Rightarrow> uuid \<Rightarrow> nat \<Rightarrow> string \<Rightarrow> unit run" where
  "insert_derived_address chain tenant i addr = stmt (bindE
     (gets (\<lambda>w. list_ex (\<lambda>(c, t, j, a). a = addr \<or> (c = chain \<and> t = tenant \<and> j = i)) (derived w))) (\<lambda>dup.
       if dup then fail (UniqueErr ''derived_addresses'')
       else modify (\<lambda>w. w\<lparr>derived := derived w @ [(chain, tenant, i, addr)]\<rparr>)))"

definition allocate_or_reuse_address :: "uuid \<Rightarrow> string \<Rightarrow> string run" where
  "allocate_or_reuse_address tenant chain = bindE (gets seed) (\<lambda>s. case s of
       None \<Rightarrow> fail ErrHDWalletNotInitialized
     | Some sd \<Rightarrow> bindE (find_free_derived_address tenant chain) (\<lambda>free. case free of
         Some addr \<Rightarrow> ret addr
       | None \<Rightarrow> bindE (bindE (gets (\<lambda>w. Suc (length (hd_accounts w)))) (\<lambda>fuel. get_or_allocate_tenant_account fuel tenant)) (\<lambda>account.
           bindE (allocate_next_index tenant chain) (\<lambda>i.
             bindE (gets (\<lambda>w. derive_address_at_account (env w) sd chain account (of_nat i))) (\<lambda>a.
               bindE (lift_sum a) (\<lambda>addr. thenE (insert_derived_address chain tenant i addr) (ret addr)))))))"

section \<open>Wallets of the tenant\<close>

definition register_tenant_custom_wallet :: "uuid \<Rightarrow> string \<Rightarrow> string \<Rightarrow> string \<Rightarrow> unit run" where
  "register_tenant_custom_wallet tenant chain addr tag =
     bindE (gets (\<lambda>w. validate_address (env w) chain addr)) (\<lambda>bad. case bad of
       Some e \<Rightarrow> fail e
     | None \<Rightarrow> exec (\<lambda>w. w\<lparr>custom_wallets := AList.update (tenant, chain) (addr, tag) (custom_wallets w)\<rparr>))"

definition get_tenant_custom_wallet :: "uuid \<Rightarrow> string \<Rightarrow> (string \<times> string) run" where
  "get_tenant_custom_wallet tenant chain = bindE (query (\<lambda>w. map_of (custom_wallets w) (tenant, chain)))
     (\<lambda>r. case r of None \<Rightarrow> fail ErrTenantWalletNotRegistered | Some x \<Rightarrow> ret x)"

section \<open>Busha\<close>

definition no_address :: provider_address where
  "no_address = \<lparr>pa_address = '''', pa_tag = '''', pa_reference = '''', pa_amount = '''', pa_expires = None\<rparr>"

definition transfer_matches :: "string \<Rightarrow> string \<Rightarrow> rat \<Rightarrow> time \<Rightarrow> busha_transfer \<Rightarrow> bool" where
  "transfer_matches asset network amount t tr \<longleftrightarrow>
     bt_id tr \<noteq> '''' \<and> bt_address tr \<noteq> '''' \<and> bt_type tr = ''address'' \<and>
     bt_source tr = asset \<and> bt_target tr = asset \<and> bt_network tr = network \<and>
     bt_amount tr = amount \<and> (case bt_expires tr of None \<Rightarrow> False | Some x \<Rightarrow> x > t)"

definition busha_reserve_deposit :: "string \<Rightarrow> string \<Rightarrow> rat \<Rightarrow> provider_address run" where
  "busha_reserve_deposit asset network amount =
     bindE (gets (\<lambda>w. cfg_busha (env w) \<and> trim_space (cfg_busha_key (env w)) \<noteq> '''' \<and>
              trim_space (cfg_busha_secret (env w)) \<noteq> '''')) (\<lambda>on.
       if \<not> on then fail (OtherErr ''treasury: Busha collection is disabled or missing credentials'')
       else if \<not> (amount > 0 \<and> asset \<noteq> '''' \<and> network \<noteq> '''')
       then fail (OtherErr ''treasury: Busha requires a positive amount, asset and network'')
       else bindE (ask (CallBushaQuote asset network amount) (\<lambda>e log. x_busha_quote e log asset network amount)) (\<lambda>q.
         bindE (lift_sum q) (\<lambda>quote_id.
           if quote_id = '''' then fail (OtherErr ''treasury: Busha quote missing id'')
           else bindE (ask (CallBushaTransfer quote_id) (\<lambda>e log. x_busha_transfer e log quote_id)) (\<lambda>t.
             bindE (lift_sum t) (\<lambda>tr. bindE (gets now) (\<lambda>n.
               if transfer_matches asset network amount n tr
               then bindE (gets (\<lambda>w. x_dec_text (env w) (bt_amount tr))) (\<lambda>txt.
                 ret \<lparr>pa_address = bt_address tr, pa_tag = bt_memo tr, pa_reference = bt_id tr,
                   pa_amount = txt, pa_expires = bt_expires tr\<rparr>)
               else fail (OtherErr ''treasury: Busha returned incomplete or mismatched deposit instructions'')))))))"

section \<open>Providers\<close>

text \<open>The registered adapters and whether each is enabled.\<close>

definition collection_providers :: "world \<Rightarrow> (string \<times> bool) list" where
  "collection_providers w =
     [(''busha'', cfg_busha (env w)), (''self_custody_wallet'', seed w \<noteq> None), (''tenant_provided_wallet'', True)]
     @ (if cfg_sandbox (env w) then [(''sandbox'', True)] else [])"

definition collection_has_provider :: "string \<Rightarrow> world \<Rightarrow> bool" where
  "collection_has_provider name w \<longleftrightarrow> map_of (collection_providers w) name \<noteq> None"

definition custody_type :: "string \<Rightarrow> string" where
  "custody_type name = (if name = ''self_custody_wallet'' then CustodyTypeSelf
     else if name = ''tenant_provided_wallet'' then CustodyTypeTenantProvided else CustodyTypePartner)"

definition self_custody_reserve :: "uuid \<Rightarrow> string \<Rightarrow> provider_address run" where
  "self_custody_reserve tenant network = (let chain = fst (chain_for_network network) in
     if chain \<in> {Bitcoin, Ethereum, BSC, Tron}
     then bindE (allocate_or_reuse_address tenant chain) (\<lambda>addr. ret (no_address\<lparr>pa_address := addr\<rparr>))
     else fail (OtherErr ''treasury: unsupported self-custody chain''))"

definition tenant_wallet_reserve :: "uuid \<Rightarrow> string \<Rightarrow> provider_address run" where
  "tenant_wallet_reserve tenant network =
     bindE (get_tenant_custom_wallet tenant (fst (chain_for_network network))) (\<lambda>(addr, tag).
       ret (no_address\<lparr>pa_address := addr, pa_tag := tag\<rparr>))"

definition sandbox_reserve :: "string \<Rightarrow> string \<Rightarrow> provider_address run" where
  "sandbox_reserve asset network = bindE gen_uuid (\<lambda>ref. ret (no_address\<lparr>
     pa_address := ''sandbox-'' @ network @ ''-'' @ asset @ ''-'' @ take 8 ref, pa_reference := ref\<rparr>))"

text \<open>\<open>ReserveDeposit\<close> of the quoting adapter when an amount is given, else \<open>ReserveAddress\<close>.\<close>

definition provider_reserve :: "string \<Rightarrow> uuid \<Rightarrow> string \<Rightarrow> string \<Rightarrow> rat option \<Rightarrow> provider_address run" where
  "provider_reserve name tenant asset network amount =
     (if name = ''busha'' then (case amount of
          Some a \<Rightarrow> busha_reserve_deposit asset network a
        | None \<Rightarrow> fail (OtherErr ''treasury: Busha Business requires a deposit amount''))
      else if name = ''self_custody_wallet'' then self_custody_reserve tenant network
      else if name = ''tenant_provided_wallet'' then tenant_wallet_reserve tenant network
      else sandbox_reserve asset network)"

definition persist_reservation :: "uuid \<Rightarrow> uuid \<Rightarrow> string \<Rightarrow> string \<Rightarrow> string \<Rightarrow> provider_address \<Rightarrow> reservation run" where
  "persist_reservation tenant cid name asset network addr = bindE (gets now) (\<lambda>t.
     let r = \<lparr>rv_id = uuid_nil, rv_tenant = tenant, rv_corridor = cid, rv_provider = name, rv_custody = custody_type name,
           rv_asset = asset, rv_network = network, rv_address = pa_address addr, rv_tag = pa_tag addr,
           rv_reference = pa_reference addr, rv_status = ''reserved'', rv_reserved_at = t, rv_released_at = None\<rparr> in
     stmt (bindE (gets (\<lambda>w. (list_ex (\<lambda>c. co_id c = cid) (corridors w), address_reserved w (pa_address addr)))) (\<lambda>(fk, dup).
       if \<not> fk then fail (ConstraintErr ''treasury_address_reservations'')
       else if dup then fail (UniqueErr ''idx_treasury_reservations_open_address'')
       else bindE gen_uuid (\<lambda>i. thenE
         (modify (\<lambda>w. w\<lparr>reservations := reservations w @ [r\<lparr>rv_id := i\<rparr>]\<rparr>)) (ret (r\<lparr>rv_id := i\<rparr>))))))"

text \<open>The loop over the bindings; an adapter that fails hands over to the next, a failed insert does not.\<close>

fun reserve_from :: "uuid \<Rightarrow> corridor \<Rightarrow> rat option \<Rightarrow> binding list \<Rightarrow> (reservation \<times> provider_address) run" where
  "reserve_from tenant c amount [] = fail ErrNoProviderAvailable"
| "reserve_from tenant c amount (b # bs) =
     bindE (gets (\<lambda>w. map_of (collection_providers w) (pb_name b) = Some True)) (\<lambda>on.
       if \<not> on then reserve_from tenant c amount bs
       else bindE (attemptE (provider_reserve (pb_name b) tenant (co_asset c) (co_network c) amount)) (\<lambda>r. case r of
           Inl e \<Rightarrow> reserve_from tenant c amount bs
         | Inr addr \<Rightarrow> bindE (persist_reservation tenant (co_id c) (pb_name b) (co_asset c) (co_network c) addr)
             (\<lambda>row. ret (row, addr))))"

definition reserve_address :: "uuid \<Rightarrow> uuid \<Rightarrow> rat option \<Rightarrow> (reservation \<times> provider_address) run" where
  "reserve_address tenant cid amount = bindE (get_corridor_by_id cid) (\<lambda>c.
     bindE (list_active_providers cid ProviderTypeCollection) (\<lambda>bs. reserve_from tenant c amount bs))"

definition get_reservation :: "uuid \<Rightarrow> reservation run" where
  "get_reservation i = bindE (query (\<lambda>w. find (\<lambda>r. rv_id r = i) (reservations w)))
     (\<lambda>r. case r of None \<Rightarrow> fail ErrReservationNotFound | Some x \<Rightarrow> ret x)"

definition get_deposit_instructions :: "uuid \<Rightarrow> uuid \<Rightarrow> rat option \<Rightarrow> instructions run" where
  "get_deposit_instructions tenant cid amount = bindE (reserve_address tenant cid amount) (\<lambda>(r, addr).
     ret \<lparr>di_reservation = rv_id r, di_tenant = rv_tenant r, di_provider = rv_provider r, di_asset = rv_asset r,
       di_network = rv_network r, di_address = rv_address r, di_tag = rv_tag r, di_amount = pa_amount addr,
       di_expires = pa_expires addr\<rparr>)"

definition release_reservation :: "uuid \<Rightarrow> unit run" where
  "release_reservation i = exec (\<lambda>w. w\<lparr>reservations := update_where (\<lambda>r. rv_id r = i \<and> rv_status r = ''reserved'')
     (\<lambda>r. r\<lparr>rv_status := ''released'', rv_released_at := Some (now w)\<rparr>) (reservations w)\<rparr>)"

section \<open>Deposits\<close>

definition deposit_at :: "uuid \<Rightarrow> string \<Rightarrow> deposit \<Rightarrow> bool" where
  "deposit_at rid tx d \<longleftrightarrow> dp_reservation d = rid \<and> dp_tx d = tx"

definition insert_deposit_if_absent ::
  "uuid \<Rightarrow> string \<Rightarrow> rat \<Rightarrow> string \<Rightarrow> time option \<Rightarrow> time option \<Rightarrow> string \<Rightarrow> bool run" where
  "insert_deposit_if_absent rid status amount tx detected confirmed raw = stmt
     (bindE (gets (\<lambda>w. find (\<lambda>r. rv_id r = rid) (reservations w))) (\<lambda>r. case r of
        None \<Rightarrow> ret False
      | Some rv \<Rightarrow> (case numeric_col 20 8 amount of
          None \<Rightarrow> fail (ConstraintErr ''treasury_deposits'')
        | Some a \<Rightarrow> bindE (gets (\<lambda>w. list_ex (deposit_at rid tx) (deposits w))) (\<lambda>dup.
            if dup then ret False
            else bindE gen_uuid (\<lambda>i. thenE (modify (\<lambda>w. w\<lparr>deposits := deposits w @
              [\<lparr>dp_id = i, dp_reservation = rid, dp_status = status, dp_asset = rv_asset rv, dp_amount = a,
                dp_tx = tx, dp_payload = raw, dp_detected_at = detected, dp_confirmed_at = confirmed,
                dp_swept_at = None\<rparr>]\<rparr>)) (ret True))))))"

definition confirm_deposit :: "uuid \<Rightarrow> string \<Rightarrow> rat \<Rightarrow> string \<Rightarrow> time \<Rightarrow> bool run" where
  "confirm_deposit rid tx amount raw t = stmt (case numeric_col 20 8 amount of
       None \<Rightarrow> fail (ConstraintErr ''treasury_deposits'')
     | Some a \<Rightarrow> bindE (gets (\<lambda>w. count_where (\<lambda>d. deposit_at rid tx d \<and> dp_status d = ''detected'') (deposits w))) (\<lambda>n.
         thenE (modify (\<lambda>w. w\<lparr>deposits := update_where (\<lambda>d. deposit_at rid tx d \<and> dp_status d = ''detected'')
             (\<lambda>d. d\<lparr>dp_status := ''confirmed'', dp_confirmed_at := Some t, dp_amount := a, dp_payload := raw\<rparr>)
             (deposits w)\<rparr>))
           (ret (n > 0))))"

definition record_deposit_transition :: "uuid \<Rightarrow> string \<Rightarrow> rat \<Rightarrow> string \<Rightarrow> string \<Rightarrow> unit run" where
  "record_deposit_transition rid status amount tx raw = bindE (gets now) (\<lambda>t.
     let conf = (status = ''confirmed'') in
     atomically (thenE begin_tx
       (bindE
         (bindE (insert_deposit_if_absent rid status amount tx (if conf then None else Some t) (if conf then Some t else None) raw)
           (\<lambda>inserted. if \<not> inserted \<and> conf then confirm_deposit rid tx amount raw t else ret inserted))
         (\<lambda>transitioned. thenE
           (if transitioned
            then publish_if_bus (if conf then ''treasury.deposit_confirmed'' else ''treasury.deposit_detected'')
              ''treasury_deposit'' rid [(''tx_reference'', PStr tx), (''amount'', PDec amount)]
            else ret ())
           commit_tx))))"

definition get_confirmed_deposit_total :: "uuid \<Rightarrow> rat run" where
  "get_confirmed_deposit_total rid = query (\<lambda>w. sum_list (map dp_amount
     (filter (\<lambda>d. dp_reservation d = rid \<and> dp_status d = ''confirmed'') (deposits w))))"

definition get_deposit :: "uuid \<Rightarrow> string \<Rightarrow> deposit run" where
  "get_deposit rid tx = bindE (query (\<lambda>w. find (deposit_at rid tx) (deposits w)))
     (\<lambda>r. case r of None \<Rightarrow> fail (OtherErr ''treasury: no deposit found'') | Some d \<Rightarrow> ret d)"

definition record_custody_balance :: "string \<Rightarrow> string \<Rightarrow> rat \<Rightarrow> time \<Rightarrow> unit run" where
  "record_custody_balance name asset balance as_of = stmt (case numeric_col 20 8 balance of
       None \<Rightarrow> fail (ConstraintErr ''treasury_custody_balances'')
     | Some b \<Rightarrow> modify (\<lambda>w. w\<lparr>custody_balances := AList.update (name, asset) (b, as_of) (custody_balances w)\<rparr>))"

definition get_custody_balance :: "string \<Rightarrow> string \<Rightarrow> (rat \<times> time) run" where
  "get_custody_balance name asset = bindE (query (\<lambda>w. map_of (custody_balances w) (name, asset)))
     (\<lambda>r. case r of None \<Rightarrow> fail (OtherErr ''treasury: no custody balance recorded'') | Some x \<Rightarrow> ret x)"

section \<open>The Busha webhook\<close>

definition compute_webhook_signature :: "externals \<Rightarrow> string \<Rightarrow> string \<Rightarrow> string" where
  "compute_webhook_signature e secret body = hex_encode (x_hmac e secret body)"

definition verify_webhook_signature :: "externals \<Rightarrow> string \<Rightarrow> string \<Rightarrow> string \<Rightarrow> bool" where
  "verify_webhook_signature e secret body sig \<longleftrightarrow>
     trim_space secret \<noteq> '''' \<and> sig \<noteq> '''' \<and> compute_webhook_signature e secret body = sig"

definition compute_busha_signature :: "externals \<Rightarrow> string \<Rightarrow> string \<Rightarrow> string" where
  "compute_busha_signature e secret body = base64_encode (x_hmac e secret body)"

definition verify_busha_signature :: "externals \<Rightarrow> string \<Rightarrow> string \<Rightarrow> string \<Rightarrow> bool" where
  "verify_busha_signature e secret body sig \<longleftrightarrow>
     trim_space secret \<noteq> '''' \<and> sig \<noteq> '''' \<and> compute_busha_signature e secret body = sig"

text \<open>The status of the deposit, \<open>Inr None\<close> for an event that is no evidence of one.\<close>

definition classify_busha_deposit :: "string \<Rightarrow> busha_transfer \<Rightarrow> err + string option" where
  "classify_busha_deposit ty t =
     (case map_of [(''transfer.processing'', (''detected'', ''processing'')),
                   (''transfer.funds_received'', (''confirmed'', ''funds_received'')),
                   (''transfer.completed'', (''confirmed'', ''completed''))] ty of
        None \<Rightarrow> Inr None
      | Some (status, want) \<Rightarrow>
          if bt_id t = '''' \<or> bt_status t \<noteq> want \<or> \<not> bt_amount t > 0 \<or> bt_amount t \<noteq> round_half_away 8 (bt_amount t) \<or>
             bt_source t = '''' \<or> bt_target t = ''''
          then Inl ErrInvalidDepositEvent else Inr (Some status))"

definition find_reservation_by_reference :: "string \<Rightarrow> uuid run" where
  "find_reservation_by_reference ref = bindE (query (\<lambda>w. first_min (\<lambda>r. - rv_reserved_at r)
       (filter (\<lambda>r. rv_provider r = ''busha'' \<and> rv_reference r = ref \<and> rv_reference r \<noteq> '''') (reservations w))))
     (\<lambda>r. case r of None \<Rightarrow> fail ErrUnknownReservation | Some x \<Rightarrow> ret (rv_id x))"

definition transfer_fits :: "busha_transfer \<Rightarrow> reservation \<Rightarrow> bool" where
  "transfer_fits t r \<longleftrightarrow> bt_source t = rv_asset r \<and> bt_target t = rv_asset r \<and>
     (bt_network t = '''' \<or> bt_network t = rv_network r) \<and>
     (bt_address t = '''' \<or> bt_address t = rv_address r) \<and>
     (bt_type t = '''' \<or> bt_type t = ''address'')"

definition handle_deposit_webhook :: "string \<Rightarrow> string \<Rightarrow> unit run" where
  "handle_deposit_webhook body sig = bindE (gets env) (\<lambda>e.
     if \<not> cfg_busha e then fail ErrBushaSignature
     else if \<not> verify_busha_signature e (cfg_busha_secret e) body sig then fail ErrBushaSignature
     else case x_busha_decode e body of
       None \<Rightarrow> fail ErrInvalidDepositEvent
     | Some (ty, t) \<Rightarrow> bindE (lift_sum (classify_busha_deposit ty t)) (\<lambda>c. case c of
         None \<Rightarrow> ret ()
       | Some status \<Rightarrow> bindE (find_reservation_by_reference (bt_id t)) (\<lambda>rid.
           bindE (get_reservation rid) (\<lambda>r.
             if \<not> transfer_fits t r then fail ErrInvalidDepositEvent
             else record_deposit_transition rid status (bt_amount t) (bt_id t) body))))"

section \<open>The sandbox\<close>

definition sandboxConfirmDelay :: time where "sandboxConfirmDelay = 10 * second"

definition due_sandbox :: "world \<Rightarrow> (uuid \<times> rat \<times> rat \<times> rat) list" where
  "due_sandbox w = concat (map (\<lambda>r. concat (map (\<lambda>s. map (\<lambda>l. (rv_id r, s_fiat_amount s, lk_rate l, lk_price l))
       (filter (\<lambda>l. s_lock s = Some (lk_id l)) (locks w)))
     (filter (\<lambda>s. s_reservation s = Some (rv_id r)) (sessions w))))
     (filter (\<lambda>r. rv_provider r = ''sandbox'' \<and> rv_status r = ''reserved'' \<and>
        rv_reserved_at r < now w - sandboxConfirmDelay \<and> \<not> list_ex (\<lambda>d. dp_reservation d = rv_id r) (deposits w))
       (reservations w)))"

definition confirm_due_sandbox_deposits :: "unit run" where
  "confirm_due_sandbox_deposits = bindE (query due_sandbox) (\<lambda>dues. bindE (gets env) (\<lambda>e.
     forE dues (\<lambda>(rid, fiat, rate, price).
       let amount = x_div e (x_div e fiat rate) price; tx = ''sandbox-'' @ rid in
       thenE (record_deposit_transition rid ''detected'' amount tx ''{\"sandbox\":true}'')
         (record_deposit_transition rid ''confirmed'' amount tx ''{\"sandbox\":true}''))))"

section \<open>What the treasury leaves alone\<close>

lemma db_view_treasury [simp]:
  "db_view deposits" "db_view reservations" "db_view (\<lambda>w. (deposits w, outbox w))" "db_view env" "db_view hd_accounts"
  "db_view hd_counter" "db_view derived" "db_view hd_indices" "db_view sessions" "db_view settlements" "db_view attempts"
  "db_view ext_log" "db_view txns" "db_view entries" "db_view locks" "db_view corridors" "db_view bindings" "db_view seed"
  "db_view balances" "db_view accounts" "db_view reversals" "db_view cases" "db_view entitlements"
  by (simp_all add: db_view_def)

section \<open>Deposits are recorded once\<close>

definition deposit_event :: "uuid \<Rightarrow> bool \<Rightarrow> string \<Rightarrow> event \<Rightarrow> bool" where
  "deposit_event rid conf tx ev \<longleftrightarrow> ev_agg_id ev = rid \<and> map_of (ev_payload ev) ''tx_reference'' = Some (PStr tx) \<and>
     ev_type ev = (if conf then ''treasury.deposit_confirmed'' else ''treasury.deposit_detected'')"

text \<open>What a recorded transition did: nothing, a new row with its event, or the confirmation of a detected row with its event.\<close>

definition confirmed_row :: "rat \<Rightarrow> string \<Rightarrow> time \<Rightarrow> deposit \<Rightarrow> deposit" where
  "confirmed_row a raw t d = d\<lparr>dp_status := ''confirmed'', dp_confirmed_at := Some t, dp_amount := a, dp_payload := raw\<rparr>"

definition row_inserted :: "uuid \<Rightarrow> bool \<Rightarrow> string \<Rightarrow> world \<Rightarrow> world \<Rightarrow> bool" where
  "row_inserted rid conf tx w w' \<longleftrightarrow> \<not> list_ex (deposit_at rid tx) (deposits w) \<and> rid \<in> rv_id ` set (reservations w) \<and>
     (\<exists>d. deposits w' = deposits w @ [d] \<and> deposit_at rid tx d \<and> dp_status d = (if conf then ''confirmed'' else ''detected''))"

definition row_confirmed :: "uuid \<Rightarrow> string \<Rightarrow> world \<Rightarrow> world \<Rightarrow> bool" where
  "row_confirmed rid tx w w' \<longleftrightarrow> list_ex (\<lambda>d. deposit_at rid tx d \<and> dp_status d = ''detected'') (deposits w) \<and>
     (\<exists>a raw t. deposits w' = update_where (\<lambda>d. deposit_at rid tx d \<and> dp_status d = ''detected'') (confirmed_row a raw t) (deposits w))"

definition event_added :: "uuid \<Rightarrow> bool \<Rightarrow> string \<Rightarrow> world \<Rightarrow> world \<Rightarrow> bool" where
  "event_added rid conf tx w w' \<longleftrightarrow>
     (if bus_on w then \<exists>ev. outbox w' = outbox w @ [ev] \<and> deposit_event rid conf tx ev else outbox w' = outbox w)"

definition deposit_step :: "uuid \<Rightarrow> bool \<Rightarrow> string \<Rightarrow> world \<Rightarrow> world \<Rightarrow> bool" where
  "deposit_step rid conf tx w w' \<longleftrightarrow>
     (deposits w' = deposits w \<and> outbox w' = outbox w) \<or>
     ((row_inserted rid conf tx w w' \<or> conf \<and> row_confirmed rid tx w w') \<and> event_added rid conf tx w w')"

lemma deposit_step_frame:
  "deposits v = deposits w \<Longrightarrow> outbox v = outbox w \<Longrightarrow> reservations v = reservations w \<Longrightarrow> bus_on v = bus_on w \<Longrightarrow>
   deposit_step rid conf tx v = deposit_step rid conf tx w"
  by (simp add: deposit_step_def row_inserted_def row_confirmed_def event_added_def fun_eq_iff)

abbreviation same_rest :: "world \<Rightarrow> world \<Rightarrow> bool" where
  "same_rest w w' \<equiv> reservations w' = reservations w \<and> bus_on w' = bus_on w \<and> outbox w' = outbox w"

lemma count_where_pos: "0 < count_where c rs \<longleftrightarrow> list_ex c rs"
  by (induction rs) auto

lemma wp_insert_deposit:
  "wp (insert_deposit_if_absent rid (if conf then ''confirmed'' else ''detected'') amount tx det con raw)
     (\<lambda>r w'. same_rest w w' \<and> (if r = Inr True then row_inserted rid conf tx w w' else deposits w' = deposits w)) w"
  unfolding insert_deposit_if_absent_def
  by (intro wp_rules) (auto simp: row_inserted_def deposit_at_def dest: find_Some_mem)

lemma wp_confirm_deposit:
  "wp (confirm_deposit rid tx amount raw t)
     (\<lambda>r w'. same_rest w w' \<and> (if r = Inr True then row_confirmed rid tx w w' else deposits w' = deposits w)) w"
  unfolding confirm_deposit_def
  by (intro wp_rules) (auto simp: row_confirmed_def confirmed_row_def [abs_def] count_where_pos list_ex_iff count_where_0_iff
      intro: update_where_none)

lemma wp_publish_deposit:
  "wp (publish_if_bus (if conf then ''treasury.deposit_confirmed'' else ''treasury.deposit_detected'')
      ''treasury_deposit'' rid [(''tx_reference'', PStr tx), (''amount'', PDec amount)])
     (\<lambda>r w'. reservations w' = reservations w \<and> bus_on w' = bus_on w \<and> deposits w' = deposits w \<and>
        (r = Inr () \<longrightarrow> event_added rid conf tx w w')) w"
  unfolding publish_if_bus_def publish_def
  by (intro wp_rules) (auto simp: event_added_def deposit_event_def)

lemma wp_transition_row:
  "wp (bindE (insert_deposit_if_absent rid (if conf then ''confirmed'' else ''detected'') amount tx det con raw)
        (\<lambda>inserted. if \<not> inserted \<and> conf then confirm_deposit rid tx amount raw t else ret inserted))
     (\<lambda>r w'. same_rest w w' \<and> (if r = Inr True then row_inserted rid conf tx w w' \<or> conf \<and> row_confirmed rid tx w w'
        else deposits w' = deposits w)) w"
  apply (rule wp_bindE)
  apply (rule wp_call [OF wp_insert_deposit])
  subgoal by simp
  apply (rule wp_if)
  subgoal by (rule wp_conseq [OF wp_confirm_deposit]) (auto simp: row_confirmed_def split: if_splits)
  subgoal by (rule wp_ret) auto
  done

lemma record_deposit_step:
  assumes "status = (if conf then ''confirmed'' else ''detected'')"
  shows "wp (record_deposit_transition rid status amount tx raw)
    (\<lambda>_ w'. deposit_step rid conf tx w w' \<and> reservations w' = reservations w \<and> bus_on w' = bus_on w) w"
proof -
  have conf: "(status = ''confirmed'') = conf" using assms by simp
  have step: "row_inserted rid conf tx (w\<lparr>faults := bs\<rparr>) w' = row_inserted rid conf tx w w'"
    "row_confirmed rid tx (w\<lparr>faults := bs\<rparr>) w' = row_confirmed rid tx w w'" for bs w w'
    by (simp_all add: row_inserted_def row_confirmed_def)
  show ?thesis
    unfolding record_deposit_transition_def Let_def conf
    unfolding assms
    apply (intro wp_rules)
    subgoal by (simp add: deposit_step_def)
    apply (rule wp_unbind, rule wp_call [OF wp_transition_row])
    subgoal by (auto intro!: wp_rules simp: deposit_step_def)
    apply (intro wp_rules)
    apply (rule wp_call [OF wp_publish_deposit])
    subgoal by (auto intro!: wp_rules simp: deposit_step_def)
    apply (intro wp_rules)
    subgoal by (simp add: deposit_step_def)
    subgoal by (auto simp: deposit_step_def step event_added_def row_inserted_def row_confirmed_def)
    subgoal by (simp add: deposit_step_def)
    subgoal by (auto simp: deposit_step_def)
    done
qed

definition deposits_ok :: "world \<Rightarrow> bool" where
  "deposits_ok w \<longleftrightarrow> distinct (map (\<lambda>d. (dp_reservation d, dp_tx d)) (deposits w)) \<and>
     dp_reservation ` set (deposits w) \<subseteq> rv_id ` set (reservations w) \<and>
     (bus_on w \<longrightarrow> (\<forall>rid tx.
        count_where (deposit_event rid True tx) (outbox w) =
          count_where (\<lambda>d. deposit_at rid tx d \<and> dp_status d = ''confirmed'') (deposits w) \<and>
        count_where (deposit_event rid False tx) (outbox w) \<le> count_where (deposit_at rid tx) (deposits w)))"

lemma deposit_at_fun: "deposit_at rid tx d \<longleftrightarrow> (dp_reservation d, dp_tx d) = (rid, tx)"
  by (auto simp: deposit_at_def)

lemma distinct_count_le: "distinct (map k xs) \<Longrightarrow> count_where (\<lambda>x. k x = v) xs \<le> 1"
proof (induction xs)
  case Nil
  then show ?case by simp
next
  case (Cons x xs)
  then show ?case
    by (cases "k x = v") (auto simp: count_where_0_iff image_iff)
qed

lemma confirmed_row_sel [simp]:
  "dp_reservation (confirmed_row a raw t d) = dp_reservation d" "dp_tx (confirmed_row a raw t d) = dp_tx d"
  "dp_status (confirmed_row a raw t d) = ''confirmed''" "deposit_at rid tx (confirmed_row a raw t d) = deposit_at rid tx d"
  by (simp_all add: confirmed_row_def deposit_at_def)

lemma deposit_event_unique: "deposit_event rid conf tx ev \<Longrightarrow> deposit_event rid' conf' tx' ev \<longleftrightarrow> rid' = rid \<and> conf' = conf \<and> tx' = tx"
  by (auto simp: deposit_event_def split: if_splits)

lemma count_confirmed_update:
  assumes "distinct (map (\<lambda>d. (dp_reservation d, dp_tx d)) ds)" and "list_ex (\<lambda>d. deposit_at rid tx d \<and> dp_status d = ''detected'') ds"
  shows "count_where (\<lambda>d. deposit_at rid' tx' d \<and> dp_status d = ''confirmed'')
      (update_where (\<lambda>d. deposit_at rid tx d \<and> dp_status d = ''detected'') (confirmed_row a raw t) ds) =
    count_where (\<lambda>d. deposit_at rid' tx' d \<and> dp_status d = ''confirmed'') ds + (if rid' = rid \<and> tx' = tx then 1 else 0)"
  using assms
proof (induction ds)
  case Nil
  then show ?case by simp
next
  case (Cons d ds)
  show ?case
  proof (cases "deposit_at rid tx d \<and> dp_status d = ''detected''")
    case True
    then have "\<forall>x \<in> set ds. \<not> deposit_at rid tx x"
      using Cons.prems(1) by (auto simp: deposit_at_def image_iff)
    then have "update_where (\<lambda>d. deposit_at rid tx d \<and> dp_status d = ''detected'') (confirmed_row a raw t) ds = ds"
      by (intro update_where_none) (simp add: count_where_0_iff)
    then show ?thesis using True by (auto simp: deposit_at_def)
  next
    case False
    with Cons show ?thesis by auto
  qed
qed

lemma count_at_update:
  "count_where (deposit_at rid' tx') (update_where c (confirmed_row a raw t) ds) = count_where (deposit_at rid' tx') ds"
  by (induction ds) auto

lemma deposits_ok_step:
  assumes ok: "deposits_ok w" and step: "deposit_step rid conf tx w w'"
    and same: "reservations w' = reservations w" "bus_on w' = bus_on w"
  shows "deposits_ok w'"
  using step unfolding deposit_step_def
proof (elim disjE conjE)
  assume "deposits w' = deposits w" "outbox w' = outbox w"
  with ok same show ?thesis by (simp add: deposits_ok_def)
next
  assume ins: "row_inserted rid conf tx w w'" and ev: "event_added rid conf tx w w'"
  then obtain d where d: "deposits w' = deposits w @ [d]" "deposit_at rid tx d" "dp_status d = (if conf then ''confirmed'' else ''detected'')"
    and new: "\<not> list_ex (deposit_at rid tx) (deposits w)" and rv: "rid \<in> rv_id ` set (reservations w)"
    by (auto simp: row_inserted_def)
  from new have new': "count_where (deposit_at rid tx) (deposits w) = 0"
    by (simp add: count_where_0_iff list_ex_iff)
  have zero: "count_where (deposit_event rid False tx) (outbox w) = 0" if "bus_on w"
  proof -
    have "count_where (deposit_event rid False tx) (outbox w) \<le> count_where (deposit_at rid tx) (deposits w)"
      using ok that by (simp add: deposits_ok_def)
    with new' show ?thesis by simp
  qed
  show ?thesis
    using ok d new rv ev same zero
    by (auto simp: deposits_ok_def event_added_def count_where_append deposit_event_unique deposit_at_def list_ex_iff image_iff
        split: if_splits)
next
  assume conf: conf and upd: "row_confirmed rid tx w w'" and ev: "event_added rid conf tx w w'"
  then obtain a raw t where d: "deposits w' = update_where (\<lambda>d. deposit_at rid tx d \<and> dp_status d = ''detected'') (confirmed_row a raw t) (deposits w)"
    and some: "list_ex (\<lambda>d. deposit_at rid tx d \<and> dp_status d = ''detected'') (deposits w)"
    by (auto simp: row_confirmed_def)
  have keys: "map (\<lambda>d. (dp_reservation d, dp_tx d)) (deposits w') = map (\<lambda>d. (dp_reservation d, dp_tx d)) (deposits w)"
    and refs: "map dp_reservation (deposits w') = map dp_reservation (deposits w)"
    by (simp_all add: d map_update_where)
  have "dp_reservation ` set (deposits w') = dp_reservation ` set (deposits w)"
    using refs by (metis list.set_map)
  then show ?thesis
    using ok conf ev same some keys
    by (auto simp: deposits_ok_def event_added_def count_where_append deposit_event_unique d count_confirmed_update count_at_update)
qed

section \<open>Reserving\<close>

text \<open>The adapters only touch the HD tables, the ids and the log of calls.\<close>

definition hd_frame :: "(world \<Rightarrow> 'b) \<Rightarrow> bool" where
  "hd_frame f \<longleftrightarrow> db_view f \<and> (\<forall>w x y z u v. f (w\<lparr>hd_counter := x\<rparr>) = f w \<and> f (w\<lparr>hd_accounts := y\<rparr>) = f w \<and>
     f (w\<lparr>hd_indices := z\<rparr>) = f w \<and> f (w\<lparr>derived := u\<rparr>) = f w \<and> f (w\<lparr>ext_log := v\<rparr>) = f w)"

lemma hd_frame_tables [simp]:
  "hd_frame reservations" "hd_frame deposits" "hd_frame outbox" "hd_frame bus_on" "hd_frame sessions" "hd_frame settlements"
  "hd_frame attempts" "hd_frame corridors" "hd_frame bindings" "hd_frame locks" "hd_frame txns" "hd_frame env" "hd_frame now"
  "hd_frame cases" "hd_frame entries" "hd_frame seed" "hd_frame reversals"
  by (simp_all add: hd_frame_def db_view_def)

lemma hd_frame_view: "hd_frame f \<Longrightarrow> db_view f"
  by (simp add: hd_frame_def)

lemma frame_get_account: "hd_frame f \<Longrightarrow> frame f (get_or_allocate_tenant_account n tenant)"
  by (induction n) (auto simp: next_account_def insert_hd_account_def hd_frame_def intro!: frame_rules split: err.split)

lemma frame_allocate_or_reuse: "hd_frame f \<Longrightarrow> frame f (allocate_or_reuse_address tenant chain)"
  by (auto simp: allocate_or_reuse_address_def find_free_derived_address_def allocate_next_index_def
      insert_derived_address_def Let_def hd_frame_view intro!: frame_rules frame_get_account)
    (simp_all add: hd_frame_def)

lemma hd_frame_log: "hd_frame f \<Longrightarrow> f (w\<lparr>ext_log := l\<rparr>) = f w"
  by (simp add: hd_frame_def)

lemma frame_provider_reserve:
  assumes "hd_frame f"
  shows "frame f (provider_reserve name tenant asset network amount)"
proof -
  have "frame f (busha_reserve_deposit asset network a)" for a
    unfolding busha_reserve_deposit_def by (intro frame_rules hd_frame_log assms)
  moreover have "frame f (self_custody_reserve tenant network)"
    unfolding self_custody_reserve_def by (intro frame_rules frame_allocate_or_reuse assms)
  moreover have "frame f (tenant_wallet_reserve tenant network)"
    unfolding tenant_wallet_reserve_def get_tenant_custom_wallet_def
    by (intro frame_rules hd_frame_view assms)
  moreover have "frame f (sandbox_reserve asset network)"
    unfolding sandbox_reserve_def by (intro frame_rules hd_frame_view assms)
  ultimately show ?thesis
    unfolding provider_reserve_def by (intro frame_rules)
qed

definition open_addresses :: "world \<Rightarrow> string list" where
  "open_addresses w = map rv_address (filter (\<lambda>r. rv_status r = ''reserved'') (reservations w))"

lemma address_reserved_iff: "address_reserved w a \<longleftrightarrow> a \<in> set (open_addresses w)"
  by (auto simp: address_reserved_def open_addresses_def list_ex_iff)

lemma hd_frame_open [simp]: "hd_frame open_addresses"
  by (simp add: hd_frame_def db_view_def open_addresses_def)

text \<open>A successful reservation and a failed one.\<close>

lemma wp_persist_reservation:
  "wp (persist_reservation tenant cid name asset network addr)
     (\<lambda>r w'. deposits w' = deposits w \<and> outbox w' = outbox w \<and> bus_on w' = bus_on w \<and> (case r of
        Inl _ \<Rightarrow> reservations w' = reservations w
      | Inr row \<Rightarrow> reservations w' = reservations w @ [row] \<and> rv_status row = ''reserved'' \<and> rv_tenant row = tenant \<and>
          rv_corridor row = cid \<and> rv_provider row = name \<and> rv_asset row = asset \<and> rv_network row = network \<and>
          rv_address row = pa_address addr \<and> pa_address addr \<notin> set (open_addresses w) \<and>
          rv_custody row = custody_type name \<and> rv_id row = uuid_src w (uuid_next w))) w"
  unfolding persist_reservation_def Let_def
  by (intro wp_rules) (auto simp: address_reserved_iff open_addresses_def)

text \<open>
  The adapter that served the address: the first of the bindings, by priority, that was enabled
  and did not fail when it was asked.
\<close>

inductive first_working :: "uuid \<Rightarrow> corridor \<Rightarrow> rat option \<Rightarrow> binding list \<Rightarrow> string \<Rightarrow> provider_address \<Rightarrow> bool"
  for tenant c amount where
  here: "map_of (collection_providers w) (pb_name b) = Some True \<Longrightarrow>
     provider_reserve (pb_name b) tenant (co_asset c) (co_network c) amount w = (Inr addr, w') \<Longrightarrow>
     first_working tenant c amount (b # bs) (pb_name b) addr"
| off: "map_of (collection_providers w) (pb_name b) \<noteq> Some True \<Longrightarrow> first_working tenant c amount bs name addr \<Longrightarrow>
     first_working tenant c amount (b # bs) name addr"
| failed: "provider_reserve (pb_name b) tenant (co_asset c) (co_network c) amount w = (Inl e, w') \<Longrightarrow>
     first_working tenant c amount bs name addr \<Longrightarrow> first_working tenant c amount (b # bs) name addr"

definition reserved_by :: "uuid \<Rightarrow> corridor \<Rightarrow> rat option \<Rightarrow> binding list \<Rightarrow> world \<Rightarrow> err + reservation \<times> provider_address \<Rightarrow> world \<Rightarrow> bool" where
  "reserved_by tenant c amount bs w r w' \<longleftrightarrow>
     deposits w' = deposits w \<and> outbox w' = outbox w \<and> bus_on w' = bus_on w \<and> (case r of
       Inl _ \<Rightarrow> reservations w' = reservations w
     | Inr (row, addr) \<Rightarrow> reservations w' = reservations w @ [row] \<and> rv_status row = ''reserved'' \<and> rv_tenant row = tenant \<and>
         rv_corridor row = co_id c \<and> rv_asset row = co_asset c \<and> rv_network row = co_network c \<and>
         rv_address row = pa_address addr \<and> rv_address row \<notin> set (open_addresses w) \<and>
         rv_custody row = custody_type (rv_provider row) \<and> first_working tenant c amount bs (rv_provider row) addr)"

lemma reserved_by_frame:
  assumes "reservations v = reservations w" "deposits v = deposits w" "outbox v = outbox w" "bus_on v = bus_on w"
  shows "reserved_by tenant c amount bs v = reserved_by tenant c amount bs w"
proof -
  have "open_addresses v = open_addresses w" using assms(1) by (simp add: open_addresses_def)
  with assms show ?thesis by (auto simp: reserved_by_def fun_eq_iff split: sum.split)
qed

lemma wp_reserve_from: "wp (reserve_from tenant c amount bs) (reserved_by tenant c amount bs w) w"
proof (induction bs arbitrary: w)
  case Nil
  show ?case by (auto intro!: wp_rules simp: reserved_by_def)
next
  case (Cons b bs)
  let ?ask = "provider_reserve (pb_name b) tenant (co_asset c) (co_network c) amount"
  have rest: "wp (reserve_from tenant c amount bs) (reserved_by tenant c amount (b # bs) w) v"
    if same: "reservations v = reservations w" "deposits v = deposits w" "outbox v = outbox w" "bus_on v = bus_on w"
      and skip: "\<And>name addr. first_working tenant c amount bs name addr \<Longrightarrow> first_working tenant c amount (b # bs) name addr" for v
    by (rule wp_conseq [OF Cons.IH]) (use skip in \<open>auto simp: reserved_by_frame [OF same] reserved_by_def split: sum.splits\<close>)
  have asked: "wp (attemptE ?ask) (wp_bind (\<lambda>r. case r of
      Inl e \<Rightarrow> reserve_from tenant c amount bs
    | Inr addr \<Rightarrow> bindE (persist_reservation tenant (co_id c) (pb_name b) (co_asset c) (co_network c) addr) (\<lambda>row. ret (row, addr)))
      (reserved_by tenant c amount (b # bs) w)) w"
    if on: "map_of (collection_providers w) (pb_name b) = Some True"
  proof (rule wp_attemptE, rule wpI)
    fix r v assume run: "?ask w = (r, v)"
    have same: "reservations v = reservations w" "deposits v = deposits w" "outbox v = outbox w" "bus_on v = bus_on w"
      by (auto intro!: frame_eq [OF frame_provider_reserve run])
    show "wp_bind (\<lambda>r. case r of
        Inl e \<Rightarrow> reserve_from tenant c amount bs
      | Inr addr \<Rightarrow> bindE (persist_reservation tenant (co_id c) (pb_name b) (co_asset c) (co_network c) addr) (\<lambda>row. ret (row, addr)))
      (reserved_by tenant c amount (b # bs) w) (Inr r) v"
    proof (cases r)
      case (Inl e)
      with run have "first_working tenant c amount bs name addr \<Longrightarrow> first_working tenant c amount (b # bs) name addr" for name addr
        by (auto intro: first_working.failed)
      with Inl show ?thesis by (auto intro!: wp_rules rest same)
    next
      case (Inr addr)
      have here: "first_working tenant c amount (b # bs) (pb_name b) addr"
        using on run Inr by (auto intro: first_working.here)
      have opened: "open_addresses v = open_addresses w" using same(1) by (simp add: open_addresses_def)
      show ?thesis unfolding Inr
        apply (intro wp_rules)
         apply simp
        apply (simp, rule wp_call [OF wp_persist_reservation])
        subgoal using same by (simp add: reserved_by_def)
        subgoal using same here opened by (auto intro!: wp_rules simp: reserved_by_def)
        done
    qed
  qed
  show ?case
    by (auto intro!: wp_rules rest asked intro: first_working.off)
qed

lemma wp_reserve_address:
  "wp (reserve_address tenant cid amount)
     (\<lambda>r w'. (\<exists>e. r = Inl e) \<and> reservations w' = reservations w \<and> deposits w' = deposits w \<and> outbox w' = outbox w \<and> bus_on w' = bus_on w \<or>
        (\<exists>c. c \<in> set (corridors w) \<and> co_id c = cid \<and>
           reserved_by tenant c amount (active_providers cid ProviderTypeCollection w) w r w')) w"
  unfolding reserve_address_def get_corridor_by_id_def list_active_providers_def
  apply (intro wp_rules)
     apply simp
    apply simp
   apply simp
  subgoal premises found for bs c bs'
  proof -
    have same: "reserved_by tenant c amount xs (w\<lparr>faults := bs'\<rparr>) = reserved_by tenant c amount xs w" for xs
      by (rule reserved_by_frame) simp_all
    show ?thesis
      by (rule wp_conseq [OF wp_reserve_from])
        (use found in \<open>auto simp: same active_providers_def dest: find_Some_mem\<close>)
  qed
  done

section \<open>The commands\<close>

datatype treasury_cmd =
    TReserve uuid uuid "rat option"
  | TRelease uuid
  | TWebhook string string
  | TDeposit uuid bool rat string string
  | TSandbox
  | TWallet uuid string string string
  | TBalance string string rat time
  | TInitSeed string string
  | TLoadSeed string

fun treasury_step :: "treasury_cmd \<Rightarrow> unit run" where
  "treasury_step (TReserve tenant cid amount) = thenE (get_deposit_instructions tenant cid amount) (ret ())"
| "treasury_step (TRelease rid) = release_reservation rid"
| "treasury_step (TWebhook body sig) = handle_deposit_webhook body sig"
| "treasury_step (TDeposit rid conf amount tx raw) =
     record_deposit_transition rid (if conf then ''confirmed'' else ''detected'') amount tx raw"
| "treasury_step TSandbox = confirm_due_sandbox_deposits"
| "treasury_step (TWallet tenant chain addr tag) = register_tenant_custom_wallet tenant chain addr tag"
| "treasury_step (TBalance name asset balance as_of) = record_custody_balance name asset balance as_of"
| "treasury_step (TInitSeed mnemonic key) = initialize_hd_wallet_seed mnemonic key"
| "treasury_step (TLoadSeed key) = load_hd_wallet_seed key"

text \<open>The tables of the treasury: open addresses are handed out once, deposits recorded once.\<close>

definition treasury_ok :: "world \<Rightarrow> bool" where
  "treasury_ok w \<longleftrightarrow> distinct (open_addresses w) \<and> deposits_ok w"

lemma treasury_ok_cong:
  "reservations w' = reservations w \<Longrightarrow> deposits w' = deposits w \<Longrightarrow> outbox w' = outbox w \<Longrightarrow> bus_on w' = bus_on w \<Longrightarrow>
   treasury_ok w' = treasury_ok w"
  by (simp add: treasury_ok_def open_addresses_def deposits_ok_def)

lemma treasury_ok_simps [simp]:
  "treasury_ok (w\<lparr>faults := bs\<rparr>) = treasury_ok w" "treasury_ok (w\<lparr>uuid_next := n\<rparr>) = treasury_ok w"
  "treasury_ok (w\<lparr>custom_wallets := cw\<rparr>) = treasury_ok w" "treasury_ok (w\<lparr>custody_balances := cb\<rparr>) = treasury_ok w"
  "treasury_ok (w\<lparr>seed_row := sr\<rparr>) = treasury_ok w" "treasury_ok (w\<lparr>seed := s\<rparr>) = treasury_ok w"
  by (rule treasury_ok_cong; simp)+

lemma db_mono_treasury_ok [simp]: "db_mono treasury_ok"
  by (simp add: db_mono_def)

lemma keeps_treasury_ok_record: "keeps treasury_ok (record_deposit_transition rid (if conf then ''confirmed'' else ''detected'') amount tx raw)"
proof (rule keeps_wp)
  fix w assume "treasury_ok w"
  then show "wp (record_deposit_transition rid (if conf then ''confirmed'' else ''detected'') amount tx raw) (\<lambda>_. treasury_ok) w"
    by (intro wp_conseq [OF record_deposit_step [OF refl]])
      (auto simp: treasury_ok_def open_addresses_def intro: deposits_ok_step)
qed

lemma classify_status: "classify_busha_deposit ty t = Inr (Some status) \<Longrightarrow> status = ''confirmed'' \<or> status = ''detected''"
  by (auto simp: classify_busha_deposit_def split: if_splits option.splits)

lemma keeps_treasury_ok_webhook: "keeps treasury_ok (handle_deposit_webhook body sig)"
proof (rule keeps_wp)
  fix w assume ok: "treasury_ok w"
  have recorded: "wp (record_deposit_transition rid status amount tx raw) (\<lambda>_. treasury_ok) v"
    if "treasury_ok v" "classify_busha_deposit ty t = Inr (Some status)" for rid status amount tx raw v ty t
    using classify_status [OF that(2)] keeps_treasury_ok_record [of rid True amount tx raw] keeps_treasury_ok_record [of rid False amount tx raw]
      that(1) by (auto intro: wp_keeps)
  show "wp (handle_deposit_webhook body sig) (\<lambda>_. treasury_ok) w"
    unfolding handle_deposit_webhook_def find_reservation_by_reference_def get_reservation_def
    by (intro wp_rules; (rule recorded)?; (simp add: ok)?)
qed

lemma keeps_treasury_ok_sandbox: "keeps treasury_ok confirm_due_sandbox_deposits"
  using keeps_treasury_ok_record [where conf = True] keeps_treasury_ok_record [where conf = False]
  by (auto simp: confirm_due_sandbox_deposits_def Let_def intro!: keeps_rules)

lemma distinct_open_append: "distinct (open_addresses w) \<Longrightarrow> reservations w' = reservations w @ [row] \<Longrightarrow>
   rv_address row \<notin> set (open_addresses w) \<Longrightarrow> distinct (open_addresses w')"
  by (simp add: open_addresses_def)

lemma keeps_treasury_ok_reserve: "keeps treasury_ok (reserve_address tenant cid amount)"
proof (rule keeps_wp)
  fix w assume ok: "treasury_ok w"
  have "treasury_ok w'" if "reserved_by tenant c amount bs w r w'" for c bs r w'
    using that ok
    by (auto simp: reserved_by_def treasury_ok_def deposits_ok_def split: sum.splits prod.splits intro: distinct_open_append)
      (auto simp: open_addresses_def)
  then show "wp (reserve_address tenant cid amount) (\<lambda>_. treasury_ok) w"
    by (intro wp_conseq [OF wp_reserve_address]) (auto simp: ok treasury_ok_cong [of _ w])
qed

lemma distinct_filter_update:
  assumes "distinct (map f (filter P rs))" and "\<And>r. c r \<Longrightarrow> \<not> P (g r)"
  shows "distinct (map f (filter P (update_where c g rs)))"
proof -
  have "set (map f (filter P (update_where c g xs))) \<subseteq> set (map f (filter P xs))" for xs
    using assms(2) by (induction xs) auto
  then show ?thesis
    using assms by (induction rs) (auto split: if_splits)
qed

lemma update_ids: "rv_id ` set (update_where c (\<lambda>r. r\<lparr>rv_status := s, rv_released_at := t\<rparr>) rs) = rv_id ` set rs"
  by (induction rs) auto

lemma keeps_treasury_ok_release: "keeps treasury_ok (release_reservation rid)"
  unfolding release_reservation_def
  by (rule keeps_exec, simp)
    (auto simp: treasury_ok_def open_addresses_def deposits_ok_def update_ids intro!: distinct_filter_update)

lemma keeps_treasury_ok_step: "keeps treasury_ok (treasury_step cmd)"
  by (cases cmd)
    (auto simp: keeps_treasury_ok_webhook keeps_treasury_ok_sandbox keeps_treasury_ok_release get_deposit_instructions_def
      register_tenant_custom_wallet_def record_custody_balance_def initialize_hd_wallet_seed_def load_hd_wallet_seed_def
      keeps_treasury_ok_record [of _ True, simplified] keeps_treasury_ok_record [of _ False, simplified]
      intro!: keeps_rules keeps_treasury_ok_reserve)

section \<open>The HD tables\<close>

text \<open>
  Every tenant has an account of its own, above the two the platform keeps for itself; every
  index was handed out once per tenant and chain; and a derived address is the one the loaded
  seed gives at its tenant's account.
\<close>

type_synonym derived_row = "string \<times> uuid \<times> nat \<times> string"

definition derived_row_ok :: "(uuid \<times> nat) list \<Rightarrow> ((string \<times> uuid) \<times> nat) list \<Rightarrow> string option \<Rightarrow> externals \<Rightarrow> derived_row \<Rightarrow> bool" where
  "derived_row_ok accs idx s e row = (case row of (c, t, i, addr) \<Rightarrow>
     (\<exists>n. map_of idx (c, t) = Some n \<and> i < n) \<and>
     (\<exists>a. (t, a) \<in> set accs \<and>
        (\<forall>sd. s = Some sd \<longrightarrow> derive_address_at_account e sd c (of_nat a) (of_nat i) = Inr addr)))"

definition accounts_ok :: "(uuid \<times> nat) list \<Rightarrow> nat option \<Rightarrow> bool" where
  "accounts_ok accs ctr \<longleftrightarrow> distinct (map fst accs) \<and> distinct (map snd accs) \<and>
     (\<forall>(t, a) \<in> set accs. TenantAccountOffset \<le> a \<and> (\<exists>n. ctr = Some n \<and> a < n)) \<and>
     (\<forall>n. ctr = Some n \<longrightarrow> TenantAccountOffset \<le> n)"

definition derived_ok :: "(uuid \<times> nat) list \<Rightarrow> ((string \<times> uuid) \<times> nat) list \<Rightarrow> string option \<Rightarrow> externals \<Rightarrow> derived_row list \<Rightarrow> bool" where
  "derived_ok accs idx s e rows \<longleftrightarrow>
     distinct (map (\<lambda>(c, t, i, addr). (c, t, i)) rows) \<and> distinct (map (\<lambda>(c, t, i, addr). addr) rows) \<and>
     list_all (derived_row_ok accs idx s e) rows"

definition hd_ok :: "world \<Rightarrow> bool" where
  "hd_ok w \<longleftrightarrow> accounts_ok (hd_accounts w) (hd_counter w) \<and>
     derived_ok (hd_accounts w) (hd_indices w) (seed w) (env w) (derived w)"

lemma derived_row_ok_mono:
  assumes "derived_row_ok accs idx s e row" and "set accs \<subseteq> set accs'"
    and "\<And>k n. map_of idx k = Some n \<Longrightarrow> \<exists>n' \<ge> n. map_of idx' k = Some n'"
  shows "derived_row_ok accs' idx' s e row"
proof -
  obtain c t i addr where row: "row = (c, t, i, addr)" by (cases row) auto
  from assms(1) obtain n a where n: "map_of idx (c, t) = Some n" "i < n" and a: "(t, a) \<in> set accs"
      "\<forall>sd. s = Some sd \<longrightarrow> derive_address_at_account e sd c (of_nat a) (of_nat i) = Inr addr"
    by (auto simp: derived_row_ok_def row)
  from assms(3) [OF n(1)] n(2) obtain n' where "map_of idx' (c, t) = Some n'" "i < n'"
    by auto
  with a assms(2) show ?thesis by (auto simp: derived_row_ok_def row)
qed

lemma derived_ok_accounts: "derived_ok accs idx s e rows \<Longrightarrow> set accs \<subseteq> set accs' \<Longrightarrow> derived_ok accs' idx s e rows"
  by (auto simp: derived_ok_def list_all_iff intro: derived_row_ok_mono)

lemma derived_ok_index:
  assumes "derived_ok accs idx s e rows"
  shows "derived_ok accs (AList.update k (Suc (case map_of idx k of None \<Rightarrow> 0 | Some n \<Rightarrow> n)) idx) s e rows"
proof -
  have "\<exists>n' \<ge> n. map_of (AList.update k (Suc (case map_of idx k of None \<Rightarrow> 0 | Some n \<Rightarrow> n)) idx) k' = Some n'"
    if "map_of idx k' = Some n" for k' n
    using that by (auto simp: update_conv')
  with assms show ?thesis
    by (auto simp: derived_ok_def list_all_iff intro: derived_row_ok_mono)
qed

lemma accounts_ok_fresh:
  assumes "accounts_ok accs ctr" and "map_of accs t = None" and "ctr = None \<or> ctr = Some n"
  shows "\<not> list_ex (\<lambda>(t', a). t' = t \<or> a = n) accs"
  using assms by (fastforce simp: accounts_ok_def list_ex_iff map_of_eq_None_iff image_iff)

lemma accounts_ok_count: "accounts_ok accs (Some n) \<Longrightarrow> accounts_ok accs (Some (Suc n))"
  by (fastforce simp: accounts_ok_def)

lemma accounts_ok_first: "accounts_ok accs None \<Longrightarrow> accs = [] \<and> accounts_ok accs (Some 3)"
  by (cases accs) (auto simp: accounts_ok_def TenantAccountOffset_def)

lemma accounts_ok_add:
  assumes "accounts_ok accs ctr" and "map_of accs t = None" and "ctr = None \<and> n = 2 \<or> ctr = Some n"
  shows "accounts_ok (accs @ [(t, n)]) (Some (Suc n))"
  using assms accounts_ok_fresh [of accs ctr t n] accounts_ok_first
  by (auto simp: accounts_ok_def TenantAccountOffset_def map_of_eq_None_iff image_iff list_ex_iff less_Suc_eq)

definition account_taken :: "uuid \<Rightarrow> world \<Rightarrow> err + 32 word \<Rightarrow> world \<Rightarrow> bool" where
  "account_taken tenant w r w' \<longleftrightarrow> hd_ok w' \<and> derived w' = derived w \<and> seed w' = seed w \<and> env w' = env w \<and>
     hd_indices w' = hd_indices w \<and> reservations w' = reservations w \<and> r \<noteq> Inl OutOfFuel \<and>
     (\<forall>acc. r = Inr acc \<longrightarrow> acc \<in> of_nat ` {a. (tenant, a) \<in> set (hd_accounts w')})"

lemma wp_get_account:
  assumes "hd_ok w"
  shows "wp (get_or_allocate_tenant_account (Suc fuel) tenant) (account_taken tenant w) w"
proof -
  have ok: "accounts_ok (hd_accounts w) (hd_counter w)" and der: "derived_ok (hd_accounts w) (hd_indices w) (seed w) (env w) (derived w)"
    using assms by (simp_all add: hd_ok_def)
  have der': "derived_ok (hd_accounts w @ [x]) (hd_indices w) (seed w) (env w) (derived w)" for x
    by (rule derived_ok_accounts [OF der]) auto
  have two: "(2 :: 32 word) \<in> of_nat ` {a. a = 2 \<or> P a}" for P
    by (rule image_eqI [of _ _ 2]) simp_all
  show ?thesis
    unfolding get_or_allocate_tenant_account.simps next_account_def insert_hd_account_def
    using accounts_ok_fresh [OF ok, where t = tenant] accounts_ok_count accounts_ok_first accounts_ok_add [OF ok, where t = tenant] ok der der'
    by (intro wp_rules wp_attemptE)
      (auto simp: account_taken_def hd_ok_def two dest: map_of_SomeD intro!: wp_rules)
qed

lemma derived_ok_add:
  assumes "derived_ok accs idx s e rows" and "map_of idx (c, t) = Some n" "i < n" and "(t, a) \<in> set accs"
    and "\<forall>sd. s = Some sd \<longrightarrow> derive_address_at_account e sd c (of_nat a) (of_nat i) = Inr addr"
    and "\<not> list_ex (\<lambda>(c', t', j, x). x = addr \<or> c' = c \<and> t' = t \<and> j = i) rows"
  shows "derived_ok accs idx s e (rows @ [(c, t, i, addr)])"
  using assms by (auto simp: derived_ok_def derived_row_ok_def list_ex_iff image_iff)

definition address_allocated :: "uuid \<Rightarrow> string \<Rightarrow> world \<Rightarrow> err + string \<Rightarrow> world \<Rightarrow> bool" where
  "address_allocated tenant chain w r w' \<longleftrightarrow> hd_ok w' \<and> r \<noteq> Inl OutOfFuel \<and> reservations w' = reservations w \<and>
     seed w' = seed w \<and> env w' = env w \<and>
     (\<forall>addr. r = Inr addr \<longrightarrow> seed w \<noteq> None \<and> (\<exists>i. (chain, tenant, i, addr) \<in> set (derived w')))"

definition good_env :: "externals \<Rightarrow> bool" where
  "good_env e \<longleftrightarrow> (\<forall>sd f p. x_address e sd f p \<noteq> Inl OutOfFuel)"

lemma derive_no_fuel: "good_env e \<Longrightarrow> derive_address_at_account e sd c a i \<noteq> Inl OutOfFuel"
  by (auto simp: derive_address_at_account_def good_env_def unsupported_chain_def split: option.split)

lemma wp_allocate:
  assumes ok: "hd_ok w" and e: "good_env (env w)"
  shows "wp (allocate_or_reuse_address tenant chain) (address_allocated tenant chain w) w"
proof -
  have derive: "wp (bindE (allocate_next_index tenant chain) (\<lambda>i.
             bindE (gets (\<lambda>w. derive_address_at_account (env w) sd chain acc (of_nat i))) (\<lambda>a.
               bindE (lift_sum a) (\<lambda>addr. thenE (insert_derived_address chain tenant i addr) (ret addr)))))
      (address_allocated tenant chain w) v"
    if v: "account_taken tenant w (Inr acc) v" and sd: "seed w = Some sd" for v acc sd
  proof -
    from v obtain a where a: "acc = of_nat a" "(tenant, a) \<in> set (hd_accounts v)"
      by (auto simp: account_taken_def)
    have der: "derived_ok (hd_accounts v) (hd_indices v) (Some sd) (env w) (derived v)" and acc: "accounts_ok (hd_accounts v) (hd_counter v)"
      using v sd by (auto simp: account_taken_def hd_ok_def)
    note idx = derived_ok_index [OF der, of "(chain, tenant)"]
    show ?thesis
      unfolding allocate_next_index_def insert_derived_address_def Let_def
      using v sd a acc der idx derived_ok_add [OF idx, of chain tenant _ _ a]
      by (intro wp_rules)
        (auto simp: address_allocated_def account_taken_def hd_ok_def update_conv' derive_no_fuel [OF e] split: option.splits)
  qed
  show ?thesis
    unfolding allocate_or_reuse_address_def find_free_derived_address_def
    apply (intro wp_rules)
    subgoal by (simp add: address_allocated_def ok)
    subgoal using ok by (simp add: address_allocated_def hd_ok_def)
    subgoal premises sd for s bs
    proof -
      have same: "account_taken tenant (w\<lparr>faults := bs\<rparr>) = account_taken tenant w"
        by (simp add: account_taken_def fun_eq_iff)
      show ?thesis
        by (rule wp_call [OF wp_get_account])
          (use ok sd in \<open>auto simp: hd_ok_def same address_allocated_def account_taken_def intro: derive\<close>)
    qed
    subgoal using ok by (auto simp: address_allocated_def hd_ok_def dest!: first_min_in_set)
    done
qed

section \<open>Confirmed deposits stay\<close>

lemma deposit_step_confirmed:
  "deposit_step rid conf tx w w' \<Longrightarrow> d \<in> set (deposits w) \<Longrightarrow> dp_status d = ''confirmed'' \<Longrightarrow> d \<in> set (deposits w')"
  by (auto simp: deposit_step_def row_inserted_def row_confirmed_def set_update_where)

lemma keeps_confirmed_record:
  assumes "dp_status d = ''confirmed''"
  shows "keeps (\<lambda>w. d \<in> set (deposits w)) (record_deposit_transition rid (if conf then ''confirmed'' else ''detected'') amount tx raw)"
  by (rule keeps_wp, rule wp_conseq [OF record_deposit_step [OF refl]]) (auto intro: deposit_step_confirmed assms)

lemma frame_deposits_reserve: "frame deposits (reserve_address tenant cid amount)"
  unfolding frame_def
proof
  fix w
  show "deposits (snd (reserve_address tenant cid amount w)) = deposits w"
    using wpD [OF wp_reserve_address, of tenant cid amount w, OF prod.collapse [symmetric]]
    by (auto simp: reserved_by_def)
qed

lemma keeps_confirmed_step:
  assumes "dp_status d = ''confirmed''"
  shows "keeps (\<lambda>w. d \<in> set (deposits w)) (treasury_step cmd)"
proof -
  have mono: "db_mono (\<lambda>w. d \<in> set (deposits w))" by (simp add: db_mono_def)
  have recorded: "keeps (\<lambda>w. d \<in> set (deposits w)) (record_deposit_transition rid s amount tx raw)"
    if "s = ''confirmed'' \<or> s = ''detected''" for rid s amount tx raw
    using that keeps_confirmed_record [OF assms, of rid True] keeps_confirmed_record [OF assms, of rid False] by auto
  have hook: "keeps (\<lambda>w. d \<in> set (deposits w)) (handle_deposit_webhook body sig)" for body sig
    unfolding handle_deposit_webhook_def find_reservation_by_reference_def get_reservation_def
    by (rule keeps_wp, intro wp_rules)
      (auto intro!: wp_keeps [OF recorded] dest: classify_status)
  show ?thesis
    using keeps_frame [OF frame_deposits_reserve, of "\<lambda>ds. d \<in> set ds"] recorded
    by (cases cmd) (auto simp: hook mono release_reservation_def confirm_due_sandbox_deposits_def Let_def
      get_deposit_instructions_def register_tenant_custom_wallet_def record_custody_balance_def
      initialize_hd_wallet_seed_def load_hd_wallet_seed_def intro!: keeps_rules)
qed

section \<open>Properties\<close>

definition treasury_world :: world where
  "treasury_world = corridor_world\<lparr>seed := Some ''m'',
     bindings := [new_binding (sample_src 0) ''collection'' ''busha'' 1 True (JObj []) ''b1'',
       new_binding (sample_src 0) ''collection'' ''tenant_provided_wallet'' 2 True (JObj []) ''b2''],
     custom_wallets := [((''T'', Tron), (''TAddr'', ''''))]\<rparr>"

lemma treasury_world_sel [simp]:
  "faults treasury_world = []" "corridors treasury_world = [sample_corridor]" "seed treasury_world = Some ''m''"
  "env treasury_world = sample_env" "now treasury_world = 0" "custom_wallets treasury_world = [((''T'', Tron), (''TAddr'', ''''))]"
  "reservations treasury_world = [sample_reservation]" "deposits treasury_world = []"
  by (simp_all add: treasury_world_def corridor_world_def empty_world_def)

lemma sample_corridor_sel [simp]:
  "co_id sample_corridor = sample_src 0" "co_asset sample_corridor = ''USDT''" "co_network sample_corridor = ''TRC20''"
  by (simp_all add: sample_corridor_def new_corridor_def sample_corridor_in_def corridor_in.defs corridor.defs)

lemma treasury_world_ok: "treasury_ok treasury_world" "hd_ok treasury_world" "good_env (env treasury_world)"
  by (simp_all add: treasury_world_def corridor_world_def empty_world_def treasury_ok_def open_addresses_def deposits_ok_def
      sample_reservation_def hd_ok_def accounts_ok_def derived_ok_def good_env_def sample_env_def)



text \<open>
  A successful reservation comes from the first adapter of the corridor, by priority, that
  was enabled and did not fail; it is for the corridor's asset and network and for the tenant
  that asked, and its address was open for nobody else.
\<close>

lemma reservation_by_failover:
  assumes "reserve_address tenant cid amount w = (Inr (row, addr), w')"
  shows "\<exists>c \<in> set (corridors w). co_id c = cid \<and> reservations w' = reservations w @ [row] \<and>
    rv_tenant row = tenant \<and> rv_corridor row = cid \<and> rv_asset row = co_asset c \<and> rv_network row = co_network c \<and>
    rv_address row \<notin> set (open_addresses w) \<and>
    first_working tenant c amount (active_providers cid ProviderTypeCollection w) (rv_provider row) addr"
  using wpD [OF wp_reserve_address assms] by (auto simp: reserved_by_def)

text \<open>
  The addresses of different tenants never come from the same key: an allocation leaves
  every tenant with an account of its own, above the accounts 0 and 1 of the platform, and every
  address it returns is the one the seed gives at an index of the tenant's account. The loop that
  allocates the account ends: it never runs out of its bound.
\<close>

lemma tenants_have_own_accounts:
  assumes "hd_ok w" and "good_env (env w)" and "allocate_or_reuse_address tenant chain w = (r, w')"
  shows "hd_ok w' \<and> r \<noteq> Inl OutOfFuel \<and>
    (\<forall>addr. r = Inr addr \<longrightarrow> (\<exists>i a sd. (chain, tenant, i, addr) \<in> set (derived w') \<and> seed w = Some sd \<and>
       derive_address_at_account (env w) sd chain (of_nat a) (of_nat i) = Inr addr \<and>
       TenantAccountOffset \<le> a \<and> (tenant, a) \<in> set (hd_accounts w') \<and>
       (\<forall>t. (t, a) \<in> set (hd_accounts w') \<longrightarrow> t = tenant)))"
proof -
  have alloc: "address_allocated tenant chain w r w'"
    by (rule wpD [OF wp_allocate [OF assms(1,2)] assms(3)])
  have one: "t = tenant" if "accounts_ok accs ctr" "(tenant, a) \<in> set accs" "(t, a) \<in> set accs" for accs ctr t a
  proof -
    have "inj_on snd (set accs)" using that(1) by (simp add: accounts_ok_def distinct_map)
    then have "(t, a) = (tenant, a)" by (rule inj_onD) (use that(2,3) in simp_all)
    then show ?thesis by simp
  qed
  have "\<exists>i a sd. (chain, tenant, i, addr) \<in> set (derived w') \<and> seed w = Some sd \<and>
       derive_address_at_account (env w) sd chain (of_nat a) (of_nat i) = Inr addr \<and>
       TenantAccountOffset \<le> a \<and> (tenant, a) \<in> set (hd_accounts w') \<and>
       (\<forall>t. (t, a) \<in> set (hd_accounts w') \<longrightarrow> t = tenant)" if r: "r = Inr addr" for addr
  proof -
    obtain i where i: "(chain, tenant, i, addr) \<in> set (derived w')"
      using alloc r by (auto simp: address_allocated_def)
    have accs: "accounts_ok (hd_accounts w') (hd_counter w')"
      using alloc by (simp add: address_allocated_def hd_ok_def)
    have "derived_row_ok (hd_accounts w') (hd_indices w') (seed w) (env w) (chain, tenant, i, addr)"
      using alloc i by (auto simp: address_allocated_def hd_ok_def derived_ok_def list_all_iff)
    then obtain a where a: "(tenant, a) \<in> set (hd_accounts w')"
        "\<forall>sd. seed w = Some sd \<longrightarrow> derive_address_at_account (env w) sd chain (of_nat a) (of_nat i) = Inr addr"
      by (auto simp: derived_row_ok_def)
    then have "TenantAccountOffset \<le> a" using accs by (auto simp: accounts_ok_def)
    moreover obtain sd where "seed w = Some sd"
      using alloc r by (auto simp: address_allocated_def)
    moreover have "\<forall>t. (t, a) \<in> set (hd_accounts w') \<longrightarrow> t = tenant"
      using one [OF accs a(1)] by blast
    ultimately show ?thesis using a i by blast
  qed
  moreover have "hd_ok w'" "r \<noteq> Inl OutOfFuel"
    using alloc by (simp_all add: address_allocated_def)
  ultimately show ?thesis by blast
qed

text \<open>
  C25. A call of the Busha webhook changes a deposit or the outbox only with a valid signature over its
  body, for an event that is evidence of a deposit, and for the reservation whose transfer the
  event names and whose asset, network and address agree with it; the change is one deposit step
  of that reservation.
\<close>

theorem webhook_changes_are_signed:
  assumes "handle_deposit_webhook body sig w = (r, w')" and "deposits w' \<noteq> deposits w \<or> outbox w' \<noteq> outbox w"
  shows "cfg_busha (env w) \<and> verify_busha_signature (env w) (cfg_busha_secret (env w)) body sig \<and>
    (\<exists>ty t status rv rv'. x_busha_decode (env w) body = Some (ty, t) \<and> classify_busha_deposit ty t = Inr (Some status) \<and>
       rv \<in> set (reservations w) \<and> rv_provider rv = ''busha'' \<and> rv_reference rv = bt_id t \<and>
       rv' \<in> set (reservations w) \<and> rv_id rv' = rv_id rv \<and> transfer_fits t rv' \<and>
       deposit_step (rv_id rv) (status = ''confirmed'') (bt_id t) w w')"
proof -
  let ?Q = "\<lambda>r w'. deposits w' = deposits w \<and> outbox w' = outbox w \<or> (cfg_busha (env w) \<and>
    verify_busha_signature (env w) (cfg_busha_secret (env w)) body sig \<and>
    (\<exists>ty t status rv rv'. x_busha_decode (env w) body = Some (ty, t) \<and> classify_busha_deposit ty t = Inr (Some status) \<and>
       rv \<in> set (reservations w) \<and> rv_provider rv = ''busha'' \<and> rv_reference rv = bt_id t \<and>
       rv' \<in> set (reservations w) \<and> rv_id rv' = rv_id rv \<and> transfer_fits t rv' \<and>
       deposit_step (rv_id rv) (status = ''confirmed'') (bt_id t) w w'))"
  have record_status: "wp (record_deposit_transition rid status amount tx raw)
      (\<lambda>_ w'. deposit_step rid (status = ''confirmed'') tx w w') (w\<lparr>faults := bs\<rparr>)"
    if "classify_busha_deposit ty t = Inr (Some status)" for rid status amount tx raw bs ty t
  proof (rule wp_conseq [OF record_deposit_step [where conf = "status = ''confirmed''"]])
    show "status = (if status = ''confirmed'' then ''confirmed'' else ''detected'')"
      using classify_status [OF that] by auto
    have "deposit_step rid c tx (w\<lparr>faults := bs\<rparr>) = deposit_step rid c tx w" for c
      by (rule deposit_step_frame) simp_all
    then show "deposit_step rid (status = ''confirmed'') tx w w'"
      if "deposit_step rid (status = ''confirmed'') tx (w\<lparr>faults := bs\<rparr>) w' \<and>
        reservations w' = reservations (w\<lparr>faults := bs\<rparr>) \<and> bus_on w' = bus_on (w\<lparr>faults := bs\<rparr>)" for w'
      using that by simp
  qed
  have "wp (handle_deposit_webhook body sig) ?Q w"
    unfolding handle_deposit_webhook_def find_reservation_by_reference_def get_reservation_def
    apply (intro wp_rules)
                apply (simp_all add: case_prod_beta)
    apply (rule wp_conseq [OF record_status])
     apply assumption
    apply (auto dest!: first_min_in_set find_Some_mem)
    done
  from wpD [OF this assms(1)] assms(2) show ?thesis by auto
qed

definition webhook_world :: world where
  "webhook_world = treasury_world\<lparr>env := sample_env\<lparr>cfg_busha := True, x_busha_decode := (\<lambda>body.
     Some (''transfer.processing'', \<lparr>bt_id = ''ref'', bt_source = ''USDT'', bt_target = ''USDT'', bt_amount = 5,
       bt_status = ''processing'', bt_type = ''address'', bt_address = ''addr'', bt_network = ''TRC20'', bt_memo = '''',
       bt_expires = None\<rparr>))\<rparr>\<rparr>"

theorem webhook_changes_are_signed_witness:
  "let sig = base64_encode (''s'' @ ''body'') in
     verify_busha_signature (env webhook_world) (cfg_busha_secret (env webhook_world)) ''body'' sig \<and>
     length (deposits (snd (handle_deposit_webhook ''body'' sig webhook_world))) = 1"
proof -
  define sig where "sig = base64_encode (''s'' @ ''body'')"
  have sel: "faults webhook_world = []" "deposits webhook_world = []" "reservations webhook_world = [sample_reservation]" "now webhook_world = 0"
    by (simp_all add: webhook_world_def)
  have e: "env webhook_world = (sample_env\<lparr>cfg_busha := True, x_busha_decode := x_busha_decode (env webhook_world)\<rparr>)"
    by (simp add: webhook_world_def)
  have decode: "x_busha_decode (env webhook_world) b = Some (''transfer.processing'', \<lparr>bt_id = ''ref'', bt_source = ''USDT'', bt_target = ''USDT'', bt_amount = 5,
       bt_status = ''processing'', bt_type = ''address'', bt_address = ''addr'', bt_network = ''TRC20'', bt_memo = '''',
       bt_expires = None\<rparr>)" for b
    by (simp add: webhook_world_def)
  have cfg: "cfg_busha (env webhook_world)" "cfg_busha_secret (env webhook_world) = ''s''"
    by (subst e, simp add: sample_env_def)+
  have signed: "verify_busha_signature (env webhook_world) ''s'' ''body'' sig"
    by (subst e, simp add: verify_busha_signature_def compute_busha_signature_def sample_env_def sig_def trim_space_def is_space_def byte_def Let_def)
  have five: "round_half_away 8 5 = 5" "numeric_col 20 8 5 = Some 5"
    by (simp_all add: numeric_col_def round_half_away_def floor_numeral_div)
  have on: "bus_on webhook_world" by (simp add: webhook_world_def treasury_world_def corridor_world_def empty_world_def)
  obtain r w' where run: "handle_deposit_webhook ''body'' sig webhook_world = (r, w')" and one: "length (deposits w') = 1"
    by (simp add: handle_deposit_webhook_def op_simps cfg signed decode classify_busha_deposit_def five
        find_reservation_by_reference_def get_reservation_def sel sample_reservation_def transfer_fits_def
        record_deposit_transition_def insert_deposit_if_absent_def publish_if_bus_def publish_def on)
  have "deposits w' \<noteq> deposits webhook_world \<or> outbox w' \<noteq> outbox webhook_world"
    using one by (auto simp: sel)
  from webhook_changes_are_signed [OF run this] run one show ?thesis
    by (simp add: sig_def Let_def)
qed

text \<open>
  Ethereum and BSC share the derivation path and the address format, but indices are counted
  per chain and \<open>derived_addresses.address\<close> is unique: the first BSC address of a tenant that
  already has its first Ethereum address cannot be stored, and the allocation fails although a
  second try, with the next index, succeeds.
\<close>

lemma first_bsc_address_collides:
  "let w1 = snd (allocate_or_reuse_address ''T'' Ethereum treasury_world);
       (r2, w2) = allocate_or_reuse_address ''T'' BSC w1
   in r2 = Inl (UniqueErr ''derived_addresses'') \<and>
      (\<exists>addr. fst (allocate_or_reuse_address ''T'' BSC w2) = Inr addr)"
proof -
  have empty: "derived treasury_world = []" "hd_accounts treasury_world = []" "hd_counter treasury_world = None" "hd_indices treasury_world = []"
    by (simp_all add: treasury_world_def corridor_world_def empty_world_def)
  let ?w0 = "treasury_world\<lparr>hd_counter := Some 3, hd_accounts := [(''T'', 2)]\<rparr>"
  have account: "get_or_allocate_tenant_account (Suc 0) ''T'' treasury_world = (Inr 2, ?w0)"
    by (simp add: next_account_def insert_hd_account_def op_simps empty)
  obtain a0 a1 where a: "derive_address_at_account sample_env ''m'' Ethereum 2 0 = Inr a0"
     "derive_address_at_account sample_env ''m'' Ethereum 2 1 = Inr a1" "a0 \<noteq> a1"
    by (simp add: derive_address_at_account_def derivation_path_def purpose_def address_format_def sample_env_def)
  note defs = allocate_or_reuse_address_def find_free_derived_address_def allocate_next_index_def insert_derived_address_def
    op_simps empty account a ethereum_bsc_same_address Let_def address_reserved_def
  let ?w1 = "?w0\<lparr>hd_indices := [((Ethereum, ''T''), Suc 0)], derived := [(Ethereum, ''T'', 0, a0)]\<rparr>"
  have s1: "allocate_or_reuse_address ''T'' Ethereum treasury_world = (Inr a0, ?w1)"
    by (simp add: defs del: get_or_allocate_tenant_account.simps)
  let ?w2 = "?w1\<lparr>hd_indices := [((Ethereum, ''T''), Suc 0), ((BSC, ''T''), Suc 0)]\<rparr>"
  have s2: "allocate_or_reuse_address ''T'' BSC ?w1 = (Inl (UniqueErr ''derived_addresses''), ?w2)"
    by (simp add: defs)
  have s3: "fst (allocate_or_reuse_address ''T'' BSC ?w2) = Inr a1"
    by (simp add: defs)
  show ?thesis unfolding s1 snd_conv Let_def s2 prod.case by (intro conjI exI [of _ a1] refl s3)
qed

end
