(* ===== verification/Compliance.thy ===== *)
theory Compliance
  imports Rate
begin

text \<open>
  Compliance, \<^verbatim>\<open>internal/compliance\<close>: the KYB cases of tenants and the screening of sessions, with
  the Travel Rule check that runs before any vendor, the manual hold queue, and the documents a
  jurisdiction requires. A vendor is a function of the calls made so far and of the case; a
  name without one is unknown.
\<close>

abbreviation ErrCaseNotFound :: err where "ErrCaseNotFound \<equiv> Sentinel ''compliance: case not found''"
abbreviation ErrHoldAlreadyResolved :: err where "ErrHoldAlreadyResolved \<equiv> Sentinel ''compliance: hold already resolved''"
abbreviation ErrProviderNotFound :: err where "ErrProviderNotFound \<equiv> Sentinel ''compliance: provider not registered''"
abbreviation ErrNoDeclaredCurrencies :: err where "ErrNoDeclaredCurrencies \<equiv> Sentinel ''compliance: no declared currencies''"
abbreviation ErrMissingRequiredFields :: err where
  "ErrMissingRequiredFields \<equiv> Sentinel ''compliance: submission missing required fields''"
abbreviation ErrKYBUnderReview :: err where "ErrKYBUnderReview \<equiv> Sentinel ''compliance: kyb already under review''"
abbreviation ErrKYBTooManyAttempts :: err where "ErrKYBTooManyAttempts \<equiv> Sentinel ''compliance: too many kyb submissions''"

definition StatusApproved :: string where "StatusApproved = ''approved''"
definition StatusRejected :: string where "StatusRejected = ''rejected''"
definition StatusHold :: string where "StatusHold = ''hold''"

lemmas case_status_defs = StatusApproved_def StatusRejected_def StatusHold_def

lemma case_status_distinct [simp]:
  "StatusApproved \<noteq> StatusRejected" "StatusApproved \<noteq> StatusHold" "StatusRejected \<noteq> StatusHold"
  "StatusRejected \<noteq> StatusApproved" "StatusHold \<noteq> StatusApproved" "StatusHold \<noteq> StatusRejected"
  by (simp_all add: case_status_defs)

section \<open>Jurisdictions\<close>

definition upsert_jurisdiction_requirement :: "string \<Rightarrow> string \<Rightarrow> string list \<Rightarrow> uuid run" where
  "upsert_jurisdiction_requirement fiat name req = stmt
     (bindE (gets (\<lambda>w. find (\<lambda>j. ju_fiat j = fiat) (jurisdictions w))) (\<lambda>old. case old of
        Some j \<Rightarrow> thenE (modify (\<lambda>w. w\<lparr>jurisdictions := update_where (\<lambda>j. ju_fiat j = fiat)
            (\<lambda>j. j\<lparr>ju_name := name, ju_fields := req\<rparr>) (jurisdictions w)\<rparr>)) (ret (ju_id j))
      | None \<Rightarrow> bindE gen_uuid (\<lambda>i. thenE (modify (\<lambda>w. w\<lparr>jurisdictions := jurisdictions w @
            [\<lparr>ju_id = i, ju_fiat = fiat, ju_name = name, ju_fields = req\<rparr>]\<rparr>)) (ret i))))"

definition get_required_fields :: "string \<Rightarrow> (string list) run" where
  "get_required_fields fiat = query (\<lambda>w. case find (\<lambda>j. ju_fiat j = fiat) (jurisdictions w) of
     None \<Rightarrow> [] | Some j \<Rightarrow> ju_fields j)"

definition list_jurisdiction_requirements :: "(jurisdiction list) run" where
  "list_jurisdiction_requirements = query (\<lambda>w. concat (map (\<lambda>f. filter (\<lambda>j. ju_fiat j = f) (jurisdictions w))
     (fold insert_str (map ju_fiat (jurisdictions w)) [])))"

definition is_jurisdiction_approved :: "uuid \<Rightarrow> string \<Rightarrow> bool run" where
  "is_jurisdiction_approved tenant fiat = query (\<lambda>w. list_ex (\<lambda>c. cc_ref_type c = ''tenant'' \<and> cc_ref_id c = tenant \<and>
     cc_type c = ''kyb'' \<and> cc_status c = StatusApproved \<and> fiat \<in> set (cc_currencies c)) (cases w))"

definition has_jurisdiction :: "string \<Rightarrow> bool run" where
  "has_jurisdiction fiat = query (\<lambda>w. list_ex (\<lambda>j. ju_fiat j = fiat) (jurisdictions w))"

section \<open>Screening\<close>

definition sandbox_screen :: decision where
  "sandbox_screen = \<lparr>de_approved = True, de_hold = False, de_reason = ''sandbox: auto-approved''\<rparr>"

definition registry_get :: "externals \<Rightarrow> string \<Rightarrow> (ext_call list \<Rightarrow> compliance_case \<Rightarrow> err + decision) option" where
  "registry_get e name = (if name = ''sandbox'' \<and> cfg_sandbox e then Some (\<lambda>_ _. Inr sandbox_screen) else x_screen e name)"

definition case_for :: "string \<Rightarrow> string \<Rightarrow> uuid \<Rightarrow> json \<Rightarrow> compliance_case" where
  "case_for ty rty rid data = \<lparr>cc_id = uuid_nil, cc_type = ty, cc_ref_type = rty, cc_ref_id = rid, cc_status = '''',
     cc_provider = None, cc_reason = None, cc_data = data, cc_hold_expires = None, cc_resolved_by = None,
     cc_created = 0, cc_resolved_at = None, cc_currencies = []\<rparr>"

text \<open>The call to a vendor; the result is its error or its decision.\<close>

definition screen_with :: "string \<Rightarrow> compliance_case \<Rightarrow> (err + decision) run" where
  "screen_with name c = bindE (gets (\<lambda>w. registry_get (env w) name)) (\<lambda>p. case p of
       None \<Rightarrow> fail ErrProviderNotFound
     | Some f \<Rightarrow> ask (CallScreen name (cc_ref_id c)) (\<lambda>e log. f log c))"

definition decide :: "decision \<Rightarrow> time \<Rightarrow> string \<times> time option" where
  "decide d t = (if de_hold d then (StatusHold, None)
     else (if de_approved d then StatusApproved else StatusRejected, Some t))"

definition insert_case :: "string \<Rightarrow> string \<Rightarrow> uuid \<Rightarrow> string \<Rightarrow> string option \<Rightarrow> string option \<Rightarrow> raw_json \<Rightarrow>
    time option \<Rightarrow> time option \<Rightarrow> string list \<Rightarrow> compliance_case run" where
  "insert_case ty rty rid status name reason data hold resolved currencies = stmt (case data of
       RawJson j \<Rightarrow> bindE gen_uuid (\<lambda>i. bindE (gets (\<lambda>w. (case_for ty rty rid j)\<lparr>cc_id := i, cc_status := status,
           cc_provider := name, cc_reason := reason, cc_hold_expires := hold, cc_created := now w,
           cc_resolved_at := resolved, cc_currencies := currencies\<rparr>)) (\<lambda>c.
           thenE (modify (\<lambda>w. w\<lparr>cases := cases w @ [c]\<rparr>)) (ret c)))
     | _ \<Rightarrow> fail (ConstraintErr ''compliance_cases''))"

definition publish_if_hold :: "compliance_case \<Rightarrow> uuid \<Rightarrow> unit run" where
  "publish_if_hold c tenant = (if cc_status c \<noteq> StatusHold then ret ()
     else publish_if_bus ''compliance.hold_created'' ''compliance_case'' (cc_id c)
       [(''tenant_id'', PStr tenant), (''case_type'', PStr (cc_type c)),
        (''reference_type'', PStr (cc_ref_type c)), (''reference_id'', PStr (cc_ref_id c))])"

text \<open>The row and, for a hold, its event in one transaction.\<close>

definition create_case :: "uuid \<Rightarrow> string \<Rightarrow> string \<Rightarrow> uuid \<Rightarrow> string \<Rightarrow> string option \<Rightarrow> string option \<Rightarrow> raw_json \<Rightarrow>
    time option \<Rightarrow> time option \<Rightarrow> string list \<Rightarrow> compliance_case run" where
  "create_case tenant ty rty rid status name reason data hold resolved currencies =
     atomically (thenE begin_tx (bindE (insert_case ty rty rid status name reason data hold resolved currencies)
       (\<lambda>c. thenE (publish_if_hold c tenant) (thenE commit_tx (ret c)))))"

fun add_required :: "string list \<Rightarrow> string list \<Rightarrow> string list" where
  "add_required req [] = req"
| "add_required req (f # fs) = add_required (if f \<in> set req then req else req @ [f]) fs"

definition validate_declared_currencies :: "string list \<Rightarrow> raw_json \<Rightarrow> unit run" where
  "validate_declared_currencies currencies data = (if currencies = [] then fail ErrNoDeclaredCurrencies
     else bindE (mapE currencies get_required_fields) (\<lambda>fss.
       let req = foldl add_required [] fss in
       if req = [] then ret ()
       else case object_fields data of
         None \<Rightarrow> fail ErrMissingRequiredFields
       | Some kvs \<Rightarrow> if missing_fields req kvs \<noteq> [] then fail ErrMissingRequiredFields else ret ()))"

text \<open>The bullet is a character of three bytes.\<close>

definition bullet :: string where "bullet = [CHR 0xE2, CHR 0x80, CHR 0xA2]"

definition mask_value :: "string \<Rightarrow> string" where
  "mask_value v = (let keep = (if length v \<le> 4 then 0 else 4) in
     concat (replicate (length v - keep) bullet) @ drop (length v - keep) v)"

definition sensitive_fields :: "string list" where "sensitive_fields = [''director_bvn'']"

definition mask_field :: "string \<Rightarrow> (string \<times> json) list \<Rightarrow> (string \<times> json) list" where
  "mask_field k kvs = (case json_get kvs k of
     Some (JStr v) \<Rightarrow> if v = '''' then kvs
       else map (\<lambda>(k', x). if k' = k then (k', JStr (mask_value v)) else (k', x)) kvs
   | _ \<Rightarrow> kvs)"

fun mask_submitted_data :: "raw_json \<Rightarrow> raw_json" where
  "mask_submitted_data (RawJson (JObj kvs)) = RawJson (JObj (fold mask_field sensitive_fields kvs))"
| "mask_submitted_data data = data"

definition screen_tenant :: "uuid \<Rightarrow> raw_json \<Rightarrow> string list \<Rightarrow> string \<Rightarrow> compliance_case run" where
  "screen_tenant tenant submitted currencies name =
     (let data = (if submitted = RawNil then RawJson (JObj []) else submitted);
          js = (case data of RawJson j \<Rightarrow> j | _ \<Rightarrow> JNull) in
      thenE (validate_declared_currencies currencies data)
        (bindE (if name = '''' then ret (StatusHold, None, None, None)
           else bindE (screen_with name (case_for ''kyb'' ''tenant'' tenant js)) (\<lambda>r. bindE (gets now) (\<lambda>t.
             let d = (case r of Inr d \<Rightarrow> d | Inl _ \<Rightarrow>
               \<lparr>de_approved = False, de_hold = True, de_reason = name @ '': automated screening errored, verify manually''\<rparr>);
               (status, resolved) = decide d t in
             ret (status, Some name, Some (de_reason d), resolved))))
          (\<lambda>(status, pname, reason, resolved).
            create_case tenant ''kyb'' ''tenant'' tenant status pname reason (mask_submitted_data data) None resolved currencies)))"

definition rolling_volume :: "uuid \<Rightarrow> time \<Rightarrow> world \<Rightarrow> rat" where
  "rolling_volume tenant since w = sum_list (map s_fiat_amount
     (filter (\<lambda>s. s_tenant s = tenant \<and> s_created s \<ge> since \<and> s_status s \<noteq> ''rejected'') (sessions w)))"

definition travel_rule_threshold_exceeded :: "uuid \<Rightarrow> rat \<Rightarrow> rat option \<Rightarrow> time \<Rightarrow> bool run" where
  "travel_rule_threshold_exceeded tenant amount threshold window = (case threshold of
       None \<Rightarrow> ret False
     | Some th \<Rightarrow> bindE (query (\<lambda>w. rolling_volume tenant (now w - window) w)) (\<lambda>prior. ret (prior + amount \<ge> th)))"

definition screen_session :: "uuid \<Rightarrow> uuid \<Rightarrow> rat \<Rightarrow> rat option \<Rightarrow> time \<Rightarrow> time \<Rightarrow> string \<Rightarrow> compliance_case run" where
  "screen_session sid tenant amount threshold window hold_timeout name =
     bindE (travel_rule_threshold_exceeded tenant amount threshold window) (\<lambda>hit.
       bindE (if hit then ret (StatusHold, None, Some ''travel rule rolling volume threshold exceeded'', None)
          else if name = '''' then ret (StatusHold, None, None, None)
          else bindE (screen_with name (case_for ''transaction_screening'' ''session'' sid JNull)) (\<lambda>r.
            bindE (lift_sum r) (\<lambda>d. bindE (gets now) (\<lambda>t.
              let (status, resolved) = decide d t in ret (status, Some name, Some (de_reason d), resolved)))))
         (\<lambda>(status, pname, reason, resolved). bindE (gets now) (\<lambda>t.
           create_case tenant ''transaction_screening'' ''session'' sid status pname reason (RawJson (JObj []))
             (if status = StatusHold then Some (t + hold_timeout) else None) resolved [])))"

section \<open>Cases\<close>

definition get_case :: "uuid \<Rightarrow> compliance_case run" where
  "get_case i = bindE (query (\<lambda>w. find (\<lambda>c. cc_id c = i) (cases w)))
     (\<lambda>r. case r of None \<Rightarrow> fail ErrCaseNotFound | Some c \<Rightarrow> ret c)"

definition get_latest_case :: "string \<Rightarrow> uuid \<Rightarrow> string \<Rightarrow> compliance_case run" where
  "get_latest_case rty rid ty = bindE (query (\<lambda>w. first_min (\<lambda>c. - cc_created c)
       (filter (\<lambda>c. cc_ref_type c = rty \<and> cc_ref_id c = rid \<and> cc_type c = ty) (cases w))))
     (\<lambda>r. case r of None \<Rightarrow> fail ErrCaseNotFound | Some c \<Rightarrow> ret c)"

definition MaxKYBSubmissionsPerDay :: nat where "MaxKYBSubmissionsPerDay = 3"

definition kyb_case_of :: "uuid \<Rightarrow> compliance_case \<Rightarrow> bool" where
  "kyb_case_of tenant c \<longleftrightarrow> cc_type c = ''kyb'' \<and> cc_ref_type c = ''tenant'' \<and> cc_ref_id c = tenant"

definition check_kyb_submission_allowed :: "uuid \<Rightarrow> unit run" where
  "check_kyb_submission_allowed tenant = bindE
     (query (\<lambda>w. (count_where (\<lambda>c. kyb_case_of tenant c \<and> cc_status c = StatusHold) (cases w),
                  count_where (\<lambda>c. kyb_case_of tenant c \<and> cc_created c > now w - 24 * 60 * minute) (cases w))))
     (\<lambda>(holds, recent). if holds > 0 then fail ErrKYBUnderReview
        else if recent \<ge> MaxKYBSubmissionsPerDay then fail ErrKYBTooManyAttempts else ret ())"

definition list_holds :: "string \<Rightarrow> (compliance_case list) run" where
  "list_holds ty = query (\<lambda>w. sort_key cc_created (filter (\<lambda>c. cc_type c = ty \<and> cc_status c = StatusHold) (cases w)))"

definition resolve_case :: "string \<Rightarrow> string \<Rightarrow> uuid \<Rightarrow> time \<Rightarrow> compliance_case \<Rightarrow> compliance_case" where
  "resolve_case status reason admin t c = c\<lparr>cc_status := status,
     cc_reason := Some (case cc_reason c of None \<Rightarrow> reason | Some r \<Rightarrow> if r = '''' then reason else reason @ ''\<newline>\<newline>'' @ r),
     cc_resolved_by := Some admin, cc_resolved_at := Some t, cc_provider := Some ''manual''\<rparr>"

definition resolve_hold :: "uuid \<Rightarrow> uuid \<Rightarrow> bool \<Rightarrow> string \<Rightarrow> compliance_case run" where
  "resolve_hold i admin approved reason = (let status = (if approved then StatusApproved else StatusRejected) in
     stmt (bindE (gets (\<lambda>w. find (\<lambda>c. cc_id c = i \<and> cc_status c = StatusHold) (cases w))) (\<lambda>r. case r of
       None \<Rightarrow> fail ErrHoldAlreadyResolved
     | Some c \<Rightarrow> bindE (gets now) (\<lambda>t. thenE (modify (\<lambda>w. w\<lparr>cases := update_where (\<lambda>c. cc_id c = i \<and> cc_status c = StatusHold)
           (resolve_case status reason admin t) (cases w)\<rparr>)) (ret (resolve_case status reason admin t c))))))"

section \<open>Required documents\<close>

lemma set_add_required: "set (add_required req fs) = set req \<union> set fs"
  by (induction fs arbitrary: req) auto

lemma set_foldl_add: "set (foldl add_required req fss) = set req \<union> \<Union> (set ` set fss)"
  by (induction fss arbitrary: req) (auto simp: set_add_required)

lemma db_view_cases [simp]: "db_view cases" "db_view jurisdictions" "db_view ext_log"
  by (simp_all add: db_view_def)

definition required_of :: "world \<Rightarrow> string \<Rightarrow> string list" where
  "required_of w fiat = (case find (\<lambda>j. ju_fiat j = fiat) (jurisdictions w) of None \<Rightarrow> [] | Some j \<Rightarrow> ju_fields j)"

lemma get_required_all:
  "mapE cs get_required_fields w = (Inr fss, w') \<Longrightarrow> fss = map (required_of w) cs \<and> jurisdictions w' = jurisdictions w"
proof (induction cs arbitrary: w fss)
  case Nil
  then show ?case by (simp add: ret_def)
next
  case (Cons c cs)
  then show ?case
    by (auto simp: get_required_fields_def required_of_def ret_def elim!: bindE_InrE dest!: query_InrD) (fastforce simp: required_of_def)+
qed

lemma mapE_get_required_frame: "db_view f \<Longrightarrow> frame f (mapE cs get_required_fields)"
  by (auto simp: get_required_fields_def intro!: frame_rules)

definition documents_complete :: "world \<Rightarrow> string list \<Rightarrow> raw_json \<Rightarrow> bool" where
  "documents_complete w currencies data \<longleftrightarrow> currencies \<noteq> [] \<and>
     ((\<forall>c \<in> set currencies. required_of w c = []) \<or>
      (\<exists>kvs. object_fields data = Some kvs \<and> (\<forall>c \<in> set currencies. \<forall>f \<in> set (required_of w c). has_text kvs f)))"

lemma wp_validate_currencies:
  "wp (validate_declared_currencies currencies data) (\<lambda>r w'. (r = Inr () \<longrightarrow> documents_complete w currencies data) \<and>
     cases w' = cases w \<and> ext_log w' = ext_log w \<and> env w' = env w \<and> outbox w' = outbox w \<and> bus_on w' = bus_on w \<and> now w' = now w) w"
proof (cases "currencies = []")
  case True
  then show ?thesis by (simp add: validate_declared_currencies_def wp_fail)
next
  case False
  have "wp (mapE currencies get_required_fields) (\<lambda>r w'. (\<forall>fss. r = Inr fss \<longrightarrow> fss = map (required_of w) currencies) \<and>
     cases w' = cases w \<and> ext_log w' = ext_log w \<and> env w' = env w \<and> outbox w' = outbox w \<and> bus_on w' = bus_on w \<and> now w' = now w) w"
  proof (rule wpI)
    fix r w' assume run: "mapE currencies get_required_fields w = (r, w')"
    have now: "db_view now" by (simp add: db_view_def)
    have envv: "db_view env" by (simp add: db_view_def)
    show "(\<forall>fss. r = Inr fss \<longrightarrow> fss = map (required_of w) currencies) \<and>
     cases w' = cases w \<and> ext_log w' = ext_log w \<and> env w' = env w \<and> outbox w' = outbox w \<and> bus_on w' = bus_on w \<and> now w' = now w"
      using run by (auto dest: get_required_all intro!: frame_eq [OF mapE_get_required_frame run] now envv)
  qed
  then show ?thesis
    unfolding validate_declared_currencies_def Let_def
    by (simp add: False, intro wp_bindE, elim wp_call)
      (auto intro!: wp_rules simp: documents_complete_def False missing_fields_Nil_iff set_foldl_add
        dest: arg_cong [where f = set])
qed

section \<open>What a screening leaves behind\<close>

definition hold_event :: "compliance_case \<Rightarrow> event \<Rightarrow> bool" where
  "hold_event c ev \<longleftrightarrow> ev_type ev = ''compliance.hold_created'' \<and> ev_agg_id ev = cc_id c"

definition hold_published :: "compliance_case \<Rightarrow> world \<Rightarrow> world \<Rightarrow> bool" where
  "hold_published c w w' \<longleftrightarrow> (if bus_on w \<and> cc_status c = StatusHold
     then \<exists>ev. outbox w' = outbox w @ [ev] \<and> hold_event c ev else outbox w' = outbox w)"

lemma hold_published_frame: "outbox v = outbox w \<Longrightarrow> bus_on v = bus_on w \<Longrightarrow> hold_published c v w' = hold_published c w w'"
  by (simp add: hold_published_def)

definition case_created :: "string \<Rightarrow> uuid \<Rightarrow> string \<Rightarrow> world \<Rightarrow> err + compliance_case \<Rightarrow> world \<Rightarrow> bool" where
  "case_created rty rid ty w r w' \<longleftrightarrow> ext_log w' = ext_log w \<and> (case r of
     Inl _ \<Rightarrow> cases w' = cases w \<and> outbox w' = outbox w
   | Inr c \<Rightarrow> cases w' = cases w @ [c] \<and> cc_ref_type c = rty \<and> cc_ref_id c = rid \<and> cc_type c = ty \<and> cc_created c = now w \<and>
       hold_published c w w')"

lemma wp_create_case:
  "wp (create_case tenant ty rty rid status name reason data hold resolved currencies)
     (\<lambda>r w'. case_created rty rid ty w r w' \<and> (\<forall>c. r = Inr c \<longrightarrow> cc_status c = status \<and> cc_provider c = name \<and>
        cc_reason c = reason \<and> RawJson (cc_data c) = data \<and> cc_hold_expires c = hold \<and> cc_resolved_at c = resolved \<and>
        cc_currencies c = currencies \<and> cc_resolved_by c = None)) w"
proof (cases data)
  case (RawJson j)
  then show ?thesis
    unfolding create_case_def insert_case_def publish_if_hold_def publish_if_bus_def publish_def
    by (simp, intro wp_rules) (auto simp: case_created_def hold_published_def hold_event_def case_for_def)
qed (auto simp: create_case_def insert_case_def case_created_def intro!: wp_rules)

text \<open>A vendor's word: the registered function asked about the case said so.\<close>

definition vendor_said :: "externals \<Rightarrow> string \<Rightarrow> compliance_case \<Rightarrow> decision \<Rightarrow> bool" where
  "vendor_said e name c d \<longleftrightarrow> (\<exists>f log. registry_get e name = Some f \<and> f log c = Inr d)"

definition session_screened :: "uuid \<Rightarrow> uuid \<Rightarrow> rat \<Rightarrow> rat option \<Rightarrow> time \<Rightarrow> time \<Rightarrow> string \<Rightarrow> world \<Rightarrow> compliance_case \<Rightarrow> world \<Rightarrow> bool" where
  "session_screened sid tenant amount threshold window hold_timeout name w c w' \<longleftrightarrow>
     cases w' = cases w @ [c] \<and> cc_ref_id c = sid \<and> cc_type c = ''transaction_screening'' \<and>
     (if \<exists>th. threshold = Some th \<and> rolling_volume tenant (now w - window) w + amount \<ge> th
      then cc_status c = StatusHold \<and> cc_provider c = None \<and> ext_log w' = ext_log w
      else cc_status c \<noteq> StatusHold \<longrightarrow> name \<noteq> '''' \<and> cc_provider c = Some name \<and>
        (\<exists>d. vendor_said (env w) name (case_for ''transaction_screening'' ''session'' sid JNull) d \<and> \<not> de_hold d \<and>
           cc_status c = (if de_approved d then StatusApproved else StatusRejected))) \<and>
     cc_hold_expires c = (if cc_status c = StatusHold then Some (now w + hold_timeout) else None) \<and>
     hold_published c w w'"

lemma wp_screen_session:
  "wp (screen_session sid tenant amount threshold window hold_timeout name)
     (\<lambda>r w'. case r of Inl e \<Rightarrow> cases w' = cases w \<and> outbox w' = outbox w
       | Inr c \<Rightarrow> session_screened sid tenant amount threshold window hold_timeout name w c w') w"
proof -
  have rv: "rolling_volume tenant t (w\<lparr>faults := bs\<rparr>) = rolling_volume tenant t w" for t bs
    by (simp add: rolling_volume_def)
  have create: "wp (create_case tenant ''transaction_screening'' ''session'' sid status pname reason data hold resolved cur)
      (\<lambda>r w'. case r of Inl e \<Rightarrow> cases w' = cases w \<and> outbox w' = outbox w
       | Inr c \<Rightarrow> session_screened sid tenant amount threshold window hold_timeout name w c w') v"
    if "cases v = cases w" "outbox v = outbox w" "bus_on v = bus_on w"
      "\<And>c w'. cases w' = cases w @ [c] \<Longrightarrow> ext_log w' = ext_log v \<Longrightarrow> cc_ref_id c = sid \<Longrightarrow> cc_type c = ''transaction_screening'' \<Longrightarrow>
        cc_status c = status \<Longrightarrow> cc_provider c = pname \<Longrightarrow> cc_hold_expires c = hold \<Longrightarrow>
        hold_published c w w' \<Longrightarrow>
        session_screened sid tenant amount threshold window hold_timeout name w c w'"
    for status pname reason data hold resolved cur v
  proof (rule wp_conseq [OF wp_create_case], goal_cases)
    case (1 r w')
    then show ?case
      using that(4) by (cases r) (simp_all add: case_created_def hold_published_frame [OF that(2,3)] that(1-3))
  qed
  show ?thesis
    unfolding screen_session_def travel_rule_threshold_exceeded_def screen_with_def
    by (intro wp_rules create)
      (auto simp: session_screened_def rv decide_def vendor_said_def split: if_splits)
qed

text \<open>Masking keeps every other field.\<close>

lemma json_get_map_key:
  "json_get (map (\<lambda>(k', x). if k' = k then (k', y) else (k', x)) kvs) k' =
     (if k' = k \<and> json_get kvs k \<noteq> None then Some y else json_get kvs k')"
proof -
  have "map_of (map (\<lambda>(k', x). if k' = k then (k', y) else (k', x)) xs) k' =
     (if k' = k \<and> map_of xs k \<noteq> None then Some y else map_of xs k')" for xs :: "(string \<times> json) list"
    by (induction xs) auto
  from this [of "rev kvs"] show ?thesis by (simp add: json_get_def rev_map)
qed

lemma mask_value_Nil [simp]: "mask_value [] = []"
  by (simp add: mask_value_def)

lemma json_get_mask:
  "json_get (mask_field k kvs) k' = (if k' = k then map_option (\<lambda>x. case x of JStr v \<Rightarrow> JStr (mask_value v) | _ \<Rightarrow> x) (json_get kvs k)
     else json_get kvs k')"
  by (auto simp: mask_field_def json_get_map_key split: option.split json.split)

text \<open>At most the last four characters of a sensitive value are left, and fewer than it has.\<close>

lemma mask_value_hides:
  "\<exists>n. mask_value v = concat (replicate (length v - n) bullet) @ drop (length v - n) v \<and> n \<le> 4 \<and> (v \<noteq> [] \<longrightarrow> n < length v)"
  by (rule exI [of _ "if length v \<le> 4 then 0 else 4"]) (auto simp: mask_value_def Let_def)

definition tenant_screened :: "uuid \<Rightarrow> raw_json \<Rightarrow> string list \<Rightarrow> string \<Rightarrow> world \<Rightarrow> compliance_case \<Rightarrow> world \<Rightarrow> bool" where
  "tenant_screened tenant data currencies name w c w' \<longleftrightarrow>
     cases w' = cases w @ [c] \<and> kyb_case_of tenant c \<and> cc_currencies c = currencies \<and>
     documents_complete w currencies data \<and> RawJson (cc_data c) = mask_submitted_data data \<and>
     (cc_status c \<noteq> StatusHold \<longrightarrow> name \<noteq> '''' \<and> cc_provider c = Some name \<and>
       (\<exists>d js. vendor_said (env w) name (case_for ''kyb'' ''tenant'' tenant js) d \<and> \<not> de_hold d \<and>
          cc_status c = (if de_approved d then StatusApproved else StatusRejected)))"

lemma wp_screen_tenant:
  assumes "data = (if submitted = RawNil then RawJson (JObj []) else submitted)"
  shows "wp (screen_tenant tenant submitted currencies name)
     (\<lambda>r w'. case r of Inl e \<Rightarrow> cases w' = cases w | Inr c \<Rightarrow> tenant_screened tenant data currencies name w c w') w"
proof -
  have create: "wp (create_case tenant ''kyb'' ''tenant'' tenant status pname reason (mask_submitted_data data) hold resolved currencies)
      (\<lambda>r w'. case r of Inl e \<Rightarrow> cases w' = cases w | Inr c \<Rightarrow> tenant_screened tenant data currencies name w c w') v"
    if "cases v = cases w" "documents_complete w currencies data"
      "status \<noteq> StatusHold \<longrightarrow> name \<noteq> '''' \<and> pname = Some name \<and>
       (\<exists>d js. vendor_said (env w) name (case_for ''kyb'' ''tenant'' tenant js) d \<and> \<not> de_hold d \<and>
          status = (if de_approved d then StatusApproved else StatusRejected))"
    for status pname reason hold resolved v
  proof (rule wp_conseq [OF wp_create_case], goal_cases)
    case (1 r w')
    then show ?case
      using that by (cases r) (simp_all add: case_created_def tenant_screened_def kyb_case_of_def)
  qed
  show ?thesis
    unfolding screen_tenant_def Let_def assms [symmetric]
    apply (rule wp_thenE, rule wp_call [OF wp_validate_currencies])
    subgoal by simp
    unfolding screen_with_def
    by (intro wp_rules; (rule create)?)
      (auto simp: decide_def vendor_said_def split: if_splits sum.splits)
qed

section \<open>A hold is resolved once\<close>

definition settled_cases :: "world \<Rightarrow> uuid set" where
  "settled_cases w = {i. \<not> list_ex (\<lambda>c. cc_id c = i \<and> cc_status c = StatusHold) (cases w)}"

lemma resolve_case_sel [simp]: "cc_id (resolve_case s r a t c) = cc_id c" "cc_status (resolve_case s r a t c) = s"
  by (simp_all add: resolve_case_def)

lemma settled_update:
  "s \<noteq> StatusHold \<Longrightarrow> {j. \<not> list_ex (\<lambda>c. cc_id c = j \<and> cc_status c = StatusHold)
      (update_where (\<lambda>c. cc_id c = i \<and> cc_status c = StatusHold) (resolve_case s r a t) cs)} =
   insert i {j. \<not> list_ex (\<lambda>c. cc_id c = j \<and> cc_status c = StatusHold) cs}"
  by (induction cs) auto

lemma wp_resolve_hold:
  "wp (resolve_hold i admin approved reason) (\<lambda>r w'. case r of
      Inl e \<Rightarrow> settled_cases w' = settled_cases w
    | Inr c \<Rightarrow> settled_cases w' = insert i (settled_cases w) \<and> i \<notin> settled_cases w) w"
  unfolding resolve_hold_def Let_def
  by (intro wp_rules) (simp_all add: settled_cases_def settled_update, auto simp: list_ex_iff dest: find_Some_mem)

interpretation hold_claims: atomic_claims "\<lambda>(i, admin, approved, reason). resolve_hold i admin approved reason" fst settled_cases
proof (unfold_locales, goal_cases)
  case (1 t w r w')
  then show ?case
    using wpD [OF wp_resolve_hold] by (cases t; cases r) fastforce+
next
  case (2 t w x w')
  then show ?case
    using wpD [OF wp_resolve_hold] by (cases t) fastforce
qed

section \<open>Properties\<close>

text \<open>A world with two jurisdictions and one earlier session, for the witnesses.\<close>

definition compliance_world :: world where
  "compliance_world = empty_world\<lparr>
     jurisdictions := [\<lparr>ju_id = ''J'', ju_fiat = ''NGN'', ju_name = ''Nigeria'', ju_fields = [''director_bvn'']\<rparr>],
     sessions := [\<lparr>s_id = ''S0'', s_tenant = ''T'', s_corridor = ''C'', s_status = ''settled'', s_fiat = ''NGN'',
       s_fiat_amount = 700, s_asset = ''USDT'', s_network = ''TRC20'', s_case = None, s_lock = None,
       s_reservation = None, s_sla = None, s_destination = JNull, s_instructions = None, s_created = 0, s_updated = 0\<rparr>]\<rparr>"

lemma compliance_world_sel [simp]:
  "faults compliance_world = []" "now compliance_world = 0" "cases compliance_world = []" "outbox compliance_world = []"
  "bus_on compliance_world = True" "env compliance_world = sample_env" "ext_log compliance_world = []"
  "rolling_volume ''T'' t compliance_world = (if t \<le> 0 then 700 else 0)"
  "jurisdictions compliance_world = [\<lparr>ju_id = ''J'', ju_fiat = ''NGN'', ju_name = ''Nigeria'', ju_fields = [''director_bvn'']\<rparr>]"
  by (simp_all add: compliance_world_def empty_world_def rolling_volume_def)

text \<open>
  C26. Travel Rule: when the rolling volume of a tenant with this amount reaches the threshold of
  the corridor, screening never asks a vendor and the case is a hold, with the corridor's timeout,
  for an officer to decide; the row and its event are stored together.
\<close>

theorem travel_rule_forces_hold:
  assumes "rolling_volume tenant (now w - window) w + amount \<ge> th"
    and "screen_session sid tenant amount (Some th) window timeout name w = (Inr c, w')"
  shows "cc_status c = StatusHold \<and> cc_provider c = None \<and> cc_hold_expires c = Some (now w + timeout) \<and>
    ext_log w' = ext_log w \<and> cases w' = cases w @ [c] \<and> hold_published c w w'"
  using wpD [OF wp_screen_session assms(2)] assms(1) by (simp add: session_screened_def)

theorem travel_rule_forces_hold_witness:
  "\<exists>c w'. screen_session ''S'' ''T'' 300 (Some 1000) minute minute ''vendor'' compliance_world = (Inr c, w') \<and>
     cc_status c = StatusHold \<and> length (outbox w') = 1"
proof -
  obtain c w' where run: "screen_session ''S'' ''T'' 300 (Some 1000) minute minute ''vendor'' compliance_world = (Inr c, w')"
    by (simp add: screen_session_def travel_rule_threshold_exceeded_def create_case_def insert_case_def
        publish_if_hold_def publish_if_bus_def publish_def case_for_def op_simps minute_def second_def)
  have "rolling_volume ''T'' (now compliance_world - minute) compliance_world + 300 \<ge> 1000"
    by (simp add: minute_def second_def)
  from travel_rule_forces_hold [OF this run] run show ?thesis
    by (auto simp: hold_published_def)
qed

text \<open>
  Nothing but a vendor approves a session: an approved case was below the Travel Rule
  threshold, carries the name of a registered vendor, and that vendor's answer for this session
  was an approval without a hold.
\<close>

lemma session_approved_only_by_vendor:
  assumes "screen_session sid tenant amount threshold window timeout name w = (Inr c, w')"
    and "cc_status c = StatusApproved"
  shows "(case threshold of None \<Rightarrow> True | Some th \<Rightarrow> rolling_volume tenant (now w - window) w + amount < th) \<and>
    cc_provider c = Some name \<and>
    (\<exists>d. vendor_said (env w) name (case_for ''transaction_screening'' ''session'' sid JNull) d \<and> de_approved d \<and> \<not> de_hold d)"
  using wpD [OF wp_screen_session assms(1)] assms(2)
  by (auto simp: session_screened_def not_le split: if_splits option.splits)

text \<open>
  A KYB case exists only with every document that its currencies require, it is decided
  without an officer only by a vendor, and of the director's identity number it stores at most the
  last four characters, and never all of them.
\<close>

lemma kyb_case_complete:
  assumes "screen_tenant tenant (RawJson (JObj kvs)) currencies name w = (Inr c, w')"
  shows "documents_complete w currencies (RawJson (JObj kvs)) \<and> cc_currencies c = currencies \<and>
    (cc_status c \<noteq> StatusHold \<longrightarrow> cc_provider c = Some name \<and> name \<noteq> '''') \<and>
    (\<exists>stored. cc_data c = JObj stored \<and>
      (\<forall>k. k \<noteq> ''director_bvn'' \<longrightarrow> json_get stored k = json_get kvs k) \<and>
      (\<forall>v. json_get kvs ''director_bvn'' = Some (JStr v) \<longrightarrow> (\<exists>n. n \<le> 4 \<and> (v \<noteq> [] \<longrightarrow> n < length v) \<and>
         json_get stored ''director_bvn'' = Some (JStr (concat (replicate (length v - n) bullet) @ drop (length v - n) v)))))"
proof -
  have screened: "tenant_screened tenant (RawJson (JObj kvs)) currencies name w c w'"
    using wpD [OF wp_screen_tenant [OF refl] assms] by simp
  define stored where "stored = mask_field ''director_bvn'' kvs"
  have data: "cc_data c = JObj stored"
    using screened by (simp add: tenant_screened_def sensitive_fields_def stored_def)
  have "\<exists>n. n \<le> 4 \<and> (v \<noteq> [] \<longrightarrow> n < length v) \<and>
     json_get stored ''director_bvn'' = Some (JStr (concat (replicate (length v - n) bullet) @ drop (length v - n) v))"
    if "json_get kvs ''director_bvn'' = Some (JStr v)" for v
    using mask_value_hides [of v] that by (auto simp: stored_def json_get_mask)
  moreover have "\<forall>k. k \<noteq> ''director_bvn'' \<longrightarrow> json_get stored k = json_get kvs k"
    by (simp add: stored_def json_get_mask)
  moreover have "documents_complete w currencies (RawJson (JObj kvs))" "cc_currencies c = currencies"
    "cc_status c \<noteq> StatusHold \<longrightarrow> cc_provider c = Some name \<and> name \<noteq> ''''"
    using screened by (auto simp: tenant_screened_def)
  ultimately show ?thesis using data by blast
qed

text \<open>
  A hold is resolved once: in any sequence of resolutions, by any officers, with either verdict
  and under any failures, those that succeed are for different cases, and each of those was on
  hold before.
\<close>

lemma holds_resolved_once:
  "let winning = map fst (winners (\<lambda>(i, admin, approved, reason). resolve_hold i admin approved reason) rs w)
   in distinct winning \<and> set winning \<inter> settled_cases w = {}"
  using hold_claims.winners_distinct hold_claims.winners_fresh by (simp add: Let_def)

end
