(* ===== verification/Session.thy ===== *)
theory Session
  imports Treasury Compliance
begin

text \<open>
  Sessions, \<^verbatim>\<open>internal/session\<close>: the orchestration of a payment from the corridor lookup to
  the deposit instructions, the compare-and-set transitions of the session state machine, the
  handlers of the treasury's events, and the TTL job. The theory also has the one operation of
  \<^verbatim>\<open>internal/tenant\<close> that sessions use, \<open>CheckEntitlement\<close>.
\<close>

abbreviation ErrNoRows :: err where "ErrNoRows \<equiv> Sentinel ''no rows in result set''"
abbreviation ErrSessionNotFound :: err where "ErrSessionNotFound \<equiv> Sentinel ''session: not found''"
abbreviation ErrCorridorNotSupported :: err where "ErrCorridorNotSupported \<equiv> Sentinel ''session: corridor not supported''"
abbreviation ErrNotEntitled :: err where "ErrNotEntitled \<equiv> Sentinel ''session: tenant not entitled to this corridor''"
abbreviation ErrInvalidDestination :: err where "ErrInvalidDestination \<equiv> Sentinel ''session: payout destination invalid''"
abbreviation ErrNotInComplianceHold :: err where "ErrNotInComplianceHold \<equiv> Sentinel ''session: not in compliance_hold''"

definition SessionTTL :: time where "SessionTTL = 30 * minute"

section \<open>Operations\<close>

definition check_entitlement :: "uuid \<Rightarrow> uuid \<Rightarrow> bool run" where
  "check_entitlement tenant cid = query (\<lambda>w. case find (\<lambda>e. en_tenant e = tenant \<and> en_corridor e = cid) (entitlements w) of
     None \<Rightarrow> False | Some e \<Rightarrow> en_active e)"

definition get_session :: "uuid \<Rightarrow> session run" where
  "get_session i = bindE (query (\<lambda>w. find (\<lambda>s. s_id s = i) (sessions w)))
     (\<lambda>r. case r of None \<Rightarrow> fail ErrSessionNotFound | Some s \<Rightarrow> ret s)"

definition insert_session :: "uuid \<Rightarrow> uuid \<Rightarrow> string \<Rightarrow> rat \<Rightarrow> string \<Rightarrow> string \<Rightarrow> raw_json \<Rightarrow> session run" where
  "insert_session tenant cid fiat amount asset network dest = stmt (case (numeric_36_18 amount, dest) of
       (Some a, RawJson j) \<Rightarrow> if a > 0 then bindE gen_uuid (\<lambda>i. bindE (gets (\<lambda>w. \<lparr>s_id = i, s_tenant = tenant, s_corridor = cid,
           s_status = ''screening'', s_fiat = fiat, s_fiat_amount = a, s_asset = asset, s_network = network, s_case = None,
           s_lock = None, s_reservation = None, s_sla = None, s_destination = j, s_instructions = None,
           s_created = now w, s_updated = now w\<rparr>)) (\<lambda>s.
         thenE (modify (\<lambda>w. w\<lparr>sessions := sessions w @ [s]\<rparr>)) (ret s)))
         else fail (ConstraintErr ''sessions'')
     | _ \<Rightarrow> fail (ConstraintErr ''sessions''))"

text \<open>
  \<open>UPDATE sessions SET .. WHERE id = $1 AND status = from RETURNING ..\<close>: without such a row the
  scan of the result fails.
\<close>

definition cas_session :: "uuid \<Rightarrow> string \<Rightarrow> (session \<Rightarrow> session) \<Rightarrow> session run" where
  "cas_session i from f = stmt (bindE (gets (\<lambda>w. find (\<lambda>s. s_id s = i \<and> s_status s = from) (sessions w))) (\<lambda>r. case r of
       None \<Rightarrow> fail ErrNoRows
     | Some s \<Rightarrow> bindE (gets now) (\<lambda>t. thenE (modify (\<lambda>w. w\<lparr>sessions := update_where (\<lambda>s. s_id s = i \<and> s_status s = from)
           (\<lambda>s. (f s)\<lparr>s_updated := t\<rparr>) (sessions w)\<rparr>)) (ret ((f s)\<lparr>s_updated := t\<rparr>)))))"

definition transition_to_hold :: "uuid \<Rightarrow> uuid \<Rightarrow> session run" where
  "transition_to_hold i c = cas_session i ''screening'' (\<lambda>s. s\<lparr>s_status := ''compliance_hold'', s_case := Some c\<rparr>)"

definition transition_to_rejected :: "uuid \<Rightarrow> string \<Rightarrow> session run" where
  "transition_to_rejected i from = cas_session i from (\<lambda>s. s\<lparr>s_status := ''rejected''\<rparr>)"

definition amount_precision :: "string \<Rightarrow> nat" where
  "amount_precision asset = (if asset = ''USDT'' \<or> asset = ''USDC'' then 6 else 8)"

definition instructions_for :: "session \<Rightarrow> lock \<Rightarrow> string \<Rightarrow> instructions \<Rightarrow> instructions" where
  "instructions_for cur l amount di =
     (let di = (if di_amount di = '''' then di\<lparr>di_amount := amount\<rparr> else di);
          expires = min (s_created cur + SessionTTL) (lk_expires l)
      in case di_expires di of
           None \<Rightarrow> di\<lparr>di_expires := Some expires\<rparr>
         | Some t \<Rightarrow> if expires < t then di\<lparr>di_expires := Some expires\<rparr> else di)"

text \<open>
  The transaction at the end of \<open>transitionToPending\<close>. The stored instructions do not carry the
  tenant, which their JSON form leaves out.
\<close>

definition commit_pending :: "uuid \<Rightarrow> uuid \<Rightarrow> uuid \<Rightarrow> string \<Rightarrow> uuid \<Rightarrow> instructions \<Rightarrow> session run" where
  "commit_pending i tenant cid from l di = atomically (thenE begin_tx
     (bindE (cas_session i from (\<lambda>s. s\<lparr>s_status := ''pending'', s_lock := Some l, s_reservation := Some (di_reservation di),
          s_instructions := Some (di\<lparr>di_tenant := uuid_nil\<rparr>)\<rparr>)) (\<lambda>s.
       thenE (publish_if_bus ''session.created'' ''session'' i [(''tenant_id'', PStr tenant), (''corridor_id'', PStr cid)])
         (thenE commit_tx (ret s)))))"

text \<open>A division by zero in the decimal library panics: the request ends there.\<close>

definition transition_to_pending :: "uuid \<Rightarrow> uuid \<Rightarrow> corridor \<Rightarrow> string \<Rightarrow> session run" where
  "transition_to_pending i tenant c from = bindE (get_session i) (\<lambda>cur.
     bindE (lock_rate (co_asset c) (co_fiat c) DefaultLockTTL) (\<lambda>l.
       thenE (guardE (lk_rate l \<noteq> 0 \<and> lk_price l \<noteq> 0) (OtherErr ''decimal division by 0''))
         (bindE (gets env) (\<lambda>e.
           let amount = x_round_up e (amount_precision (co_asset c)) (fiat_to_crypto (x_div e) l (s_fiat_amount cur)) in
           bindE (get_deposit_instructions tenant (co_id c) (Some amount)) (\<lambda>di.
             commit_pending i tenant (co_id c) from (lk_id l) (instructions_for cur l (x_dec_text e amount) di))))))"

definition create_session :: "uuid \<Rightarrow> string \<Rightarrow> string \<Rightarrow> string \<Rightarrow> rat \<Rightarrow> raw_json \<Rightarrow> session run" where
  "create_session tenant asset network fiat amount dest =
     bindE (onErr (get_corridor asset network fiat) (\<lambda>e. if e = ErrCorridorNotFound then fail ErrCorridorNotSupported else fail e)) (\<lambda>c.
       if validate_destination c dest \<noteq> None then fail ErrInvalidDestination
       else let dest = (if dest = RawNil then RawJson (JObj []) else dest) in
       bindE (check_entitlement tenant (co_id c)) (\<lambda>entitled.
         if \<not> entitled then fail ErrNotEntitled
         else bindE (insert_session tenant (co_id c) fiat amount asset network dest) (\<lambda>s.
           bindE (list_active_providers (co_id c) ProviderTypeCompliance) (\<lambda>bs.
             let name = (case bs of [] \<Rightarrow> '''' | b # _ \<Rightarrow> pb_name b) in
             bindE (screen_session (s_id s) tenant amount (co_threshold c) (co_window c) (co_hold c) name) (\<lambda>cc.
               if cc_status cc = StatusHold then transition_to_hold (s_id s) (cc_id cc)
               else if cc_status cc = StatusRejected then transition_to_rejected (s_id s) ''screening''
               else if cc_status cc = StatusApproved then transition_to_pending (s_id s) tenant c ''screening''
               else fail (OtherErr ''session: unexpected compliance status''))))))"

definition list_sessions_by_tenant :: "uuid \<Rightarrow> int \<Rightarrow> int \<Rightarrow> (session list \<times> nat) run" where
  "list_sessions_by_tenant tenant limit offset = bindE (query (\<lambda>w. count_where (\<lambda>s. s_tenant s = tenant) (sessions w))) (\<lambda>total.
     bindE (query (\<lambda>w. page limit offset (sort_key (\<lambda>s. - s_created s) (filter (\<lambda>s. s_tenant s = tenant) (sessions w)))))
       (\<lambda>rows. ret (rows, total)))"

definition resolve_compliance_hold :: "uuid \<Rightarrow> uuid \<Rightarrow> bool \<Rightarrow> string \<Rightarrow> session run" where
  "resolve_compliance_hold i admin approved reason = bindE (get_session i) (\<lambda>s.
     case s_case s of
       None \<Rightarrow> fail ErrNotInComplianceHold
     | Some c \<Rightarrow> if s_status s \<noteq> ''compliance_hold'' then fail ErrNotInComplianceHold
         else thenE (resolve_hold c admin approved reason)
           (if \<not> approved then transition_to_rejected i ''compliance_hold''
            else bindE (get_corridor_by_id (s_corridor s)) (\<lambda>corr.
              transition_to_pending i (s_tenant s) corr ''compliance_hold'')))"

definition cas_transition :: "uuid \<Rightarrow> string \<Rightarrow> string \<Rightarrow> session run" where
  "cas_transition i from to = cas_session i from (\<lambda>s. s\<lparr>s_status := to\<rparr>)"

definition transition_to_settling :: "uuid \<Rightarrow> session run" where
  "transition_to_settling i = cas_transition i ''deposit_confirmed'' ''settling''"

definition retry_to_settling :: "uuid \<Rightarrow> string \<Rightarrow> session run" where
  "retry_to_settling i from = cas_transition i from ''settling''"

definition transition_to_settled :: "uuid \<Rightarrow> session run" where
  "transition_to_settled i = cas_transition i ''settling'' ''settled''"

definition transition_to_settlement_failed :: "uuid \<Rightarrow> session run" where
  "transition_to_settlement_failed i = cas_transition i ''settling'' ''settlement_failed''"

definition transition_to_reversed :: "uuid \<Rightarrow> session run" where
  "transition_to_reversed i = cas_transition i ''settled'' ''reversed''"

definition transition_to_reversal_resolved :: "uuid \<Rightarrow> session run" where
  "transition_to_reversal_resolved i = cas_transition i ''reversed'' ''reversal_resolved''"

section \<open>Handlers of the treasury's events\<close>

text \<open>The statement updates every matching row; the code scans the first that comes back.\<close>

definition transition_by_reservation :: "uuid \<Rightarrow> string \<Rightarrow> string \<Rightarrow> string \<Rightarrow> unit run" where
  "transition_by_reservation rid from to ty =
     (let hit = (\<lambda>s. s_reservation s = Some rid \<and> (s_status s = from \<or> to = ''deposit_confirmed'' \<and> s_status s = ''pending'')) in
      bindE (stmt (bindE (gets (\<lambda>w. find hit (sessions w))) (\<lambda>r. bindE (gets now) (\<lambda>t.
          thenE (modify (\<lambda>w. w\<lparr>sessions := update_where hit (\<lambda>s. s\<lparr>s_status := to, s_updated := t\<rparr>) (sessions w)\<rparr>)) (ret r)))))
        (\<lambda>r. case r of None \<Rightarrow> ret ()
         | Some s \<Rightarrow> publish_if_bus ty ''session'' (s_id s) [(''reservation_id'', PStr rid), (''tenant_id'', PStr (s_tenant s))]))"

definition handle_deposit_detected :: "event \<Rightarrow> unit run" where
  "handle_deposit_detected e = transition_by_reservation (ev_agg_id e) ''pending'' ''deposit_detected'' ''session.deposit_detected''"

definition handle_deposit_confirmed :: "event \<Rightarrow> unit run" where
  "handle_deposit_confirmed e = transition_by_reservation (ev_agg_id e) ''deposit_detected'' ''deposit_confirmed'' ''session.deposit_confirmed''"

section \<open>The TTL job\<close>

definition past_due :: "time \<Rightarrow> session \<Rightarrow> bool" where
  "past_due t s \<longleftrightarrow> s_created s < t - SessionTTL \<or>
     (case s_instructions s of None \<Rightarrow> False | Some di \<Rightarrow> (case di_expires di of None \<Rightarrow> False | Some x \<Rightarrow> x < t))"

definition expire_pre_deposit :: "unit run" where
  "expire_pre_deposit = exec (\<lambda>w. w\<lparr>sessions := update_where
     (\<lambda>s. s_status s \<in> {''screening'', ''pending''} \<and> past_due (now w) s)
     (\<lambda>s. s\<lparr>s_status := ''expired'', s_updated := now w\<rparr>) (sessions w)\<rparr>)"

definition hold_over :: "world \<Rightarrow> session \<Rightarrow> bool" where
  "hold_over w s \<longleftrightarrow> list_ex (\<lambda>c. s_case s = Some (cc_id c) \<and>
     (case cc_hold_expires c of None \<Rightarrow> False | Some t \<Rightarrow> t < now w)) (cases w)"

definition expire_timed_out_holds :: "unit run" where
  "expire_timed_out_holds = exec (\<lambda>w. w\<lparr>sessions := update_where
     (\<lambda>s. s_status s = ''compliance_hold'' \<and> hold_over w s)
     (\<lambda>s. s\<lparr>s_status := ''expired'', s_updated := now w\<rparr>) (sessions w)\<rparr>)"

definition sla_due :: "time \<Rightarrow> session \<Rightarrow> bool" where
  "sla_due t s \<longleftrightarrow> s_sla s = None \<and> s_status s \<notin> {''settled'', ''expired'', ''rejected''} \<and> s_created s < t - SessionTTL"

definition mark_sla_breaches :: "unit run" where
  "mark_sla_breaches = atomically (thenE begin_tx
     (bindE (stmt (bindE (gets (\<lambda>w. filter (sla_due (now w)) (sessions w))) (\<lambda>breached.
          thenE (modify (\<lambda>w. w\<lparr>sessions := update_where (sla_due (now w)) (\<lambda>s. s\<lparr>s_sla := Some (now w)\<rparr>) (sessions w)\<rparr>))
            (ret breached))))
       (\<lambda>breached. thenE (forE breached (\<lambda>s.
            publish_if_bus ''session.sla_breached'' ''session'' (s_id s) [(''tenant_id'', PStr (s_tenant s))]))
          commit_tx)))"

definition ttl_sweep :: "unit run" where
  "ttl_sweep = thenE expire_pre_deposit (thenE expire_timed_out_holds mark_sla_breaches)"

section \<open>The state machine\<close>

text \<open>
  The transitions of section 9 of \<^verbatim>\<open>docs/ARCHITECTURE.md\<close>, with the two the code has beyond its
  list: a confirmation that arrives without a detection, and the retry of a session that is still
  settling.
\<close>

definition session_edges :: "(string \<times> string) list" where
  "session_edges =
     [(''screening'', ''compliance_hold''), (''screening'', ''rejected''), (''screening'', ''pending''), (''screening'', ''expired''),
      (''compliance_hold'', ''pending''), (''compliance_hold'', ''rejected''), (''compliance_hold'', ''expired''),
      (''pending'', ''deposit_detected''), (''pending'', ''deposit_confirmed''), (''pending'', ''expired''),
      (''deposit_detected'', ''deposit_confirmed''), (''deposit_confirmed'', ''settling''),
      (''settling'', ''settling''), (''settling'', ''settled''), (''settling'', ''settlement_failed''),
      (''settlement_failed'', ''settling''), (''settled'', ''reversed''), (''reversed'', ''reversal_resolved'')]"

text \<open>A row at a later time: the terms never change, the status moves along edges.\<close>

definition same_terms :: "session \<Rightarrow> session \<Rightarrow> bool" where
  "same_terms s s' \<longleftrightarrow> s_id s' = s_id s \<and> s_tenant s' = s_tenant s \<and> s_corridor s' = s_corridor s \<and> s_fiat s' = s_fiat s \<and>
     s_fiat_amount s' = s_fiat_amount s \<and> s_asset s' = s_asset s \<and> s_network s' = s_network s \<and>
     s_destination s' = s_destination s \<and> s_created s' = s_created s"

definition advances :: "session \<Rightarrow> session \<Rightarrow> bool" where
  "advances s s' \<longleftrightarrow> same_terms s s' \<and> (s_status s, s_status s') \<in> (set session_edges)\<^sup>*"

definition sessions_advance :: "session list \<Rightarrow> session list \<Rightarrow> bool" where
  "sessions_advance ss ss' \<longleftrightarrow> length ss \<le> length ss' \<and> list_all2 advances ss (take (length ss) ss')"

lemma advances_refl [simp]: "advances s s"
  by (simp add: advances_def same_terms_def)

lemma advances_trans: "advances s t \<Longrightarrow> advances t u \<Longrightarrow> advances s u"
  by (auto simp: advances_def same_terms_def)

lemma sessions_advance_nth:
  "sessions_advance ss ss' \<longleftrightarrow> length ss \<le> length ss' \<and> (\<forall>i < length ss. advances (ss ! i) (ss' ! i))"
  by (auto simp: sessions_advance_def list_all2_conv_all_nth)

lemma sessions_advance_refl [simp]: "sessions_advance ss ss"
  by (simp add: sessions_advance_nth)

lemma sessions_advance_trans: "sessions_advance ss ts \<Longrightarrow> sessions_advance ts us \<Longrightarrow> sessions_advance ss us"
  by (auto simp: sessions_advance_nth intro: advances_trans [OF _ ])

lemma sessions_advance_append: "sessions_advance ss (ss @ new)"
  by (simp add: sessions_advance_nth nth_append)

lemma sessions_advance_update: "(\<And>s. c s \<Longrightarrow> advances s (f s)) \<Longrightarrow> sessions_advance ss (update_where c f ss)"
  by (simp add: sessions_advance_nth update_where_def)

lemma advance_appendI: "sessions_advance ss ts \<Longrightarrow> sessions_advance ss (ts @ new)"
  using sessions_advance_trans sessions_advance_append by blast

lemma advance_updateI: "sessions_advance ss ts \<Longrightarrow> (\<And>s. c s \<Longrightarrow> advances s (f s)) \<Longrightarrow> sessions_advance ss (update_where c f ts)"
  using sessions_advance_trans sessions_advance_update by blast

lemma db_view_advance [simp]: "db_view (\<lambda>w. sessions_advance ss (sessions w))"
  by (simp add: db_view_def)

lemma db_mono_advance [simp]: "db_mono (\<lambda>w. sessions_advance ss (sessions w))"
  by (simp add: db_view_mono)

lemma moves_frame: "frame sessions m \<Longrightarrow> keeps (\<lambda>w. sessions_advance ss (sessions w)) m"
  by (rule keeps_frame)

lemma moves_cas:
  assumes "\<And>s t. s_status s = from \<Longrightarrow> advances s ((f s)\<lparr>s_updated := t\<rparr>)"
  shows "keeps (\<lambda>w. sessions_advance ss (sessions w)) (cas_session i from f)"
  unfolding cas_session_def
  by (intro keeps_rules) (auto intro!: advance_updateI assms)

lemma advancesI: "same_terms s s' \<Longrightarrow> (s_status s, s_status s') \<in> set session_edges \<Longrightarrow> advances s s'"
  by (auto simp: advances_def)

lemma moves_cas_transition: "(from, to) \<in> set session_edges \<Longrightarrow> keeps (\<lambda>w. sessions_advance ss (sessions w)) (cas_transition i from to)"
  unfolding cas_transition_def by (rule moves_cas) (auto intro!: advancesI simp: same_terms_def)

lemma frame_screen_session: "frame sessions (screen_session sid tenant amount th window tmo name)"
  by (auto simp: screen_session_def travel_rule_threshold_exceeded_def screen_with_def create_case_def insert_case_def
      publish_if_hold_def decide_def intro!: frame_rules split: raw_json.split)

lemma frame_lock_rate: "frame sessions (lock_rate asset fiat ttl)"
  by (auto simp: lock_rate_def get_current_rate_def get_asset_price_def fetch_asset_price_def cache_set_def persist_lock_def Let_def
      intro!: frame_rules)

lemma frame_persist_reservation: "hd_frame f \<Longrightarrow> (\<And>w rs. f (w\<lparr>reservations := rs\<rparr>) = f w) \<Longrightarrow> frame f (persist_reservation tenant cid name asset network addr)"
  unfolding persist_reservation_def Let_def by (intro frame_rules) (auto simp: hd_frame_view)

lemma frame_reserve_from: "hd_frame f \<Longrightarrow> (\<And>w rs. f (w\<lparr>reservations := rs\<rparr>) = f w) \<Longrightarrow> frame f (reserve_from tenant c amount bs)"
  by (induction bs) (auto intro!: frame_rules frame_provider_reserve frame_persist_reservation)

lemma frame_instructions: "hd_frame f \<Longrightarrow> (\<And>w rs. f (w\<lparr>reservations := rs\<rparr>) = f w) \<Longrightarrow> frame f (get_deposit_instructions tenant cid amount)"
  unfolding get_deposit_instructions_def reserve_address_def get_corridor_by_id_def list_active_providers_def
  by (intro frame_rules frame_reserve_from) (auto simp: hd_frame_view)

lemma frame_resolve_hold: "frame sessions (resolve_hold i admin ok reason)"
  by (auto simp: resolve_hold_def Let_def intro!: frame_rules)

lemma frame_readers:
  "frame sessions (get_session i)" "frame sessions (get_corridor a n f)" "frame sessions (get_corridor_by_id c)"
  "frame sessions (check_entitlement t c)" "frame sessions (list_active_providers c ty)" "frame sessions (publish_if_bus ty ag i pl)"
  by (auto simp: get_session_def get_corridor_def get_corridor_by_id_def check_entitlement_def list_active_providers_def intro!: frame_rules)

lemmas frame_sessions = frame_screen_session frame_lock_rate frame_instructions [where f = sessions, simplified] frame_resolve_hold frame_readers

lemmas moves_frames = frame_sessions [THEN moves_frame] frame_gets [THEN moves_frame]

lemma moves_pending:
  "from \<in> {''screening'', ''compliance_hold''} \<Longrightarrow> keeps (\<lambda>w. sessions_advance ss (sessions w)) (transition_to_pending i tenant c from)"
  unfolding transition_to_pending_def commit_pending_def Let_def
  by (intro keeps_rules db_mono_advance moves_frames moves_cas)
    (auto intro!: advancesI simp: same_terms_def session_edges_def)

lemma moves_insert: "keeps (\<lambda>w. sessions_advance ss (sessions w)) (insert_session tenant cid fiat amount asset network dest)"
proof (cases "numeric_36_18 amount"; cases dest)
  fix a j assume "numeric_36_18 amount = Some a" "dest = RawJson j"
  then show ?thesis
    by (auto simp: insert_session_def intro!: keeps_rules advance_appendI)
qed (simp_all add: insert_session_def keeps_rules)

lemma moves_create: "keeps (\<lambda>w. sessions_advance ss (sessions w)) (create_session tenant asset network fiat amount dest)"
  unfolding create_session_def transition_to_hold_def transition_to_rejected_def Let_def
  by (intro keeps_rules db_mono_advance moves_frames moves_cas moves_pending moves_insert)
    (auto intro!: advancesI simp: same_terms_def session_edges_def)

lemma moves_resolve: "keeps (\<lambda>w. sessions_advance ss (sessions w)) (resolve_compliance_hold i admin approved reason)"
  unfolding resolve_compliance_hold_def transition_to_rejected_def
  by (intro keeps_rules db_mono_advance moves_frames moves_cas moves_pending)
    (auto intro!: advancesI simp: same_terms_def session_edges_def)

lemma moves_by_reservation:
  "(from, to) \<in> set session_edges \<Longrightarrow> (to = ''deposit_confirmed'' \<longrightarrow> (''pending'', to) \<in> set session_edges) \<Longrightarrow>
   keeps (\<lambda>w. sessions_advance ss (sessions w)) (transition_by_reservation rid from to ty)"
  unfolding transition_by_reservation_def Let_def
  by (intro keeps_rules db_mono_advance moves_frames)
    (auto intro!: advancesI advance_updateI simp: same_terms_def)

lemma moves_ttl: "keeps (\<lambda>w. sessions_advance ss (sessions w)) ttl_sweep"
  unfolding ttl_sweep_def expire_pre_deposit_def expire_timed_out_holds_def mark_sla_breaches_def
  by (intro keeps_rules db_mono_advance moves_frames)
    (auto intro!: advance_updateI simp: same_terms_def session_edges_def advances_def)

section \<open>Commands\<close>

text \<open>
  What can happen to sessions: requests of tenants and officers, events of the treasury, the TTL
  job, the transitions that settlement asks for, and, between them, commands of the treasury,
  resolutions of other cases, and time passing.
\<close>

datatype session_cmd =
    SCreate uuid string string string rat raw_json
  | SResolve uuid uuid bool string
  | SDetected event
  | SConfirmed event
  | STtl
  | SSettling uuid
  | SRetry uuid bool
  | SSettled uuid
  | SFailed uuid
  | SReversed uuid
  | SReversalResolved uuid
  | STreasury treasury_cmd
  | SCase uuid uuid bool string
  | STick time

definition quiet :: "'a run \<Rightarrow> unit run" where
  "quiet m = thenE m (ret ())"

fun session_step :: "session_cmd \<Rightarrow> unit run" where
  "session_step (SCreate tenant asset network fiat amount dest) = quiet (create_session tenant asset network fiat amount dest)"
| "session_step (SResolve i admin ok reason) = quiet (resolve_compliance_hold i admin ok reason)"
| "session_step (SDetected e) = handle_deposit_detected e"
| "session_step (SConfirmed e) = handle_deposit_confirmed e"
| "session_step STtl = ttl_sweep"
| "session_step (SSettling i) = quiet (transition_to_settling i)"
| "session_step (SRetry i failed) = quiet (retry_to_settling i (if failed then ''settlement_failed'' else ''settling''))"
| "session_step (SSettled i) = quiet (transition_to_settled i)"
| "session_step (SFailed i) = quiet (transition_to_settlement_failed i)"
| "session_step (SReversed i) = quiet (transition_to_reversed i)"
| "session_step (SReversalResolved i) = quiet (transition_to_reversal_resolved i)"
| "session_step (STreasury cmd) = treasury_step cmd"
| "session_step (SCase i admin ok reason) = quiet (resolve_hold i admin ok reason)"
| "session_step (STick t) = modify (\<lambda>w. w\<lparr>now := max (now w) t\<rparr>)"

text \<open>A command that fails does not stop the next.\<close>

definition run_sessions :: "session_cmd list \<Rightarrow> world \<Rightarrow> world" where
  "run_sessions cmds w = fold (\<lambda>cmd w. snd (session_step cmd w)) cmds w"

lemma run_sessions_simps [simp]: "run_sessions [] w = w" "run_sessions (c # cs) w = run_sessions cs (snd (session_step c w))"
  by (simp_all add: run_sessions_def)

lemma run_keeps: "(\<And>cmd. keeps P (session_step cmd)) \<Longrightarrow> P w \<Longrightarrow> P (run_sessions cmds w)"
  by (induction cmds arbitrary: w) (auto intro: keepsD)

lemma keeps_quiet [keeps_rules]: "keeps P m \<Longrightarrow> keeps P (quiet m)"
  unfolding quiet_def by (intro keeps_rules)

lemma frame_sessions_treasury: "frame sessions (treasury_step cmd)"
proof -
  have rec: "frame sessions (record_deposit_transition rid st amount tx raw)" for rid st amount tx raw
    by (auto simp: record_deposit_transition_def insert_deposit_if_absent_def confirm_deposit_def Let_def intro!: frame_rules)
  then have hook: "frame sessions (handle_deposit_webhook body sig)" for body sig
    by (auto simp: handle_deposit_webhook_def find_reservation_by_reference_def get_reservation_def intro!: frame_rules)
  show ?thesis
    by (cases cmd)
      (auto simp: hook rec frame_instructions release_reservation_def confirm_due_sandbox_deposits_def Let_def
        register_tenant_custom_wallet_def record_custody_balance_def initialize_hd_wallet_seed_def load_hd_wallet_seed_def
        intro!: frame_rules)
qed

lemma moves_step: "keeps (\<lambda>w. sessions_advance ss (sessions w)) (session_step cmd)"
proof (cases cmd)
  case (STick t)
  then show ?thesis by (auto intro!: keeps_rules)
next
  case (SRetry i failed)
  then show ?thesis
    by (auto simp: retry_to_settling_def intro!: keeps_quiet moves_cas_transition) (simp_all add: session_edges_def)
next
  case (STreasury x)
  then show ?thesis by (simp add: moves_frame frame_sessions_treasury)
next
  case (SCase i admin ok reason)
  then show ?thesis by (simp add: keeps_quiet moves_frame frame_resolve_hold)
qed (simp_all add: handle_deposit_detected_def handle_deposit_confirmed_def transition_to_settling_def transition_to_settled_def
    transition_to_settlement_failed_def transition_to_reversed_def transition_to_reversal_resolved_def
    keeps_quiet moves_create moves_resolve moves_ttl moves_cas_transition moves_by_reservation session_edges_def)

text \<open>A set of statuses that no edge leaves is never left.\<close>

lemma closed_statuses:
  assumes "(a, b) \<in> (set session_edges)\<^sup>*" and "a \<in> S" and "list_all (\<lambda>(x, y). x \<in> S \<longrightarrow> y \<in> S) session_edges"
  shows "b \<in> S"
  using assms by (induction rule: rtrancl_induct) (auto simp: list_all_iff)

section \<open>Approval and reservation\<close>

text \<open>
  The invariant of the sessions: a session past its screening has a reservation, a reservation
  belongs to the tenant and the corridor of its session and to no other session, and only an
  approved session has one; a held session has its case.
\<close>

definition reserved_keys :: "world \<Rightarrow> (uuid \<times> uuid \<times> uuid) set" where
  "reserved_keys w = set (map (\<lambda>r. (rv_id r, rv_tenant r, rv_corridor r)) (reservations w))"

definition approved_refs :: "world \<Rightarrow> uuid set" where
  "approved_refs w = set (map cc_ref_id (filter (\<lambda>c. cc_ref_type c = ''session'' \<and> cc_status c = StatusApproved) (cases w)))"

definition case_refs :: "world \<Rightarrow> (uuid \<times> uuid) set" where
  "case_refs w = set (map (\<lambda>c. (cc_id c, cc_ref_id c)) (filter (\<lambda>c. cc_ref_type c = ''session'') (cases w)))"

definition closed_early :: "string set" where
  "closed_early = {''screening'', ''compliance_hold'', ''rejected'', ''expired''}"

definition row_ok :: "(uuid \<times> uuid \<times> uuid) set \<Rightarrow> uuid set \<Rightarrow> (uuid \<times> uuid) set \<Rightarrow> session \<Rightarrow> bool" where
  "row_ok R A K s \<longleftrightarrow> (s_status s \<in> closed_early \<or> s_reservation s \<noteq> None) \<and>
     (\<forall>i. s_reservation s = Some i \<longrightarrow> (i, s_tenant s, s_corridor s) \<in> R \<and> s_id s \<in> A) \<and>
     (s_status s = ''compliance_hold'' \<longrightarrow> (\<exists>c. s_case s = Some c \<and> (c, s_id s) \<in> K))"

definition used_reservations :: "session list \<Rightarrow> uuid list" where
  "used_reservations ss = concat (map (\<lambda>s. case s_reservation s of None \<Rightarrow> [] | Some i \<Rightarrow> [i]) ss)"

definition session_inv :: "world \<Rightarrow> bool" where
  "session_inv w \<longleftrightarrow> ids_fresh (map s_id (sessions w)) w \<and> ids_fresh (map rv_id (reservations w)) w \<and>
     ids_fresh (map cc_id (cases w)) w \<and> distinct (used_reservations (sessions w)) \<and>
     (\<forall>s \<in> set (sessions w). row_ok (reserved_keys w) (approved_refs w) (case_refs w) s)"

lemma used_simps [simp]: "used_reservations [] = []"
  "used_reservations (s # ss) = (case s_reservation s of None \<Rightarrow> [] | Some i \<Rightarrow> [i]) @ used_reservations ss"
  "used_reservations (ss @ ts) = used_reservations ss @ used_reservations ts"
  by (simp_all add: used_reservations_def)

lemma set_used: "i \<in> set (used_reservations ss) \<longleftrightarrow> (\<exists>s \<in> set ss. s_reservation s = Some i)"
  by (induction ss) (auto split: option.splits)

lemma row_ok_mono: "row_ok R A K s \<Longrightarrow> R \<subseteq> R' \<Longrightarrow> A \<subseteq> A' \<Longrightarrow> K \<subseteq> K' \<Longrightarrow> row_ok R' A' K' s"
  by (fastforce simp: row_ok_def)

lemma session_inv_grow:
  assumes "session_inv w" and "sessions w' = sessions w" and "uuid_src w' = uuid_src w" and "uuid_next w \<le> uuid_next w'"
    and "ids_fresh (map rv_id (reservations w')) w'" and "ids_fresh (map cc_id (cases w')) w'"
    and "reserved_keys w \<subseteq> reserved_keys w'" and "approved_refs w \<subseteq> approved_refs w'" and "case_refs w \<subseteq> case_refs w'"
  shows "session_inv w'"
proof -
  have "ids_fresh (map s_id (sessions w')) w'"
    using assms by (auto simp: session_inv_def intro: ids_fresh_mono)
  moreover have "\<forall>s \<in> set (sessions w'). row_ok (reserved_keys w') (approved_refs w') (case_refs w') s"
    using assms by (auto simp: session_inv_def intro: row_ok_mono)
  ultimately show ?thesis
    using assms by (simp add: session_inv_def)
qed

lemma session_inv_cong:
  assumes "sessions w' = sessions w" "reservations w' = reservations w" "cases w' = cases w" "uuid_src w' = uuid_src w"
    "uuid_next w' = uuid_next w"
  shows "session_inv w' = session_inv w"
  using assms by (simp add: session_inv_def ids_fresh_def reserved_keys_def approved_refs_def case_refs_def)

lemma session_inv_simps [simp]:
  "session_inv (w\<lparr>faults := bs\<rparr>) = session_inv w" "session_inv (w\<lparr>locks := l\<rparr>) = session_inv w"
  "session_inv (w\<lparr>price_cache := p\<rparr>) = session_inv w" "session_inv (w\<lparr>ext_log := l'\<rparr>) = session_inv w"
  "session_inv (w\<lparr>outbox := es\<rparr>) = session_inv w" "session_inv (w\<lparr>hd_counter := x\<rparr>) = session_inv w"
  "session_inv (w\<lparr>hd_accounts := y\<rparr>) = session_inv w" "session_inv (w\<lparr>hd_indices := z\<rparr>) = session_inv w"
  "session_inv (w\<lparr>derived := d\<rparr>) = session_inv w" "session_inv (w\<lparr>deposits := ds\<rparr>) = session_inv w"
  "session_inv (w\<lparr>custody_balances := cb\<rparr>) = session_inv w" "session_inv (w\<lparr>custom_wallets := cw\<rparr>) = session_inv w"
  "session_inv (w\<lparr>seed_row := sr\<rparr>) = session_inv w" "session_inv (w\<lparr>seed := sd\<rparr>) = session_inv w"
  "session_inv (w\<lparr>now := t\<rparr>) = session_inv w"
  by (rule session_inv_cong, simp_all)+

lemma db_mono_session_inv [simp]: "db_mono session_inv"
  unfolding db_mono_def
proof (intro allI impI conjI)
  fix w :: world and bs n assume inv: "session_inv w" and le: "uuid_next w \<le> n"
  then show "session_inv (w\<lparr>uuid_next := n\<rparr>)"
    by (intro session_inv_grow [OF inv]) (auto simp: reserved_keys_def approved_refs_def case_refs_def session_inv_def intro: ids_fresh_mono)
qed simp

text \<open>Operations on other tables, and the inserts of reservations and cases.\<close>

lemma inv_lock_rate: "keeps session_inv (lock_rate asset fiat ttl)"
  unfolding lock_rate_def get_current_rate_def get_asset_price_def fetch_asset_price_def cache_set_def persist_lock_def Let_def
  by (intro keeps_rules db_mono_session_inv) (auto intro!: keeps_rules)

lemma inv_get_account: "keeps session_inv (get_or_allocate_tenant_account n tenant)"
  by (induction n) (auto simp: next_account_def insert_hd_account_def intro!: keeps_rules split: err.split)

lemma inv_allocate: "keeps session_inv (allocate_or_reuse_address tenant chain)"
  by (auto simp: allocate_or_reuse_address_def find_free_derived_address_def allocate_next_index_def
      insert_derived_address_def Let_def intro!: keeps_rules inv_get_account)

lemma inv_provider_reserve: "keeps session_inv (provider_reserve name tenant asset network amount)"
  unfolding provider_reserve_def busha_reserve_deposit_def self_custody_reserve_def tenant_wallet_reserve_def
    get_tenant_custom_wallet_def sandbox_reserve_def Let_def
  by (intro keeps_rules db_mono_session_inv inv_allocate) simp_all

lemma inv_append_reservation:
  assumes "session_inv w" and "rv_id r = uuid_src w (uuid_next w)"
  shows "session_inv (w\<lparr>faults := bs, uuid_next := Suc (uuid_next w), reservations := reservations w @ [r]\<rparr>)"
  using assms
  by (intro session_inv_grow [OF assms(1)])
    (auto simp: session_inv_def reserved_keys_def approved_refs_def case_refs_def intro: ids_fresh_append ids_fresh_mono)

lemma inv_persist: "keeps session_inv (persist_reservation tenant cid name asset network addr)"
  unfolding persist_reservation_def Let_def
  by (rule keeps_wp, intro wp_rules) (auto intro: inv_append_reservation)

lemma inv_reserve_from: "keeps session_inv (reserve_from tenant c amount bs)"
  by (induction bs) (auto intro!: keeps_rules inv_provider_reserve inv_persist)

lemma inv_instructions: "keeps session_inv (get_deposit_instructions tenant cid amount)"
  unfolding get_deposit_instructions_def reserve_address_def get_corridor_by_id_def list_active_providers_def
  by (intro keeps_rules db_mono_session_inv inv_reserve_from)

lemma inv_append_case:
  assumes "session_inv w" and "cc_id c = uuid_src w (uuid_next w)"
  shows "session_inv (w\<lparr>faults := bs, uuid_next := Suc (uuid_next w), cases := cases w @ [c]\<rparr>)"
  using assms
  by (intro session_inv_grow [OF assms(1)])
    (auto simp: session_inv_def reserved_keys_def approved_refs_def case_refs_def intro: ids_fresh_append ids_fresh_mono)

lemma inv_create_case: "keeps session_inv (create_case tenant ty rty rid status name reason data hold resolved cur)"
proof (cases data)
  case (RawJson j)
  have "keeps session_inv (insert_case ty rty rid status name reason data hold resolved cur)"
    unfolding insert_case_def RawJson
    by (rule keeps_wp, simp, intro wp_rules)
      (auto intro: inv_append_case)
  then show ?thesis
    unfolding create_case_def publish_if_hold_def
    by (intro keeps_rules db_mono_session_inv) simp_all
qed (auto simp: create_case_def insert_case_def publish_if_hold_def intro!: keeps_rules)

lemma inv_screen_session: "keeps session_inv (screen_session sid tenant amount th window tmo name)"
  unfolding screen_session_def travel_rule_threshold_exceeded_def screen_with_def decide_def Let_def
  by (intro keeps_rules db_mono_session_inv inv_create_case) (auto intro!: keeps_rules)

text \<open>Resolving a hold keeps the cases and may approve one.\<close>

lemma inv_resolve_hold: "keeps session_inv (resolve_hold i admin ok reason)"
proof -
  have "session_inv (w\<lparr>cases := update_where (\<lambda>c. cc_id c = i \<and> cc_status c = StatusHold) (resolve_case st r a t) (cases w)\<rparr>)"
    if inv: "session_inv w" and st: "st \<noteq> StatusHold" for w st r a t
  proof (rule session_inv_grow [OF inv])
    let ?u = "update_where (\<lambda>c. cc_id c = i \<and> cc_status c = StatusHold) (resolve_case st r a t) (cases w)"
    have same: "map cc_id ?u = map cc_id (cases w)"
      by (rule map_update_where) simp
    then show "ids_fresh (map cc_id (cases (w\<lparr>cases := ?u\<rparr>))) (w\<lparr>cases := ?u\<rparr>)"
      using inv by (auto simp: session_inv_def ids_fresh_def)
    have kept: "\<exists>c' \<in> set ?u. cc_id c' = cc_id c \<and> cc_ref_type c' = cc_ref_type c \<and> cc_ref_id c' = cc_ref_id c \<and>
        (cc_status c \<noteq> StatusHold \<longrightarrow> cc_status c' = cc_status c)" if "c \<in> set (cases w)" for c
    proof (cases "cc_id c = i \<and> cc_status c = StatusHold")
      case True
      with that have "resolve_case st r a t c \<in> set ?u" by (auto simp: set_update_where)
      with True show ?thesis by (intro bexI) (auto simp: resolve_case_def)
    next
      case False
      with that have "c \<in> set ?u" by (auto simp: set_update_where)
      then show ?thesis by blast
    qed
    show "approved_refs w \<subseteq> approved_refs (w\<lparr>cases := ?u\<rparr>)"
    proof
      fix x assume "x \<in> approved_refs w"
      then obtain c where "c \<in> set (cases w)" "cc_ref_type c = ''session''" "cc_status c = StatusApproved" "x = cc_ref_id c"
        by (auto simp: approved_refs_def)
      with kept [of c] show "x \<in> approved_refs (w\<lparr>cases := ?u\<rparr>)"
        by (force simp: approved_refs_def image_iff)
    qed
    show "case_refs w \<subseteq> case_refs (w\<lparr>cases := ?u\<rparr>)"
    proof
      fix x assume "x \<in> case_refs w"
      then obtain c where "c \<in> set (cases w)" "cc_ref_type c = ''session''" "x = (cc_id c, cc_ref_id c)"
        by (auto simp: case_refs_def)
      with kept [of c] show "x \<in> case_refs (w\<lparr>cases := ?u\<rparr>)"
        by (force simp: case_refs_def image_iff)
    qed
  qed (use inv in \<open>auto simp: session_inv_def reserved_keys_def intro: ids_fresh_mono\<close>)
  then show ?thesis
    unfolding resolve_hold_def Let_def
    by (intro keeps_rules db_mono_session_inv) auto
qed

text \<open>Updates of session rows.\<close>

lemma used_update_same:
  "(\<And>s. c s \<Longrightarrow> s_reservation (f s) = s_reservation s) \<Longrightarrow> used_reservations (update_where c f ss) = used_reservations ss"
  by (induction ss) auto

lemma session_inv_update:
  assumes "session_inv w"
    and "\<And>s. c s \<Longrightarrow> s_id (f s) = s_id s \<and> s_reservation (f s) = s_reservation s"
    and "\<And>s. c s \<Longrightarrow> s \<in> set (sessions w) \<Longrightarrow> row_ok (reserved_keys w) (approved_refs w) (case_refs w) s \<Longrightarrow>
      row_ok (reserved_keys w) (approved_refs w) (case_refs w) (f s)"
  shows "session_inv (w\<lparr>sessions := update_where c f (sessions w)\<rparr>)"
proof -
  let ?w = "w\<lparr>sessions := update_where c f (sessions w)\<rparr>"
  have keys: "reserved_keys ?w = reserved_keys w" "approved_refs ?w = approved_refs w" "case_refs ?w = case_refs w"
    by (simp_all add: reserved_keys_def approved_refs_def case_refs_def)
  have "map s_id (sessions ?w) = map s_id (sessions w)"
    using assms(2) by (simp add: map_update_where)
  then show ?thesis
    using assms by (auto simp: session_inv_def keys ids_fresh_def used_update_same set_update_where)
qed

lemma session_inv_insert:
  assumes "session_inv w" and "s_id s = uuid_src w (uuid_next w)" and "s_status s = ''screening''" and "s_reservation s = None"
  shows "session_inv (w\<lparr>faults := bs, uuid_next := Suc (uuid_next w), sessions := sessions w @ [s]\<rparr>)"
proof -
  let ?w = "w\<lparr>faults := bs, uuid_next := Suc (uuid_next w), sessions := sessions w @ [s]\<rparr>"
  have keys: "reserved_keys ?w = reserved_keys w" "approved_refs ?w = approved_refs w" "case_refs ?w = case_refs w"
    by (simp_all add: reserved_keys_def approved_refs_def case_refs_def)
  have "ids_fresh (map s_id (sessions w) @ [uuid_src w (uuid_next w)]) ?w"
    using assms by (intro ids_fresh_append) (simp_all add: session_inv_def)
  moreover have "ids_fresh (map rv_id (reservations w)) ?w" "ids_fresh (map cc_id (cases w)) ?w"
    using assms by (auto simp: session_inv_def intro: ids_fresh_mono)
  ultimately show ?thesis
    using assms by (auto simp: session_inv_def keys row_ok_def closed_early_def)
qed

lemma distinct_used_set:
  assumes "distinct (map s_id ss)" and "distinct (used_reservations ss)" and "r \<notin> set (used_reservations ss)"
    and "\<And>s. s_reservation (f s) = Some r"
  shows "distinct (used_reservations (update_where (\<lambda>s. s_id s = i \<and> P s) f ss))"
  using assms(1-3)
proof (induction ss)
  case Nil
  then show ?case by simp
next
  case (Cons s ss)
  show ?case
  proof (cases "s_id s = i \<and> P s")
    case True
    then have "i \<notin> s_id ` set ss" using Cons.prems(1) by auto
    then have "update_where (\<lambda>s. s_id s = i \<and> P s) f ss = ss"
      by (intro update_where_none) (auto simp: count_where_0_iff)
    with True Cons.prems assms(4) show ?thesis by simp
  next
    case False
    have "set (used_reservations (update_where (\<lambda>s. s_id s = i \<and> P s) f ss)) \<subseteq> insert r (set (used_reservations ss))"
      using assms(4) by (auto simp: set_used set_update_where split: if_splits)
    with False Cons show ?thesis by (auto split: option.splits)
  qed
qed

text \<open>The one update that gives a session a reservation.\<close>

lemma session_inv_pending:
  assumes inv: "session_inv w" and f: "\<And>s. s_id (f s) = s_id s \<and> s_tenant (f s) = s_tenant s \<and> s_corridor (f s) = s_corridor s \<and>
      s_reservation (f s) = Some r \<and> s_status (f s) = ''pending''"
    and r: "r \<notin> set (used_reservations (sessions w))"
    and s: "\<And>s. s \<in> set (sessions w) \<Longrightarrow> s_id s = i \<Longrightarrow> (r, s_tenant s, s_corridor s) \<in> reserved_keys w"
    and a: "i \<in> approved_refs w"
  shows "session_inv (w\<lparr>sessions := update_where (\<lambda>s. s_id s = i \<and> s_status s = from) f (sessions w)\<rparr>)"
proof -
  let ?w = "w\<lparr>sessions := update_where (\<lambda>s. s_id s = i \<and> s_status s = from) f (sessions w)\<rparr>"
  have keys: "reserved_keys ?w = reserved_keys w" "approved_refs ?w = approved_refs w" "case_refs ?w = case_refs w"
    by (simp_all add: reserved_keys_def approved_refs_def case_refs_def)
  have ids: "map s_id (sessions ?w) = map s_id (sessions w)"
    using f by (simp add: map_update_where)
  have "distinct (used_reservations (sessions ?w))"
    using inv r f by (simp add: session_inv_def ids_fresh_def distinct_used_set)
  moreover have "row_ok (reserved_keys w) (approved_refs w) (case_refs w) (f s)" if "s \<in> set (sessions w)" "s_id s = i" for s
    using assms(4) [OF that] f [of s] a that by (simp add: row_ok_def)
  ultimately show ?thesis
    using inv ids by (auto simp: session_inv_def keys ids_fresh_def set_update_where)
qed

lemma row_ok_status:
  "row_ok R A K s \<Longrightarrow> s_status s \<notin> closed_early \<or> to \<in> closed_early \<Longrightarrow> to \<noteq> ''compliance_hold'' \<Longrightarrow>
   row_ok R A K (s\<lparr>s_status := to, s_updated := t\<rparr>)"
  by (auto simp: row_ok_def)

lemma inv_cas_status:
  "from \<notin> closed_early \<or> to \<in> closed_early \<Longrightarrow> to \<noteq> ''compliance_hold'' \<Longrightarrow> keeps session_inv (cas_transition i from to)"
  unfolding cas_transition_def cas_session_def
  by (intro keeps_rules db_mono_session_inv) (auto intro!: session_inv_update row_ok_status)

lemma inv_by_reservation:
  assumes "from \<notin> closed_early" and "to \<noteq> ''compliance_hold''"
  shows "keeps session_inv (transition_by_reservation rid from to ty)"
proof -
  have "''pending'' \<notin> closed_early" by (simp add: closed_early_def)
  with assms show ?thesis
    unfolding transition_by_reservation_def Let_def
    by (intro keeps_rules db_mono_session_inv) (auto intro!: session_inv_update row_ok_status)
qed

lemma inv_ttl: "keeps session_inv ttl_sweep"
proof -
  have early: "''expired'' \<in> closed_early" by (simp add: closed_early_def)
  then have exp: "keeps session_inv expire_pre_deposit" "keeps session_inv expire_timed_out_holds"
    unfolding expire_pre_deposit_def expire_timed_out_holds_def
    by (intro keeps_rules db_mono_session_inv; auto intro!: session_inv_update row_ok_status)+
  have "keeps session_inv mark_sla_breaches"
    unfolding mark_sla_breaches_def
    by (intro keeps_rules db_mono_session_inv) (auto intro!: session_inv_update simp: row_ok_def)
  with exp show ?thesis unfolding ttl_sweep_def by (intro keeps_rules)
qed

text \<open>What \<open>transitionToPending\<close> starts from.\<close>

definition may_pend :: "uuid \<Rightarrow> uuid \<Rightarrow> uuid \<Rightarrow> world \<Rightarrow> bool" where
  "may_pend i tenant cid w \<longleftrightarrow> session_inv w \<and> i \<in> approved_refs w \<and>
     (\<forall>s \<in> set (sessions w). s_id s = i \<longrightarrow> s_tenant s = tenant \<and> s_corridor s = cid)"

lemma may_pend_faults [simp]: "may_pend i tenant cid (w\<lparr>faults := bs\<rparr>) = may_pend i tenant cid w"
  by (simp add: may_pend_def approved_refs_def)

lemma keeps_may_pend:
  assumes "keeps session_inv m" and "frame sessions m" and "frame cases m"
  shows "keeps (may_pend i tenant cid) m"
proof (rule keepsI)
  fix w r w' assume w: "may_pend i tenant cid w" and run: "m w = (r, w')"
  have "sessions w' = sessions w" "cases w' = cases w"
    using frame_eq [OF assms(2) run] frame_eq [OF assms(3) run] by simp_all
  moreover have "session_inv w'"
    using keeps_eq [OF assms(1) run] w by (simp add: may_pend_def)
  ultimately show "may_pend i tenant cid w'"
    using w by (simp add: may_pend_def approved_refs_def)
qed

lemma frame_cases_lock: "frame cases (lock_rate asset fiat ttl)"
  by (auto simp: lock_rate_def get_current_rate_def get_asset_price_def fetch_asset_price_def cache_set_def persist_lock_def Let_def
      intro!: frame_rules)

lemma inv_readers: "keeps session_inv (get_session i)" "keeps session_inv (get_corridor_by_id c)"
  by (auto simp: get_session_def get_corridor_by_id_def intro!: keeps_rules)

lemma frame_cases_get: "frame cases (get_session i)"
  by (auto simp: get_session_def intro!: frame_rules)

lemma used_reserved: "session_inv w \<Longrightarrow> set (used_reservations (sessions w)) \<subseteq> set (map rv_id (reservations w))"
  by (fastforce simp: session_inv_def set_used row_ok_def reserved_keys_def)

lemma wp_instructions_inv:
  assumes "may_pend i tenant cid w"
  shows "wp (get_deposit_instructions tenant cid amount) (\<lambda>r w'. may_pend i tenant cid w' \<and> (\<forall>di. r = Inr di \<longrightarrow>
     (di_reservation di, tenant, cid) \<in> reserved_keys w' \<and> di_reservation di \<notin> set (used_reservations (sessions w')))) w"
proof (rule wpI)
  fix r w' assume run: "get_deposit_instructions tenant cid amount w = (r, w')"
  have frames: "frame sessions (get_deposit_instructions tenant cid amount)" "frame cases (get_deposit_instructions tenant cid amount)"
    by (auto intro!: frame_instructions)
  have may: "may_pend i tenant cid w'"
    using keeps_eq [OF keeps_may_pend [OF inv_instructions frames] run assms] .
  moreover have "(di_reservation di, tenant, cid) \<in> reserved_keys w' \<and> di_reservation di \<notin> set (used_reservations (sessions w'))"
    if ok: "r = Inr di" for di
  proof -
    obtain row addr where res: "reserve_address tenant cid amount w = (Inr (row, addr), w')" and di: "di_reservation di = rv_id row"
      using run unfolding ok get_deposit_instructions_def by (elim bindE_InrE) (auto simp: ret_def split: prod.splits)
    have row: "reservations w' = reservations w @ [row]" "rv_tenant row = tenant" "rv_corridor row = cid"
      using wpD [OF wp_reserve_address res] by (auto simp: reserved_by_def)
    have "distinct (map rv_id (reservations w'))" using may by (simp add: may_pend_def session_inv_def ids_fresh_def)
    with row(1) have "rv_id row \<notin> set (map rv_id (reservations w))" by auto
    moreover have "sessions w' = sessions w" by (rule frame_eq [OF frames(1) run])
    moreover have "set (used_reservations (sessions w)) \<subseteq> set (map rv_id (reservations w))"
      using used_reserved assms by (simp add: may_pend_def)
    ultimately show ?thesis using row di by (auto simp: reserved_keys_def)
  qed
  ultimately show "may_pend i tenant cid w' \<and> (\<forall>di. r = Inr di \<longrightarrow>
     (di_reservation di, tenant, cid) \<in> reserved_keys w' \<and> di_reservation di \<notin> set (used_reservations (sessions w')))" by blast
qed

lemma di_reservation_for [simp]: "di_reservation (instructions_for cur l a di) = di_reservation di"
  by (simp add: instructions_for_def Let_def split: option.split)

lemma inv_commit_pending:
  assumes "may_pend i tenant cid w" and "(di_reservation di, tenant, cid) \<in> reserved_keys w"
    and "di_reservation di \<notin> set (used_reservations (sessions w))"
  shows "wp (commit_pending i tenant cid' from l di) (\<lambda>_. session_inv) w"
proof -
  have inv: "session_inv w" using assms(1) by (simp add: may_pend_def)
  have upd: "session_inv (v\<lparr>sessions := update_where (\<lambda>s. s_id s = i \<and> s_status s = from)
      (\<lambda>s. s\<lparr>s_status := ''pending'', s_lock := Some l, s_reservation := Some (di_reservation di),
        s_instructions := Some (di\<lparr>di_tenant := uuid_nil\<rparr>), s_updated := t\<rparr>) (sessions v)\<rparr>)"
    if "v = w\<lparr>faults := bs\<rparr>" for v bs t
    using assms inv that
    by (intro session_inv_pending [where r = "di_reservation di"])
      (auto simp: may_pend_def reserved_keys_def approved_refs_def)
  have mono: "session_inv (w\<lparr>faults := bs, uuid_next := n\<rparr>)" if "uuid_next w \<le> n" for bs n
    using db_mono_uuid [OF db_mono_session_inv, of "w\<lparr>faults := bs\<rparr>"] inv that by simp
  have rest: "wp (thenE (publish_if_bus ty ag j pl) (thenE commit_tx (ret s))) (wp_tx w (\<lambda>_. session_inv)) v"
    if "session_inv v" for ty ag j pl s v
    by (rule wp_keeps [where P = session_inv]) (auto intro!: keeps_rules simp: wp_tx_def mono that split: sum.split)
  show ?thesis
    unfolding commit_pending_def cas_session_def
    by (rule wp_atomically, rule wp_thenE, intro wp_bindE wp_tick_fault wp_bind_Inr wp_bind_Inl wp_stmt wp_gets wp_case_option
        wp_fail wp_ret wp_modify wp_tx_Inl wp_thenE [where m = "modify g" for g] rest)
      (use upd mono in auto)
qed

lemma inv_pending:
  assumes "may_pend i tenant (co_id c) w"
  shows "wp (transition_to_pending i tenant c from) (\<lambda>_. session_inv) w"
proof -
  let ?P = "may_pend i tenant (co_id c)"
  have inv: "?P v \<Longrightarrow> session_inv v" for v by (simp add: may_pend_def)
  have get: "keeps ?P (get_session i)"
    by (rule keeps_may_pend) (simp_all add: inv_readers frame_sessions frame_cases_get)
  have lock: "keeps ?P (lock_rate a f t)" for a f t
    by (rule keeps_may_pend) (simp_all add: inv_lock_rate frame_sessions frame_cases_lock)
  have rest: "wp (get_deposit_instructions tenant (co_id c) amount) (wp_bind
      (\<lambda>di. commit_pending i tenant (co_id c) from l (instructions_for cur lk amt di)) (\<lambda>_. session_inv)) v"
    if "?P v" for v amount l cur lk amt
    by (rule wp_call [OF wp_instructions_inv [OF that]]) (auto simp: inv intro!: inv_commit_pending)
  show ?thesis
    unfolding transition_to_pending_def Let_def
    apply (rule wp_bindE, rule wp_keeps [OF get assms])
    subgoal for r v
      apply (cases r; simp add: wp_bind_def inv)
      apply (rule wp_bindE, rule wp_keeps [OF lock, of v])
       apply assumption
      subgoal for l r' v' by (cases r'; simp add: wp_bind_def inv) (intro wp_rules rest; simp add: inv)
      done
    done
qed

text \<open>A session's own case, resolved in its favour, approves it.\<close>

lemma resolve_approves:
  assumes inv: "session_inv w" and c: "(c, i) \<in> case_refs w" and run: "resolve_hold c admin True reason w = (Inr x, w')"
  shows "i \<in> approved_refs w'"
proof -
  obtain row where row: "row \<in> set (cases w)" "cc_id row = c" "cc_ref_type row = ''session''" "cc_ref_id row = i"
    using c by (auto simp: case_refs_def)
  have dist: "distinct (map cc_id (cases w))" using inv by (simp add: session_inv_def ids_fresh_def)
  obtain bs where *: "find (\<lambda>x. cc_id x = c \<and> cc_status x = StatusHold) (cases w) \<noteq> None"
      "cases w' = update_where (\<lambda>x. cc_id x = c \<and> cc_status x = StatusHold) (resolve_case StatusApproved reason admin (now w)) (cases w)"
    using run unfolding resolve_hold_def Let_def
    by (auto dest!: stmt_InrD simp: bindE_def gets_def modify_def thenE_def ret_def fail_def split: option.splits)
  then obtain y where y: "y \<in> set (cases w)" "cc_id y = c" "cc_status y = StatusHold"
    by (auto dest: find_Some_mem)
  with row dist have "y = row" by (metis distinct_map inj_onD)
  then have "resolve_case StatusApproved reason admin (now w) row \<in> set (cases w')"
    using y by (auto simp: * set_update_where)
  moreover have "cc_ref_type (resolve_case StatusApproved reason admin (now w) row) = ''session''"
    "cc_ref_id (resolve_case StatusApproved reason admin (now w) row) = i"
    using row by (simp_all add: resolve_case_def)
  ultimately show ?thesis by (force simp: approved_refs_def image_iff)
qed

definition terms_of :: "uuid \<Rightarrow> uuid \<Rightarrow> uuid \<Rightarrow> world \<Rightarrow> bool" where
  "terms_of i tenant cid w \<longleftrightarrow> session_inv w \<and> (\<forall>s \<in> set (sessions w). s_id s = i \<longrightarrow> s_tenant s = tenant \<and> s_corridor s = cid)"

lemma may_pend_iff: "may_pend i tenant cid w \<longleftrightarrow> terms_of i tenant cid w \<and> i \<in> approved_refs w"
  by (auto simp: may_pend_def terms_of_def)

lemma keeps_terms: "keeps session_inv m \<Longrightarrow> frame sessions m \<Longrightarrow> keeps (terms_of i tenant cid) m"
  by (rule keepsI) (auto simp: terms_of_def dest: keeps_eq frame_eq)

lemma wp_screen_refs:
  "wp (screen_session sid tenant amount th window tmo name) (\<lambda>r w'. \<forall>c. r = Inr c \<longrightarrow>
     c \<in> set (cases w') \<and> cc_ref_type c = ''session'' \<and> cc_ref_id c = sid) w"
proof -
  have create: "wp (create_case tenant ''transaction_screening'' ''session'' sid st pname reason data hold resolved cur)
      (\<lambda>r w'. \<forall>c. r = Inr c \<longrightarrow> c \<in> set (cases w') \<and> cc_ref_type c = ''session'' \<and> cc_ref_id c = sid) v"
    for st pname reason data hold resolved cur v
    by (rule wp_conseq [OF wp_create_case]) (auto simp: case_created_def)
  show ?thesis
    unfolding screen_session_def travel_rule_threshold_exceeded_def screen_with_def
    by (intro wp_rules create) auto
qed

lemma wp_insert_inv:
  assumes "session_inv w"
  shows "wp (insert_session tenant cid fiat amount asset network dest)
    (\<lambda>r w'. session_inv w' \<and> (\<forall>s. r = Inr s \<longrightarrow> terms_of (s_id s) tenant cid w')) w"
proof (cases "numeric_36_18 amount"; cases dest)
  fix a j assume *: "numeric_36_18 amount = Some a" "dest = RawJson j"
  have new: "s \<in> set (sessions w) \<Longrightarrow> s_id s \<noteq> uuid_src w (uuid_next w)" for s
    using ids_fresh_next [of "map s_id (sessions w)" w] assms by (force simp: session_inv_def)
  show ?thesis
    by (auto simp: insert_session_def * assms new terms_of_def intro!: wp_rules session_inv_insert)
qed (auto simp: insert_session_def assms intro!: wp_rules)

lemma inv_to_hold: "session_inv w \<Longrightarrow> (c, i) \<in> case_refs w \<Longrightarrow> wp (transition_to_hold i c) (\<lambda>_. session_inv) w"
  unfolding transition_to_hold_def cas_session_def
  apply (intro wp_rules)
     apply simp_all
  apply (rule session_inv_update [of "w\<lparr>faults := bs\<rparr>" for bs, simplified])
    apply (auto simp: row_ok_def closed_early_def case_refs_def reserved_keys_def approved_refs_def)
  done

lemma inv_to_rejected: "keeps session_inv (transition_to_rejected i from)"
  unfolding transition_to_rejected_def
  using inv_cas_status [of "from" "''rejected''" i]
  by (simp add: cas_transition_def closed_early_def)

lemma inv_after_insert:
  assumes "terms_of i tenant (co_id c) w"
  shows "wp (bindE (list_active_providers cid ty) (\<lambda>bs. bindE (screen_session i tenant amount th window tmo (name bs)) (\<lambda>cc.
      if cc_status cc = StatusHold then transition_to_hold i (cc_id cc)
      else if cc_status cc = StatusRejected then transition_to_rejected i ''screening''
      else if cc_status cc = StatusApproved then transition_to_pending i tenant c ''screening'' else fail e))) (\<lambda>_. session_inv) w"
proof -
  let ?P = "terms_of i tenant (co_id c)"
  have inv: "?P v \<Longrightarrow> session_inv v" for v by (simp add: terms_of_def)
  have lst: "keeps ?P (list_active_providers cid ty)"
    by (rule keeps_terms) (auto simp: list_active_providers_def intro!: keeps_rules frame_rules)
  have screened: "wp (screen_session i tenant amount th window tmo n) (\<lambda>r w'. ?P w' \<and> (\<forall>c. r = Inr c \<longrightarrow>
     c \<in> set (cases w') \<and> cc_ref_type c = ''session'' \<and> cc_ref_id c = i)) v" if "?P v" for n v
    by (rule wp_conj [OF wp_keeps [OF keeps_terms [OF inv_screen_session frame_screen_session] that] wp_screen_refs])
  have decided: "wp (if cc_status cc = StatusHold then transition_to_hold i (cc_id cc)
      else if cc_status cc = StatusRejected then transition_to_rejected i ''screening''
      else if cc_status cc = StatusApproved then transition_to_pending i tenant c ''screening'' else fail e) (\<lambda>_. session_inv) v"
    if "?P v" "cc \<in> set (cases v)" "cc_ref_type cc = ''session''" "cc_ref_id cc = i" for cc v
  proof -
    have "(cc_id cc, i) \<in> case_refs v" "cc_status cc = StatusApproved \<longrightarrow> i \<in> approved_refs v"
      using that by (force simp: case_refs_def approved_refs_def image_iff)+
    then show ?thesis
      using that(1) inv
      by (auto intro!: wp_rules inv_to_hold wp_keeps [OF inv_to_rejected] inv_pending simp: may_pend_iff)
  qed
  have "wp (bindE (screen_session i tenant amount th window tmo (name bs)) (\<lambda>cc.
      if cc_status cc = StatusHold then transition_to_hold i (cc_id cc)
      else if cc_status cc = StatusRejected then transition_to_rejected i ''screening''
      else if cc_status cc = StatusApproved then transition_to_pending i tenant c ''screening'' else fail e)) (\<lambda>_. session_inv) v"
    if "?P v" for v bs
    by (rule wp_bindE, rule wp_call [OF screened [OF that]]) (simp_all add: inv decided)
  then show ?thesis
    by (intro wp_bindE wp_keeps [OF lst assms]) (auto simp: wp_bind_def inv split: sum.split)
qed

lemma inv_create: "keeps session_inv (create_session tenant asset network fiat amount dest)"
proof -
  have frames: "keeps session_inv (onErr (get_corridor asset network fiat) (\<lambda>e. if e = ErrCorridorNotFound then fail ErrCorridorNotSupported else fail e))"
    "keeps session_inv (check_entitlement tenant cid)" for cid
    by (auto simp: get_corridor_def check_entitlement_def intro!: keeps_rules)
  have rest: "keeps session_inv (bindE (insert_session tenant (co_id c) fiat amount asset network d) (\<lambda>s.
           bindE (list_active_providers (co_id c) ProviderTypeCompliance) (\<lambda>bs.
             bindE (screen_session (s_id s) tenant amount (co_threshold c) (co_window c) (co_hold c) (case bs of [] \<Rightarrow> '''' | b # _ \<Rightarrow> pb_name b)) (\<lambda>cc.
               if cc_status cc = StatusHold then transition_to_hold (s_id s) (cc_id cc)
               else if cc_status cc = StatusRejected then transition_to_rejected (s_id s) ''screening''
               else if cc_status cc = StatusApproved then transition_to_pending (s_id s) tenant c ''screening''
               else fail (OtherErr ''session: unexpected compliance status'')))))" for c d
    by (rule keeps_wp, rule wp_bindE, rule wp_call [OF wp_insert_inv])
      (auto intro: inv_after_insert [where name = "\<lambda>bs. case bs of [] \<Rightarrow> '''' | b # _ \<Rightarrow> pb_name b"])
  show ?thesis
    unfolding create_session_def Let_def by (intro keeps_rules frames rest)
qed

lemma inv_resolve: "keeps session_inv (resolve_compliance_hold i admin approved reason)"
proof (rule keeps_wp)
  fix w assume inv: "session_inv w"
  have body: "wp (case s_case s of None \<Rightarrow> fail ErrNotInComplianceHold
     | Some c \<Rightarrow> if s_status s \<noteq> ''compliance_hold'' then fail ErrNotInComplianceHold
         else thenE (resolve_hold c admin approved reason)
           (if \<not> approved then transition_to_rejected i ''compliance_hold''
            else bindE (get_corridor_by_id (s_corridor s)) (\<lambda>corr.
              transition_to_pending i (s_tenant s) corr ''compliance_hold''))) (\<lambda>_. session_inv) v"
    if v: "session_inv v" and s: "s \<in> set (sessions v)" "s_id s = i" for s v
  proof (cases "s_case s")
    case None
    then show ?thesis using v by (simp add: wp_fail)
  next
    case (Some c)
    have terms: "terms_of i (s_tenant s) (s_corridor s) v"
      using v s by (auto simp: terms_of_def session_inv_def ids_fresh_def distinct_map dest: inj_onD)
    have approve: "wp (bindE (get_corridor_by_id (s_corridor s)) (\<lambda>corr.
        transition_to_pending i (s_tenant s) corr ''compliance_hold'')) (\<lambda>_. session_inv) v'"
      if "may_pend i (s_tenant s) (s_corridor s) v'" for v'
      unfolding get_corridor_by_id_def
      by (intro wp_rules inv_pending) (use that in \<open>auto simp: may_pend_def approved_refs_def dest!: find_Some_mem\<close>)
    have resolved: "wp (resolve_hold c admin approved reason) (wp_bind (\<lambda>_. if \<not> approved then transition_to_rejected i ''compliance_hold''
            else bindE (get_corridor_by_id (s_corridor s)) (\<lambda>corr.
              transition_to_pending i (s_tenant s) corr ''compliance_hold'')) (\<lambda>_. session_inv)) v"
      if hold: "s_status s = ''compliance_hold''"
    proof (rule wpI)
      fix r v' assume run: "resolve_hold c admin approved reason v = (r, v')"
      have terms': "terms_of i (s_tenant s) (s_corridor s) v'"
        by (rule keeps_eq [OF keeps_terms [OF inv_resolve_hold frame_resolve_hold] run terms])
      have "(c, i) \<in> case_refs v"
        using v s hold Some by (auto simp: session_inv_def row_ok_def)
      then have "approved \<Longrightarrow> r = Inr x \<Longrightarrow> i \<in> approved_refs v'" for x
        using resolve_approves [OF v] run by simp
      then show "wp_bind (\<lambda>_. if \<not> approved then transition_to_rejected i ''compliance_hold''
            else bindE (get_corridor_by_id (s_corridor s)) (\<lambda>corr.
              transition_to_pending i (s_tenant s) corr ''compliance_hold'')) (\<lambda>_. session_inv) r v'"
        using terms' approve
        by (cases r) (auto simp: wp_bind_def may_pend_iff terms_of_def intro!: wp_keeps [OF inv_to_rejected])
    qed
    then show ?thesis
      using v by (simp add: Some, intro impI conjI wp_thenE) (simp_all add: wp_fail)
  qed
  show "wp (resolve_compliance_hold i admin approved reason) (\<lambda>_. session_inv) w"
    unfolding resolve_compliance_hold_def get_session_def bindE_assoc
    by (intro wp_bindE wp_query wp_bind_Inr wp_bind_Inl wp_case_option wp_fail wp_ret body)
      (auto simp: inv wp_bind_def wp_fail dest: find_Some_mem split: option.split intro!: wp_rules body)
qed

lemma inv_release: "keeps session_inv (release_reservation rid)"
proof -
  have "session_inv (w\<lparr>reservations := update_where c (\<lambda>r. r\<lparr>rv_status := st, rv_released_at := t\<rparr>) (reservations w)\<rparr>)"
    if "session_inv w" for w c st t
  proof (rule session_inv_grow [OF that])
    let ?u = "update_where c (\<lambda>r. r\<lparr>rv_status := st, rv_released_at := t\<rparr>) (reservations w)"
    have "map f ?u = map f (reservations w)" if "\<And>r st t. f (r\<lparr>rv_status := st, rv_released_at := t\<rparr>) = f r" for f :: "reservation \<Rightarrow> 'k"
      using that by (simp add: map_update_where)
    from this [of rv_id] this [of "\<lambda>r. (rv_id r, rv_tenant r, rv_corridor r)"] that
    show "ids_fresh (map rv_id (reservations (w\<lparr>reservations := ?u\<rparr>))) (w\<lparr>reservations := ?u\<rparr>)"
      "reserved_keys w \<subseteq> reserved_keys (w\<lparr>reservations := ?u\<rparr>)"
      by (auto simp: session_inv_def ids_fresh_def reserved_keys_def)
  qed (use that in \<open>auto simp: session_inv_def approved_refs_def case_refs_def ids_fresh_def\<close>)
  then show ?thesis
    unfolding release_reservation_def by (intro keeps_rules db_mono_session_inv) auto
qed

lemma inv_treasury: "keeps session_inv (treasury_step cmd)"
proof -
  have rec: "keeps session_inv (record_deposit_transition rid st amount tx raw)" for rid st amount tx raw
    unfolding record_deposit_transition_def insert_deposit_if_absent_def confirm_deposit_def Let_def
    by (intro keeps_rules db_mono_session_inv) (auto intro!: keeps_rules)
  then have hook: "keeps session_inv (handle_deposit_webhook body sig)" for body sig
    by (auto simp: handle_deposit_webhook_def find_reservation_by_reference_def get_reservation_def intro!: keeps_rules)
  show ?thesis
    by (cases cmd)
      (auto simp: hook rec inv_release confirm_due_sandbox_deposits_def Let_def
        register_tenant_custom_wallet_def record_custody_balance_def initialize_hd_wallet_seed_def load_hd_wallet_seed_def
        intro!: keeps_rules inv_instructions)
qed

lemma inv_step: "keeps session_inv (session_step cmd)"
proof (cases cmd)
  case (SRetry i failed)
  then show ?thesis
    by (auto simp: retry_to_settling_def closed_early_def intro!: keeps_quiet inv_cas_status)
next
  case (SCase i admin ok reason)
  then show ?thesis by (simp add: keeps_quiet inv_resolve_hold)
qed (auto simp: handle_deposit_detected_def handle_deposit_confirmed_def transition_to_settling_def transition_to_settled_def
    transition_to_settlement_failed_def transition_to_reversed_def transition_to_reversal_resolved_def closed_early_def
    intro!: keeps_quiet inv_create inv_resolve inv_ttl inv_cas_status inv_by_reservation inv_treasury keeps_modify)

section \<open>Properties\<close>



definition session_row :: "uuid \<Rightarrow> string \<Rightarrow> session" where
  "session_row i st = \<lparr>s_id = i, s_tenant = ''T'', s_corridor = sample_src 0, s_status = st, s_fiat = ''NGN'',
     s_fiat_amount = 3000, s_asset = ''USDT'', s_network = ''TRC20'', s_case = None, s_lock = None,
     s_reservation = None, s_sla = None, s_destination = JObj [], s_instructions = None, s_created = 0, s_updated = 0\<rparr>"


text \<open>
  C6. No address without approval: in every state the commands reach, a session that holds a
  reservation was approved for it, by a vendor or by an officer; the reservation is of the
  session's own tenant and corridor and of no other session; and every session past its screening
  has one. So a deposit can only ever move the one session it was meant for.
\<close>

theorem address_needs_approval:
  assumes "session_inv w"
  shows "let w' = run_sessions cmds w in session_inv w' \<and>
    (\<forall>s \<in> set (sessions w'). \<forall>i. s_reservation s = Some i \<longrightarrow>
       list_ex (\<lambda>c. cc_ref_type c = ''session'' \<and> cc_ref_id c = s_id s \<and> cc_status c = StatusApproved) (cases w') \<and>
       list_ex (\<lambda>r. rv_id r = i \<and> rv_tenant r = s_tenant s \<and> rv_corridor r = s_corridor s) (reservations w') \<and>
       (\<forall>s' \<in> set (sessions w'). s_reservation s' = Some i \<longrightarrow> s' = s))"
proof -
  let ?w = "run_sessions cmds w"
  have inv: "session_inv ?w" by (rule run_keeps [OF inv_step assms])
  have one: "s' = s" if "distinct (used_reservations ss)" "s \<in> set ss" "s' \<in> set ss" "s_reservation s = Some i" "s_reservation s' = Some i" for s s' i ss
    using that by (induction ss) (auto simp: set_used split: option.splits)
  have "list_ex (\<lambda>c. cc_ref_type c = ''session'' \<and> cc_ref_id c = s_id s \<and> cc_status c = StatusApproved) (cases ?w) \<and>
      list_ex (\<lambda>r. rv_id r = i \<and> rv_tenant r = s_tenant s \<and> rv_corridor r = s_corridor s) (reservations ?w)"
    if "s \<in> set (sessions ?w)" "s_reservation s = Some i" for s i
  proof -
    have "row_ok (reserved_keys ?w) (approved_refs ?w) (case_refs ?w) s" using inv that by (simp add: session_inv_def)
    then have "(i, s_tenant s, s_corridor s) \<in> reserved_keys ?w" "s_id s \<in> approved_refs ?w"
      using that by (simp_all add: row_ok_def)
    then show ?thesis by (auto simp: reserved_keys_def approved_refs_def list_ex_iff)
  qed
  moreover have "s' = s" if "s \<in> set (sessions ?w)" "s' \<in> set (sessions ?w)" "s_reservation s = Some i" "s_reservation s' = Some i" for s s' i
    using one [OF _ that] inv by (simp add: session_inv_def)
  ultimately show ?thesis using inv by (simp add: Let_def)
qed

text \<open>A session that waits for its deposit, with its reservation and its approved case.\<close>

definition pending_world :: world where
  "pending_world = empty_world\<lparr>uuid_next := 3,
     sessions := [(session_row (sample_src 0) ''pending'')\<lparr>s_reservation := Some (sample_src 1)\<rparr>],
     reservations := [\<lparr>rv_id = sample_src 1, rv_tenant = ''T'', rv_corridor = sample_src 0, rv_provider = ''busha'',
       rv_custody = CustodyTypePartner, rv_asset = ''USDT'', rv_network = ''TRC20'', rv_address = ''addr'', rv_tag = [],
       rv_reference = ''ref'', rv_status = ''reserved'', rv_reserved_at = 0, rv_released_at = None\<rparr>],
     cases := [(case_for ''transaction_screening'' ''session'' (sample_src 0) (JObj []))\<lparr>cc_id := sample_src 2, cc_status := StatusApproved\<rparr>]\<rparr>"

definition deposit_event_of :: "string \<Rightarrow> uuid \<Rightarrow> event" where
  "deposit_event_of ty rid = \<lparr>ev_id = ''e'', ev_type = ty, ev_agg_type = ''treasury_deposit'', ev_agg_id = rid, ev_payload = [],
     ev_created = 0, ev_dispatched = None, ev_attempts = 0\<rparr>"

lemma below_3: "(\<exists>n < (3::nat). P n) \<longleftrightarrow> P 0 \<or> P 1 \<or> P 2"
  by (auto simp: numeral_3_eq_3 numeral_2_eq_2 less_Suc_eq)

lemma session_inv_pending_world: "session_inv pending_world"
  by (auto simp: below_3 session_inv_def pending_world_def empty_world_def ids_fresh_def inj_sample_src session_row_def row_ok_def
      reserved_keys_def approved_refs_def case_for_def)

theorem address_needs_approval_witness:
  "session_inv (run_sessions [SDetected (deposit_event_of ''treasury.deposit_detected'' (sample_src 1)), STick (60 * minute), STtl,
     SConfirmed (deposit_event_of ''treasury.deposit_confirmed'' (sample_src 1))] pending_world)"
  using address_needs_approval [OF session_inv_pending_world] unfolding Let_def by blast


text \<open>
  A request that cannot be served is refused before anything happens: an unknown or inactive
  corridor, a destination without the corridor's fields and a tenant that is not entitled each
  end in their own error, checked in this order, and no table, no event and no partner is touched.
\<close>

lemma create_session_refused:
  assumes "faults w = []"
  shows "let c = find (\<lambda>c. co_asset c = asset \<and> co_network c = network \<and> co_fiat c = fiat \<and> co_active c) (corridors w);
             entitled = (\<lambda>cid. case find (\<lambda>e. en_tenant e = tenant \<and> en_corridor e = cid) (entitlements w) of None \<Rightarrow> False | Some e \<Rightarrow> en_active e);
             run = create_session tenant asset network fiat amount dest w
    in (c = None \<longrightarrow> run = (Inl ErrCorridorNotSupported, w)) \<and>
       (\<forall>x. c = Some x \<longrightarrow> validate_destination x dest \<noteq> None \<longrightarrow> run = (Inl ErrInvalidDestination, w)) \<and>
       (\<forall>x. c = Some x \<longrightarrow> validate_destination x dest = None \<longrightarrow> \<not> entitled (co_id x) \<longrightarrow> run = (Inl ErrNotEntitled, w))"
proof -
  have found: "get_corridor asset network fiat w = ((case find (\<lambda>c. co_asset c = asset \<and> co_network c = network \<and> co_fiat c = fiat \<and> co_active c) (corridors w) of
      None \<Rightarrow> Inl ErrCorridorNotFound | Some c \<Rightarrow> Inr c), w)"
    by (simp add: get_corridor_def op_simps assms split: option.split)
  show ?thesis
    by (simp add: Let_def create_session_def check_entitlement_def bindE_def onErr_def found query_Nil [OF assms] fail_def
        split: option.splits)
qed

lemma forE_publish:
  "faults w = [] \<Longrightarrow> \<exists>es v. forE xs (\<lambda>s. publish_if_bus ty ag (s_id s) (pl s)) w = (Inr (), v) \<and> faults v = [] \<and> sessions v = sessions w \<and>
     outbox v = outbox w @ es \<and> (bus_on w \<longrightarrow> map ev_agg_id es = map s_id xs) \<and> list_all (\<lambda>e. ev_type e = ty) es"
proof (induction xs arbitrary: w)
  case Nil
  then show ?case by (simp add: op_simps)
next
  case (Cons s xs)
  obtain e1 v1 where one: "publish_if_bus ty ag (s_id s) (pl s) w = (Inr (), v1)" "faults v1 = []" "sessions v1 = sessions w"
      "outbox v1 = outbox w @ e1" "bus_on v1 = bus_on w" "bus_on w \<longrightarrow> map ev_agg_id e1 = [s_id s]" "list_all (\<lambda>e. ev_type e = ty) e1"
    using Cons.prems by (cases "bus_on w") (simp_all add: publish_if_bus_def publish_def op_simps)
  obtain es v where rest: "forE xs (\<lambda>s. publish_if_bus ty ag (s_id s) (pl s)) v1 = (Inr (), v)" "faults v = []" "sessions v = sessions v1"
      "outbox v = outbox v1 @ es" "bus_on v1 \<longrightarrow> map ev_agg_id es = map s_id xs" "list_all (\<lambda>e. ev_type e = ty) es"
    using Cons.IH [OF one(2)] by auto
  have "forE (s # xs) (\<lambda>s. publish_if_bus ty ag (s_id s) (pl s)) w = (Inr (), v)"
    by (simp add: thenE_def bindE_def one(1) rest(1))
  then show ?case
    by (intro exI [of _ "e1 @ es"] exI [of _ v]) (use one rest in auto)
qed

lemma hold_over_cong: "now v = now w \<Longrightarrow> cases v = cases w \<Longrightarrow> hold_over v s = hold_over w s"
  by (simp only: hold_over_def)

lemma hold_over_sessions: "hold_over (w\<lparr>sessions := ss\<rparr>) = hold_over w"
  by (rule ext, rule hold_over_cong) simp_all

text \<open>The row that the sweep leaves of a row, and whether it breaches.\<close>

definition ttl_row :: "world \<Rightarrow> session \<Rightarrow> session" where
  "ttl_row w s = (if s_status s \<in> {''screening'', ''pending''} \<and> past_due (now w) s \<or> s_status s = ''compliance_hold'' \<and> hold_over w s
     then s\<lparr>s_status := ''expired'', s_updated := now w\<rparr> else s)"

lemma mark_sla_Nil:
  assumes "faults w = []"
  shows "\<exists>es v. mark_sla_breaches w = (Inr (), v) \<and>
    sessions v = map (\<lambda>s. if sla_due (now w) s then s\<lparr>s_sla := Some (now w)\<rparr> else s) (sessions w) \<and>
    outbox v = outbox w @ es \<and> list_all (\<lambda>e. ev_type e = ''session.sla_breached'') es \<and>
    (bus_on w \<longrightarrow> map ev_agg_id es = map s_id (filter (sla_due (now w)) (sessions w)))"
proof -
  let ?w = "w\<lparr>sessions := update_where (sla_due (now w)) (\<lambda>s. s\<lparr>s_sla := Some (now w)\<rparr>) (sessions w)\<rparr>"
  obtain es v where pub: "forE (filter (sla_due (now w)) (sessions w)) (\<lambda>s. publish_if_bus ''session.sla_breached'' ''session'' (s_id s)
        [(''tenant_id'', PStr (s_tenant s))]) ?w = (Inr (), v)"
      "faults v = []" "sessions v = sessions ?w" "outbox v = outbox w @ es" "bus_on w \<longrightarrow> map ev_agg_id es = map s_id (filter (sla_due (now w)) (sessions w))"
      "list_all (\<lambda>e. ev_type e = ''session.sla_breached'') es"
    using forE_publish [of ?w "filter (sla_due (now w)) (sessions w)" "''session.sla_breached''" "''session''" "\<lambda>s. [(''tenant_id'', PStr (s_tenant s))]"] assms
    by auto
  have "mark_sla_breaches w = (Inr (), v)"
    using assms pub(1,2) by (simp add: mark_sla_breaches_def op_simps)
  with pub show ?thesis by (auto simp: update_where_def)
qed

text \<open>
  One undisturbed sweep of the TTL job: exactly the sessions without a deposit whose time is
  over (thirty minutes, the expiry of their instructions, or the deadline of their hold) become
  expired; exactly the unfinished ones older than thirty minutes are marked as an SLA breach, once,
  with one event each and their status untouched; nothing else changes.
\<close>

lemma ttl_sweep_exact:
  assumes "faults w = []" and "ttl_sweep w = (r, w')"
  shows "let rows = map (ttl_row w) (sessions w) in r = Inr () \<and>
    sessions w' = map (\<lambda>s. if sla_due (now w) s then s\<lparr>s_sla := Some (now w)\<rparr> else s) rows \<and>
    (\<exists>es. outbox w' = outbox w @ es \<and> list_all (\<lambda>e. ev_type e = ''session.sla_breached'') es \<and>
       (bus_on w \<longrightarrow> map ev_agg_id es = map s_id (filter (sla_due (now w)) rows)))"
proof -
  let ?rows = "map (ttl_row w) (sessions w)"
  let ?w1 = "w\<lparr>sessions := update_where (\<lambda>s. s_status s \<in> {''screening'', ''pending''} \<and> past_due (now w) s)
     (\<lambda>s. s\<lparr>s_status := ''expired'', s_updated := now w\<rparr>) (sessions w)\<rparr>"
  let ?w2 = "w\<lparr>sessions := ?rows\<rparr>"
  have e1: "expire_pre_deposit w = (Inr (), ?w1)"
    using assms(1) by (simp add: expire_pre_deposit_def op_simps)
  have rows: "update_where (\<lambda>s. s_status s = ''compliance_hold'' \<and> hold_over w s) (\<lambda>s. s\<lparr>s_status := ''expired'', s_updated := now w\<rparr>)
      (sessions ?w1) = ?rows"
    by (auto simp: update_where_def ttl_row_def)
  have e2: "expire_timed_out_holds ?w1 = (Inr (), ?w2)"
    unfolding expire_timed_out_holds_def using assms(1) rows by (simp add: op_simps hold_over_sessions)
  have w2: "faults ?w2 = []" using assms(1) by simp
  obtain es v where e3: "mark_sla_breaches ?w2 = (Inr (), v)"
      "sessions v = map (\<lambda>s. if sla_due (now w) s then s\<lparr>s_sla := Some (now w)\<rparr> else s) ?rows" "outbox v = outbox w @ es"
      "list_all (\<lambda>e. ev_type e = ''session.sla_breached'') es" "bus_on w \<longrightarrow> map ev_agg_id es = map s_id (filter (sla_due (now w)) ?rows)"
    using mark_sla_Nil [OF w2] by auto
  have "ttl_sweep w = (Inr (), v)"
    unfolding ttl_sweep_def by (simp only: thenE_def bindE_def e1 e2 e3(1) prod.case sum.case)
  with assms(2) e3 show ?thesis by (auto simp: Let_def)
qed

text \<open>
  Expiry does not free the deposit address: no sweep of the TTL job touches a reservation, so
  the address of an expired session stays reserved (the documentation says it is freed).
\<close>

lemma expiry_keeps_reservation:
  "reservations (snd (ttl_sweep w)) = reservations w"
proof -
  have "frame reservations ttl_sweep"
    by (auto simp: ttl_sweep_def expire_pre_deposit_def expire_timed_out_holds_def mark_sla_breaches_def intro!: frame_rules)
  then show ?thesis by (rule frameD)
qed

end
