(* ===== verification/Payout.thy ===== *)
theory Payout
  imports Session
begin

text \<open>
  The adapters of \<^verbatim>\<open>internal/settlement\<close>: the payout providers (\<^verbatim>\<open>providers.go\<close>, \<^verbatim>\<open>hyparrow.go\<close>,
  \<^verbatim>\<open>sandbox_provider.go\<close>), the verification and parsing of their webhooks (the first half of
  \<^verbatim>\<open>webhook.go\<close>) and the Telegram messages (\<^verbatim>\<open>telegram.go\<close>). What a provider or Telegram answers is
  external; how an answer is classified is the code's. Where the code appends the text of a decoding
  error to a message, the model keeps the message without it.
\<close>

abbreviation ErrInvalidWebhookSignature :: err where
  "ErrInvalidWebhookSignature \<equiv> Sentinel ''settlement: invalid webhook signature''"
abbreviation ErrUnknownProvider :: err where
  "ErrUnknownProvider \<equiv> Sentinel ''settlement: unknown or unconfigured settlement provider''"

section \<open>The registered providers\<close>

definition http_adapters :: "string list" where
  "http_adapters = [''cngn'', ''flutterwave'', ''paystack'', ''monnify'', ''hydrogenpay'']"

definition hyparrow_enabled :: "hyparrow_config \<Rightarrow> bool" where
  "hyparrow_enabled c \<longleftrightarrow> hc_enabled c \<and> trim_slashes (hc_url c) \<noteq> '''' \<and> hc_key c \<noteq> '''' \<and> hc_api_secret c \<noteq> '''' \<and>
     hc_phone c \<noteq> '''' \<and> hc_email c \<noteq> '''' \<and> hc_lastname c \<noteq> '''' \<and> hc_othernames c \<noteq> ''''"

definition payout_providers :: "externals \<Rightarrow> (string \<times> bool) list" where
  "payout_providers e = map (\<lambda>n. (n, ad_enabled (cfg_adapters e n))) http_adapters @
     [(''hyparrow'', hyparrow_enabled (cfg_hyparrow e))] @ (if cfg_sandbox e then [(''sandbox'', True)] else [])"

definition has_payout_provider :: "externals \<Rightarrow> string \<Rightarrow> bool" where
  "has_payout_provider e name \<longleftrightarrow> map_of (payout_providers e) name \<noteq> None"

definition payout_enabled :: "externals \<Rightarrow> string \<Rightarrow> bool" where
  "payout_enabled e name \<longleftrightarrow> map_of (payout_providers e) name = Some True"

section \<open>The HTTP adapters\<close>

definition no_result :: payout_result where
  "no_result = \<lparr>px_outcome = OutcomeRejectedRetryable, px_reference = '''', px_reason = ''''\<rparr>"

definition default_parse_response :: "externals \<Rightarrow> string \<Rightarrow> payout_result option" where
  "default_parse_response e body = (case struct_fields (x_json e body) of None \<Rightarrow> None
     | Some kvs \<Rightarrow> (case str_field kvs ''reference_id'' of None \<Rightarrow> None
       | Some ref \<Rightarrow> if ref = '''' then Some (no_result\<lparr>px_reason := ''response missing reference_id''\<rparr>)
           else Some (no_result\<lparr>px_outcome := OutcomeAccepted, px_reference := ref\<rparr>)))"

definition http_dispatch :: "string \<Rightarrow> payout_request \<Rightarrow> payout_result run" where
  "http_dispatch name req = bindE (ask (CallPayout name req) (\<lambda>e log. x_http_payout e log name req)) (\<lambda>r. case r of
       Inl m \<Rightarrow> fail (OtherErr (''settlement: build request: '' @ m))
     | Inr (NoReply m) \<Rightarrow> ret (no_result\<lparr>px_reason := m\<rparr>)
     | Inr (Reply status body) \<Rightarrow>
         if status < 200 \<or> status \<ge> 300
         then ret (no_result\<lparr>px_reason := name @ '' returned status '' @ dec_int status @ '': '' @ body\<rparr>)
         else bindE (gets env) (\<lambda>e. case default_parse_response e body of
             None \<Rightarrow> fail (OtherErr ''settlement: parse response'')
           | Some x \<Rightarrow> ret x))"

section \<open>Hyparrow\<close>

record bank_destination =
  bd_account :: string
  bd_bank :: string
  bd_name :: string
  bd_bank_name :: string

definition parse_bank_destination :: "json \<Rightarrow> bank_destination option" where
  "parse_bank_destination j = (case struct_fields (Some j) of None \<Rightarrow> None | Some kvs \<Rightarrow>
     (case (str_field kvs ''account_number'', str_field kvs ''bank_code'', str_field kvs ''account_name'', str_field kvs ''bank_name'') of
       (Some a, Some b, Some n, Some k) \<Rightarrow> Some \<lparr>bd_account = trim_space a, bd_bank = trim_space b, bd_name = trim_space n, bd_bank_name = trim_space k\<rparr>
     | _ \<Rightarrow> None))"

definition hyparrow_reference :: "uuid \<Rightarrow> int \<Rightarrow> string" where
  "hyparrow_reference sid n = ''2S-'' @ sid @ ''-'' @ dec_int n"

definition hyparrow_kobo :: "externals \<Rightarrow> rat \<Rightarrow> string" where
  "hyparrow_kobo e amount = x_fixed e 0 (x_round e 0 (amount * 100))"

text \<open>\<open>do\<close>: a body that is not JSON counts as empty.\<close>

definition reply_fields :: "externals \<Rightarrow> string \<Rightarrow> (string \<times> json) list" where
  "reply_fields e body = (case struct_fields (x_json e body) of None \<Rightarrow> [] | Some kvs \<Rightarrow> kvs)"

definition hyparrow_do :: "hy_request \<Rightarrow> (string + int \<times> (string \<times> json) list) run" where
  "hyparrow_do q = bindE (ask (CallHyparrow q) (\<lambda>e log. x_hyparrow e log q)) (\<lambda>r. bindE (gets env) (\<lambda>e. ret (case r of
       NoReply m \<Rightarrow> Inl m | Reply status body \<Rightarrow> Inr (status, reply_fields e body))))"

definition error_text :: "int \<Rightarrow> (string \<times> json) list \<Rightarrow> string" where
  "error_text status kvs = (if str_lax kvs ''error'' \<noteq> '''' then str_lax kvs ''error''
     else if str_lax kvs ''message'' \<noteq> '''' then str_lax kvs ''message'' else ''HTTP '' @ dec_int status)"

datatype send_outcome = HyAccepted | HyRejected string | HyUnknown string

definition classify_send :: "string + int \<times> (string \<times> json) list \<Rightarrow> send_outcome" where
  "classify_send r = (case r of
       Inl m \<Rightarrow> HyUnknown (''no response from hyparrow: '' @ m)
     | Inr (status, kvs) \<Rightarrow>
         if status = 200 \<or> status = 202
         then (if str_lax (obj_lax kvs ''data'') ''status'' = ''reversed'' then HyRejected ''transfer was rejected and reversed'' else HyAccepted)
         else let msg = error_text status kvs in
           if 400 \<le> status \<and> status < 500 \<or> str_lax kvs ''status'' = ''reversed'' then HyRejected msg
           else HyUnknown (''hyparrow returned HTTP '' @ dec_int status @ '': '' @ msg))"

definition hyparrow_send :: "hy_send \<Rightarrow> send_outcome run" where
  "hyparrow_send q = bindE (hyparrow_do (HySend q)) (\<lambda>r. ret (classify_send r))"

definition resolve_account :: "string \<Rightarrow> string \<Rightarrow> (string + string) run" where
  "resolve_account account bank = bindE (hyparrow_do (HyInquiry account bank)) (\<lambda>r. ret (case r of
       Inl m \<Rightarrow> Inl (''hyparrow account inquiry: '' @ m)
     | Inr (status, kvs) \<Rightarrow>
         let name = str_lax (obj_lax kvs ''data'') ''accountname'' in
         if 200 \<le> status \<and> status < 300 \<and> bool_ptr_lax kvs ''success'' \<noteq> Some False \<and> name \<noteq> '''' then Inr name
         else Inl (''hyparrow account inquiry failed: '' @ error_text status kvs)))"

text \<open>\<open>getStatus\<close>: \<open>Inr None\<close> when the transfer is not found.\<close>

definition get_transfer_status :: "string \<Rightarrow> (string + string option) run" where
  "get_transfer_status ref = bindE (hyparrow_do (HyStatus ref)) (\<lambda>r. ret (case r of
       Inl m \<Rightarrow> Inl m
     | Inr (status, kvs) \<Rightarrow>
         let s = str_lax (obj_lax (obj_lax kvs ''data'') ''transaction'') ''settlementstatus'' in
         if status = 404 then Inr None
         else if status = 200 \<and> s \<noteq> '''' then Inr (Some s)
         else Inl (''hyparrow status lookup: '' @ error_text status kvs)))"

definition hyparrow_dispatch :: "payout_request \<Rightarrow> payout_result run" where
  "hyparrow_dispatch req =
     (let terminal = (\<lambda>m. ret (no_result\<lparr>px_outcome := OutcomeRejectedTerminal, px_reason := m\<rparr>)) in
      if pq_fiat req \<noteq> ''NGN'' then terminal (''hyparrow only pays NGN, got '' @ pq_fiat req)
      else case parse_bank_destination (pq_destination req) of
        None \<Rightarrow> terminal ''payout destination is not a bank-details object''
      | Some d \<Rightarrow> if bd_account d = '''' \<or> bd_bank d = '''' then terminal ''payout destination is missing account_number or bank_code''
          else bindE (resolve_account (bd_account d) (bd_bank d)) (\<lambda>r. case r of
            Inl m \<Rightarrow> ret (no_result\<lparr>px_reason := m\<rparr>)
          | Inr name \<Rightarrow> bindE (gets env) (\<lambda>e.
              let c = cfg_hyparrow e; ref = hyparrow_reference (pq_session req) (pq_number req) in
              bindE (hyparrow_send \<lparr>hs_amount = hyparrow_kobo e (pq_amount req), hs_account = bd_account d, hs_bank = bd_bank d,
                  hs_name = name, hs_phone = hc_phone c, hs_email = hc_email c, hs_lastname = hc_lastname c,
                  hs_othernames = hc_othernames c, hs_narration = ''2Settle payout '' @ take 8 (pq_session req), hs_ref = ref\<rparr>)
                (\<lambda>out. case out of
                   HyAccepted \<Rightarrow> ret (no_result\<lparr>px_outcome := OutcomeAccepted, px_reference := ref\<rparr>)
                 | HyRejected m \<Rightarrow> ret (no_result\<lparr>px_reference := ref, px_reason := m\<rparr>)
                 | HyUnknown m \<Rightarrow> bindE (get_transfer_status ref) (\<lambda>s. case s of
                       Inr (Some x) \<Rightarrow> if x = ''reversed''
                         then ret (no_result\<lparr>px_reference := ref, px_reason := ''transfer was reversed (recovered after: '' @ m @ '')''\<rparr>)
                         else ret (no_result\<lparr>px_outcome := OutcomeAccepted, px_reference := ref\<rparr>)
                     | _ \<Rightarrow> ret (no_result\<lparr>px_outcome := OutcomeUncertain, px_reference := ref, px_reason := ''outcome unknown: '' @ m\<rparr>))))))"

definition sandbox_dispatch :: "payout_result run" where
  "sandbox_dispatch = bindE gen_uuid (\<lambda>u. ret (no_result\<lparr>px_outcome := OutcomeAccepted, px_reference := ''sandbox-'' @ u\<rparr>))"

text \<open>\<open>provider.Dispatch\<close>\<close>

definition provider_dispatch :: "string \<Rightarrow> payout_request \<Rightarrow> payout_result run" where
  "provider_dispatch name req = (if name = ''hyparrow'' then hyparrow_dispatch req
     else if name = ''sandbox'' then sandbox_dispatch else http_dispatch name req)"

section \<open>Webhooks\<close>

datatype event_kind = WIgnored | WSucceeded | WFailed | WReturned | WReversed | WDeclined

record webhook_event =
  we_kind :: event_kind
  we_ref :: string
  we_reason :: string

definition compute_payout_signature :: "externals \<Rightarrow> string \<Rightarrow> string \<Rightarrow> string" where
  "compute_payout_signature e secret body = hex_encode (x_hmac e secret body)"

definition verify_payout_signature :: "externals \<Rightarrow> string \<Rightarrow> string \<Rightarrow> string \<Rightarrow> bool" where
  "verify_payout_signature e secret body sig \<longleftrightarrow> compute_payout_signature e secret body = sig"

text \<open>The amount of the generic payload: any decimal, as a number or as a text.\<close>

definition decimal_field_ok :: "externals \<Rightarrow> (string \<times> json) list \<Rightarrow> string \<Rightarrow> bool" where
  "decimal_field_ok e kvs n = list_all (\<lambda>j. case j of JNum x \<Rightarrow> True | JNull \<Rightarrow> True | JStr s \<Rightarrow> x_decimal_ok e s | _ \<Rightarrow> False) (vals_at kvs n)"

definition parse_generic_webhook :: "externals \<Rightarrow> string \<Rightarrow> string \<Rightarrow> string \<Rightarrow> err + webhook_event" where
  "parse_generic_webhook e secret sig body =
     (if secret = '''' then Inl ErrUnknownProvider
      else if \<not> verify_payout_signature e secret body sig then Inl ErrInvalidWebhookSignature
      else case struct_fields (x_json e body) of None \<Rightarrow> Inl (OtherErr ''settlement: parse webhook payload'')
      | Some kvs \<Rightarrow> (case (str_field kvs ''event_type'', str_field kvs ''reference_id'', str_field kvs ''failure_reason'') of
          (Some ty, Some ref, Some reason) \<Rightarrow>
            if \<not> decimal_field_ok e kvs ''amount'' then Inl (OtherErr ''settlement: parse webhook payload'')
            else if ty = ''payout.succeeded'' then Inr \<lparr>we_kind = WSucceeded, we_ref = ref, we_reason = reason\<rparr>
            else if ty = ''payout.failed'' then Inr \<lparr>we_kind = WFailed, we_ref = ref, we_reason = reason\<rparr>
            else if ty = ''payout.returned'' then Inr \<lparr>we_kind = WReturned, we_ref = ref, we_reason = reason\<rparr>
            else Inl (OtherErr ''settlement: unknown webhook event type'')
        | _ \<Rightarrow> Inl (OtherErr ''settlement: parse webhook payload'')))"

definition hyparrowWebhookTolerance :: time where "hyparrowWebhookTolerance = 300 * second"

definition compute_hyparrow_signature :: "externals \<Rightarrow> string \<Rightarrow> string \<Rightarrow> string \<Rightarrow> string" where
  "compute_hyparrow_signature e secret ts body = hex_encode (x_hmac e secret (ts @ ''.'' @ body))"

definition verify_hyparrow_signature :: "externals \<Rightarrow> string \<Rightarrow> string \<Rightarrow> string \<Rightarrow> string \<Rightarrow> time \<Rightarrow> bool" where
  "verify_hyparrow_signature e secret ts sig body t \<longleftrightarrow> ts \<noteq> '''' \<and> sig \<noteq> '''' \<and>
     (case x_float_nanos e ts of None \<Rightarrow> False | Some stamp \<Rightarrow>
        \<bar>t - stamp\<bar> \<le> hyparrowWebhookTolerance \<and> compute_hyparrow_signature e secret ts body = sig)"

definition declined_reason :: "(string \<times> json) list \<Rightarrow> string" where
  "declined_reason pv = (let reason = str_lax pv ''responsemessage''; code = str_lax pv ''transactionresponsecode'' in
     (if reason = '''' then ''Declined'' else reason) @ (if code = '''' then '''' else '' (code '' @ code @ '')''))"

definition parse_hyparrow_webhook :: "externals \<Rightarrow> string \<Rightarrow> string \<Rightarrow> string \<Rightarrow> time \<Rightarrow> err + webhook_event" where
  "parse_hyparrow_webhook e ts sig body t =
     (let secret = hc_secret (cfg_hyparrow e); ignored = \<lparr>we_kind = WIgnored, we_ref = '''', we_reason = ''''\<rparr>;
          bad = Inl (OtherErr ''settlement: parse hyparrow webhook'') in
      if secret = '''' then Inl ErrUnknownProvider
      else if \<not> verify_hyparrow_signature e secret ts sig body t then Inl ErrInvalidWebhookSignature
      else case struct_fields (x_json e body) of None \<Rightarrow> bad
      | Some kvs \<Rightarrow> (case (str_field kvs ''event'', obj_field kvs ''data'') of
          (Some ty, Some d) \<Rightarrow> (case (str_field d ''clientreference'', str_field d ''reason'', obj_field d ''provider'') of
            (Some ref, Some reason, Some pv) \<Rightarrow>
              if str_field pv ''transactionresponsecode'' = None \<or> str_field pv ''responsemessage'' = None then bad
              else if ref = '''' then Inr ignored
              else if ty = ''transfer.settled'' then Inr \<lparr>we_kind = WSucceeded, we_ref = ref, we_reason = ''''\<rparr>
              else if ty = ''transfer.failed'' then Inr \<lparr>we_kind = WDeclined, we_ref = ref, we_reason = declined_reason pv\<rparr>
              else if ty = ''transfer.reversed'' then Inr \<lparr>we_kind = WReversed, we_ref = ref,
                we_reason = ''Reversed: '' @ (if reason = '''' then ''unknown reason'' else reason)\<rparr>
              else Inr ignored
          | _ \<Rightarrow> bad)
        | _ \<Rightarrow> bad))"

text \<open>\<open>provider.parseWebhook(header, body)\<close>, with \<open>hdr\<close> the headers.\<close>

definition parse_webhook :: "externals \<Rightarrow> time \<Rightarrow> string \<Rightarrow> (string \<Rightarrow> string) \<Rightarrow> string \<Rightarrow> err + webhook_event" where
  "parse_webhook e t name hdr body =
     (if name = ''hyparrow'' then parse_hyparrow_webhook e (hdr ''X-Hyparrow-Timestamp'') (hdr ''X-Hyparrow-Signature-256'') body t
      else if name = ''sandbox'' then Inl ErrUnknownProvider
      else parse_generic_webhook e (ad_secret (cfg_adapters e name)) (hdr ''X-Webhook-Signature'') body)"

section \<open>Telegram\<close>

definition telegram_on :: "externals \<Rightarrow> bool" where
  "telegram_on e \<longleftrightarrow> tc_enabled (cfg_telegram e) \<and> tc_token (cfg_telegram e) \<noteq> '''' \<and> tc_chat (cfg_telegram e) \<noteq> ''''"

text \<open>A call to the Bot API; whether it succeeded.\<close>

definition telegram_call :: "tg_call \<Rightarrow> bool run" where
  "telegram_call c = ask (CallTelegram c) (\<lambda>e log. x_telegram e log c)"

definition telegramSettleAction :: string where "telegramSettleAction = ''settle:''"

definition copy_button :: "string \<Rightarrow> string \<Rightarrow> tg_button" where
  "copy_button label value = \<lparr>tb_text = label, tb_callback = '''', tb_copy = Some (take 256 value)\<rparr>"

definition nl :: string where "nl = [CHR 0x0A]"

definition payout_amount :: "externals \<Rightarrow> settlement \<Rightarrow> string" where
  "payout_amount e st = x_fixed e 2 (st_payable st)"

definition manual_payout_message :: "externals \<Rightarrow> settlement \<Rightarrow> bank_destination \<Rightarrow> string \<Rightarrow> string \<times> tg_button list list" where
  "manual_payout_message e st d reason =
     (let bank = (if bd_bank_name d = '''' then bd_bank d else bd_bank_name d);
          code = (\<lambda>s. ''<code>'' @ html_escape s @ ''</code>'') in
      (''<b>Manual Settlement Required</b>'' @ nl @ nl @
       ''<b>Session:</b> '' @ code (st_session st) @ nl @
       ''<b>Amount ('' @ html_escape (st_fiat st) @ ''):</b> '' @ code (payout_amount e st) @ nl @
       ''<b>Account:</b> '' @ code (bd_account d) @ nl @
       ''<b>Bank:</b> '' @ code bank @ nl @
       ''<b>Name:</b> '' @ html_escape (bd_name d) @ nl @ nl @
       ''<b>Error:</b> '' @ html_escape reason @ nl @ nl @
       ''Use the Copy buttons below, then mark the settlement completed after manual payment.'',
       [[copy_button ''Copy amount'' (payout_amount e st), copy_button ''Copy account'' (bd_account d)],
        [copy_button ''Copy bank'' bank],
        [\<lparr>tb_text = ''Settlement completed'', tb_callback = telegramSettleAction @ st_id st, tb_copy = None\<rparr>]]))"

definition review_message :: "externals \<Rightarrow> settlement \<Rightarrow> string \<Rightarrow> string \<Rightarrow> string" where
  "review_message e st ref reason = ''<b>Settlement Needs Review</b>'' @ nl @ nl @
     ''<b>Session:</b> <code>'' @ html_escape (st_session st) @ ''</code>'' @ nl @
     ''<b>Amount:</b> '' @ html_escape (st_fiat st) @ '' '' @ html_escape (payout_amount e st) @ nl @
     ''<b>Reference:</b> <code>'' @ html_escape ref @ ''</code>'' @ nl @ nl @
     ''<b>Status:</b> '' @ html_escape reason @ nl @ nl @
     ''<b>Do NOT pay manually yet.</b> The transfer may still land. Look up the reference in the provider dashboard first.''"

definition reversal_message :: "externals \<Rightarrow> settlement \<Rightarrow> string \<Rightarrow> string" where
  "reversal_message e st reason = ''<b>Settlement Reversed</b>'' @ nl @ nl @
     ''<b>Session:</b> <code>'' @ html_escape (st_session st) @ ''</code>'' @ nl @
     ''<b>Amount:</b> '' @ html_escape (st_fiat st) @ '' '' @ html_escape (payout_amount e st) @ nl @ nl @
     ''<b>Reason:</b> '' @ html_escape reason @ nl @ nl @
     ''<b>Action Required:</b> Investigate and resolve via the settlement reversals queue.''"

definition manual_settled_message :: "settlement \<Rightarrow> string \<Rightarrow> string" where
  "manual_settled_message st who = ''<b>Manual settlement completed</b>'' @ nl @ nl @
     ''<b>Session:</b> <code>'' @ html_escape (st_session st) @ ''</code>'' @ nl @ ''<b>Marked by:</b> '' @ html_escape who"

text \<open>The alerts: nothing without Telegram, and a failed delivery is only logged.\<close>

definition alert :: "(externals \<Rightarrow> string) \<Rightarrow> unit run" where
  "alert m = bindE (gets env) (\<lambda>e. if telegram_on e then thenE (telegram_call (TgSend (m e) None)) (ret ()) else ret ())"

definition alert_review :: "settlement \<Rightarrow> string \<Rightarrow> string \<Rightarrow> unit run" where
  "alert_review st ref reason = alert (\<lambda>e. review_message e st ref reason)"

definition alert_reversal :: "settlement \<Rightarrow> string \<Rightarrow> unit run" where
  "alert_reversal st reason = alert (\<lambda>e. reversal_message e st reason)"

end
