(* ===== verification/Settlement.thy ===== *)
theory Settlement
  imports Payout
begin

text \<open>
  Settlements, \<^verbatim>\<open>internal/settlement\<close>: the pipeline that turns a confirmed deposit into a payout.
  The event handler claims a row; the dispatch worker posts the ledger transactions of the deposit,
  claims the payout in the ledger and calls a provider; webhooks, the timeout job, ops and the
  Telegram fallback move the row on. Every operation takes the settlement it works on as the code
  does: a copy read earlier, so that a stale copy can be modelled.
\<close>

abbreviation ErrSettlementNotFound :: err where "ErrSettlementNotFound \<equiv> Sentinel ''settlement: not found''"
abbreviation ErrUnknownAttempt :: err where
  "ErrUnknownAttempt \<equiv> Sentinel ''settlement: webhook references an unknown settlement attempt''"
abbreviation ErrNotRetryable :: err where "ErrNotRetryable \<equiv> Sentinel ''settlement: not eligible for retry''"
abbreviation ErrReversalNotFound :: err where "ErrReversalNotFound \<equiv> Sentinel ''settlement: reversal case not found''"
abbreviation ErrReversalAlreadyResolved :: err where
  "ErrReversalAlreadyResolved \<equiv> Sentinel ''settlement: reversal case already resolved''"
abbreviation ErrTelegramDisabled :: err where "ErrTelegramDisabled \<equiv> Sentinel ''settlement: telegram fallback not configured''"
abbreviation ErrInvalidTelegramSecret :: err where
  "ErrInvalidTelegramSecret \<equiv> Sentinel ''settlement: invalid telegram webhook secret''"

definition MaxAutoRetryAttempts :: int where "MaxAutoRetryAttempts = 3"
definition ConfirmationTimeout :: time where "ConfirmationTimeout = 10 * minute"
definition RetryBackoff :: time where "RetryBackoff = 60 * second"

section \<open>Reading settlements\<close>

definition get_settlement :: "uuid \<Rightarrow> settlement run" where
  "get_settlement i = bindE (query (\<lambda>w. find (\<lambda>s. st_id s = i) (settlements w)))
     (\<lambda>r. case r of None \<Rightarrow> fail ErrSettlementNotFound | Some s \<Rightarrow> ret s)"

definition get_settlement_by_session :: "uuid \<Rightarrow> settlement run" where
  "get_settlement_by_session i = bindE (query (\<lambda>w. find (\<lambda>s. st_session s = i) (settlements w)))
     (\<lambda>r. case r of None \<Rightarrow> fail ErrSettlementNotFound | Some s \<Rightarrow> ret s)"

definition list_settlements :: "string \<Rightarrow> (settlement list) run" where
  "list_settlements status = query (\<lambda>w. sort_key st_created (filter (\<lambda>s. st_status s = status) (settlements w)))"

definition list_settlements_by_tenant :: "uuid \<Rightarrow> string option \<Rightarrow> (settlement list) run" where
  "list_settlements_by_tenant tenant status = query (\<lambda>w. sort_key (\<lambda>s. - st_created s)
     (filter (\<lambda>s. st_tenant s = tenant \<and> (status = None \<or> status = Some (st_status s))) (settlements w)))"

section \<open>Claiming a row for a session\<close>

text \<open>\<open>handleDepositConfirmed\<close>: \<open>INSERT .. SELECT .. FROM sessions .. ON CONFLICT (session_id) DO NOTHING\<close>.\<close>

definition new_settlement :: "session \<Rightarrow> uuid \<Rightarrow> time \<Rightarrow> settlement" where
  "new_settlement s i t = \<lparr>st_id = i, st_session = s_id s, st_tenant = s_tenant s, st_corridor = s_corridor s,
     st_status = ''pending_dispatch'', st_asset = s_asset s, st_crypto_amount = 0, st_fiat = s_fiat s, st_fiat_value = 0,
     st_payable = 0, st_attempts = 0, st_deadline = None, st_paged = None, st_destination = Some (s_destination s),
     st_created = t, st_updated = t\<rparr>"

definition claim_settlement :: "event \<Rightarrow> unit run" where
  "claim_settlement e = stmt (bindE (gets (\<lambda>w. find (\<lambda>s. s_id s = ev_agg_id e) (sessions w))) (\<lambda>r. case r of
       None \<Rightarrow> ret ()
     | Some s \<Rightarrow> bindE (gets (\<lambda>w. list_ex (\<lambda>st. st_session st = s_id s) (settlements w))) (\<lambda>dup.
         if dup then ret ()
         else bindE gen_uuid (\<lambda>i. modify (\<lambda>w. w\<lparr>settlements := settlements w @ [new_settlement s i (now w)]\<rparr>)))))"

section \<open>Ledger postings\<close>

record settle_accounts =
  sa_transit :: uuid
  sa_crypto_fx :: uuid
  sa_fiat_fx :: uuid
  sa_operating :: uuid
  sa_payable :: uuid

definition resolve_accounts :: "uuid \<Rightarrow> string \<Rightarrow> string \<Rightarrow> settle_accounts run" where
  "resolve_accounts tenant asset fiat =
     bindE (get_or_create_account None ''treasury_in_transit'' asset ''crypto'' (''Treasury in-transit: '' @ asset)) (\<lambda>a.
     bindE (get_or_create_account None ''crypto_fx_clearing'' asset ''crypto'' (''Crypto FX clearing: '' @ asset)) (\<lambda>b.
     bindE (get_or_create_account None ''fiat_fx_clearing'' fiat ''fiat'' (''Fiat FX clearing: '' @ fiat)) (\<lambda>c.
     bindE (get_or_create_account None ''treasury_fiat_operating'' fiat ''fiat'' (''Treasury fiat operating: '' @ fiat)) (\<lambda>d.
     bindE (get_or_create_account (Some tenant) ''tenant_payable'' fiat ''fiat'' (''Tenant payable: '' @ fiat)) (\<lambda>e.
       ret \<lparr>sa_transit = a, sa_crypto_fx = b, sa_fiat_fx = c, sa_operating = d, sa_payable = e\<rparr>)))))"

definition payout_key :: "uuid \<Rightarrow> int \<Rightarrow> string" where
  "payout_key sid n = ''settlement_payout:session_'' @ sid @ '':attempt_'' @ dec_int n"

definition reversal_key :: "uuid \<Rightarrow> int \<Rightarrow> string" where
  "reversal_key sid n = ''settlement_reversal:session_'' @ sid @ '':attempt_'' @ dec_int n"

definition manual_key :: "uuid \<Rightarrow> string" where
  "manual_key sid = ''settlement_payout:session_'' @ sid @ '':manual''"

text \<open>One debit and one credit of the same amount.\<close>

definition pair_txn :: "string \<Rightarrow> string \<Rightarrow> string \<Rightarrow> uuid \<Rightarrow> string \<Rightarrow> uuid \<Rightarrow> uuid \<Rightarrow> rat \<Rightarrow> string \<Rightarrow> txn" where
  "pair_txn key ty rty rid who d c amount asset = \<lparr>t_key = key, t_type = ty, t_ref_type = rty, t_ref_id = rid, t_created_by = who,
     t_entries = [\<lparr>e_account = d, e_direction = Debit, e_amount = amount, e_asset = asset\<rparr>,
                  \<lparr>e_account = c, e_direction = Credit, e_amount = amount, e_asset = asset\<rparr>]\<rparr>"

text \<open>\<open>Post\<close> with \<open>ErrAlreadyPosted\<close> told apart: whether this call posted it.\<close>

definition claim_post :: "txn \<Rightarrow> bool run" where
  "claim_post t = onErr (thenE (post t) (ret True)) (\<lambda>e. if e = ErrAlreadyPosted then ret False else fail e)"

definition post_once :: "txn \<Rightarrow> unit run" where
  "post_once t = quiet (claim_post t)"

definition payout_txn :: "settlement \<Rightarrow> settle_accounts \<Rightarrow> int \<Rightarrow> txn" where
  "payout_txn st a n = pair_txn (payout_key (st_session st) n) ''settlement_payout'' ''session'' (st_session st) ''settlement''
     (sa_payable a) (sa_operating a) (st_payable st) (st_fiat st)"

definition attempt_reversal_txn :: "settlement \<Rightarrow> settle_accounts \<Rightarrow> int \<Rightarrow> txn" where
  "attempt_reversal_txn st a n = pair_txn (reversal_key (st_session st) n) ''reversal'' ''session'' (st_session st) ''settlement''
     (sa_operating a) (sa_payable a) (st_payable st) (st_fiat st)"

section \<open>Transitions\<close>

definition update_settlement :: "uuid \<Rightarrow> (time \<Rightarrow> settlement \<Rightarrow> settlement) \<Rightarrow> unit run" where
  "update_settlement i f = exec (\<lambda>w. w\<lparr>settlements := update_where (\<lambda>s. st_id s = i) (f (now w)) (settlements w)\<rparr>)"

definition update_attempt :: "uuid \<Rightarrow> (attempt \<Rightarrow> attempt) \<Rightarrow> unit run" where
  "update_attempt i f = exec (\<lambda>w. w\<lparr>attempts := update_where (\<lambda>a. at_id a = i) f (attempts w)\<rparr>)"

text \<open>\<open>UPDATE settlements SET status = .. WHERE id = .. AND status = from\<close>: whether a row was affected.\<close>

definition cas_settlement :: "uuid \<Rightarrow> string \<Rightarrow> (time \<Rightarrow> settlement \<Rightarrow> settlement) \<Rightarrow> bool run" where
  "cas_settlement i from f = stmt (bindE (gets (\<lambda>w. list_ex (\<lambda>s. st_id s = i \<and> st_status s = from) (settlements w))) (\<lambda>hit.
     thenE (modify (\<lambda>w. w\<lparr>settlements := update_where (\<lambda>s. st_id s = i \<and> st_status s = from) (f (now w)) (settlements w)\<rparr>)) (ret hit)))"

definition set_status :: "string \<Rightarrow> time \<Rightarrow> settlement \<Rightarrow> settlement" where
  "set_status to t s = s\<lparr>st_status := to, st_updated := t\<rparr>"

definition transition_settlement :: "settlement \<Rightarrow> string \<Rightarrow> string \<Rightarrow> string \<Rightarrow> unit run \<Rightarrow> bool run" where
  "transition_settlement st from to ty extra = atomically (thenE begin_tx
     (bindE (cas_settlement (st_id st) from (set_status to)) (\<lambda>hit.
        if \<not> hit then ret False
        else thenE extra
          (thenE (publish_if_bus ty ''settlement'' (st_id st) [(''session_id'', PStr (st_session st)), (''tenant_id'', PStr (st_tenant st))])
            (thenE commit_tx (ret True))))))"

definition page_ops :: "uuid \<Rightarrow> unit run" where
  "page_ops i = update_settlement i (\<lambda>t s. s\<lparr>st_paged := Some t\<rparr>)"

definition release_of :: "session \<Rightarrow> unit run" where
  "release_of s = (case s_reservation s of None \<Rightarrow> ret () | Some r \<Rightarrow> release_reservation r)"

section \<open>Giving up: the manual fallback and the failure\<close>

definition resolve_destination :: "settlement \<Rightarrow> json run" where
  "resolve_destination st = (case st_destination st of
       Some j \<Rightarrow> ret j
     | None \<Rightarrow> bindE (query (\<lambda>w. first_min (\<lambda>a. - at_number a)
           (filter (\<lambda>a. at_settlement a = st_id st \<and> at_payload a \<noteq> JObj []) (attempts w)))) (\<lambda>r. case r of
         Some a \<Rightarrow> ret (at_payload a)
       | None \<Rightarrow> bindE (get_session (st_session st)) (\<lambda>s. ret (s_destination s))))"

definition hand_to_manual :: "settlement \<Rightarrow> string \<Rightarrow> bool run" where
  "hand_to_manual st reason = bindE (attemptE (resolve_destination st)) (\<lambda>r. case r of
       Inl e \<Rightarrow> ret False
     | Inr raw \<Rightarrow> (case parse_bank_destination raw of
         None \<Rightarrow> ret False
       | Some d \<Rightarrow> if bd_account d = '''' then ret False
           else bindE (gets env) (\<lambda>e. case manual_payout_message e st d reason of (message, keyboard) \<Rightarrow>
             bindE (telegram_call (TgSend message (Some keyboard))) (\<lambda>sent.
               if \<not> sent then ret False
               else thenE (transition_settlement st ''settling'' ''awaiting_manual_payout'' ''settlement.awaiting_manual_payout'' (page_ops (st_id st)))
                 (ret True)))))"

definition fail_settlement :: "settlement \<Rightarrow> string \<Rightarrow> unit run" where
  "fail_settlement st reason = bindE (gets env) (\<lambda>e.
     bindE (if telegram_on e then hand_to_manual st reason else ret False) (\<lambda>handled.
       if handled then ret ()
       else bindE (transition_settlement st ''settling'' ''settlement_failed'' ''settlement.failed'' (page_ops (st_id st))) (\<lambda>hit.
         if \<not> hit then ret ()
         else thenE (transition_to_settlement_failed (st_session st))
           (bindE (get_session (st_session st)) release_of))))"

section \<open>Dispatching an attempt\<close>

definition tried_providers :: "uuid \<Rightarrow> (string list) run" where
  "tried_providers i = query (\<lambda>w. map at_provider (filter (\<lambda>a. at_settlement a = i) (attempts w)))"

definition select_provider :: "uuid \<Rightarrow> string list \<Rightarrow> (string option) run" where
  "select_provider cid tried = bindE (list_active_providers cid ProviderTypeSettlement) (\<lambda>bs. bindE (gets env) (\<lambda>e.
     let enabled = filter (payout_enabled e) (map pb_name bs) in
     ret (case find (\<lambda>p. p \<notin> set tried) enabled of
         Some p \<Rightarrow> Some p
       | None \<Rightarrow> (case enabled of [] \<Rightarrow> None | p # _ \<Rightarrow> Some p))))"

definition insert_attempt :: "uuid \<Rightarrow> int \<Rightarrow> string \<Rightarrow> string \<Rightarrow> string \<Rightarrow> json \<Rightarrow> attempt run" where
  "insert_attempt i n name key status payload = stmt
     (bindE (gets (\<lambda>w. list_ex (\<lambda>a. at_key a = key \<or> at_settlement a = i \<and> at_number a = n) (attempts w))) (\<lambda>dup.
        thenE (guardE (\<not> dup) (UniqueErr ''settlement_attempts''))
       (bindE (gets (\<lambda>w. list_ex (\<lambda>s. st_id s = i) (settlements w))) (\<lambda>known.
        thenE (guardE (known \<and> int4_ok n) (ConstraintErr ''settlement_attempts''))
       (bindE gen_uuid (\<lambda>u. bindE (gets (\<lambda>w. \<lparr>at_id = u, at_settlement = i, at_number = n, at_provider = name, at_key = key,
             at_status = status, at_reference = None, at_reason = None, at_payload = payload, at_dispatched = now w,
             at_resolved = (if status = ''dispatched'' then None else Some (now w))\<rparr>)) (\<lambda>a.
         thenE (modify (\<lambda>w. w\<lparr>attempts := attempts w @ [a]\<rparr>)) (ret a))))))))"

definition clear_destination :: "settlement \<Rightarrow> settlement run" where
  "clear_destination st = (if st_destination st = None then ret st
     else thenE (update_settlement (st_id st) (\<lambda>t s. s\<lparr>st_destination := None\<rparr>)) (ret (st\<lparr>st_destination := None\<rparr>)))"

type_synonym failed_send = "attempt \<times> string \<times> string \<times> bool"

text \<open>The end of \<open>dispatchAttempt\<close>: a rejected attempt is returned with its bucket and reason.\<close>

definition route_outcome :: "settlement \<Rightarrow> attempt \<Rightarrow> string \<Rightarrow> payout_result \<Rightarrow> failed_send option run" where
  "route_outcome st a name x = (case px_outcome x of
       OutcomeAccepted \<Rightarrow> bindE (gets now) (\<lambda>t.
         thenE (transition_settlement st ''settling'' ''settling'' ''settlement.dispatched''
             (thenE (update_attempt (at_id a) (\<lambda>a. a\<lparr>at_reference := Some (px_reference x)\<rparr>))
               (update_settlement (st_id st) (\<lambda>_ s. s\<lparr>st_deadline := Some (t + ConfirmationTimeout)\<rparr>))))
           (ret None))
     | OutcomeUncertain \<Rightarrow> bindE (gets now) (\<lambda>t.
         thenE (transition_settlement st ''settling'' ''settling'' ''settlement.dispatched''
             (thenE (update_attempt (at_id a) (\<lambda>a. a\<lparr>at_reference := Some (px_reference x), at_reason := Some (px_reason x)\<rparr>))
               (update_settlement (st_id st) (\<lambda>n s. s\<lparr>st_deadline := Some (t + ConfirmationTimeout), st_paged := Some n\<rparr>))))
           (thenE (alert_review st (px_reference x) (name @ '': '' @ px_reason x)) (ret None)))
     | OutcomeRejectedTerminal \<Rightarrow> ret (Some (a, ''failed_bucket4'', px_reason x, True))
     | OutcomeRejectedRetryable \<Rightarrow> ret (Some (a, ''failed_bucket1'', px_reason x, False)))"

definition request_for :: "settlement \<Rightarrow> int \<Rightarrow> json \<Rightarrow> payout_request" where
  "request_for st n dest = \<lparr>pq_session = st_session st, pq_number = n, pq_key = payout_key (st_session st) n, pq_fiat = st_fiat st,
     pq_amount = st_payable st, pq_destination = dest\<rparr>"

definition send_attempt :: "settlement \<Rightarrow> failed_send option run" where
  "send_attempt st = bindE (tried_providers (st_id st)) (\<lambda>tried.
     bindE (select_provider (st_corridor st) tried) (\<lambda>p. case p of
       None \<Rightarrow> thenE (fail_settlement st ''no active, enabled settlement provider configured for this corridor'') (ret None)
     | Some name \<Rightarrow> bindE (resolve_accounts (st_tenant st) (st_asset st) (st_fiat st)) (\<lambda>acc.
         let n = st_attempts st + 1 in
         bindE (claim_post (payout_txn st acc n)) (\<lambda>claimed.
           if \<not> claimed then ret None
           else bindE (resolve_destination st) (\<lambda>dest.
             bindE (insert_attempt (st_id st) n name (payout_key (st_session st) n) ''dispatched'' dest) (\<lambda>a.
               thenE (update_settlement (st_id st) (\<lambda>t s. s\<lparr>st_attempts := n, st_updated := t\<rparr>))
                 (bindE (provider_dispatch name (request_for st n dest)) (\<lambda>x.
                   bindE (clear_destination (st\<lparr>st_attempts := n\<rparr>)) (\<lambda>st.
                     route_outcome st a name x))))))))) "

section \<open>The failure of an attempt\<close>

definition mark_attempt :: "uuid \<Rightarrow> (time \<Rightarrow> attempt \<Rightarrow> attempt) \<Rightarrow> bool run" where
  "mark_attempt i f = stmt (bindE (gets (\<lambda>w. list_ex (\<lambda>a. at_id a = i \<and> at_status a = ''dispatched'') (attempts w))) (\<lambda>hit.
     thenE (modify (\<lambda>w. w\<lparr>attempts := update_where (\<lambda>a. at_id a = i \<and> at_status a = ''dispatched'') (f (now w)) (attempts w)\<rparr>))
       (ret hit)))"

definition mark_failed :: "string \<Rightarrow> string \<Rightarrow> time \<Rightarrow> attempt \<Rightarrow> attempt" where
  "mark_failed bucket reason t a = a\<lparr>at_status := bucket, at_reason := Some reason, at_resolved := Some t\<rparr>"

definition mark_succeeded :: "time \<Rightarrow> attempt \<Rightarrow> attempt" where
  "mark_succeeded t a = a\<lparr>at_status := ''succeeded'', at_resolved := Some t\<rparr>"

definition has_untried :: "externals \<Rightarrow> string list \<Rightarrow> bool" where
  "has_untried e tried \<longleftrightarrow> list_ex (\<lambda>(p, on). on \<and> p \<notin> set tried) (payout_providers e)"

text \<open>
  \<open>handleAttemptFailure\<close> up to its last call: the settlement to dispatch again, after the sleep, or
  \<open>None\<close>.
\<close>

definition fail_attempt :: "attempt \<Rightarrow> string \<Rightarrow> string \<Rightarrow> bool \<Rightarrow> settlement option run" where
  "fail_attempt a bucket reason terminal = bindE (mark_attempt (at_id a) (mark_failed bucket reason)) (\<lambda>hit.
     if \<not> hit then ret None
     else bindE (get_settlement (at_settlement a)) (\<lambda>st.
       bindE (resolve_accounts (st_tenant st) (st_asset st) (st_fiat st)) (\<lambda>acc.
         thenE (post_once (attempt_reversal_txn st acc (at_number a)))
           (if terminal \<or> at_number a \<ge> MaxAutoRetryAttempts then thenE (fail_settlement st reason) (ret None)
            else bindE (tried_providers (st_id st)) (\<lambda>tried. bindE (gets env) (\<lambda>e.
              thenE (if has_untried e tried then ret () else modify (\<lambda>w. w\<lparr>now := now w + RetryBackoff\<rparr>))
                (ret (Some st))))))))"

text \<open>
  \<open>dispatchAttempt\<close> and \<open>handleAttemptFailure\<close> call each other; the fuel bounds the depth.
\<close>

fun dispatch_attempt :: "nat \<Rightarrow> settlement \<Rightarrow> unit run" where
  "dispatch_attempt 0 st = fail OutOfFuel"
| "dispatch_attempt (Suc n) st = bindE (send_attempt st) (\<lambda>r. case r of
       None \<Rightarrow> ret ()
     | Some (a, bucket, reason, terminal) \<Rightarrow> bindE (fail_attempt a bucket reason terminal) (\<lambda>r. case r of
         None \<Rightarrow> ret ()
       | Some st' \<Rightarrow> dispatch_attempt n st'))"

definition retry_fuel :: nat where "retry_fuel = 3"

definition handle_attempt_failure :: "attempt \<Rightarrow> string \<Rightarrow> string \<Rightarrow> bool \<Rightarrow> unit run" where
  "handle_attempt_failure a bucket reason terminal = bindE (fail_attempt a bucket reason terminal) (\<lambda>r. case r of
     None \<Rightarrow> ret () | Some st \<Rightarrow> dispatch_attempt retry_fuel st)"

section \<open>The dispatch worker\<close>

definition next_pending :: "world \<Rightarrow> settlement option" where
  "next_pending w = first_min st_created (filter (\<lambda>s. st_status s = ''pending_dispatch'') (settlements w))"

definition claim_next :: "settlement option run" where
  "claim_next = stmt (bindE (gets next_pending) (\<lambda>r. case r of
       None \<Rightarrow> ret None
     | Some s \<Rightarrow> bindE (gets now) (\<lambda>t.
         thenE (modify (\<lambda>w. w\<lparr>settlements := update_where (\<lambda>x. st_id x = st_id s) (set_status ''dispatching'' t) (settlements w)\<rparr>))
           (ret (Some (set_status ''dispatching'' t s))))))"

definition with_amounts :: "session \<Rightarrow> rat \<Rightarrow> rat \<Rightarrow> settlement \<Rightarrow> settlement" where
  "with_amounts s amount fiat st = st\<lparr>st_status := ''settling'', st_asset := s_asset s, st_crypto_amount := amount,
     st_fiat := s_fiat s, st_fiat_value := fiat, st_payable := fiat\<rparr>"

text \<open>The row keeps the amounts as its columns round them; the copy in memory keeps them unrounded.\<close>

definition write_settling :: "uuid \<Rightarrow> session \<Rightarrow> rat \<Rightarrow> rat \<Rightarrow> unit run" where
  "write_settling i s amount fiat = stmt (case (numeric_36_18 amount, numeric_36_18 fiat) of
       (Some a, Some f) \<Rightarrow> modify (\<lambda>w. w\<lparr>settlements := update_where (\<lambda>st. st_id st = i \<and> st_status st = ''dispatching'')
           (\<lambda>st. (with_amounts s a f st)\<lparr>st_updated := now w\<rparr>) (settlements w)\<rparr>)
     | _ \<Rightarrow> fail (ConstraintErr ''settlements''))"

definition deposit_txn :: "session \<Rightarrow> settle_accounts \<Rightarrow> rat \<Rightarrow> txn" where
  "deposit_txn s a amount = pair_txn (''deposit_confirmed:session_'' @ s_id s) ''deposit_confirmed'' ''session'' (s_id s) ''settlement''
     (sa_transit a) (sa_crypto_fx a) amount (s_asset s)"

definition conversion_txn :: "session \<Rightarrow> settle_accounts \<Rightarrow> rat \<Rightarrow> txn" where
  "conversion_txn s a fiat = pair_txn (''fx_conversion:session_'' @ s_id s) ''fx_conversion'' ''session'' (s_id s) ''settlement''
     (sa_fiat_fx a) (sa_payable a) fiat (s_fiat s)"

definition prepare_settlement :: "settlement \<Rightarrow> settlement run" where
  "prepare_settlement st = bindE (get_session (st_session st)) (\<lambda>s. case (s_reservation s, s_lock s) of
       (Some rid, Some l) \<Rightarrow> bindE (get_confirmed_deposit_total rid) (\<lambda>amount. bindE (get_lock l) (\<lambda>lk.
         let fiat = crypto_to_fiat lk amount in
         bindE (resolve_accounts (s_tenant s) (s_asset s) (s_fiat s)) (\<lambda>a.
           thenE (post_once (deposit_txn s a amount))
             (thenE (post_once (conversion_txn s a fiat))
               (thenE (write_settling (st_id st) s amount fiat)
                 (thenE (if s_status s \<noteq> ''settling'' then quiet (transition_to_settling (s_id s)) else ret ())
                   (ret ((with_amounts s amount fiat st)\<lparr>st_tenant := s_tenant s, st_corridor := s_corridor s\<rparr>))))))))
     | _ \<Rightarrow> fail (OtherErr ''settlement: session missing deposit reservation or rate lock''))"

definition process_settlement :: "settlement \<Rightarrow> unit run" where
  "process_settlement st = bindE (prepare_settlement st) (dispatch_attempt retry_fuel)"

fun dispatch_loop :: "nat \<Rightarrow> unit run" where
  "dispatch_loop 0 = fail OutOfFuel"
| "dispatch_loop (Suc n) = bindE claim_next (\<lambda>r. case r of
       None \<Rightarrow> ret ()
     | Some st \<Rightarrow> thenE (attemptE (process_settlement st)) (dispatch_loop n))"

text \<open>Each round claims a row that waits, and no round makes one wait: one more than there are is enough fuel.\<close>

definition dispatch_settlements :: "unit run" where
  "dispatch_settlements = bindE (gets (\<lambda>w. count_where (\<lambda>s. st_status s = ''pending_dispatch'') (settlements w)))
     (\<lambda>n. dispatch_loop (Suc n))"

section \<open>The outcome of a payout\<close>

definition complete_session :: "settlement \<Rightarrow> unit run" where
  "complete_session st = thenE (transition_to_settled (st_session st)) (bindE (get_session (st_session st)) release_of)"

definition handle_payout_succeeded :: "attempt \<Rightarrow> unit run" where
  "handle_payout_succeeded a = bindE (mark_attempt (at_id a) mark_succeeded) (\<lambda>hit.
     if \<not> hit then ret ()
     else bindE (get_settlement (at_settlement a)) (\<lambda>st.
       bindE (transition_settlement st ''settling'' ''settled'' ''settlement.completed'' (ret ())) (\<lambda>moved.
         if moved then complete_session st else ret ())))"

definition insert_reversal :: "settlement \<Rightarrow> string \<Rightarrow> unit run" where
  "insert_reversal st reason = stmt (thenE (bindE (gets (\<lambda>w. list_ex (\<lambda>s. st_id s = st_id st) (settlements w) \<and>
         list_ex (\<lambda>s. s_id s = st_session st) (sessions w))) (\<lambda>ok. guardE ok (ConstraintErr ''settlement_reversals'')))
     (bindE gen_uuid (\<lambda>u. modify (\<lambda>w. w\<lparr>reversals := reversals w @ [\<lparr>re_id = u, re_settlement = st_id st, re_session = st_session st,
         re_status = ''open'', re_reason = reason, re_reported = now w, re_resolved_by = None, re_resolved_at = None, re_note = None\<rparr>]\<rparr>))))"

definition return_txn :: "settlement \<Rightarrow> settle_accounts \<Rightarrow> txn" where
  "return_txn st a = pair_txn (''settlement_reversal:session_'' @ st_session st) ''reversal'' ''settlement'' (st_id st) ''settlement''
     (sa_operating a) (sa_payable a) (st_payable st) (st_fiat st)"

definition handle_payout_returned :: "attempt \<Rightarrow> string \<Rightarrow> unit run" where
  "handle_payout_returned a reason = bindE (get_settlement (at_settlement a)) (\<lambda>st.
     bindE (transition_settlement st ''settled'' ''reversed'' ''settlement.reversed'' (insert_reversal st reason)) (\<lambda>moved.
       if \<not> moved then ret ()
       else thenE (transition_to_reversed (st_session st))
         (thenE (alert_reversal st reason)
           (bindE (resolve_accounts (st_tenant st) (st_asset st) (st_fiat st)) (\<lambda>acc. post_once (return_txn st acc))))))"

definition flag_declined_attempt :: "attempt \<Rightarrow> string \<Rightarrow> string \<Rightarrow> unit run" where
  "flag_declined_attempt a ref reason =
     bindE (stmt (bindE (gets (\<lambda>w. list_ex (\<lambda>x. at_id x = at_id a \<and> at_status x = ''dispatched'' \<and> at_reason x = None) (attempts w))) (\<lambda>hit.
         thenE (modify (\<lambda>w. w\<lparr>attempts := update_where (\<lambda>x. at_id x = at_id a \<and> at_status x = ''dispatched'' \<and> at_reason x = None)
             (\<lambda>x. x\<lparr>at_reason := Some reason\<rparr>) (attempts w)\<rparr>)) (ret hit)))) (\<lambda>hit.
       if \<not> hit then ret ()
       else thenE (update_settlement (at_settlement a) (\<lambda>t s. if st_paged s = None then s\<lparr>st_paged := Some t\<rparr> else s))
         (bindE (get_settlement (at_settlement a)) (\<lambda>st.
           alert_review st ref (reason @ ''. Awaiting reversal from the provider.''))))"

definition find_attempt :: "string \<Rightarrow> string \<Rightarrow> attempt run" where
  "find_attempt name ref = bindE (query (\<lambda>w. first_min (\<lambda>a. - at_dispatched a)
       (filter (\<lambda>a. at_provider a = name \<and> at_reference a = Some ref) (attempts w))))
     (\<lambda>r. case r of None \<Rightarrow> fail ErrUnknownAttempt | Some a \<Rightarrow> ret a)"

definition apply_event :: "attempt \<Rightarrow> webhook_event \<Rightarrow> unit run" where
  "apply_event a ev = (case we_kind ev of
       WIgnored \<Rightarrow> ret ()
     | WSucceeded \<Rightarrow> handle_payout_succeeded a
     | WFailed \<Rightarrow> handle_attempt_failure a ''failed_bucket2'' (we_reason ev) False
     | WReturned \<Rightarrow> handle_payout_returned a (we_reason ev)
     | WReversed \<Rightarrow> if at_status a = ''succeeded'' then handle_payout_returned a (we_reason ev)
         else handle_attempt_failure a ''failed_bucket2'' (we_reason ev) False
     | WDeclined \<Rightarrow> flag_declined_attempt a (we_ref ev) (we_reason ev))"

definition handle_settlement_webhook :: "string \<Rightarrow> string \<Rightarrow> (string \<Rightarrow> string) \<Rightarrow> unit run" where
  "handle_settlement_webhook name body hdr = bindE (gets env) (\<lambda>e. bindE (gets now) (\<lambda>t.
     if \<not> has_payout_provider e name then fail ErrUnknownProvider
     else case parse_webhook e t name hdr body of
       Inl x \<Rightarrow> fail x
     | Inr ev \<Rightarrow> if we_kind ev = WIgnored then ret ()
         else bindE (find_attempt name (we_ref ev)) (\<lambda>a. apply_event a ev)))"

section \<open>The sandbox and the timeout job\<close>

definition confirm_sandbox_dispatches :: "unit run" where
  "confirm_sandbox_dispatches = bindE (query (\<lambda>w. filter (\<lambda>a. at_provider a = ''sandbox'' \<and> at_status a = ''dispatched'') (attempts w)))
     (\<lambda>due. forE due handle_payout_succeeded)"

text \<open>One tick of \<open>DispatchWorker.Run\<close>: errors are logged.\<close>

definition dispatch_tick :: "unit run" where
  "dispatch_tick = thenE (attemptE dispatch_settlements) (bindE (gets env) (\<lambda>e.
     if cfg_sandbox e then thenE (attemptE confirm_sandbox_dispatches) (ret ()) else ret ()))"

definition timed_out :: "world \<Rightarrow> settlement \<Rightarrow> bool" where
  "timed_out w s \<longleftrightarrow> st_status s = ''settling'' \<and> st_paged s = None \<and> st_updated s < now w - ConfirmationTimeout \<and>
     list_ex (\<lambda>a. at_settlement a = st_id s \<and> at_status a = ''dispatched'' \<and> at_dispatched a < now w - ConfirmationTimeout) (attempts w)"

definition page_timed_out :: "unit run" where
  "page_timed_out = exec (\<lambda>w. w\<lparr>settlements := update_where (timed_out w) (\<lambda>s. s\<lparr>st_paged := Some (now w)\<rparr>) (settlements w)\<rparr>)"

section \<open>Operations of the ops team\<close>

definition mark_confirmed_failed :: "uuid \<Rightarrow> time \<Rightarrow> attempt \<Rightarrow> attempt" where
  "mark_confirmed_failed admin t a = a\<lparr>at_status := ''failed_bucket3'', at_resolved := Some t,
     at_reason := Some ((case at_reason a of None \<Rightarrow> '''' | Some r \<Rightarrow> r @ ''; '') @ ''confirmed failed by admin '' @ admin)\<rparr>"

definition resolve_confirmed_failed :: "settlement \<Rightarrow> uuid \<Rightarrow> unit run" where
  "resolve_confirmed_failed st admin =
     (let open = (\<lambda>a. at_settlement a = st_id st \<and> at_status a = ''dispatched'') in
      bindE (stmt (bindE (gets (\<lambda>w. map at_number (filter open (attempts w)))) (\<lambda>ns.
          thenE (modify (\<lambda>w. w\<lparr>attempts := update_where open (mark_confirmed_failed admin (now w)) (attempts w)\<rparr>)) (ret ns)))) (\<lambda>ns.
        if ns = [] then ret ()
        else bindE (resolve_accounts (st_tenant st) (st_asset st) (st_fiat st)) (\<lambda>acc.
          forE ns (\<lambda>n. post_once (attempt_reversal_txn st acc n)))))"

definition retry_from :: "settlement \<Rightarrow> bool \<Rightarrow> (string \<times> string) option" where
  "retry_from st confirmed =
     (if st_status st = ''settlement_failed'' then Some (''settlement_failed'', ''settlement_failed'')
      else if st_status st = ''awaiting_manual_payout'' then Some (''awaiting_manual_payout'', ''settling'')
      else if st_status st = ''settling'' \<and> st_paged st \<noteq> None \<and> confirmed then Some (''settling'', ''settling'')
      else None)"

definition retry_payout :: "uuid \<Rightarrow> uuid \<Rightarrow> raw_json \<Rightarrow> bool \<Rightarrow> settlement run" where
  "retry_payout i admin dest confirmed = bindE (get_settlement i) (\<lambda>st. case retry_from st confirmed of
       None \<Rightarrow> fail ErrNotRetryable
     | Some (from, session_from) \<Rightarrow>
         thenE (if from = ''settling'' then resolve_confirmed_failed st admin else ret ())
           (bindE (if dest = RawInvalid then fail (ConstraintErr ''settlements'')
              else cas_settlement i from (\<lambda>t s. s\<lparr>st_status := ''pending_dispatch'', st_paged := None,
                st_destination := (case dest of RawJson j \<Rightarrow> Some j | _ \<Rightarrow> None), st_updated := t\<rparr>)) (\<lambda>hit.
             if \<not> hit then fail ErrNotRetryable
             else thenE (retry_to_settling (st_session st) session_from) (get_settlement i))))"

record account_ref =
  ar_tenant :: "uuid option"
  ar_type :: string
  ar_asset :: string
  ar_unit :: string
  ar_name :: string

definition account_of :: "account_ref \<Rightarrow> uuid run" where
  "account_of r = get_or_create_account (ar_tenant r) (ar_type r) (ar_asset r) (ar_unit r) (ar_name r)"

definition adjustment_txn :: "uuid \<Rightarrow> account_ref \<Rightarrow> account_ref \<Rightarrow> uuid \<Rightarrow> uuid \<Rightarrow> rat \<Rightarrow> txn" where
  "adjustment_txn i debit credit d c amount = \<lparr>t_key = ''manual_adjustment:reversal_'' @ i, t_type = ''manual_adjustment'',
     t_ref_type = ''settlement_reversal'', t_ref_id = i, t_created_by = ''settlement'',
     t_entries = [\<lparr>e_account = d, e_direction = Debit, e_amount = amount, e_asset = ar_asset debit\<rparr>,
                  \<lparr>e_account = c, e_direction = Credit, e_amount = amount, e_asset = ar_asset credit\<rparr>]\<rparr>"

definition resolve_reversal :: "uuid \<Rightarrow> uuid \<Rightarrow> account_ref \<Rightarrow> account_ref \<Rightarrow> rat \<Rightarrow> string \<Rightarrow> unit run" where
  "resolve_reversal i admin debit credit amount remark =
     bindE (query (\<lambda>w. find (\<lambda>r. re_id r = i) (reversals w))) (\<lambda>r. case r of
       None \<Rightarrow> fail ErrReversalNotFound
     | Some r \<Rightarrow> if re_status r \<noteq> ''open'' then fail ErrReversalAlreadyResolved
         else bindE (account_of debit) (\<lambda>d. bindE (account_of credit) (\<lambda>c.
           thenE (post_once (adjustment_txn i debit credit d c amount))
             (bindE (stmt (bindE (gets (\<lambda>w. list_ex (\<lambda>r. re_id r = i \<and> re_status r = ''open'') (reversals w))) (\<lambda>hit.
                 thenE (modify (\<lambda>w. w\<lparr>reversals := update_where (\<lambda>r. re_id r = i \<and> re_status r = ''open'')
                     (\<lambda>r. r\<lparr>re_status := ''resolved'', re_resolved_by := Some admin, re_resolved_at := Some (now w), re_note := Some remark\<rparr>)
                     (reversals w)\<rparr>)) (ret hit)))) (\<lambda>hit.
               if \<not> hit then fail ErrReversalAlreadyResolved
               else thenE (cas_settlement (re_settlement r) ''reversed'' (set_status ''reversal_resolved''))
                 (quiet (transition_to_reversal_resolved (re_session r))))))))"

section \<open>The manual fallback\<close>

definition manual_txn :: "settlement \<Rightarrow> settle_accounts \<Rightarrow> txn" where
  "manual_txn st a = pair_txn (manual_key (st_session st)) ''settlement_payout'' ''session'' (st_session st) ''settlement:manual''
     (sa_payable a) (sa_operating a) (st_payable st) (st_fiat st)"

text \<open>\<open>ManualSettle\<close>: \<open>(False, st)\<close> stands for \<open>ErrNotAwaitingManualPayout\<close> with the row as it is.\<close>

definition manual_settle :: "uuid \<Rightarrow> string \<Rightarrow> (bool \<times> settlement) run" where
  "manual_settle i who = bindE (get_settlement i) (\<lambda>st.
     if st_status st \<noteq> ''awaiting_manual_payout'' then ret (False, st)
     else let n = st_attempts st + 1 in
       bindE (transition_settlement st ''awaiting_manual_payout'' ''settled'' ''settlement.completed''
           (thenE (insert_attempt (st_id st) n ''manual'' (manual_key (st_session st)) ''succeeded'' (JObj [(''settled_by'', JStr who)]))
             (update_settlement (st_id st) (\<lambda>_ s. s\<lparr>st_attempts := n\<rparr>)))) (\<lambda>moved.
         if \<not> moved then bindE (get_settlement i) (\<lambda>cur. ret (False, cur))
         else bindE (resolve_accounts (st_tenant st) (st_asset st) (st_fiat st)) (\<lambda>acc.
           thenE (post_once (manual_txn st acc))
             (thenE (complete_session st) (bindE (get_settlement i) (\<lambda>cur. ret (True, cur)))))))"

record button_press =
  bp_id :: string
  bp_data :: string
  bp_from :: int
  bp_user :: string
  bp_message :: "(int \<times> int) option"

text \<open>The fields of a \<open>telegramUpdate\<close>: \<open>Some None\<close> without a callback query, \<open>None\<close> on a type error.\<close>

definition decode_message :: "(string \<times> json) list option \<Rightarrow> (int \<times> int) option option" where
  "decode_message m = (case m of None \<Rightarrow> Some None | Some kvs \<Rightarrow>
     (case (int_field kvs ''message_id'', obj_field kvs ''chat'') of
        (Some mid, Some chat) \<Rightarrow> (case int_field chat ''id'' of None \<Rightarrow> None | Some c \<Rightarrow> Some (Some (c, mid)))
      | _ \<Rightarrow> None))"

definition decode_press :: "(string \<times> json) list \<Rightarrow> button_press option option" where
  "decode_press kvs = (case obj_ptr kvs ''callback_query'' of
       None \<Rightarrow> None
     | Some None \<Rightarrow> Some None
     | Some (Some cq) \<Rightarrow> (case (str_field cq ''id'', str_field cq ''data'', obj_field cq ''from'', obj_ptr cq ''message'') of
         (Some i, Some d, Some fr, Some m) \<Rightarrow> (case (int_field fr ''id'', str_field fr ''username'', decode_message m) of
             (Some uid, Some name, Some mm) \<Rightarrow> Some (Some \<lparr>bp_id = i, bp_data = d, bp_from = uid, bp_user = name, bp_message = mm\<rparr>)
           | _ \<Rightarrow> None)
       | _ \<Rightarrow> None))"

definition press_text :: "string \<Rightarrow> string" where
  "press_text status = ''Not marked: this settlement is '' @ status @ '', not awaiting manual payout.''"

definition press_who :: "button_press \<Rightarrow> string" where
  "press_who p = ''telegram:'' @ dec_int (bp_from p) @ (if bp_user p = [] then [] else '' (@'' @ bp_user p @ '')'')"

definition handle_press :: "button_press \<Rightarrow> unit run" where
  "handle_press p = bindE (gets env) (\<lambda>e.
     let answer = (\<lambda>m loud. thenE (telegram_call (TgAnswer (bp_id p) m loud)) (ret ())) in
     case bp_message p of
       None \<Rightarrow> answer ''This settlement action is not allowed here.'' True
     | Some (chat, mid) \<Rightarrow>
         if dec_int chat \<noteq> tc_chat (cfg_telegram e) then answer ''This settlement action is not allowed here.'' True
         else case cut_prefix (bp_data p) telegramSettleAction of
           None \<Rightarrow> answer ''Unknown settlement action.'' True
         | Some t \<Rightarrow> (case x_uuid_parse e t of
             None \<Rightarrow> answer ''Unknown settlement.'' True
           | Some i \<Rightarrow>
               let who = press_who p in
               bindE (attemptE (manual_settle i who)) (\<lambda>r. case r of
                 Inl x \<Rightarrow> if x = ErrSettlementNotFound then answer ''Settlement not found.'' True
                   else thenE (answer (''Could not mark the settlement completed '' @ [CHR 0xE2, CHR 0x80, CHR 0x94] @ '' try again.'') True) (fail x)
               | Inr (moved, st) \<Rightarrow> if \<not> moved then answer (press_text (st_status st)) True
                   else thenE (answer ''Settlement marked as completed.'' False)
                     (thenE (telegram_call (TgClear chat mid))
                       (thenE (telegram_call (TgSend (manual_settled_message st who) None)) (ret ()))))))"

definition handle_telegram_update :: "string \<Rightarrow> string \<Rightarrow> unit run" where
  "handle_telegram_update secret body = bindE (gets env) (\<lambda>e.
     if \<not> telegram_on e \<or> tc_secret (cfg_telegram e) = '''' then fail ErrTelegramDisabled
     else if secret \<noteq> tc_secret (cfg_telegram e) then fail ErrInvalidTelegramSecret
     else case struct_fields (x_json e body) of
       None \<Rightarrow> fail (OtherErr ''settlement: parse telegram update'')
     | Some kvs \<Rightarrow> (case decode_press kvs of
         None \<Rightarrow> fail (OtherErr ''settlement: parse telegram update'')
       | Some None \<Rightarrow> ret ()
       | Some (Some p) \<Rightarrow> if bp_id p = '''' \<or> bp_data p = '''' then ret () else handle_press p))"

section \<open>The wiring of the event bus\<close>

text \<open>\<open>RegisterEventHandlers\<close> of sessions and settlements.\<close>

definition engine_handlers :: "string \<Rightarrow> (event \<Rightarrow> unit run) list" where
  "engine_handlers = subscribe (subscribe (subscribe (\<lambda>_. []) ''treasury.deposit_detected'' handle_deposit_detected)
     ''treasury.deposit_confirmed'' handle_deposit_confirmed) ''session.deposit_confirmed'' claim_settlement"

end
