(* ===== verification/SettlementSafety.thy ===== *)
theory SettlementSafety
  imports Settlement
begin

text \<open>
  What holds of payouts. The theory has the commands of the settlement pipeline, the invariants that
  hold between them (every payout reference is sent at most once; a settlement has at most one
  attempt in flight, and only while it is settling), the abstract life of a payout that the pipeline
  refines, and the termination of its loops.
\<close>

section \<open>Requests for money\<close>

text \<open>The reference a call to a provider asks to pay under: the idempotency key the provider sees.\<close>

fun money_ref :: "ext_call \<Rightarrow> string list" where
  "money_ref (CallPayout name req) = [pq_key req]"
| "money_ref (CallHyparrow (HySend q)) = [hs_ref q]"
| "money_ref c = []"

definition sent_refs :: "world \<Rightarrow> string list" where
  "sent_refs w = concat (map money_ref (ext_log w))"

lemma sent_refs_log [simp]: "sent_refs (w\<lparr>ext_log := ext_log w @ [c]\<rparr>) = sent_refs w @ money_ref c"
  by (simp add: sent_refs_def)

section \<open>Operations that leave settlements alone\<close>

text \<open>\<open>calm v\<close>: nothing of the settlement pipeline differs from \<open>v\<close>, though more ids may be used up.\<close>

definition calm :: "world \<Rightarrow> world \<Rightarrow> bool" where
  "calm v w \<longleftrightarrow> settlements w = settlements v \<and> attempts w = attempts v \<and> reversals w = reversals v \<and> txns w = txns v \<and>
     sent_refs w = sent_refs v \<and> env w = env v \<and> uuid_src w = uuid_src v \<and> uuid_next v \<le> uuid_next w"

lemma calm_refl [simp]: "calm v v"
  by (simp add: calm_def)

lemma calm_simps [simp]:
  "calm v (w\<lparr>faults := a1\<rparr>) = calm v w" "calm v (w\<lparr>now := a2\<rparr>) = calm v w" "calm v (w\<lparr>outbox := a3\<rparr>) = calm v w"
  "calm v (w\<lparr>accounts := a4\<rparr>) = calm v w" "calm v (w\<lparr>sessions := a5\<rparr>) = calm v w" "calm v (w\<lparr>reservations := a6\<rparr>) = calm v w"
  "calm v (w\<lparr>cases := a7\<rparr>) = calm v w" "calm v (w\<lparr>deposits := a8\<rparr>) = calm v w" "calm v (w\<lparr>locks := a9\<rparr>) = calm v w"
  "calm v (w\<lparr>price_cache := b1\<rparr>) = calm v w" "calm v (w\<lparr>custody_balances := b2\<rparr>) = calm v w"
  "calm v (w\<lparr>custom_wallets := b3\<rparr>) = calm v w" "calm v (w\<lparr>seed_row := b4\<rparr>) = calm v w" "calm v (w\<lparr>seed := b5\<rparr>) = calm v w"
  "calm v (w\<lparr>hd_accounts := b6\<rparr>) = calm v w" "calm v (w\<lparr>hd_counter := b7\<rparr>) = calm v w" "calm v (w\<lparr>hd_indices := b8\<rparr>) = calm v w"
  "calm v (w\<lparr>derived := b9\<rparr>) = calm v w" "calm v (w\<lparr>entries := c1\<rparr>) = calm v w" "calm v (w\<lparr>balances := c2\<rparr>) = calm v w"
  by (simp_all add: calm_def sent_refs_def)

lemma calm_uuid [simp]: "calm v w \<Longrightarrow> uuid_next w \<le> n \<Longrightarrow> calm v (w\<lparr>uuid_next := n\<rparr>)"
  by (simp add: calm_def sent_refs_def)

lemma db_mono_calm [simp]: "db_mono (calm v)"
  by (simp add: db_mono_def)

lemma calm_ask: "money_ref c = [] \<Longrightarrow> keeps (calm v) (ask c f)"
  by (simp add: keeps_def ask_def calm_def)

lemmas calm_rules = keeps_rules calm_ask

lemma calm_get_account: "keeps (calm v) (get_or_allocate_tenant_account n tenant)"
  by (induction n) (auto simp: next_account_def insert_hd_account_def intro!: keeps_rules split: err.split)

lemma calm_allocate: "keeps (calm v) (allocate_or_reuse_address tenant chain)"
  by (auto simp: allocate_or_reuse_address_def find_free_derived_address_def allocate_next_index_def
      insert_derived_address_def Let_def intro!: keeps_rules calm_get_account)

lemma calm_provider_reserve: "keeps (calm v) (provider_reserve name tenant asset network amount)"
  unfolding provider_reserve_def busha_reserve_deposit_def self_custody_reserve_def tenant_wallet_reserve_def
    get_tenant_custom_wallet_def sandbox_reserve_def Let_def
  by (intro keeps_bindE keeps_if keeps_case_option keeps_case_prod keeps_rules calm_ask calm_allocate db_mono_calm) simp_all

lemma calm_persist: "keeps (calm v) (persist_reservation tenant cid name asset network addr)"
  unfolding persist_reservation_def Let_def by (intro keeps_rules db_mono_calm) simp_all

lemma calm_reserve_from: "keeps (calm v) (reserve_from tenant c amount bs)"
  by (induction bs) (auto intro!: keeps_rules calm_provider_reserve calm_persist)

lemma calm_instructions: "keeps (calm v) (get_deposit_instructions tenant cid amount)"
  unfolding get_deposit_instructions_def reserve_address_def get_corridor_by_id_def list_active_providers_def
  by (intro keeps_rules db_mono_calm calm_reserve_from)

lemma calm_screen_session: "keeps (calm v) (screen_session sid tenant amount th window tmo name)"
  unfolding screen_session_def travel_rule_threshold_exceeded_def screen_with_def create_case_def insert_case_def
    publish_if_hold_def decide_def Let_def
  by (intro keeps_bindE keeps_if keeps_case_option keeps_case_prod keeps_thenE keeps_gets keeps_ret keeps_fail calm_ask) 
    (auto intro!: keeps_rules split: raw_json.split)

lemma calm_lock_rate: "keeps (calm v) (lock_rate asset fiat ttl)"
  unfolding lock_rate_def get_current_rate_def get_asset_price_def fetch_asset_price_def cache_set_def persist_lock_def Let_def
  by (intro keeps_bindE keeps_if keeps_case_option keeps_case_prod keeps_thenE keeps_gets keeps_ret keeps_fail keeps_query
      keeps_stmt keeps_lift_sum db_mono_calm calm_ask) (auto intro!: keeps_rules)

lemma calm_cas: "keeps (calm v) (cas_session i from f)"
  unfolding cas_session_def by (intro keeps_rules db_mono_calm) simp_all

lemma calm_readers:
  "keeps (calm v) (get_session i)" "keeps (calm v) (get_corridor a n f)" "keeps (calm v) (get_corridor_by_id c)"
  "keeps (calm v) (check_entitlement t c)" "keeps (calm v) (list_active_providers c ty)" "keeps (calm v) (publish_if_bus ty ag i pl)"
  "keeps (calm v) (get_lock l)" "keeps (calm v) (get_confirmed_deposit_total rid)" "keeps (calm v) (release_reservation rid)"
  by (auto simp: get_session_def get_corridor_def get_corridor_by_id_def check_entitlement_def list_active_providers_def
      get_lock_def get_confirmed_deposit_total_def release_reservation_def intro!: keeps_rules)

lemma calm_pending: "keeps (calm v) (transition_to_pending i tenant c from)"
  unfolding transition_to_pending_def commit_pending_def Let_def
  by (intro keeps_rules db_mono_calm calm_readers calm_cas calm_lock_rate calm_instructions) simp_all

lemma calm_insert: "keeps (calm v) (insert_session tenant cid fiat amount asset network dest)"
proof (cases "numeric_36_18 amount"; cases dest)
  fix a j assume "numeric_36_18 amount = Some a" "dest = RawJson j"
  then show ?thesis by (auto simp: insert_session_def intro!: keeps_rules)
qed (simp_all add: insert_session_def keeps_rules)

lemma calm_resolve_hold: "keeps (calm v) (resolve_hold i admin ok reason)"
  by (auto simp: resolve_hold_def Let_def intro!: keeps_rules)

lemma calm_create: "keeps (calm v) (create_session tenant asset network fiat amount dest)"
  unfolding create_session_def transition_to_hold_def transition_to_rejected_def Let_def
  by (intro keeps_rules calm_readers calm_cas calm_pending calm_insert calm_screen_session)

lemma calm_resolve: "keeps (calm v) (resolve_compliance_hold i admin approved reason)"
  unfolding resolve_compliance_hold_def transition_to_rejected_def
  by (intro keeps_rules calm_readers calm_cas calm_pending calm_resolve_hold)

lemma calm_by_reservation: "keeps (calm v) (transition_by_reservation rid from to ty)"
  unfolding transition_by_reservation_def Let_def
  by (intro keeps_rules db_mono_calm calm_readers) simp_all

lemma calm_ttl: "keeps (calm v) ttl_sweep"
  unfolding ttl_sweep_def expire_pre_deposit_def expire_timed_out_holds_def mark_sla_breaches_def
  by (intro keeps_rules db_mono_calm calm_readers) simp_all

lemma calm_treasury: "keeps (calm v) (treasury_step cmd)"
proof -
  have rec: "keeps (calm v) (record_deposit_transition rid st amount tx raw)" for rid st amount tx raw
    by (auto simp: record_deposit_transition_def insert_deposit_if_absent_def confirm_deposit_def Let_def intro!: keeps_rules)
  then have hook: "keeps (calm v) (handle_deposit_webhook body sig)" for body sig
    by (auto simp: handle_deposit_webhook_def find_reservation_by_reference_def get_reservation_def intro!: keeps_rules)
  show ?thesis
    by (cases cmd)
      (auto simp: hook rec calm_instructions release_reservation_def confirm_due_sandbox_deposits_def Let_def
        register_tenant_custom_wallet_def record_custody_balance_def initialize_hd_wallet_seed_def load_hd_wallet_seed_def
        intro!: keeps_rules)
qed

lemma calm_session_step: "keeps (calm v) (session_step cmd)"
  by (cases cmd)
    (auto simp: handle_deposit_detected_def handle_deposit_confirmed_def transition_to_settling_def transition_to_settled_def
      transition_to_settlement_failed_def transition_to_reversed_def transition_to_reversal_resolved_def retry_to_settling_def
      cas_transition_def calm_create calm_resolve calm_ttl calm_cas calm_by_reservation calm_treasury calm_resolve_hold
      intro!: keeps_quiet keeps_modify)

section \<open>The commands of the pipeline\<close>

datatype settlement_cmd =
    VDeposit event
  | VDispatch
  | VWebhook string string "string \<Rightarrow> string"
  | VTimeouts
  | VRetry uuid uuid raw_json bool
  | VManual uuid string
  | VTelegram string string
  | VResolve uuid uuid account_ref account_ref rat string
  | VSession session_cmd

fun settlement_step :: "settlement_cmd \<Rightarrow> unit run" where
  "settlement_step (VDeposit e) = claim_settlement e"
| "settlement_step VDispatch = dispatch_tick"
| "settlement_step (VWebhook name body hdr) = handle_settlement_webhook name body hdr"
| "settlement_step VTimeouts = page_timed_out"
| "settlement_step (VRetry i admin dest confirmed) = quiet (retry_payout i admin dest confirmed)"
| "settlement_step (VManual i who) = quiet (manual_settle i who)"
| "settlement_step (VTelegram secret body) = handle_telegram_update secret body"
| "settlement_step (VResolve i admin debit credit amount remark) = resolve_reversal i admin debit credit amount remark"
| "settlement_step (VSession cmd) = session_step cmd"

text \<open>
  The same with operations that overlap: while a webhook handler sleeps in \<open>RetryBackoff\<close>, others run,
  and then it goes on with the copy of the settlement it read before, whatever that copy says.
\<close>

datatype engine_cmd = EStep settlement_cmd | EResume settlement

fun engine_step :: "engine_cmd \<Rightarrow> unit run" where
  "engine_step (EStep cmd) = settlement_step cmd"
| "engine_step (EResume st) = (if 0 \<le> st_attempts st then dispatch_attempt retry_fuel st else ret ())"

definition run_settlements :: "settlement_cmd list \<Rightarrow> world \<Rightarrow> world" where
  "run_settlements cmds w = fold (\<lambda>cmd w. snd (settlement_step cmd w)) cmds w"

definition run_engine :: "engine_cmd list \<Rightarrow> world \<Rightarrow> world" where
  "run_engine cmds w = fold (\<lambda>cmd w. snd (engine_step cmd w)) cmds w"

lemma run_settlements_keeps: "(\<And>cmd. keeps P (settlement_step cmd)) \<Longrightarrow> P w \<Longrightarrow> P (run_settlements cmds w)"
  unfolding run_settlements_def by (induction cmds arbitrary: w) (auto intro: keepsD)

lemma run_engine_keeps: "(\<And>cmd. keeps P (engine_step cmd)) \<Longrightarrow> P w \<Longrightarrow> P (run_engine cmds w)"
  unfolding run_engine_def by (induction cmds arbitrary: w) (auto intro: keepsD)

section \<open>Every reference is sent once\<close>

lemma dec_int_nonneg: "0 \<le> n \<Longrightarrow> dec_int n = dec_nat (nat n)"
  by (simp add: dec_int_def)

lemma payout_key_inject:
  assumes "0 \<le> m" and "0 \<le> n" and "payout_key s m = payout_key t n"
  shows "s = t \<and> m = n"
proof -
  have "(''settlement_payout:session_'' @ s @ '':attempt'') @ CHR ''_'' # dec_nat (nat m) =
      (''settlement_payout:session_'' @ t @ '':attempt'') @ CHR ''_'' # dec_nat (nat n)"
    using assms by (simp add: payout_key_def dec_int_nonneg)
  from numbered_inject [OF this] assms show ?thesis by (auto simp: eq_nat_nat_iff)
qed

lemma hyparrow_reference_inject:
  assumes "0 \<le> m" and "0 \<le> n" and "hyparrow_reference s m = hyparrow_reference t n"
  shows "s = t \<and> m = n"
proof -
  have "(''2S-'' @ s) @ CHR ''-'' # dec_nat (nat m) = (''2S-'' @ t) @ CHR ''-'' # dec_nat (nat n)"
    using assms by (simp add: hyparrow_reference_def dec_int_nonneg)
  from numbered_inject [OF this] assms show ?thesis by (auto simp: eq_nat_nat_iff)
qed

lemma reference_not_key: "hyparrow_reference s m \<noteq> payout_key t n"
  by (simp add: hyparrow_reference_def payout_key_def)

text \<open>
  The references an attempt can be sent under, and the invariant: the references sent are distinct,
  and each belongs to an attempt whose key the ledger holds.
\<close>

definition refs_of :: "uuid \<Rightarrow> int \<Rightarrow> string set" where
  "refs_of sid n = {payout_key sid n, hyparrow_reference sid n}"

definition sent_ok :: "world \<Rightarrow> bool" where
  "sent_ok w \<longleftrightarrow> distinct (sent_refs w) \<and>
     (\<forall>r \<in> set (sent_refs w). \<exists>sid n. 0 \<le> n \<and> r \<in> refs_of sid n \<and> payout_key sid n \<in> posted_keys w)"

definition may_send :: "uuid \<Rightarrow> int \<Rightarrow> world \<Rightarrow> bool" where
  "may_send sid n w \<longleftrightarrow> sent_ok w \<and> 0 \<le> n \<and> payout_key sid n \<in> posted_keys w \<and> refs_of sid n \<inter> set (sent_refs w) = {}"

lemma refs_of_inject: "0 \<le> m \<Longrightarrow> 0 \<le> n \<Longrightarrow> r \<in> refs_of s m \<Longrightarrow> r \<in> refs_of t n \<Longrightarrow> s = t \<and> m = n"
  unfolding refs_of_def
  using payout_key_inject [of m n s t] hyparrow_reference_inject [of m n s t] reference_not_key [of s m t n]
    reference_not_key [of t n s m] by auto

lemma sent_ok_grow: "sent_ok w \<Longrightarrow> sent_refs w' = sent_refs w \<Longrightarrow> posted_keys w \<subseteq> posted_keys w' \<Longrightarrow> sent_ok w'"
  by (fastforce simp: sent_ok_def)

lemma may_send_grow: "may_send s n w \<Longrightarrow> sent_refs w' = sent_refs w \<Longrightarrow> posted_keys w \<subseteq> posted_keys w' \<Longrightarrow> may_send s n w'"
  by (auto simp: may_send_def elim: sent_ok_grow)

lemma sent_cong: "sent_refs w' = sent_refs w \<Longrightarrow> posted_keys w' = posted_keys w \<Longrightarrow> sent_ok w' = sent_ok w \<and> may_send s n w' = may_send s n w"
  by (simp add: sent_ok_def may_send_def)

lemma sent_simps [simp]:
  "sent_ok (w\<lparr>faults := a1\<rparr>) = sent_ok w" "sent_ok (w\<lparr>now := a2\<rparr>) = sent_ok w" "sent_ok (w\<lparr>outbox := a3\<rparr>) = sent_ok w"
  "sent_ok (w\<lparr>accounts := a4\<rparr>) = sent_ok w" "sent_ok (w\<lparr>sessions := a5\<rparr>) = sent_ok w" "sent_ok (w\<lparr>reservations := a6\<rparr>) = sent_ok w"
  "sent_ok (w\<lparr>settlements := a7\<rparr>) = sent_ok w" "sent_ok (w\<lparr>attempts := a8\<rparr>) = sent_ok w" "sent_ok (w\<lparr>reversals := a9\<rparr>) = sent_ok w"
  "sent_ok (w\<lparr>uuid_next := b1\<rparr>) = sent_ok w"
  "may_send s n (w\<lparr>faults := a1\<rparr>) = may_send s n w" "may_send s n (w\<lparr>settlements := a7\<rparr>) = may_send s n w"
  "may_send s n (w\<lparr>attempts := a8\<rparr>) = may_send s n w" "may_send s n (w\<lparr>uuid_next := b1\<rparr>) = may_send s n w"
  by (rule sent_cong [THEN conjunct1] sent_cong [THEN conjunct2], simp_all add: sent_refs_def posted_keys_def)+

lemma db_mono_sent [simp]: "db_mono sent_ok" "db_mono (may_send s n)"
  by (simp_all add: db_mono_def)

lemma calm_sent: "calm v w \<Longrightarrow> sent_ok w = sent_ok v \<and> may_send s n w = may_send s n v"
  by (rule sent_cong) (simp_all add: calm_def posted_keys_def)

text \<open>An operation that is calm from every world keeps what only depends on the calm part.\<close>

lemma keeps_calm:
  assumes "\<And>v. keeps (calm v) m" and "\<And>v w. calm v w \<Longrightarrow> P v \<Longrightarrow> P w"
  shows "keeps P m"
  using keepsD [OF assms(1) calm_refl] assms(2) by (auto simp: keeps_def)

lemma sent_of_calm: "(\<And>v. keeps (calm v) m) \<Longrightarrow> keeps sent_ok m" "(\<And>v. keeps (calm v) m) \<Longrightarrow> keeps (may_send s n) m"
  by (erule keeps_calm, simp add: calm_sent)+

lemma sent_post: "keeps sent_ok (post t)" "keeps (may_send s n) (post t)"
  by (rule keepsI, erule post_cases, auto simp: posted_keys_def sent_refs_def elim: sent_ok_grow may_send_grow)+

text \<open>\<open>leads P Q m\<close>: from \<open>P\<close>, the run ends in \<open>Q\<close>, error or not.\<close>

definition leads :: "('s \<Rightarrow> bool) \<Rightarrow> ('s \<Rightarrow> bool) \<Rightarrow> ('s, 'a) op \<Rightarrow> bool" where
  "leads P Q m \<longleftrightarrow> (\<forall>w. P w \<longrightarrow> Q (snd (m w)))"

lemma leads_keeps: "keeps P m \<Longrightarrow> (\<And>w. P w \<Longrightarrow> Q w) \<Longrightarrow> leads P Q m"
  by (simp add: leads_def keeps_def)

lemma leads_before: "keeps P m \<Longrightarrow> (\<And>x. leads P Q (k x)) \<Longrightarrow> (\<And>w. P w \<Longrightarrow> Q w) \<Longrightarrow> leads P Q (bindE m k)"
  by (fastforce simp: leads_def keeps_def bindE_def split: prod.split sum.split)

lemma leads_after: "leads P Q m \<Longrightarrow> (\<And>x. keeps Q (k x)) \<Longrightarrow> leads P Q (bindE m k)"
  by (fastforce simp: leads_def keeps_def bindE_def split: prod.split sum.split)

lemma may_send_ok: "may_send s n w \<Longrightarrow> sent_ok w"
  by (simp add: may_send_def)

lemma sent_after: "may_send s n w \<Longrightarrow> money_ref c = [r] \<Longrightarrow> r \<in> refs_of s n \<Longrightarrow> sent_ok (w\<lparr>ext_log := ext_log w @ [c]\<rparr>)"
  by (fastforce simp: may_send_def sent_ok_def posted_keys_def)

lemma leads_ask: "money_ref c = [r] \<Longrightarrow> r \<in> refs_of s n \<Longrightarrow> leads (may_send s n) sent_ok (ask c f)"
  by (simp add: leads_def ask_def sent_after)

lemma calm_hyparrow_do: "money_ref (CallHyparrow q) = [] \<Longrightarrow> keeps (calm v) (hyparrow_do q)"
  unfolding hyparrow_do_def by (intro keeps_bindE keeps_gets keeps_ret calm_ask)

lemma calm_resolve_account: "keeps (calm v) (resolve_account a b)"
  unfolding resolve_account_def by (intro keeps_bindE keeps_ret calm_hyparrow_do) simp

lemma calm_transfer_status: "keeps (calm v) (get_transfer_status ref)"
  unfolding get_transfer_status_def by (intro keeps_bindE keeps_ret calm_hyparrow_do) simp

lemma leads_hyparrow_send: "hs_ref q = hyparrow_reference s n \<Longrightarrow> leads (may_send s n) sent_ok (hyparrow_send q)"
  unfolding hyparrow_send_def hyparrow_do_def
  by (intro leads_after leads_ask keeps_rules) (auto simp: refs_of_def)

lemma leads_provider_dispatch:
  assumes "pq_session req = s" and "pq_number req = n" and "pq_key req = payout_key s n"
  shows "leads (may_send s n) sent_ok (provider_dispatch name req)"
proof -
  have stay: "leads (may_send s n) sent_ok (ret x)" for x :: payout_result
    by (intro leads_keeps keeps_ret) (rule may_send_ok)
  have hy: "leads (may_send s n) sent_ok (hyparrow_dispatch req)"
    unfolding hyparrow_dispatch_def Let_def assms(1,2)
    by (auto simp: stay split: option.split sum.split send_outcome.split
        intro!: leads_before [OF sent_of_calm(2) [OF calm_resolve_account]] leads_before [OF keeps_gets] leads_after [OF leads_hyparrow_send]
          sent_of_calm(1) [OF calm_transfer_status] may_send_ok keeps_rules)
  have http: "leads (may_send s n) sent_ok (http_dispatch name req)"
    unfolding http_dispatch_def
    by (rule leads_after [OF leads_ask]) (auto simp: assms refs_of_def intro!: keeps_rules split: sum.split http_reply.split)
  have sand: "leads (may_send s n) sent_ok sandbox_dispatch"
    unfolding sandbox_dispatch_def by (intro leads_keeps keeps_rules db_mono_sent) (rule may_send_ok)
  from hy http sand show ?thesis by (simp add: provider_dispatch_def)
qed

lemma calm_resolve_accounts: "keeps (calm v) (resolve_accounts tenant asset fiat)"
  by (auto simp: resolve_accounts_def get_or_create_account_def intro!: keeps_rules)

lemma calm_resolve_destination: "keeps (calm v) (resolve_destination st)"
  unfolding resolve_destination_def by (intro keeps_rules db_mono_calm calm_readers)

lemma calm_telegram: "keeps (calm v) (telegram_call c)" "keeps (calm v) (alert m)"
  unfolding telegram_call_def alert_def by (auto intro!: keeps_bindE keeps_gets keeps_if keeps_thenE keeps_ret calm_ask)

lemma calm_transitions:
  "keeps (calm v) (transition_to_settling i)" "keeps (calm v) (transition_to_settled i)" "keeps (calm v) (transition_to_reversed i)"
  "keeps (calm v) (transition_to_settlement_failed i)" "keeps (calm v) (transition_to_reversal_resolved i)" "keeps (calm v) (retry_to_settling i f)"
  by (simp_all add: transition_to_settling_def transition_to_settled_def transition_to_settlement_failed_def transition_to_reversed_def
      transition_to_reversal_resolved_def retry_to_settling_def cas_transition_def calm_cas)

lemma calm_release_of: "keeps (calm v) (release_of s)"
  unfolding release_of_def by (intro keeps_rules calm_readers)

lemma calm_complete_session: "keeps (calm v) (complete_session st)"
  unfolding complete_session_def by (intro keeps_rules calm_readers calm_transitions calm_release_of)

lemma calm_selection: "keeps (calm v) (tried_providers i)" "keeps (calm v) (select_provider cid tried)"
  unfolding tried_providers_def select_provider_def Let_def by (intro keeps_rules db_mono_calm calm_readers)+

lemma calm_get_settlement: "keeps (calm v) (get_settlement i)" "keeps (calm v) (find_attempt name ref)"
  unfolding get_settlement_def find_attempt_def by (intro keeps_rules db_mono_calm)+

lemma calm_account_of: "keeps (calm v) (account_of r)"
  by (auto simp: account_of_def get_or_create_account_def intro!: keeps_rules)

lemma calm_alerts: "keeps (calm v) (alert_review st ref reason)" "keeps (calm v) (alert_reversal st reason)"
  by (simp_all add: alert_review_def alert_reversal_def calm_telegram)

lemmas calm_ops = calm_resolve_accounts calm_resolve_destination calm_telegram calm_transitions calm_release_of calm_complete_session
  calm_selection calm_get_settlement calm_account_of calm_alerts calm_readers(1,7-9) keeps_gets

lemma hoare_claim:
  assumes "t_key t = payout_key s n" and "0 \<le> n"
  shows "hoare sent_ok (claim_post t) (\<lambda>r w. if r then may_send s n w else sent_ok w) (\<lambda>_. sent_ok)"
proof -
  have "if x then may_send s n w' else sent_ok w'" if ok: "sent_ok w" and p: "claim_post t w = (Inr x, w')" for w x w'
  proof -
    obtain r v where r: "post t w = (r, v)" by (cases "post t w")
    from r show ?thesis
    proof (cases rule: post_cases)
      case (error e bs m)
      with p r ok show ?thesis by (auto simp: claim_post_def onErr_def thenE_def bindE_def ret_def fail_def split: if_splits)
    next
      case (success tid bs bals)
      have refs: "sent_refs v = sent_refs w" by (simp add: success sent_refs_def)
      have keys: "posted_keys v = insert (payout_key s n) (posted_keys w)" using success assms by (auto simp: posted_keys_def)
      have "refs_of s n \<inter> set (sent_refs w) = {}"
        using ok success(6) assms by (auto simp: sent_ok_def dest: refs_of_inject [OF assms(2)])
      then have "may_send s n v" using ok refs keys assms(2) by (auto simp: may_send_def elim: sent_ok_grow)
      with p r success(1) show ?thesis
        by (auto simp: claim_post_def onErr_def thenE_def bindE_def ret_def may_send_ok)
    qed
  qed
  moreover have "sent_ok w'" if "sent_ok w" "claim_post t w = (Inl e, w')" for w e w'
  proof -
    have "keeps sent_ok (claim_post t)" unfolding claim_post_def by (intro keeps_rules sent_post)
    with that show ?thesis by (metis keeps_eq)
  qed
  ultimately show ?thesis by (intro hoareI)
qed

lemma sent_claim: "keeps sent_ok (claim_post t)"
  unfolding claim_post_def by (intro keeps_rules sent_post)

lemma keeps_after_claim:
  assumes "t_key t = payout_key s n" and "0 \<le> n" and "keeps sent_ok (k False)" and "leads (may_send s n) sent_ok (k True)"
  shows "keeps sent_ok (bindE (claim_post t) k)"
  unfolding keeps_hoare
proof (rule hoare_bindE [OF hoare_claim [OF assms(1,2)]])
  show "hoare (\<lambda>w. if x then may_send s n w else sent_ok w) (k x) (\<lambda>_. sent_ok) (\<lambda>_. sent_ok)" for x
    using assms(3,4) unfolding hoare_def keeps_def leads_def
    by (cases x) (simp_all, (metis (mono_tags, lifting) old.sum.exhaust case_prod_conv old.sum.simps(5,6) surjective_pairing)+)
qed

lemma sent_tables:
  "keeps sent_ok (update_settlement i f)" "keeps sent_ok (update_attempt i g)" "keeps sent_ok (cas_settlement i from f)"
  "keeps sent_ok (insert_attempt i m name key status payload)" "keeps sent_ok (mark_attempt i h)" "keeps sent_ok (insert_reversal st reason)"
  "keeps (may_send s n) (update_settlement i f)" "keeps (may_send s n) (insert_attempt i m name key status payload)"
  unfolding update_settlement_def update_attempt_def cas_settlement_def insert_attempt_def mark_attempt_def insert_reversal_def
  by (auto intro!: keeps_rules)

lemma sent_transition: "keeps sent_ok extra \<Longrightarrow> keeps sent_ok (transition_settlement st from to ty extra)"
  unfolding transition_settlement_def by (intro keeps_rules sent_tables db_mono_sent) simp_all

lemma sent_page: "keeps sent_ok (page_ops i)"
  by (simp add: page_ops_def sent_tables)

lemmas sent_rules = sent_tables(1-6) sent_page sent_transition sent_claim calm_ops [THEN sent_of_calm(1)]

lemma sent_fail_settlement: "keeps sent_ok (fail_settlement st reason)"
  unfolding fail_settlement_def hand_to_manual_def Let_def
  by (intro keeps_bindE keeps_if keeps_case_option keeps_case_sum keeps_case_prod keeps_thenE keeps_attemptE keeps_ret sent_rules)

lemma sent_route: "keeps sent_ok (route_outcome st a name x)"
  unfolding route_outcome_def
  by (cases "px_outcome x") (auto intro!: keeps_bindE keeps_thenE keeps_ret sent_rules)

lemma sent_send_attempt:
  assumes "0 \<le> st_attempts st"
  shows "keeps sent_ok (send_attempt st)"
proof -
  have clear: "keeps sent_ok (clear_destination s)" for s
    unfolding clear_destination_def by (intro keeps_if keeps_thenE keeps_ret sent_rules)
  have send: "leads (may_send (st_session st) (st_attempts st + 1)) sent_ok
      (bindE (resolve_destination st) (\<lambda>dest.
         bindE (insert_attempt (st_id st) (st_attempts st + 1) name (payout_key (st_session st) (st_attempts st + 1)) ''dispatched'' dest) (\<lambda>a.
           thenE (update_settlement (st_id st) (\<lambda>t s. s\<lparr>st_attempts := st_attempts st + 1, st_updated := t\<rparr>))
             (bindE (provider_dispatch name (request_for st (st_attempts st + 1) dest)) (\<lambda>x.
               bindE (clear_destination (st\<lparr>st_attempts := st_attempts st + 1\<rparr>)) (\<lambda>st. route_outcome st a name x))))))" for name
    unfolding thenE_def
    by (intro leads_before [OF sent_of_calm(2) [OF calm_resolve_destination]] leads_before [OF sent_tables(8)]
        leads_before [OF sent_tables(7)] leads_after [OF leads_provider_dispatch] keeps_bindE clear sent_route may_send_ok)
      (simp_all add: request_for_def)
  show ?thesis
    unfolding send_attempt_def Let_def
    by (intro keeps_bindE keeps_case_option keeps_thenE keeps_ret sent_rules sent_fail_settlement
        keeps_after_claim [where s = "st_session st" and n = "st_attempts st + 1"])
      (use send assms in \<open>auto simp: payout_txn_def pair_txn_def intro: keeps_ret\<close>)
qed

section \<open>Counters of attempts\<close>

text \<open>Every settlement counts its attempts; \<open>counted i n\<close>: the settlement \<open>i\<close> has counted \<open>n\<close>.\<close>

definition counts_ok :: "world \<Rightarrow> bool" where
  "counts_ok w \<longleftrightarrow> (\<forall>s \<in> set (settlements w). 0 \<le> st_attempts s)"

definition counted :: "uuid \<Rightarrow> int \<Rightarrow> world \<Rightarrow> bool" where
  "counted i n w \<longleftrightarrow> (\<forall>s \<in> set (settlements w). st_id s = i \<longrightarrow> st_attempts s = n)"

lemma counts_cong: "settlements w' = settlements w \<Longrightarrow> counts_ok w' = counts_ok w \<and> counted i n w' = counted i n w"
  by (simp add: counts_ok_def counted_def)

lemma counts_simps [simp]:
  "counts_ok (w\<lparr>faults := a1\<rparr>) = counts_ok w" "counts_ok (w\<lparr>uuid_next := a2\<rparr>) = counts_ok w"
  "counts_ok (w\<lparr>attempts := a3\<rparr>) = counts_ok w" "counts_ok (w\<lparr>reversals := a4\<rparr>) = counts_ok w"
  "counts_ok (w\<lparr>now := a5\<rparr>) = counts_ok w" "counts_ok (w\<lparr>outbox := a6\<rparr>) = counts_ok w" "counts_ok (w\<lparr>ext_log := a7\<rparr>) = counts_ok w"
  "counted i n (w\<lparr>faults := a1\<rparr>) = counted i n w" "counted i n (w\<lparr>uuid_next := a2\<rparr>) = counted i n w"
  "counted i n (w\<lparr>attempts := a3\<rparr>) = counted i n w" "counted i n (w\<lparr>reversals := a4\<rparr>) = counted i n w"
  "counted i n (w\<lparr>now := a5\<rparr>) = counted i n w" "counted i n (w\<lparr>outbox := a6\<rparr>) = counted i n w" "counted i n (w\<lparr>ext_log := a7\<rparr>) = counted i n w"
  by (rule counts_cong [THEN conjunct1] counts_cong [THEN conjunct2], simp)+

lemma db_view_counts [simp]: "db_view counts_ok" "db_view (counted i n)" "db_mono counts_ok" "db_mono (counted i n)"
  by (simp_all add: db_view_def db_mono_def)

lemma calm_counts: "calm v w \<Longrightarrow> counts_ok w = counts_ok v \<and> counted i n w = counted i n v"
  by (rule counts_cong) (simp add: calm_def)

lemma counts_of_calm: "(\<And>v. keeps (calm v) m) \<Longrightarrow> keeps counts_ok m" "(\<And>v. keeps (calm v) m) \<Longrightarrow> keeps (counted i n) m"
  by (erule keeps_calm, simp add: calm_counts)+

lemma frame_settlements_post: "frame settlements (post t)"
  by (intro frame_rules) (simp_all add: db_view_def)

lemma frame_settlements_claim: "frame settlements (claim_post t)"
  unfolding claim_post_def by (intro frame_rules frame_settlements_post)

lemma counts_of_frame: "frame settlements m \<Longrightarrow> keeps counts_ok m" "frame settlements m \<Longrightarrow> keeps (counted i n) m"
  unfolding counts_ok_def counted_def by (erule keeps_frame)+

lemma counts_update: "counts_ok w \<Longrightarrow> (\<And>s. 0 \<le> st_attempts s \<Longrightarrow> 0 \<le> st_attempts (f s)) \<Longrightarrow>
    counts_ok (w\<lparr>settlements := update_where c f (settlements w)\<rparr>)"
  by (auto simp: counts_ok_def set_update_where)

lemma counted_update: "counted i n w \<Longrightarrow> (\<And>s. st_id (f s) = st_id s \<and> st_attempts (f s) = st_attempts s) \<Longrightarrow>
    counted i n (w\<lparr>settlements := update_where c f (settlements w)\<rparr>)"
  by (fastforce simp: counted_def set_update_where)

lemma counts_tables:
  "(\<And>t s. 0 \<le> st_attempts s \<Longrightarrow> 0 \<le> st_attempts (f t s)) \<Longrightarrow> keeps counts_ok (update_settlement i f)"
  "(\<And>t s. 0 \<le> st_attempts s \<Longrightarrow> 0 \<le> st_attempts (f t s)) \<Longrightarrow> keeps counts_ok (cas_settlement i from f)"
  "(\<And>t s. st_id (f t s) = st_id s \<and> st_attempts (f t s) = st_attempts s) \<Longrightarrow> keeps (counted j n) (update_settlement i f)"
  unfolding update_settlement_def cas_settlement_def
  by (auto intro!: keeps_rules counts_update counted_update)

lemma frame_settlements_attempts:
  "frame settlements (update_attempt i g)" "frame settlements (insert_attempt i m name key status payload)"
  "frame settlements (mark_attempt i h)" "frame settlements (insert_reversal st reason)"
  unfolding update_attempt_def insert_attempt_def mark_attempt_def insert_reversal_def
  by (auto intro!: frame_rules simp: db_view_def)

lemma frame_case_answers [frame_rules]:
  "frame f a \<Longrightarrow> (\<And>m. frame f (b m)) \<Longrightarrow> (\<And>m. frame f (c m)) \<Longrightarrow>
   frame f (case out of HyAccepted \<Rightarrow> a | HyRejected m \<Rightarrow> b m | HyUnknown m \<Rightarrow> c m)"
  "(\<And>m. frame f (b m)) \<Longrightarrow> (\<And>st t. frame f (d st t)) \<Longrightarrow> frame f (case r of NoReply m \<Rightarrow> b m | Reply st t \<Rightarrow> d st t)"
  by (cases out, simp_all) (cases r, simp_all)

lemma frame_dispatch:
  assumes "db_view f" and "\<And>w l. f (w\<lparr>ext_log := l\<rparr>) = f w"
  shows "frame f (provider_dispatch name req)"
proof -
  have hy: "frame f (hyparrow_do q)" for q
    unfolding hyparrow_do_def by (intro frame_rules assms)
  show ?thesis
    unfolding provider_dispatch_def hyparrow_dispatch_def http_dispatch_def sandbox_dispatch_def resolve_account_def
      hyparrow_send_def get_transfer_status_def Let_def
    by (intro frame_rules hy assms)
qed

lemma frame_settlements_dispatch: "frame settlements (provider_dispatch name req)"
  by (rule frame_dispatch) (simp_all add: db_view_def)

lemma counts_transition: "keeps counts_ok extra \<Longrightarrow> keeps counts_ok (transition_settlement st from to ty extra)"
  unfolding transition_settlement_def by (intro keeps_rules counts_tables db_view_counts) (simp_all add: set_status_def)

lemmas counts_rules = counts_of_frame(1) [OF frame_settlements_claim] counts_of_frame(1) [OF frame_settlements_dispatch]
  frame_settlements_attempts [THEN counts_of_frame(1)] counts_transition calm_ops [THEN counts_of_calm(1)]

lemma counts_page: "keeps counts_ok (page_ops i)"
  unfolding page_ops_def by (intro counts_tables) simp

lemma counts_fail_settlement: "keeps counts_ok (fail_settlement st reason)"
  unfolding fail_settlement_def hand_to_manual_def Let_def
  by (intro keeps_bindE keeps_if keeps_case_option keeps_case_sum keeps_case_prod keeps_thenE keeps_attemptE keeps_ret counts_rules counts_page)

lemma counts_clear: "keeps counts_ok (clear_destination st)"
  unfolding clear_destination_def by (intro keeps_if keeps_thenE keeps_ret counts_tables) simp

lemma counts_route: "keeps counts_ok (route_outcome st a name x)"
  unfolding route_outcome_def
  by (cases "px_outcome x") (auto intro!: keeps_bindE keeps_thenE keeps_ret counts_rules counts_tables)

lemma counts_send_attempt: "0 \<le> st_attempts st \<Longrightarrow> keeps counts_ok (send_attempt st)"
  unfolding send_attempt_def Let_def
  by (intro keeps_bindE keeps_case_option keeps_thenE keeps_if keeps_ret counts_rules counts_fail_settlement counts_clear counts_route
      counts_tables) simp

lemma counts_fail_attempt: "keeps counts_ok (fail_attempt a bucket reason terminal)"
  unfolding fail_attempt_def post_once_def quiet_def
  by (intro keeps_bindE keeps_if keeps_thenE keeps_ret keeps_gets keeps_modify counts_rules counts_fail_settlement) simp

text \<open>Triples about successful runs only.\<close>

abbreviation triple :: "('s \<Rightarrow> bool) \<Rightarrow> ('s, 'a) op \<Rightarrow> ('a \<Rightarrow> 's \<Rightarrow> bool) \<Rightarrow> bool" where
  "triple P m Q \<equiv> hoare P m Q (\<lambda>_ _. True)"

lemma triple_skip: "(\<And>x. triple (\<lambda>_. True) (k x) Q) \<Longrightarrow> triple P (bindE m k) Q"
  by (rule hoare_pre [OF hoare_bindE [where R = "\<lambda>_ _. True"]]) (auto simp: hoare_def split: prod.split sum.split)

lemma triple_keep: "keeps P m \<Longrightarrow> (\<And>x. triple P (k x) Q) \<Longrightarrow> triple P (bindE m k) Q"
  by (rule hoare_bindE [where R = "\<lambda>_. P"]) (simp_all add: keeps_hoare, erule hoare_weaken, simp_all)

lemma triple_know: "triple P m R \<Longrightarrow> (\<And>x. triple (R x) (k x) Q) \<Longrightarrow> triple P (bindE m k) Q"
  by (rule hoare_bindE)

lemma triple_ret: "(\<And>w. P w \<Longrightarrow> Q x w) \<Longrightarrow> triple P (ret x) Q"
  by (rule hoare_pre [OF hoare_ret]) simp

lemma triple_fail: "triple P (fail e) Q"
  by (rule hoare_pre [OF hoare_fail]) simp

lemma triple_if: "(b \<Longrightarrow> triple P m Q) \<Longrightarrow> (\<not> b \<Longrightarrow> triple P k Q) \<Longrightarrow> triple P (if b then m else k) Q"
  by simp

lemma insert_attempt_row:
  "triple P (insert_attempt i n name key status payload) (\<lambda>a w. at_settlement a = i \<and> at_number a = n)"
  unfolding insert_attempt_def stmt_def thenE_def
  by (intro triple_skip triple_ret hoare_bindE [where R = "\<lambda>a w. at_settlement a = i \<and> at_number a = n"] hoare_pre [OF hoare_gets]
      triple_keep [OF keeps_modify]) simp_all

lemma get_settlement_row: "triple P (get_settlement i) (\<lambda>s w. st_id s = i \<and> s \<in> set (settlements w))"
  unfolding get_settlement_def query_def stmt_def thenE_def
  by (intro triple_skip triple_know [where R = "\<lambda>r w. r = find (\<lambda>s. st_id s = i) (settlements w)"] hoare_pre [OF hoare_gets])
    (auto split: option.split simp: hoare_def ret_def fail_def dest: find_Some_mem)

definition sent_row :: "settlement \<Rightarrow> failed_send option \<Rightarrow> world \<Rightarrow> bool" where
  "sent_row st r w \<longleftrightarrow> (\<forall>a b m t. r = Some (a, b, m, t) \<longrightarrow>
     at_settlement a = st_id st \<and> at_number a = st_attempts st + 1 \<and> counted (st_id st) (st_attempts st + 1) w)"

lemma sent_row_None [simp]: "sent_row st None w"
  by (simp add: sent_row_def)

lemma route_row: "triple (\<lambda>w. at_settlement a = st_id st \<and> at_number a = n \<and> counted (st_id st) n w) (route_outcome st' a name x)
    (\<lambda>r w. \<forall>a' b m t. r = Some (a', b, m, t) \<longrightarrow> at_settlement a' = st_id st \<and> at_number a' = n \<and> counted (st_id st) n w)"
  unfolding route_outcome_def thenE_def
  by (cases "px_outcome x") (auto intro!: triple_skip triple_ret)

lemma send_attempt_row: "triple P (send_attempt st) (sent_row st)"
proof -
  let ?n = "st_attempts st + 1" and ?R = "\<lambda>a w. at_settlement a = st_id st \<and> at_number a = st_attempts st + 1"
  have clear: "keeps (\<lambda>w. ?R a w \<and> counted (st_id st) ?n w) (clear_destination s)" for a s
    unfolding clear_destination_def by (intro keeps_conj keeps_if keeps_thenE keeps_ret counts_tables) (simp_all add: keeps_def)
  have dispatch: "keeps (\<lambda>w. ?R a w \<and> counted (st_id st) ?n w) (provider_dispatch name req)" for a name req
    by (intro keeps_conj counts_of_frame frame_settlements_dispatch) (simp_all add: keeps_def)
  have bump: "triple (?R a) (update_settlement (st_id st) (\<lambda>t s. s\<lparr>st_attempts := ?n, st_updated := t\<rparr>))
      (\<lambda>_ w. ?R a w \<and> counted (st_id st) ?n w)" for a
    unfolding update_settlement_def exec_def stmt_def thenE_def
    by (intro hoare_bindE [where R = "\<lambda>_. ?R a"] hoare_pre [OF hoare_modify])
      (auto simp: counted_def set_update_where hoare_def split: prod.split sum.split)
  have rest: "triple (\<lambda>_. True) (bindE (insert_attempt (st_id st) ?n name key status dest) (\<lambda>a.
      bindE (update_settlement (st_id st) (\<lambda>t s. s\<lparr>st_attempts := ?n, st_updated := t\<rparr>)) (\<lambda>_.
        bindE (provider_dispatch name req) (\<lambda>x. bindE (clear_destination s) (\<lambda>s'. route_outcome s' a name x))))) (sent_row st)"
    for name key status dest req s
    unfolding sent_row_def
    by (intro triple_know [OF insert_attempt_row] triple_know [OF bump] triple_keep [OF dispatch] triple_keep [OF clear]
        hoare_weaken [OF route_row]) auto
  show ?thesis
    unfolding send_attempt_def Let_def thenE_def
    by (auto split: option.split intro!: triple_skip triple_ret triple_if rest [unfolded thenE_def])
qed

definition next_row :: "attempt \<Rightarrow> settlement option \<Rightarrow> bool" where
  "next_row a r \<longleftrightarrow> (\<forall>st. r = Some st \<longrightarrow> at_number a < MaxAutoRetryAttempts \<and> st_id st = at_settlement a)"

text \<open>What \<open>fail_attempt\<close> hands to the next dispatch: a row it read.\<close>

lemma fail_attempt_row:
  assumes "\<And>v. keeps P (mark_attempt (at_id a) v)" and "\<And>s w. P w \<Longrightarrow> s \<in> set (settlements w) \<Longrightarrow> st_id s = at_settlement a \<Longrightarrow> C s"
  shows "triple P (fail_attempt a bucket reason terminal) (\<lambda>r _. \<forall>st. r = Some st \<longrightarrow> C st \<and> next_row a (Some st))"
proof -
  have read: "triple P (get_settlement (at_settlement a)) (\<lambda>s _. C s \<and> st_id s = at_settlement a)"
  proof (rule hoareI)
    fix w s w' assume "P w" "get_settlement (at_settlement a) w = (Inr s, w')"
    then show "C s \<and> st_id s = at_settlement a"
      using assms(2) [of w s]
      by (auto simp: get_settlement_def fail_def ret_def split: option.splits elim!: bindE_InrE dest!: query_InrD find_Some_mem)
  qed simp
  have rest: "triple (\<lambda>_. C s \<and> st_id s = at_settlement a) m (\<lambda>r _. \<forall>st. r = Some st \<longrightarrow> C st \<and> next_row a (Some st))"
    if "triple (\<lambda>_. True) m (\<lambda>r _. \<forall>st. r = Some st \<longrightarrow> st = s \<and> at_number a < MaxAutoRetryAttempts)" for s m
    using that by (fastforce simp: hoare_def next_row_def split: prod.splits sum.splits)
  show ?thesis
    unfolding fail_attempt_def thenE_def
    by (intro triple_keep [OF assms(1)] triple_if triple_ret triple_know [OF read] rest)
      (auto intro!: triple_skip triple_if triple_ret)
qed

lemma send_failure:
  assumes "send_attempt st w = (Inr (Some (a, b, m, t)), w')"
  shows "at_settlement a = st_id st \<and> at_number a = st_attempts st + 1 \<and> counted (st_id st) (st_attempts st + 1) w'"
  using hoare_InrD [OF send_attempt_row [of "\<lambda>_. True"] _ assms] by (simp add: sent_row_def)

text \<open>The two invariants of overlapping operations, together.\<close>

definition sends_ok :: "world \<Rightarrow> bool" where
  "sends_ok w \<longleftrightarrow> sent_ok w \<and> counts_ok w"

lemma sends_ok_keeps: "keeps sent_ok m \<Longrightarrow> keeps counts_ok m \<Longrightarrow> keeps sends_ok m"
  by (simp add: keeps_def sends_ok_def)

lemma sends_of_calm: "(\<And>v. keeps (calm v) m) \<Longrightarrow> keeps sends_ok m"
  by (intro sends_ok_keeps sent_of_calm counts_of_calm) simp_all

lemma db_mono_sends [simp]: "db_mono sends_ok"
  by (simp add: sends_ok_def db_mono_def)

lemma sends_send: "0 \<le> st_attempts st \<Longrightarrow> keeps sends_ok (send_attempt st)"
  by (intro sends_ok_keeps sent_send_attempt counts_send_attempt)

lemma sends_fail_settlement: "keeps sends_ok (fail_settlement st reason)"
  by (intro sends_ok_keeps sent_fail_settlement counts_fail_settlement)

lemma sends_tables:
  "keeps sends_ok (mark_attempt i h)" "keeps sends_ok (insert_reversal st reason)" "keeps sends_ok (claim_post t)"
  "keeps sends_ok (insert_attempt i m name key status payload)" "keeps sends_ok (update_attempt i g)"
  by (intro sends_ok_keeps sent_rules counts_rules)+

lemma sends_update:
  "(\<And>t s. 0 \<le> st_attempts s \<Longrightarrow> 0 \<le> st_attempts (f t s)) \<Longrightarrow> keeps sends_ok (update_settlement i f)"
  "(\<And>t s. 0 \<le> st_attempts s \<Longrightarrow> 0 \<le> st_attempts (f t s)) \<Longrightarrow> keeps sends_ok (cas_settlement i from f)"
  by (intro sends_ok_keeps sent_tables counts_tables; simp)+

lemma sends_transition: "keeps sends_ok extra \<Longrightarrow> keeps sends_ok (transition_settlement st from to ty extra)"
  unfolding transition_settlement_def
  by (intro keeps_rules sends_update db_mono_sends) (simp_all add: set_status_def sends_ok_def)

lemma sends_post_once: "keeps sends_ok (post_once t)"
  unfolding post_once_def by (intro keeps_quiet sends_tables)

lemma sends_fail_attempt: "keeps sends_ok (fail_attempt a bucket reason terminal)"
  by (intro sends_ok_keeps counts_fail_attempt)
    (unfold fail_attempt_def post_once_def, intro keeps_bindE keeps_if keeps_thenE keeps_ret keeps_gets keeps_modify keeps_quiet
      sent_rules sent_fail_settlement, simp)

lemma sends_fail_result:
  "triple sends_ok (fail_attempt a bucket reason terminal) (\<lambda>r w. \<forall>st. r = Some st \<longrightarrow> 0 \<le> st_attempts st)"
  by (rule hoare_weaken [OF fail_attempt_row [where P = sends_ok and C = "\<lambda>st. 0 \<le> st_attempts st"]])
    (auto simp: sends_ok_def counts_ok_def intro: sends_tables)

lemma keeps_with:
  assumes "keeps P m" and "triple P m R" and "\<And>x w. R x w \<Longrightarrow> P w \<Longrightarrow> P (snd (k x w))"
  shows "keeps P (bindE m k)"
proof (rule keepsI)
  fix w r w' assume "P w" "bindE m k w = (r, w')"
  then show "P w'"
    using keepsD [OF assms(1), of w] hoare_InrD [OF assms(2), of w] assms(3)
    by (auto simp: bindE_def split: prod.splits sum.splits) (metis snd_conv)
qed

lemma sends_dispatch: "0 \<le> st_attempts st \<Longrightarrow> keeps sends_ok (dispatch_attempt n st)"
proof (induction n arbitrary: st)
  case 0
  then show ?case by (simp add: keeps_fail)
next
  case (Suc n)
  have again: "keeps sends_ok (bindE (fail_attempt a b m t) (\<lambda>r. case r of None \<Rightarrow> ret () | Some st' \<Rightarrow> dispatch_attempt n st'))" for a b m t
    by (rule keeps_with [OF sends_fail_attempt sends_fail_result])
      (auto split: option.split intro: keepsD [OF Suc.IH] keepsD [OF keeps_ret])
  show ?case
    unfolding dispatch_attempt.simps
    by (intro keeps_bindE sends_send Suc.prems keeps_case_option keeps_case_prod keeps_ret again)
qed

lemma sends_failure: "keeps sends_ok (handle_attempt_failure a b m t)"
  unfolding handle_attempt_failure_def
  by (rule keeps_with [OF sends_fail_attempt sends_fail_result])
    (auto split: option.split intro: keepsD [OF sends_dispatch] keepsD [OF keeps_ret])

lemmas sends_calm = calm_ops [THEN sends_of_calm]

lemma sends_prepare: "keeps sends_ok (prepare_settlement st)"
proof -
  have w: "keeps sends_ok (write_settling i s amount fiat)" for i s amount fiat
  proof -
    have "keeps sends_ok (modify (\<lambda>w. w\<lparr>settlements := update_where (\<lambda>st. st_id st = i \<and> st_status st = ''dispatching'')
           (\<lambda>st. (with_amounts s a f st)\<lparr>st_updated := now w\<rparr>) (settlements w)\<rparr>))" for a f
      by (intro keeps_modify) (auto simp: sends_ok_def with_amounts_def intro!: counts_update)
    then show ?thesis
      unfolding write_settling_def
      by (cases "numeric_36_18 amount"; cases "numeric_36_18 fiat") (auto intro!: keeps_stmt keeps_fail)
  qed
  show ?thesis
    unfolding prepare_settlement_def Let_def
    by (intro keeps_bindE keeps_case_prod keeps_case_option keeps_thenE keeps_if keeps_ret keeps_fail keeps_quiet sends_calm
        sends_post_once w)
qed

lemma prepared_row: "triple P (prepare_settlement st) (\<lambda>st' w. st_attempts st' = st_attempts st \<and> st_id st' = st_id st \<and> st_session st' = st_session st)"
  unfolding prepare_settlement_def Let_def thenE_def
  by (auto split: option.split simp: with_amounts_def intro!: triple_skip triple_ret triple_fail)

lemma sends_process: "0 \<le> st_attempts st \<Longrightarrow> keeps sends_ok (process_settlement st)"
  unfolding process_settlement_def
  by (rule keeps_with [OF sends_prepare prepared_row]) (auto intro: keepsD [OF sends_dispatch])

lemma sends_claim_next: "keeps sends_ok claim_next"
  unfolding claim_next_def
  by (intro keeps_rules db_mono_sends) (auto simp: sends_ok_def set_status_def intro!: counts_update)

lemma claimed_row: "triple counts_ok claim_next (\<lambda>r w. \<forall>st. r = Some st \<longrightarrow> 0 \<le> st_attempts st)"
proof (rule hoareI)
  fix w r w' assume "counts_ok w" "claim_next w = (Inr r, w')"
  then show "\<forall>st. r = Some st \<longrightarrow> 0 \<le> st_attempts st"
    by (auto simp: claim_next_def counts_ok_def set_status_def next_pending_def bindE_def gets_def ret_def modify_def thenE_def
        dest!: stmt_InrD first_min_in_set split: option.splits)
qed simp

lemma sends_loop: "keeps sends_ok (dispatch_loop n)"
proof (induction n)
  case (Suc n)
  have row: "triple sends_ok claim_next (\<lambda>r w. \<forall>st. r = Some st \<longrightarrow> 0 \<le> st_attempts st)"
    by (rule hoare_pre [OF claimed_row]) (simp add: sends_ok_def)
  show ?case
    unfolding dispatch_loop.simps
    by (rule keeps_with [OF sends_claim_next row])
      (auto split: option.split intro: keepsD [OF keeps_ret] keepsD [OF keeps_thenE [OF keeps_attemptE [OF sends_process] Suc]])
qed (simp add: keeps_fail)

lemma sends_succeeded: "keeps sends_ok (handle_payout_succeeded a)"
  unfolding handle_payout_succeeded_def
  by (intro keeps_bindE keeps_if keeps_ret sends_tables sends_transition sends_calm)

lemma sends_returned: "keeps sends_ok (handle_payout_returned a reason)"
  unfolding handle_payout_returned_def
  by (intro keeps_bindE keeps_thenE keeps_if keeps_ret sends_tables sends_transition sends_post_once sends_calm)

lemma sends_declined: "keeps sends_ok (flag_declined_attempt a ref reason)"
  unfolding flag_declined_attempt_def
  by (intro keeps_bindE keeps_thenE keeps_if keeps_ret keeps_stmt keeps_gets keeps_modify db_mono_sends sends_update sends_calm)
    (simp_all add: sends_ok_def)

lemma sends_apply: "keeps sends_ok (apply_event a ev)"
  unfolding apply_event_def
  by (cases "we_kind ev") (auto intro!: keeps_ret sends_succeeded sends_returned sends_declined sends_failure)

lemma sends_webhook: "keeps sends_ok (handle_settlement_webhook name body hdr)"
  unfolding handle_settlement_webhook_def
  by (intro keeps_bindE keeps_gets keeps_if keeps_fail keeps_case_sum keeps_ret sends_apply sends_calm)

lemma sends_dispatch_tick: "keeps sends_ok dispatch_tick"
  unfolding dispatch_tick_def dispatch_settlements_def confirm_sandbox_dispatches_def
  by (intro keeps_thenE keeps_attemptE keeps_bindE keeps_gets keeps_query keeps_if keeps_ret keeps_forE db_mono_sends sends_loop sends_succeeded)

lemma sends_retry: "keeps sends_ok (retry_payout i admin dest confirmed)"
proof -
  have r: "keeps sends_ok (resolve_confirmed_failed st admin)" for st
    unfolding resolve_confirmed_failed_def Let_def
    by (intro keeps_bindE keeps_stmt keeps_thenE keeps_gets keeps_modify keeps_ret keeps_if keeps_forE db_mono_sends sends_post_once
        sends_calm) (simp_all add: sends_ok_def)
  show ?thesis
    unfolding retry_payout_def
    by (intro keeps_bindE keeps_case_option keeps_case_prod keeps_fail keeps_thenE keeps_if keeps_ret r sends_update sends_calm) simp
qed

lemma sends_resolve_reversal: "keeps sends_ok (resolve_reversal i admin debit credit amount remark)"
  unfolding resolve_reversal_def
  by (intro keeps_bindE keeps_query keeps_case_option keeps_fail keeps_if keeps_thenE keeps_stmt keeps_gets keeps_modify keeps_ret keeps_quiet
      db_mono_sends sends_post_once sends_update sends_calm) (simp_all add: sends_ok_def set_status_def)

lemma sends_manual: "keeps sends_ok (manual_settle i who)"
proof -
  have extra: "keeps sends_ok (update_settlement j (\<lambda>_ s. s\<lparr>st_attempts := n\<rparr>))" if "0 \<le> n" for j n
    using that by (intro sends_update) simp
  have row: "triple sends_ok (get_settlement i) (\<lambda>s _. 0 \<le> st_attempts s)"
    by (rule hoareI) (auto simp: get_settlement_def sends_ok_def counts_ok_def fail_def ret_def split: option.splits
        elim!: bindE_InrE dest!: query_InrD find_Some_mem)
  have rest: "keeps sends_ok (if st_status st \<noteq> ''awaiting_manual_payout'' then ret (False, st)
     else let n = st_attempts st + 1 in
       bindE (transition_settlement st ''awaiting_manual_payout'' ''settled'' ''settlement.completed''
           (thenE (insert_attempt (st_id st) n ''manual'' (manual_key (st_session st)) ''succeeded'' (JObj [(''settled_by'', JStr who)]))
             (update_settlement (st_id st) (\<lambda>_ s. s\<lparr>st_attempts := n\<rparr>)))) (\<lambda>moved.
         if \<not> moved then bindE (get_settlement i) (\<lambda>cur. ret (False, cur))
         else bindE (resolve_accounts (st_tenant st) (st_asset st) (st_fiat st)) (\<lambda>acc.
           thenE (post_once (manual_txn st acc))
             (thenE (complete_session st) (bindE (get_settlement i) (\<lambda>cur. ret (True, cur)))))))" if "0 \<le> st_attempts st" for st
    unfolding Let_def
    by (intro keeps_if keeps_ret keeps_bindE keeps_thenE sends_transition sends_tables extra sends_post_once sends_calm)
      (use that in simp)
  show ?thesis
    unfolding manual_settle_def by (rule keeps_with [OF sends_of_calm [OF calm_get_settlement(1)] row]) (rule keepsD [OF rest])
qed

lemma sends_telegram: "keeps sends_ok (handle_telegram_update secret body)"
  unfolding handle_telegram_update_def handle_press_def Let_def
  by (intro keeps_bindE keeps_gets keeps_if keeps_fail keeps_case_option keeps_case_prod keeps_case_sum keeps_thenE keeps_attemptE keeps_ret
      sends_manual sends_calm)

lemma sends_claim_settlement: "keeps sends_ok (claim_settlement e)"
  unfolding claim_settlement_def
  by (intro keeps_rules db_mono_sends) (auto simp: sends_ok_def counts_ok_def new_settlement_def sent_ok_def posted_keys_def sent_refs_def)

lemma sends_step: "keeps sends_ok (settlement_step cmd)"
proof (cases cmd)
  case VTimeouts
  have "keeps sends_ok page_timed_out"
    unfolding page_timed_out_def by (intro keeps_rules db_mono_sends) (auto simp: sends_ok_def intro!: counts_update)
  with VTimeouts show ?thesis by simp
qed (simp_all add: keeps_quiet sends_claim_settlement sends_dispatch_tick sends_webhook sends_retry sends_manual sends_telegram
    sends_resolve_reversal sends_of_calm calm_session_step)

lemma sends_engine_step: "keeps sends_ok (engine_step cmd)"
  by (cases cmd) (auto simp: sends_step intro: sends_dispatch keeps_ret)

section \<open>The loops end\<close>

named_theorems fuel_rules \<open>an operation never runs out of fuel\<close>

definition fueled :: "('s, 'a) op \<Rightarrow> bool" where
  "fueled m \<longleftrightarrow> (\<forall>w. fst (m w) \<noteq> Inl OutOfFuel)"

lemma fueled_basic [fuel_rules]:
  "fueled (ret x)" "e \<noteq> OutOfFuel \<Longrightarrow> fueled (fail e)" "fueled (gets f)" "fueled (modify g)" "e \<noteq> OutOfFuel \<Longrightarrow> fueled (guardE b e)"
  "fueled gen_uuid" "fueled tick_fault" "fueled (ask c h)" "fueled (attemptE m)"
  by (auto simp: fueled_def op_defs gen_uuid_def tick_fault_def ask_def attemptE_def split: list.split prod.split)

lemma fueled_bindE [fuel_rules]: "fueled m \<Longrightarrow> (\<And>x. fueled (k x)) \<Longrightarrow> fueled (bindE m k)"
  by (auto simp: fueled_def bindE_def split: prod.split sum.split) (metis fst_conv)+

lemma fueled_thenE [fuel_rules]: "fueled m \<Longrightarrow> fueled k \<Longrightarrow> fueled (thenE m k)"
  by (simp add: thenE_def fueled_bindE)

lemma fueled_onErr [fuel_rules]: "fueled m \<Longrightarrow> (\<And>e. e \<noteq> OutOfFuel \<Longrightarrow> fueled (h e)) \<Longrightarrow> fueled (onErr m h)"
  by (auto simp: fueled_def onErr_def split: prod.split sum.split) (metis fst_conv)+

lemma fueled_stmt [fuel_rules]: "fueled m \<Longrightarrow> fueled (stmt m)"
  unfolding stmt_def by (intro fuel_rules)

lemma fueled_query [fuel_rules]: "fueled (query f)" "fueled (exec g)"
  unfolding query_def exec_def by (intro fuel_rules)+

lemma fueled_atomically [fuel_rules]: "fueled m \<Longrightarrow> fueled (atomically m)"
  by (auto simp: fueled_def atomically_def split: prod.split sum.split) (metis fst_conv)+

lemma fueled_cases [fuel_rules]:
  "(b \<Longrightarrow> fueled m) \<Longrightarrow> (\<not> b \<Longrightarrow> fueled k) \<Longrightarrow> fueled (if b then m else k)"
  "(v = None \<Longrightarrow> fueled m) \<Longrightarrow> (\<And>x. v = Some x \<Longrightarrow> fueled (h x)) \<Longrightarrow> fueled (case v of None \<Rightarrow> m | Some x \<Rightarrow> h x)"
  "(\<And>x. fueled (i x)) \<Longrightarrow> (\<And>x. fueled (j x)) \<Longrightarrow> fueled (case s of Inl x \<Rightarrow> i x | Inr x \<Rightarrow> j x)"
  "(\<And>x y. fueled (l x y)) \<Longrightarrow> fueled (case p of (x, y) \<Rightarrow> l x y)"
  by simp (cases v, auto, cases s, auto, cases p, auto)

lemma fueled_forE [fuel_rules]: "(\<And>x. fueled (f x)) \<Longrightarrow> fueled (forE xs f)"
  by (induction xs) (auto intro: fuel_rules)

lemma fueled_quiet [fuel_rules]: "fueled m \<Longrightarrow> fueled (quiet m)"
  unfolding quiet_def by (intro fuel_rules)

lemma fueled_post [fuel_rules]: "fueled (post t)"
proof -
  have checks: "check_entries es = Some e \<Longrightarrow> e \<noteq> OutOfFuel" for es e
    by (induction es) (auto split: if_splits)
  have balance: "validate_balance es = Some e \<Longrightarrow> e \<noteq> OutOfFuel" for es e
    by (auto simp: validate_balance_def split: if_splits)
  have entry: "fueled (post_entry tid e)" for tid e
    unfolding post_entry_def insert_entry_def add_balance_def by (intro fuel_rules) simp_all
  show ?thesis
    unfolding post_def insert_txn_def by (intro fuel_rules entry) (auto dest: checks balance)
qed

lemma fueled_publish [fuel_rules]: "fueled (publish_if_bus ty ag i pl)"
  unfolding publish_if_bus_def publish_def by (intro fuel_rules)

lemma fueled_cas [fuel_rules]: "fueled (cas_session i from f)"
  unfolding cas_session_def by (intro fuel_rules) simp

lemma fueled_readers [fuel_rules]:
  "fueled (get_session i)" "fueled (list_active_providers c ty)" "fueled (get_lock l)" "fueled (get_confirmed_deposit_total rid)"
  "fueled (release_reservation rid)" "fueled (get_settlement i)" "fueled (find_attempt name ref)"
  unfolding get_session_def list_active_providers_def get_lock_def get_confirmed_deposit_total_def release_reservation_def
    get_settlement_def find_attempt_def
  by (intro fuel_rules; simp)+

lemma fueled_claims [fuel_rules]: "fueled (claim_post t)" "fueled (post_once t)" "fueled (resolve_accounts tenant asset fiat)"
  unfolding post_once_def claim_post_def resolve_accounts_def get_or_create_account_def by (intro fuel_rules; simp)+

lemma fueled_tables [fuel_rules]:
  "fueled (update_settlement i f)" "fueled (update_attempt i g)" "fueled (cas_settlement i from f)"
  "fueled (insert_attempt i m name key status payload)" "fueled (mark_attempt i h)" "fueled (page_ops i)" "fueled (insert_reversal st reason)"
  unfolding update_settlement_def update_attempt_def cas_settlement_def insert_attempt_def mark_attempt_def page_ops_def insert_reversal_def
  by (intro fuel_rules; simp)+

lemma fueled_transition [fuel_rules]: "fueled extra \<Longrightarrow> fueled (transition_settlement st from to ty extra)"
  unfolding transition_settlement_def by (intro fuel_rules)

lemma fueled_sessions [fuel_rules]:
  "fueled (transition_to_settling i)" "fueled (transition_to_settled i)" "fueled (transition_to_reversed i)"
  "fueled (transition_to_settlement_failed i)" "fueled (transition_to_reversal_resolved i)" "fueled (retry_to_settling i f)"
  "fueled (release_of s)"
  unfolding transition_to_settling_def transition_to_settled_def transition_to_settlement_failed_def transition_to_reversed_def
    transition_to_reversal_resolved_def retry_to_settling_def cas_transition_def release_of_def
  by (intro fuel_rules)+

lemma fueled_fail_settlement [fuel_rules]: "fueled (fail_settlement st reason)"
  unfolding fail_settlement_def hand_to_manual_def telegram_call_def Let_def by (intro fuel_rules)

lemma fueled_answers [fuel_rules]:
  "fueled a \<Longrightarrow> (\<And>m. fueled (b m)) \<Longrightarrow> (\<And>m. fueled (c m)) \<Longrightarrow>
   fueled (case out of HyAccepted \<Rightarrow> a | HyRejected m \<Rightarrow> b m | HyUnknown m \<Rightarrow> c m)"
  "(\<And>m. fueled (b m)) \<Longrightarrow> (\<And>st t. fueled (d st t)) \<Longrightarrow> fueled (case r of NoReply m \<Rightarrow> b m | Reply st t \<Rightarrow> d st t)"
  by (cases out, simp_all) (cases r, simp_all)

lemma fueled_dispatch [fuel_rules]: "fueled (provider_dispatch name req)"
  unfolding provider_dispatch_def hyparrow_dispatch_def http_dispatch_def sandbox_dispatch_def resolve_account_def hyparrow_send_def
    get_transfer_status_def hyparrow_do_def Let_def
  by (intro fuel_rules; simp)

lemma fueled_route [fuel_rules]: "fueled (route_outcome st a name x)"
  unfolding route_outcome_def alert_review_def alert_def telegram_call_def
  by (cases "px_outcome x") (simp_all, (intro fuel_rules)+)

lemma fueled_send [fuel_rules]: "fueled (send_attempt st)"
  unfolding send_attempt_def tried_providers_def select_provider_def clear_destination_def resolve_destination_def Let_def
  by (intro fuel_rules)

lemma fueled_fail_attempt [fuel_rules]: "fueled (fail_attempt a b m t)"
  unfolding fail_attempt_def tried_providers_def by (intro fuel_rules)

lemma fueled_prepare [fuel_rules]: "fueled (prepare_settlement st)"
  unfolding prepare_settlement_def write_settling_def Let_def by (intro fuel_rules; simp)

lemma fueledD: "fueled m \<Longrightarrow> m w = (r, w') \<Longrightarrow> r \<noteq> Inl OutOfFuel"
  by (metis fueled_def fst_conv)

lemma ends_bind:
  assumes "fueled m" and "triple P m R" and "P w" and "\<And>x v. R x v \<Longrightarrow> fst (k x v) \<noteq> Inl OutOfFuel"
  shows "fst (bindE m k w) \<noteq> Inl OutOfFuel"
proof -
  obtain r v where r: "m w = (r, v)" by fastforce
  show ?thesis
    using fueledD [OF assms(1) r] hoare_InrD [OF assms(2,3)] r assms(4) by (cases r) (auto simp: bindE_def)
qed

text \<open>Attempt numbers grow by one, and a failure numbered three or more is not dispatched again.\<close>

lemma failed_row: "triple (counted (at_settlement a) n) (fail_attempt a b m t)
    (\<lambda>r _. \<forall>st. r = Some st \<longrightarrow> st_attempts st = n \<and> next_row a (Some st))"
  by (rule fail_attempt_row) (auto simp: counted_def intro: counts_of_frame(2) frame_settlements_attempts)

lemma dispatch_attempt_ends:
  assumes "0 \<le> st_attempts st" and "MaxAutoRetryAttempts - st_attempts st \<le> int n" and "0 < n"
  shows "fst (dispatch_attempt n st w) \<noteq> Inl OutOfFuel"
  using assms
proof (induction n arbitrary: st w)
  case (Suc n)
  have again: "fst (bindE (fail_attempt a b m t) (\<lambda>r. case r of None \<Rightarrow> ret () | Some st' \<Rightarrow> dispatch_attempt n st') v) \<noteq> Inl OutOfFuel"
    if "at_settlement a = st_id st" "at_number a = st_attempts st + 1" "counted (st_id st) (st_attempts st + 1) v" for a b m t v
  proof (rule ends_bind [OF fueled_fail_attempt failed_row])
    show "counted (at_settlement a) (at_number a) v" using that by simp
    fix r v' assume r: "\<forall>st'. r = Some st' \<longrightarrow> st_attempts st' = at_number a \<and> next_row a (Some st')"
    show "fst ((case r of None \<Rightarrow> ret () | Some st' \<Rightarrow> dispatch_attempt n st') v') \<noteq> Inl OutOfFuel"
    proof (cases r)
      case (Some st')
      with r that Suc.prems have "0 \<le> st_attempts st'" "MaxAutoRetryAttempts - st_attempts st' \<le> int n" "0 < n"
        by (simp_all add: next_row_def MaxAutoRetryAttempts_def)
      from Suc.IH [OF this] Some show ?thesis by simp
    qed (simp add: ret_def)
  qed
  show ?case
    unfolding dispatch_attempt.simps
  proof (rule ends_bind [OF fueled_send send_attempt_row TrueI])
    fix r v assume row: "sent_row st r v"
    show "fst ((case r of None \<Rightarrow> ret () | Some (a, b, m, t) \<Rightarrow> bindE (fail_attempt a b m t)
        (\<lambda>r. case r of None \<Rightarrow> ret () | Some st' \<Rightarrow> dispatch_attempt n st')) v) \<noteq> Inl OutOfFuel"
    proof (cases r)
      case (Some y)
      obtain a b m t where y: "y = (a, b, m, t)" by (cases y)
      show ?thesis unfolding Some y option.case prod.case by (rule again) (use row in \<open>simp_all add: sent_row_def Some y\<close>)
    qed (simp add: ret_def)
  qed
qed simp

lemma retry_ends [simp]: "0 \<le> st_attempts st \<Longrightarrow> fst (dispatch_attempt retry_fuel st w) \<noteq> Inl OutOfFuel"
  by (rule dispatch_attempt_ends) (simp_all add: retry_fuel_def MaxAutoRetryAttempts_def)

lemma process_ends: "0 \<le> st_attempts st \<Longrightarrow> fst (process_settlement st w) \<noteq> Inl OutOfFuel"
  unfolding process_settlement_def by (rule ends_bind [OF fueled_prepare prepared_row TrueI]) simp

lemma counts_fail_row:
  "triple counts_ok (fail_attempt a b m t) (\<lambda>r _. \<forall>st. r = Some st \<longrightarrow> 0 \<le> st_attempts st \<and> next_row a (Some st))"
  by (rule fail_attempt_row) (auto simp: counts_ok_def intro: counts_rules)

lemma failure_ends: "counts_ok w \<Longrightarrow> fst (handle_attempt_failure a b m t w) \<noteq> Inl OutOfFuel"
  unfolding handle_attempt_failure_def
  by (rule ends_bind [OF fueled_fail_attempt counts_fail_row]) (simp_all add: ret_def split: option.split)

text \<open>A round of the worker: the settlements that wait for a dispatch become fewer.\<close>

definition waiting :: "world \<Rightarrow> nat" where
  "waiting w = count_where (\<lambda>s. st_status s = ''pending_dispatch'') (settlements w)"

abbreviation few :: "nat \<Rightarrow> world \<Rightarrow> bool" where "few k w \<equiv> waiting w \<le> k"

lemma few_update:
  assumes "few k w" and "\<And>s. d s \<Longrightarrow> st_status (f s) = ''pending_dispatch'' \<Longrightarrow> st_status s = ''pending_dispatch''"
  shows "few k (w\<lparr>settlements := update_where d f (settlements w)\<rparr>)"
proof -
  have "count_where (\<lambda>s. st_status s = ''pending_dispatch'') (update_where d f (settlements w)) \<le> waiting w"
    unfolding waiting_def by (rule count_update_le) (rule assms(2))
  with assms(1) show ?thesis by (simp add: waiting_def)
qed

lemma waiting_cong: "settlements w' = settlements w \<Longrightarrow> waiting w' = waiting w"
  by (simp add: waiting_def)

lemma waiting_simps [simp]:
  "waiting (w\<lparr>faults := a1\<rparr>) = waiting w" "waiting (w\<lparr>uuid_next := a2\<rparr>) = waiting w" "waiting (w\<lparr>attempts := a3\<rparr>) = waiting w"
  "waiting (w\<lparr>now := a5\<rparr>) = waiting w" "waiting (w\<lparr>outbox := a6\<rparr>) = waiting w"
  by (rule waiting_cong, simp)+

lemma db_mono_few [simp]: "db_mono (few k)"
  by (simp add: db_mono_def)

lemma few_of_calm: "(\<And>v. keeps (calm v) m) \<Longrightarrow> keeps (few k) m"
  by (erule keeps_calm) (simp add: calm_def waiting_def)

lemma few_of_frame: "frame settlements m \<Longrightarrow> keeps (few k) m"
  unfolding waiting_def by (rule keeps_frame)

lemma few_tables:
  "(\<And>t s. st_status (f t s) = st_status s) \<Longrightarrow> keeps (few k) (update_settlement i f)"
  "to \<noteq> ''pending_dispatch'' \<Longrightarrow> keeps (few k) (cas_settlement i from (set_status to))"
  unfolding update_settlement_def cas_settlement_def by (auto intro!: keeps_rules few_update simp: set_status_def)

lemma few_transition: "keeps (few k) extra \<Longrightarrow> to \<noteq> ''pending_dispatch'' \<Longrightarrow> keeps (few k) (transition_settlement st from to ty extra)"
  unfolding transition_settlement_def by (intro keeps_rules few_tables db_mono_few) simp_all

lemmas few_rules = few_of_frame [OF frame_settlements_claim] few_of_frame [OF frame_settlements_dispatch]
  frame_settlements_attempts [THEN few_of_frame] few_transition calm_ops [THEN few_of_calm]

lemma few_page: "keeps (few k) (page_ops i)"
  unfolding page_ops_def by (intro few_tables) simp

lemma few_fail_settlement: "keeps (few k) (fail_settlement st reason)"
  unfolding fail_settlement_def hand_to_manual_def Let_def
  by (intro keeps_bindE keeps_if keeps_case_option keeps_case_sum keeps_case_prod keeps_thenE keeps_attemptE keeps_ret few_rules few_page)
    simp_all

lemma few_send: "keeps (few k) (send_attempt st)"
proof -
  have clear: "keeps (few k) (clear_destination s)" for s
    unfolding clear_destination_def by (intro keeps_if keeps_thenE keeps_ret few_tables) simp
  have route: "keeps (few k) (route_outcome s a name x)" for s a name x
    unfolding route_outcome_def
    by (cases "px_outcome x") (auto intro!: keeps_bindE keeps_thenE keeps_ret few_rules few_tables)
  show ?thesis
    unfolding send_attempt_def Let_def
    by (intro keeps_bindE keeps_case_option keeps_thenE keeps_if keeps_ret few_rules few_fail_settlement clear route few_tables) simp
qed

lemma few_fail_attempt: "keeps (few k) (fail_attempt a b m t)"
  unfolding fail_attempt_def post_once_def quiet_def
  by (intro keeps_bindE keeps_if keeps_thenE keeps_ret keeps_gets keeps_modify few_rules few_fail_settlement) simp

lemma few_dispatch: "keeps (few k) (dispatch_attempt n st)"
proof (induction n arbitrary: st)
  case (Suc n)
  show ?case
    unfolding dispatch_attempt.simps
    by (intro keeps_bindE few_send keeps_case_option keeps_case_prod keeps_ret few_fail_attempt Suc.IH)
qed (simp add: keeps_fail)

lemma few_process: "keeps (few k) (process_settlement st)"
proof -
  have "keeps (few k) (write_settling i s amount fiat)" for i s amount fiat
    unfolding write_settling_def
    by (cases "numeric_36_18 amount"; cases "numeric_36_18 fiat")
      (auto intro!: keeps_stmt keeps_fail keeps_modify few_update simp: with_amounts_def)
  then show ?thesis
    unfolding process_settlement_def prepare_settlement_def post_once_def quiet_def Let_def
    by (intro keeps_bindE keeps_case_prod keeps_case_option keeps_thenE keeps_if keeps_ret keeps_fail few_rules few_dispatch)
qed

lemma claim_next_fewer: "claim_next w = (Inr (Some st), w') \<Longrightarrow> waiting w' < waiting w"
  by (auto simp: claim_next_def next_pending_def waiting_def set_status_def bindE_def gets_def ret_def modify_def thenE_def
      dest!: stmt_InrD first_min_in_set split: option.splits intro!: count_update_less) (assumption | rule refl)+

lemma loop_ends: "waiting w < n \<Longrightarrow> fst (dispatch_loop n w) \<noteq> Inl OutOfFuel"
proof (induction n arbitrary: w)
  case (Suc n)
  have fuel: "fueled claim_next"
    unfolding claim_next_def by (intro fuel_rules)
  obtain r w1 where c: "claim_next w = (r, w1)" by fastforce
  show ?case
  proof (cases "\<exists>st. r = Inr (Some st)")
    case True
    then obtain st where st: "r = Inr (Some st)" by blast
    obtain x w2 where p: "attemptE (process_settlement st) w1 = (Inr x, w2)"
      by (cases "process_settlement st w1") (simp add: attemptE_def)
    have "waiting w2 \<le> waiting w1"
      using keeps_eq [OF keeps_attemptE [OF few_process] p] by simp
    with claim_next_fewer [OF c [unfolded st]] Suc.prems have "waiting w2 < n" by simp
    from Suc.IH [OF this] show ?thesis by (simp add: c st p bindE_def thenE_def)
  next
    case False
    with c fueledD [OF fuel c] show ?thesis
      by (auto simp: bindE_def ret_def split: sum.split option.split)
  qed
qed simp

lemma dispatch_ends: "fst (dispatch_settlements w) \<noteq> Inl OutOfFuel"
  unfolding dispatch_settlements_def using loop_ends [of w "Suc (waiting w)"] by (simp add: waiting_def bindE_def gets_def)

end
