(* ===== verification/Payouts.thy ===== *)
theory Payouts
  imports SettlementSafety
begin

text \<open>
  The properties of payouts that hold while operations overlap, those of single operations, and a
  world to see them in: one session with a confirmed deposit, and one enabled provider.
\<close>

section \<open>A world with a payout to make\<close>

definition payout_session :: "string \<Rightarrow> session" where
  "payout_session st = \<lparr>s_id = ''S'', s_tenant = ''T'', s_corridor = ''C'', s_status = st, s_fiat = ''NGN'', s_fiat_amount = 3000,
     s_asset = ''USDT'', s_network = ''TRC20'', s_case = None, s_lock = Some ''L'', s_reservation = Some ''V'', s_sla = None,
     s_destination = JObj [(''account_number'', JStr ''0123''), (''bank_code'', JStr ''044'')], s_instructions = None, s_created = 0,
     s_updated = 0\<rparr>"

definition payout_row :: settlement where
  "payout_row = new_settlement (payout_session ''deposit_confirmed'') (sample_src 0) 0"

definition payout_world :: "externals \<Rightarrow> world" where
  "payout_world e = empty_world\<lparr>env := e, uuid_next := 1, sessions := [payout_session ''deposit_confirmed''], settlements := [payout_row],
     bindings := [\<lparr>pb_type = ProviderTypeSettlement, pb_name = ''paystack'', pb_priority = 1, pb_id = ''B'', pb_corridor = ''C'',
       pb_active = True, pb_config = JObj []\<rparr>],
     locks := [\<lparr>lk_id = ''L'', lk_asset = ''USDT'', lk_fiat = ''NGN'', lk_rate = 1500, lk_price = 1, lk_provider = '''', lk_locked = 0,
       lk_expires = 0\<rparr>],
     deposits := [\<lparr>dp_id = ''D'', dp_reservation = ''V'', dp_status = ''confirmed'', dp_asset = ''USDT'', dp_amount = 2, dp_tx = ''tx'',
       dp_payload = [], dp_detected_at = None, dp_confirmed_at = None, dp_swept_at = None\<rparr>]\<rparr>"

lemma sends_ok_payout_world: "sends_ok (payout_world e)"
  by (simp add: sends_ok_def sent_ok_def counts_ok_def sent_refs_def payout_world_def empty_world_def payout_row_def new_settlement_def)

section \<open>Money is asked for once\<close>

text \<open>
  C1. Whatever operations of the pipeline run, in whatever order and overlap, whatever statements
  fail and whatever the providers answer or leave unanswered, no reference is ever sent to a provider
  twice (the reference is the idempotency key of the provider), and every reference sent belongs to
  an attempt whose payout the ledger has posted.
\<close>

theorem payout_sent_once:
  assumes "sends_ok w"
  shows "let w' = run_engine cmds w in distinct (sent_refs w') \<and>
    (\<forall>r \<in> set (sent_refs w'). \<exists>sid n. 0 \<le> n \<and> r \<in> {payout_key sid n, hyparrow_reference sid n} \<and> payout_key sid n \<in> posted_keys w')"
proof -
  have "sends_ok (run_engine cmds w)"
    by (rule run_engine_keeps [OF sends_engine_step assms])
  then show ?thesis by (simp add: Let_def sends_ok_def sent_ok_def refs_of_def)
qed

theorem payout_sent_once_witness:
  "distinct (sent_refs (run_engine [EStep VDispatch, EResume payout_row, EStep (VWebhook ''paystack'' ''body'' (\<lambda>_. ''sig'')), EStep VDispatch]
     (payout_world sample_env)))"
  using payout_sent_once [OF sends_ok_payout_world] unfolding Let_def by blast

section \<open>Retries are bounded\<close>


lemma frame_sent_ask [frame_rules]: "money_ref c = [] \<Longrightarrow> frame sent_refs (ask c f)"
  by (simp add: frame_def ask_def)

lemma db_view_sent [simp]: "db_view sent_refs"
  by (simp add: db_view_def sent_refs_def)

lemma frame_sent_calm: "(\<And>v. keeps (calm v) m) \<Longrightarrow> frame sent_refs m"
  by (auto simp: frame_def calm_def keeps_def)

lemma frame_sent_log: "frame ext_log m \<Longrightarrow> frame sent_refs m"
  by (simp add: frame_def sent_refs_def)

lemma frame_sent_claim: "frame sent_refs (claim_post t)"
  by (rule frame_sent_log, unfold claim_post_def, intro frame_rules) (simp_all add: db_view_def)

lemma frame_sent_tables:
  "frame sent_refs (update_settlement i f)" "frame sent_refs (update_attempt i g)" "frame sent_refs (cas_settlement i from f)"
  "frame sent_refs (insert_attempt i m name key status payload)" "frame sent_refs (mark_attempt i h)" "frame sent_refs (page_ops i)"
  "frame sent_refs (clear_destination st)"
  by (rule frame_sent_log, unfold update_settlement_def update_attempt_def cas_settlement_def insert_attempt_def mark_attempt_def page_ops_def
      clear_destination_def, intro frame_rules; simp add: db_view_def)+

lemma frame_sent_transition: "frame sent_refs extra \<Longrightarrow> frame sent_refs (transition_settlement st from to ty extra)"
  unfolding transition_settlement_def
  by (intro frame_rules frame_sent_tables frame_sent_calm [OF calm_readers(6)] db_view_sent) (simp_all add: sent_refs_def)

lemmas sent_frames = frame_sent_claim frame_sent_tables frame_sent_transition calm_ops [THEN frame_sent_calm]

lemma frame_sent_fail_settlement: "frame sent_refs (fail_settlement st reason)"
  unfolding fail_settlement_def hand_to_manual_def
  by (intro frame_bindE frame_if frame_case_option frame_case_sum frame_case_prod frame_thenE frame_attemptE frame_ret frame_Let sent_frames)

lemma frame_sent_fail_attempt: "frame sent_refs (fail_attempt a b m t)"
  unfolding fail_attempt_def post_once_def quiet_def
  by (intro frame_bindE frame_if frame_thenE frame_ret frame_modify sent_frames frame_sent_fail_settlement) (simp add: sent_refs_def)

lemma frame_sent_route: "frame sent_refs (route_outcome st a name x)"
  unfolding route_outcome_def
  by (cases "px_outcome x") (simp_all, (intro frame_bindE frame_thenE frame_ret sent_frames)+)

text \<open>\<open>at_most n\<close>: at most \<open>n\<close> requests for money have been made.\<close>

definition at_most :: "nat \<Rightarrow> world \<Rightarrow> bool" where
  "at_most n w \<longleftrightarrow> length (sent_refs w) \<le> n"

lemma at_most_Suc: "at_most n w \<Longrightarrow> at_most (Suc n) w"
  by (simp add: at_most_def)

lemma keeps_at_most: "frame sent_refs m \<Longrightarrow> keeps (at_most n) m"
  by (simp add: keeps_def frame_def at_most_def)

lemma leads_at_most: "frame sent_refs m \<Longrightarrow> leads (at_most n) (at_most (Suc n)) m"
  by (intro leads_keeps keeps_at_most at_most_Suc)

lemma leads_none: "leads (at_most n) (at_most (Suc n)) (ret x)"
  by (intro leads_at_most frame_ret)

lemma leads_money: "length (money_ref c) \<le> 1 \<Longrightarrow> leads (at_most n) (at_most (Suc n)) (ask c f)"
  by (simp add: leads_def ask_def at_most_def)

lemma dispatch_asks_once: "leads (at_most n) (at_most (Suc n)) (provider_dispatch name req)"
proof -
  have send: "leads (at_most n) (at_most (Suc n)) (hyparrow_send q)" for q
    unfolding hyparrow_send_def hyparrow_do_def by (intro leads_after leads_money keeps_bindE keeps_gets keeps_ret) simp
  have hy: "leads (at_most n) (at_most (Suc n)) (hyparrow_dispatch req)"
    unfolding hyparrow_dispatch_def Let_def
    by (auto simp: at_most_Suc split: option.split sum.split send_outcome.split
        intro!: leads_none leads_before [OF keeps_at_most [OF frame_sent_calm [OF calm_resolve_account]]]
          leads_before [OF keeps_gets] leads_after [OF send] keeps_at_most frame_bindE frame_ret
          frame_sent_calm [OF calm_transfer_status])
  have http: "leads (at_most n) (at_most (Suc n)) (http_dispatch name req)"
    unfolding http_dispatch_def by (intro leads_after leads_money) (auto intro!: keeps_rules split: sum.split http_reply.split)
  have sand: "leads (at_most n) (at_most (Suc n)) sandbox_dispatch"
    unfolding sandbox_dispatch_def by (intro leads_at_most frame_rules) simp
  from hy http sand show ?thesis by (simp add: provider_dispatch_def)
qed

lemmas sent_starts = sent_frames [THEN keeps_at_most, THEN leads_before]

lemma send_asks_once: "leads (at_most n) (at_most (Suc n)) (send_attempt st)"
proof -
  have rest: "leads (at_most n) (at_most (Suc n)) (bindE (provider_dispatch name req)
      (\<lambda>x. bindE (clear_destination s) (\<lambda>s'. route_outcome s' a name x)))" for name req s a
    by (intro leads_after [OF dispatch_asks_once] keeps_at_most frame_bindE sent_frames frame_sent_route)
  show ?thesis
    unfolding send_attempt_def Let_def thenE_def
    by (auto simp: at_most_Suc split: option.split
        intro!: sent_starts leads_before [OF keeps_at_most [OF frame_sent_fail_settlement]] leads_none rest)
qed

lemma dispatch_bounded:
  "length (sent_refs (snd (dispatch_attempt k st w))) \<le> length (sent_refs w) + nat (max 1 (MaxAutoRetryAttempts - st_attempts st))"
proof (induction k arbitrary: st w)
  case (Suc k)
  obtain r v where send: "send_attempt st w = (r, v)" by fastforce
  have one: "length (sent_refs v) \<le> Suc (length (sent_refs w))"
    using send_asks_once [of "length (sent_refs w)" st] send by (auto simp: leads_def at_most_def dest!: spec [where x = w])
  show ?case
  proof (cases "\<exists>a b m t. r = Inr (Some (a, b, m, t))")
    case True
    then obtain a b m t where r: "r = Inr (Some (a, b, m, t))" by blast
    have row: "at_number a = st_attempts st + 1" "counted (at_settlement a) (at_number a) v"
      using send_failure [OF send [unfolded r]] by simp_all
    obtain q u where fail: "fail_attempt a b m t v = (q, u)" by fastforce
    have same: "sent_refs u = sent_refs v"
      using frameD [OF frame_sent_fail_attempt, of a b m t v] fail by simp
    show ?thesis
    proof (cases "\<exists>st'. q = Inr (Some st')")
      case True
      then obtain st' where q: "q = Inr (Some st')" by blast
      have next_no: "st_attempts st' = at_number a" "at_number a < MaxAutoRetryAttempts"
        using hoare_InrD [OF failed_row row(2) fail [unfolded q]] by (auto simp: next_row_def)
      have "length (sent_refs (snd (dispatch_attempt k st' u))) \<le> length (sent_refs u) + nat (max 1 (MaxAutoRetryAttempts - st_attempts st'))"
        by (rule Suc.IH)
      with one same next_no row(1) show ?thesis
        by (simp add: send r fail q bindE_def)
    next
      case False
      with one same show ?thesis
        by (auto simp: send r fail bindE_def ret_def split: sum.split option.split)
    qed
  next
    case False
    with one show ?thesis
      by (auto simp: send bindE_def ret_def split: sum.split option.split)
  qed
qed (simp add: fail_def)

text \<open>
  C14. One claim of a settlement by the worker asks for money at most three times, and the failure of
  an attempt that its settlement has counted asks for at most as many payouts as remain of the three
  automatic attempts, so for none when the rejection is terminal or the third attempt has failed.
\<close>

theorem retries_bounded:
  "(0 \<le> st_attempts st \<longrightarrow> length (sent_refs (snd (process_settlement st w))) \<le> length (sent_refs w) + 3) \<and>
   (counted (at_settlement a) (at_number a) w \<longrightarrow>
      length (sent_refs (snd (handle_attempt_failure a bucket reason terminal w))) \<le>
        length (sent_refs w) + (if terminal then 0 else nat (3 - at_number a)))"
proof (intro conjI impI)
  assume nonneg: "0 \<le> st_attempts st"
  have post: "frame sent_refs (post_once t)" for t
    unfolding post_once_def quiet_def by (intro frame_bindE frame_thenE frame_ret frame_sent_claim)
  have writes: "frame sent_refs (write_settling i s x y)" for i s x y
    by (rule frame_sent_log) (auto simp: write_settling_def intro!: frame_rules simp: db_view_def)
  have prep: "frame sent_refs (prepare_settlement st)"
    unfolding prepare_settlement_def Let_def quiet_def
    by (intro frame_bindE frame_thenE frame_ret frame_fail frame_if frame_case_option frame_case_prod post writes sent_frames)
  obtain r v where p: "prepare_settlement st w = (r, v)" by fastforce
  have same: "sent_refs v = sent_refs w"
    using frameD [OF prep, of w] p by simp
  show "length (sent_refs (snd (process_settlement st w))) \<le> length (sent_refs w) + 3"
  proof (cases r)
    case (Inr st')
    have "st_attempts st' = st_attempts st"
      using hoare_InrD [OF prepared_row [where P = "\<lambda>_. True"] _ p [unfolded Inr]] by simp
    with nonneg have "nat (max 1 (MaxAutoRetryAttempts - st_attempts st')) \<le> 3" by (simp add: MaxAutoRetryAttempts_def)
    with dispatch_bounded [of retry_fuel st' v] same show ?thesis
      by (simp add: process_settlement_def p Inr bindE_def)
  qed (simp add: process_settlement_def p bindE_def same)
next
  assume counted: "counted (at_settlement a) (at_number a) w"
  obtain r v where f: "fail_attempt a bucket reason terminal w = (r, v)" by fastforce
  have same: "sent_refs v = sent_refs w"
    using frameD [OF frame_sent_fail_attempt, of a bucket reason terminal w] f by simp
  show "length (sent_refs (snd (handle_attempt_failure a bucket reason terminal w))) \<le>
      length (sent_refs w) + (if terminal then 0 else nat (3 - at_number a))"
  proof (cases "\<exists>st'. r = Inr (Some st')")
    case True
    then obtain st' where r: "r = Inr (Some st')" by blast
    have row: "st_attempts st' = at_number a" "at_number a < MaxAutoRetryAttempts"
      using hoare_InrD [OF failed_row counted f [unfolded r]] by (auto simp: next_row_def)
    have "\<not> terminal"
    proof
      assume terminal
      then have "triple (\<lambda>_. True) (fail_attempt a bucket reason terminal) (\<lambda>r _. r = None)"
        unfolding fail_attempt_def thenE_def by (auto intro!: triple_skip triple_ret)
      from hoare_InrD [OF this _ f [unfolded r]] show False by simp
    qed
    moreover have "snd (handle_attempt_failure a bucket reason terminal w) = snd (dispatch_attempt retry_fuel st' v)"
      by (simp add: handle_attempt_failure_def f r bindE_def)
    ultimately show ?thesis
      using dispatch_bounded [of retry_fuel st' v] row same by (simp add: MaxAutoRetryAttempts_def)
  next
    case False
    with same show ?thesis
      by (auto simp: handle_attempt_failure_def f bindE_def ret_def split: sum.split option.split)
  qed
qed

theorem retries_bounded_witness:
  "length (sent_refs (snd (process_settlement payout_row (payout_world sample_env)))) \<le> 3"
proof -
  have "0 \<le> st_attempts payout_row" "sent_refs (payout_world sample_env) = []"
    by (simp_all add: payout_row_def new_settlement_def payout_world_def empty_world_def sent_refs_def)
  with retries_bounded [of payout_row "payout_world sample_env"] show ?thesis by simp
qed

section \<open>The pipeline ends\<close>

text \<open>
  C13. The loops of the pipeline end. A round of the dispatch worker ends in every world; so do the
  dispatch of one settlement and the handling of a failed attempt, which call each other, with fuel
  for three attempts, as long as no attempt counter is negative.
\<close>

theorem pipeline_ends:
  "fst (dispatch_settlements w) \<noteq> Inl OutOfFuel \<and>
   (0 \<le> st_attempts st \<longrightarrow> fst (process_settlement st w) \<noteq> Inl OutOfFuel) \<and>
   (counts_ok w \<longrightarrow> fst (handle_attempt_failure a bucket reason terminal w) \<noteq> Inl OutOfFuel)"
  using dispatch_ends process_ends failure_ends by blast

theorem pipeline_ends_witness:
  "fst (process_settlement payout_row (payout_world sample_env)) \<noteq> Inl OutOfFuel"
proof -
  have "0 \<le> st_attempts payout_row"
    by (simp add: payout_row_def new_settlement_def)
  with pipeline_ends [of "payout_world sample_env" payout_row] show ?thesis by blast
qed

section \<open>Webhooks\<close>

text \<open>
  What the signature of a webhook promises: the body is signed under the provider's secret, which is
  set, and for Hyparrow the signed timestamp is at most five minutes away.
\<close>

definition webhook_authentic :: "externals \<Rightarrow> time \<Rightarrow> string \<Rightarrow> (string \<Rightarrow> string) \<Rightarrow> string \<Rightarrow> bool" where
  "webhook_authentic e t name hdr body =
     (if name = ''hyparrow'' then
        (let secret = hc_secret (cfg_hyparrow e); ts = hdr ''X-Hyparrow-Timestamp'' in secret \<noteq> '''' \<and>
           (\<exists>stamp. x_float_nanos e ts = Some stamp \<and> \<bar>t - stamp\<bar> \<le> 300 * second) \<and>
           hdr ''X-Hyparrow-Signature-256'' = hex_encode (x_hmac e secret (ts @ ''.'' @ body)))
      else let secret = ad_secret (cfg_adapters e name) in secret \<noteq> '''' \<and>
           hdr ''X-Webhook-Signature'' = hex_encode (x_hmac e secret body))"

lemma parsed_authentic: "parse_webhook e t name hdr body = Inr ev \<Longrightarrow> webhook_authentic e t name hdr body"
  by (auto simp: parse_webhook_def parse_hyparrow_webhook_def parse_generic_webhook_def webhook_authentic_def Let_def
      verify_hyparrow_signature_def compute_hyparrow_signature_def verify_payout_signature_def compute_payout_signature_def
      hyparrowWebhookTolerance_def split: if_splits option.splits)

text \<open>
  C27. A webhook changes anything at all only when it is authentic: a forged, unsigned or stale
  request, or one for a provider without a secret or an unknown one, leaves the whole state as it is
  and asks no partner.
\<close>

theorem settlement_webhook_authentic:
  assumes "\<not> webhook_authentic (env w) (now w) name hdr body \<or> \<not> has_payout_provider (env w) name"
  shows "\<exists>e. handle_settlement_webhook name body hdr w = (Inl e, w)"
  using assms parsed_authentic
  by (fastforce simp: handle_settlement_webhook_def op_simps split: sum.split)

theorem settlement_webhook_authentic_witness:
  "\<exists>e. handle_settlement_webhook ''paystack'' ''accepted'' (\<lambda>_. ''forged'') (payout_world sample_env) = (Inl e, payout_world sample_env)"
proof (rule settlement_webhook_authentic)
  have "hex_encode ''saccepted'' \<noteq> ''forged''" by (simp add: hex_encode_def)
  then show "\<not> webhook_authentic (env (payout_world sample_env)) (now (payout_world sample_env)) ''paystack'' (\<lambda>_. ''forged'') ''accepted'' \<or>
      \<not> has_payout_provider (env (payout_world sample_env)) ''paystack''"
    by (auto simp: webhook_authentic_def payout_world_def sample_env_def)
qed

section \<open>The manual fallback\<close>

text \<open>The rows of the other settlements, and whether a row of \<open>i\<close> has a status.\<close>

definition others :: "uuid \<Rightarrow> world \<Rightarrow> settlement list" where
  "others i w = filter (\<lambda>s. st_id s \<noteq> i) (settlements w)"

definition stands :: "uuid \<Rightarrow> string \<Rightarrow> world \<Rightarrow> bool" where
  "stands i st w \<longleftrightarrow> (\<exists>s \<in> set (settlements w). st_id s = i \<and> st_status s = st)"

lemma others_update: "(\<And>s. c s \<Longrightarrow> st_id s = i) \<Longrightarrow> (\<And>s. st_id (f s) = st_id s) \<Longrightarrow>
    others i (w\<lparr>settlements := update_where c f (settlements w)\<rparr>) = others i w"
proof -
  assume c: "\<And>s. c s \<Longrightarrow> st_id s = i" and f: "\<And>s. st_id (f s) = st_id s"
  have "filter (\<lambda>s. st_id s \<noteq> i) (update_where c f xs) = filter (\<lambda>s. st_id s \<noteq> i) xs" for xs
    by (induction xs) (auto simp: f dest: c)
  then show ?thesis by (simp add: others_def)
qed

lemma others_cong: "frame settlements m \<Longrightarrow> frame (others i) m"
  by (simp add: frame_def others_def)

lemma stands_cong: "frame settlements m \<Longrightarrow> keeps (stands i st) m"
  unfolding stands_def by (erule keeps_frame)

lemma frame_settlements_calm: "(\<And>v. keeps (calm v) m) \<Longrightarrow> frame settlements m"
  by (auto simp: frame_def calm_def keeps_def)

lemma frame_settlements_post_once: "frame settlements (post_once t)"
  unfolding post_once_def quiet_def by (intro frame_bindE frame_thenE frame_ret frame_settlements_claim)

lemmas settled_frames = frame_settlements_post_once frame_settlements_attempts calm_ops [THEN frame_settlements_calm]

lemma db_view_rows [simp]: "db_view (others i)" "db_view (stands i st)" "db_view settlements"
  by (simp_all add: db_view_def others_def stands_def)

lemma others_tables:
  "(\<And>t s. st_id (f t s) = st_id s) \<Longrightarrow> frame (others i) (update_settlement i f)"
  "(\<And>t s. st_id (f t s) = st_id s) \<Longrightarrow> frame (others i) (cas_settlement i from f)"
  unfolding update_settlement_def cas_settlement_def by (intro frame_rules others_update; simp)+

lemma others_transition: "frame (others (st_id st)) extra \<Longrightarrow> frame (others (st_id st)) (transition_settlement st from to ty extra)"
  unfolding transition_settlement_def
  by (intro frame_atomically frame_thenE frame_bindE frame_if frame_ret frame_tick_fault others_tables
      others_cong [OF frame_settlements_calm [OF calm_readers(6)]] db_view_rows) (simp_all add: set_status_def)

lemma stands_update: "stands i st w \<Longrightarrow> (\<And>s. st_id (f s) = st_id s \<and> st_status (f s) = st_status s) \<Longrightarrow>
    stands i st (w\<lparr>settlements := update_where c f (settlements w)\<rparr>)"
  by (auto simp: stands_def update_where_def split: if_splits)

lemma stands_tables: "(\<And>t s. st_id (f t s) = st_id s \<and> st_status (f t s) = st_status s) \<Longrightarrow> keeps (stands i st) (update_settlement j f)"
  unfolding update_settlement_def by (intro keeps_rules db_view_mono db_view_rows stands_update) simp_all

lemma cas_stands: "triple P (cas_settlement i from (set_status to)) (\<lambda>hit w. hit \<longrightarrow> stands i to w)"
proof (rule hoareI)
  fix w hit w' assume "cas_settlement i from (set_status to) w = (Inr hit, w')"
  then obtain bs where "hit = list_ex (\<lambda>s. st_id s = i \<and> st_status s = from) (settlements w)"
      "settlements w' = update_where (\<lambda>s. st_id s = i \<and> st_status s = from) (set_status to (now (w\<lparr>faults := bs\<rparr>))) (settlements w)"
    by (auto simp: cas_settlement_def op_simps dest!: stmt_InrD)
  then show "hit \<longrightarrow> stands i to w'"
    by (auto simp: stands_def set_update_where set_status_def list_ex_iff bex_Un intro!: disjI1)
qed simp

lemma transition_stands:
  assumes "keeps (stands (st_id st) to) extra" and "transition_settlement st from to ty extra w = (Inr True, w')"
  shows "stands (st_id st) to w'"
proof -
  let ?Q = "\<lambda>moved. if moved then stands (st_id st) to else (\<lambda>_. True)"
  have rest: "hoare (stands (st_id st) to) (thenE extra (thenE (publish_if_bus ty ''settlement'' (st_id st) pl) (thenE commit_tx (ret True)))) ?Q (\<lambda>_ _. True)" for pl
    unfolding thenE_def
    by (intro triple_keep assms(1) stands_cong frame_settlements_calm calm_readers(6) triple_ret frame_tick_fault db_view_rows) simp
  have "triple (\<lambda>_. True) (thenE begin_tx (bindE (cas_settlement (st_id st) from (set_status to)) (\<lambda>hit. if \<not> hit then ret False
      else thenE extra (thenE (publish_if_bus ty ''settlement'' (st_id st)
        [(''session_id'', PStr (st_session st)), (''tenant_id'', PStr (st_tenant st))]) (thenE commit_tx (ret True)))))) ?Q"
    unfolding thenE_def
    by (rule triple_skip, rule triple_know [OF cas_stands], rule triple_if [OF triple_ret hoare_pre [OF rest [unfolded thenE_def]]]) simp_all
  moreover obtain u where "thenE begin_tx (bindE (cas_settlement (st_id st) from (set_status to)) (\<lambda>hit. if \<not> hit then ret False
      else thenE extra (thenE (publish_if_bus ty ''settlement'' (st_id st)
        [(''session_id'', PStr (st_session st)), (''tenant_id'', PStr (st_tenant st))]) (thenE commit_tx (ret True))))) w = (Inr True, w')"
    using assms(2) by (auto simp: transition_settlement_def atomically_success)
  ultimately show ?thesis by (auto dest: hoare_InrD)
qed

lemma cas_missed: "cas_settlement i from f w = (Inr False, w') \<Longrightarrow> settlements w' = settlements w"
proof -
  assume "cas_settlement i from f w = (Inr False, w')"
  then obtain t where "\<not> list_ex (\<lambda>s. st_id s = i \<and> st_status s = from) (settlements w)"
      "settlements w' = update_where (\<lambda>s. st_id s = i \<and> st_status s = from) (f t) (settlements w)"
    by (auto simp: cas_settlement_def op_simps dest!: stmt_InrD)
  then show ?thesis by (auto simp: update_where_def list_ex_iff intro!: map_idI)
qed

lemma transition_refused:
  assumes "transition_settlement st from to ty extra w = (Inr False, w')"
  shows "settlements w' = settlements w"
proof -
  let ?k = "\<lambda>hit. if \<not> hit then ret False else thenE extra (thenE (publish_if_bus ty ''settlement'' (st_id st)
    [(''session_id'', PStr (st_session st)), (''tenant_id'', PStr (st_tenant st))]) (thenE commit_tx (ret True)))"
  from assms have "thenE begin_tx (bindE (cas_settlement (st_id st) from (set_status to)) ?k) w = (Inr False, w')"
    unfolding transition_settlement_def atomically_success .
  then obtain u v w1 hit where "begin_tx w = (Inr u, v)" and cas: "cas_settlement (st_id st) from (set_status to) v = (Inr hit, w1)"
      and k: "?k hit w1 = (Inr False, w')"
    by (elim thenE_InrE bindE_InrE)
  moreover from k have "\<not> hit" by (auto simp: ret_def elim!: thenE_InrE)
  ultimately show ?thesis using cas_missed by (auto simp: ret_def dest: tick_fault_InrD)
qed

lemma get_settlement_InrD: "get_settlement i w = (Inr s, w') \<Longrightarrow> st_id s = i \<and> s \<in> set (settlements w) \<and> settlements w' = settlements w"
  by (auto simp: get_settlement_def fail_def ret_def split: option.splits elim!: bindE_InrE dest!: query_InrD find_Some_mem)

text \<open>
  A settlement waits for a manual payout until one \<open>ManualSettle\<close> succeeds: it finds the row
  waiting and leaves it settled; when it refuses, because the row does not wait (any more), no
  settlement has changed; and in every case, errors included, no other settlement has changed.
\<close>

lemma manual_settle_outcome:
  assumes "manual_settle i who w = (r, w')"
  shows "others i w' = others i w \<and>
    (\<forall>cur. r = Inr (True, cur) \<longrightarrow> stands i ''awaiting_manual_payout'' w \<and> stands i ''settled'' w') \<and>
    (\<forall>cur. r = Inr (False, cur) \<longrightarrow> settlements w' = settlements w)"
proof -
  define n where "n st = st_attempts st + 1" for st :: settlement
  define extra where "extra st = thenE (insert_attempt (st_id st) (n st) ''manual'' (manual_key (st_session st)) ''succeeded'' (JObj [(''settled_by'', JStr who)]))
             (update_settlement (st_id st) (\<lambda>_ s. s\<lparr>st_attempts := n st\<rparr>))" for st
  define tail where "tail st = bindE (resolve_accounts (st_tenant st) (st_asset st) (st_fiat st)) (\<lambda>acc.
           thenE (post_once (manual_txn st acc)) (thenE (complete_session st) (bindE (get_settlement i) (\<lambda>cur. ret (True, cur)))))" for st
  define move where "move st = transition_settlement st ''awaiting_manual_payout'' ''settled'' ''settlement.completed'' (extra st)" for st
  have unfold: "manual_settle i who = bindE (get_settlement i) (\<lambda>st. if st_status st \<noteq> ''awaiting_manual_payout'' then ret (False, st)
      else bindE (move st) (\<lambda>moved. if \<not> moved then bindE (get_settlement i) (\<lambda>cur. ret (False, cur)) else tail st))"
    unfolding manual_settle_def Let_def move_def extra_def tail_def n_def ..
  have read: "frame settlements (get_settlement i)" by (intro frame_settlements_calm calm_get_settlement)
  have rest: "frame settlements (tail st)" for st
    unfolding tail_def by (intro frame_bindE frame_thenE frame_ret settled_frames)
  have ext: "frame (others (st_id st)) (extra st)" for st
    unfolding extra_def by (intro frame_thenE others_tables others_cong settled_frames) simp
  have ext2: "keeps (stands (st_id st) ''settled'') (extra st)" for st
    unfolding extra_def by (intro keeps_thenE stands_cong stands_tables settled_frames) simp
  obtain r1 w1 where g: "get_settlement i w = (r1, w1)" by fastforce
  show ?thesis
  proof (cases r1)
    case (Inl e)
    with assms frameD [OF read, of w] g show ?thesis by (auto simp: unfold bindE_def others_def)
  next
    case (Inr st)
    have row: "st_id st = i" "st \<in> set (settlements w)" "settlements w1 = settlements w"
      using get_settlement_InrD [OF g [unfolded Inr]] by auto
    obtain r2 w2 where m: "move st w1 = (r2, w2)" by fastforce
    have o: "others i w2 = others i w"
      using frameD [OF others_transition [OF ext], of st "''awaiting_manual_payout''" "''settled''" "''settlement.completed''" w1] m row
      by (simp add: move_def others_def)
    have refused: "settlements w2 = settlements w1" if "r2 = Inr False"
      using transition_refused m that by (simp add: move_def)
    have moved: "stands i ''settled'' w2" if "r2 = Inr True"
      using transition_stands [OF ext2 m [unfolded move_def that]] row(1) by simp
    have "triple (\<lambda>_. True) (tail st) (\<lambda>r _. fst r)"
      unfolding tail_def thenE_def by (intro triple_skip triple_ret) simp
    then have "tail st w2 \<noteq> (Inr (False, cur), w')" for cur
      by (auto dest: hoare_InrD)
    moreover have "settlements (snd (tail st w2)) = settlements w2" "settlements (snd (get_settlement i w2)) = settlements w2"
      using frameD [OF rest] frameD [OF read] by auto
    ultimately show ?thesis
      using assms g row m o refused moved
      by (auto simp: unfold bindE_def Inr others_def stands_def ret_def split: if_splits sum.splits prod.splits)
  qed
qed

lemma frame_settlements_tell: "frame settlements (thenE (telegram_call c) (ret ()))"
  by (intro frame_thenE frame_ret frame_settlements_calm calm_telegram)

text \<open>
  The message that asks for a manual payout and the button in it go together: the one button with
  an action carries the id of the settlement of the message, and pressing it in the configured chat
  is \<open>ManualSettle\<close> of exactly that settlement (the settlements afterwards are the ones it leaves),
  provided ids parse as themselves. Pressed anywhere else, no settlement changes.
\<close>

lemma manual_button_roundtrip:
  assumes "manual_payout_message e st d reason = (message, rows)" and "b \<in> set (concat rows)" and "tb_callback b \<noteq> ''''"
    and "bp_data p = tb_callback b" and "env w = e" and "x_uuid_parse e (st_id st) = Some (st_id st)"
  shows "let here = (case bp_message p of None \<Rightarrow> False | Some (chat, mid) \<Rightarrow> dec_int chat = tc_chat (cfg_telegram e))
    in settlements (snd (handle_press p w)) = settlements (if here then snd (manual_settle (st_id st) (press_who p) w) else w)"
proof -
  have data: "bp_data p = telegramSettleAction @ st_id st"
    using assms(1-4) by (auto simp: manual_payout_message_def copy_button_def Let_def)
  then have cut: "cut_prefix (bp_data p) telegramSettleAction = Some (st_id st)"
    by (simp add: cut_prefix_def has_prefix_def)
  have tell: "settlements (snd (thenE (telegram_call c) (ret ()) v)) = settlements v" for c v
    by (rule frameD [OF frame_settlements_tell])
  have quiet: "frame settlements (thenE (thenE (telegram_call a) (ret ())) (thenE (telegram_call b) (thenE (telegram_call c) (ret ()))))"
      "frame settlements (thenE (thenE (telegram_call a) (ret ())) (fail x))" for a b c x
    by (intro frame_thenE frame_ret frame_fail frame_settlements_calm calm_telegram)+
  show ?thesis
  proof (cases "bp_message p")
    case None
    then show ?thesis by (simp add: handle_press_def bindE_def gets_def Let_def tell)
  next
    case (Some cm)
    obtain chat mid where cm: "cm = (chat, mid)" by (cases cm)
    obtain r v where m: "manual_settle (st_id st) (press_who p) w = (r, v)" by fastforce
    show ?thesis
    proof (cases "dec_int chat = tc_chat (cfg_telegram e)")
      case False
      with Some cm assms(5) show ?thesis by (simp add: handle_press_def bindE_def gets_def Let_def tell)
    next
      case True
      with Some cm assms(5,6) cut m show ?thesis
        by (cases r) (auto simp: handle_press_def bindE_def gets_def Let_def attemptE_def tell
            frameD [OF quiet(1)] frameD [OF quiet(2)] split: prod.split)
    qed
  qed
qed

definition sample_destination :: bank_destination where
  "sample_destination = \<lparr>bd_account = ''0123'', bd_bank = ''044'', bd_name = ''A'', bd_bank_name = ''Bank''\<rparr>"

definition sample_press :: button_press where
  "sample_press = \<lparr>bp_id = ''q'', bp_data = telegramSettleAction @ sample_src 0, bp_from = 7, bp_user = ''ops'', bp_message = Some (5, 9)\<rparr>"

end
