(* ===== verification/PayoutLife.thy ===== *)
theory PayoutLife
  imports Payouts
begin

text \<open>
  The abstract life of a payout and its refinement by the settlement pipeline. In the abstract, a
  settlement is queued, claimed, open with at most one attempt in flight, paid, failed, waiting to
  be paid by hand, returned or closed. Every operation of the pipeline, whatever statements fail and
  whatever the providers answer, takes each settlement along abstract steps only.
\<close>

section \<open>The abstract machine\<close>

datatype phase = Queued | Claimed | Open "int option" | Paid | Failed | Manual | Returned | Closed

inductive phase_step :: "phase \<Rightarrow> phase \<Rightarrow> bool" where
  claim: "phase_step Queued Claimed"
| start: "phase_step Claimed (Open None)"
| send: "phase_step (Open None) (Open (Some n))"
| resolve: "phase_step (Open (Some n)) (Open None)"
| pay: "phase_step (Open None) Paid"
| give_up: "phase_step (Open None) Failed"
| hand_over: "phase_step (Open None) Manual"
| requeue: "p \<in> {Open None, Failed, Manual} \<Longrightarrow> phase_step p Queued"
| pay_by_hand: "phase_step Manual Paid"
| bounce: "phase_step Paid Returned"
| close: "phase_step Returned Closed"

lemma phase_flight [simp]: "phase_step\<^sup>*\<^sup>* (Open (Some n)) (Open None)" "phase_step\<^sup>*\<^sup>* (Open None) (Open (Some n))"
  by (rule r_into_rtranclp, rule phase_step.intros)+

inductive_simps phase_step_Paid: "phase_step p Paid"
inductive_simps phase_step_send: "phase_step p (Open (Some n))"
inductive_simps phase_step_InFlight: "phase_step (Open (Some n)) q"

section \<open>Abstraction\<close>

definition flights :: "attempt list \<Rightarrow> uuid \<Rightarrow> int list" where
  "flights ats i = map at_number (filter (\<lambda>a. at_settlement a = i \<and> at_status a = ''dispatched'') ats)"

definition status_phase :: "int list \<Rightarrow> string \<Rightarrow> phase" where
  "status_phase ns st = (if st = ''pending_dispatch'' then Queued else if st = ''dispatching'' then Claimed
     else if st = ''settling'' then Open (case ns of [] \<Rightarrow> None | n # _ \<Rightarrow> Some n) else if st = ''settled'' then Paid
     else if st = ''settlement_failed'' then Failed else if st = ''awaiting_manual_payout'' then Manual
     else if st = ''reversed'' then Returned else Closed)"

definition phase_of :: "world \<Rightarrow> settlement \<Rightarrow> phase" where
  "phase_of w s = status_phase (flights (attempts w) (st_id s)) (st_status s)"

text \<open>The status changes the code makes when no attempt is in flight.\<close>

definition settlement_edges :: "(string \<times> string) list" where
  "settlement_edges = [(''pending_dispatch'', ''dispatching''), (''dispatching'', ''settling''), (''settling'', ''settled''),
     (''settling'', ''settlement_failed''), (''settling'', ''awaiting_manual_payout''), (''settling'', ''pending_dispatch''),
     (''settlement_failed'', ''pending_dispatch''), (''awaiting_manual_payout'', ''pending_dispatch''),
     (''awaiting_manual_payout'', ''settled''), (''settled'', ''reversed''), (''reversed'', ''reversal_resolved'')]"

lemma status_phase_simps [simp]:
  "status_phase ns ''pending_dispatch'' = Queued" "status_phase ns ''dispatching'' = Claimed" "status_phase [] ''settling'' = Open None"
  "status_phase (n # ns) ''settling'' = Open (Some n)" "status_phase ns ''settled'' = Paid" "status_phase ns ''settlement_failed'' = Failed"
  "status_phase ns ''awaiting_manual_payout'' = Manual" "status_phase ns ''reversed'' = Returned" "status_phase ns ''reversal_resolved'' = Closed"
  by (simp_all add: status_phase_def)

lemma edges_step: "list_all (\<lambda>(a, b). phase_step (status_phase [] a) (status_phase [] b)) settlement_edges"
  by (simp add: settlement_edges_def phase_step.intros)

lemma edge_step: "(a, b) \<in> set settlement_edges \<Longrightarrow> phase_step (status_phase [] a) (status_phase [] b)"
  using edges_step by (auto simp: list_all_iff)

section \<open>The invariant\<close>

definition key3 :: "attempt \<Rightarrow> uuid \<times> uuid \<times> int" where
  "key3 a = (at_id a, at_settlement a, at_number a)"

text \<open>
  Rows have ids and sessions of their own and a status their tables allow (the \<^verbatim>\<open>CHECK\<close> lists of
  the migrations); an attempt in flight belongs to a settlement
  that is settling, and is its only one.
\<close>

definition settlement_statuses :: "string set" where
  "settlement_statuses = {''pending_dispatch'', ''dispatching'', ''settling'', ''settled'', ''settlement_failed'', ''reversed'',
     ''reversal_resolved'', ''awaiting_manual_payout''}"

definition closed_statuses :: "string set" where
  "closed_statuses = {''succeeded'', ''failed_bucket1'', ''failed_bucket2'', ''failed_bucket3'', ''failed_bucket4''}"

lemma closed_not_dispatched: "st \<in> closed_statuses \<Longrightarrow> st \<noteq> ''dispatched''"
  by (auto simp: closed_statuses_def)

lemma edge_statuses: "(a, b) \<in> set settlement_edges \<Longrightarrow> b \<in> settlement_statuses"
  unfolding settlement_edges_def settlement_statuses_def by auto

definition life_ok :: "world \<Rightarrow> bool" where
  "life_ok w \<longleftrightarrow> ids_fresh (map st_id (settlements w)) w \<and> ids_fresh (map at_id (attempts w)) w \<and>
     distinct (map st_session (settlements w)) \<and>
     at_settlement ` set (attempts w) \<subseteq> st_id ` set (settlements w) \<and>
     st_status ` set (settlements w) \<subseteq> settlement_statuses \<and>
     at_status ` set (attempts w) \<subseteq> insert ''dispatched'' closed_statuses \<and>
     (\<forall>i. length (flights (attempts w) i) \<le> 1) \<and>
     (\<forall>s \<in> set (settlements w). flights (attempts w) (st_id s) \<noteq> [] \<longrightarrow> st_status s = ''settling'')"

definition marks :: "attempt \<Rightarrow> attempt \<Rightarrow> bool" where
  "marks a b \<longleftrightarrow> key3 b = key3 a \<and> (at_status b = at_status a \<or> at_status b \<in> closed_statuses)"

lemma marks_flight: "marks a b \<Longrightarrow> key3 b = key3 a \<and> (at_status b = ''dispatched'' \<longrightarrow> at_status a = ''dispatched'')"
  using closed_not_dispatched by (auto simp: marks_def)

definition same_settlement :: "settlement \<Rightarrow> settlement \<Rightarrow> bool" where
  "same_settlement s s' \<longleftrightarrow> st_id s' = st_id s \<and> st_session s' = st_session s \<and> st_tenant s' = st_tenant s \<and>
     st_corridor s' = st_corridor s \<and> st_created s' = st_created s"

definition settlements_advance :: "world \<Rightarrow> world \<Rightarrow> bool" where
  "settlements_advance v w \<longleftrightarrow> length (settlements v) \<le> length (settlements w) \<and>
     (\<forall>k < length (settlements v). same_settlement (settlements v ! k) (settlements w ! k) \<and>
        phase_step\<^sup>*\<^sup>* (phase_of v (settlements v ! k)) (phase_of w (settlements w ! k))) \<and>
     (\<forall>k < length (settlements w). length (settlements v) \<le> k \<longrightarrow> phase_step\<^sup>*\<^sup>* Queued (phase_of w (settlements w ! k)))"

definition life :: "world \<Rightarrow> (uuid \<times> uuid \<times> int) set \<Rightarrow> world \<Rightarrow> bool" where
  "life v K w \<longleftrightarrow> life_ok w \<and> settlements_advance v w \<and> K \<subseteq> key3 ` set (attempts w)"

lemma life_cong:
  assumes "settlements w' = settlements w" and "attempts w' = attempts w" and "uuid_src w' = uuid_src w" and "uuid_next w \<le> uuid_next w'"
    and "life v K w"
  shows "life v K w'"
proof -
  have "phase_of w' = phase_of w"
    by (rule ext) (simp add: phase_of_def assms)
  with assms show ?thesis
    by (auto simp: life_def life_ok_def settlements_advance_def intro: ids_fresh_mono)
qed

lemma life_simps:
  "life v K w \<Longrightarrow> life v K (w\<lparr>faults := a1\<rparr>)" "life v K w \<Longrightarrow> life v K (w\<lparr>now := a2\<rparr>)" "life v K w \<Longrightarrow> life v K (w\<lparr>outbox := a3\<rparr>)"
  "life v K w \<Longrightarrow> life v K (w\<lparr>reversals := a4\<rparr>)" "life v K w \<Longrightarrow> uuid_next w \<le> n \<Longrightarrow> life v K (w\<lparr>uuid_next := n\<rparr>)"
  "life v K w \<Longrightarrow> life v K (w\<lparr>ext_log := a5\<rparr>)"
  by (erule life_cong [rotated -1], simp_all)+

lemma db_mono_life [simp]: "db_mono (life v K)"
  by (auto simp: db_mono_def intro: life_simps)

lemma life_of_calm: "(\<And>u. keeps (calm u) m) \<Longrightarrow> keeps (life v K) m"
  by (erule keeps_calm, erule life_cong [rotated -1]) (simp_all add: calm_def)

lemma life_start: "life_ok w \<Longrightarrow> life w {} w"
  by (simp add: life_def settlements_advance_def same_settlement_def)

section \<open>What the statements do\<close>

lemma update_where_nth: "k < length xs \<Longrightarrow> update_where c f xs ! k = (if c (xs ! k) then f (xs ! k) else xs ! k)"
  by (simp add: update_where_def)

lemma settlements_advance_trans:
  assumes "settlements_advance v w" and "length (settlements w) \<le> length (settlements u)"
    and "\<And>k. k < length (settlements w) \<Longrightarrow> same_settlement (settlements w ! k) (settlements u ! k) \<and>
      phase_step\<^sup>*\<^sup>* (phase_of w (settlements w ! k)) (phase_of u (settlements u ! k))"
    and "\<And>k. length (settlements w) \<le> k \<Longrightarrow> k < length (settlements u) \<Longrightarrow> phase_of u (settlements u ! k) = Queued"
  shows "settlements_advance v u"
  unfolding settlements_advance_def
proof (intro conjI allI impI)
  show "length (settlements v) \<le> length (settlements u)"
    using assms(1,2) by (simp add: settlements_advance_def)
  fix k assume k: "k < length (settlements u)" "length (settlements v) \<le> k"
  show "phase_step\<^sup>*\<^sup>* Queued (phase_of u (settlements u ! k))"
  proof (cases "k < length (settlements w)")
    case True
    with assms(1) k have "phase_step\<^sup>*\<^sup>* Queued (phase_of w (settlements w ! k))" by (simp add: settlements_advance_def)
    with assms(3) [OF True] show ?thesis by (auto intro: rtranclp_trans)
  qed (use assms(4) k in simp)
next
  fix k assume k: "k < length (settlements v)"
  then have w: "k < length (settlements w)" using assms(1) by (simp add: settlements_advance_def)
  show "same_settlement (settlements v ! k) (settlements u ! k)"
    using assms(1) assms(3) [OF w] k by (auto simp: settlements_advance_def same_settlement_def)
  show "phase_step\<^sup>*\<^sup>* (phase_of v (settlements v ! k)) (phase_of u (settlements u ! k))"
    using assms(1) assms(3) [OF w] k by (auto simp: settlements_advance_def intro: rtranclp_trans)
qed

lemma life_update_settlements:
  assumes "life v K w"
    and "\<And>s. s \<in> set (settlements w) \<Longrightarrow> c s \<Longrightarrow> same_settlement s (f s) \<and>
      (st_status (f s) = st_status s \<or> flights (attempts w) (st_id s) = [] \<and> (st_status s, st_status (f s)) \<in> set settlement_edges)"
  shows "life v K (w\<lparr>settlements := update_where c f (settlements w)\<rparr>)"
proof -
  let ?w = "w\<lparr>settlements := update_where c f (settlements w)\<rparr>"
  have keys: "map st_id (update_where c f (settlements w)) = map st_id (settlements w)"
      "map st_session (update_where c f (settlements w)) = map st_session (settlements w)"
    using assms(2) by (auto simp: update_where_def same_settlement_def)
  have ids: "ids_fresh l ?w = ids_fresh l w" for l by (simp add: ids_fresh_def)
  have row: "flights (attempts w) (st_id s) \<noteq> [] \<longrightarrow> st_status s = ''settling''" if "s \<in> set (update_where c f (settlements w))" for s
    using that assms by (fastforce simp: set_update_where life_def life_ok_def same_settlement_def)
  have step: "same_settlement (settlements w ! k) (settlements ?w ! k) \<and>
      phase_step\<^sup>*\<^sup>* (phase_of w (settlements w ! k)) (phase_of ?w (settlements ?w ! k))" if "k < length (settlements w)" for k
  proof (cases "c (settlements w ! k)")
    case True
    from assms(2) [OF nth_mem [OF that] True] show ?thesis
      using that True edge_step by (auto simp: update_where_nth phase_of_def same_settlement_def)
  qed (use that in \<open>simp add: update_where_nth same_settlement_def phase_of_def\<close>)
  have "settlements_advance v ?w"
    by (rule settlements_advance_trans [OF _ _ step]) (use assms(1) in \<open>simp_all add: life_def\<close>)
  moreover have "st_id ` set (update_where c f (settlements w)) = st_id ` set (settlements w)"
    using keys(1) by (metis list.set_map)
  moreover have "st_status x \<in> settlement_statuses" if "x \<in> set (update_where c f (settlements w))" for x
  proof -
    from that obtain s where s: "s \<in> set (settlements w)" "x = (if c s then f s else s)" by (auto simp: update_where_def)
    then have "st_status s \<in> settlement_statuses" using assms(1) by (auto simp: life_def life_ok_def)
    with s assms(2) [OF s(1)] edge_statuses show ?thesis by (auto split: if_splits)
  qed
  then have "st_status ` set (update_where c f (settlements w)) \<subseteq> settlement_statuses" by blast
  ultimately show ?thesis using assms(1) keys row by (simp add: life_def life_ok_def ids)
qed

text \<open>Attempts only leave the flight.\<close>

lemma flights_kept:
  assumes "\<And>a. a \<in> set ats \<Longrightarrow> c a \<Longrightarrow> key3 (f a) = key3 a \<and> (at_status (f a) = ''dispatched'' \<longrightarrow> at_status a = ''dispatched'')"
  shows "length (flights (update_where c f ats) i) \<le> length (flights ats i)"
    and "flights (update_where c f ats) i \<noteq> flights ats i \<Longrightarrow> length (flights (update_where c f ats) i) < length (flights ats i)"
  using assms by (induction ats) (auto simp: flights_def key3_def less_Suc_eq_le split: if_splits)

lemma flights_update:
  assumes "\<And>a. a \<in> set ats \<Longrightarrow> c a \<Longrightarrow> key3 (f a) = key3 a \<and> (at_status (f a) = ''dispatched'' \<longrightarrow> at_status a = ''dispatched'')"
    and "length (flights ats i) \<le> 1"
  shows "flights (update_where c f ats) i = flights ats i \<or> flights (update_where c f ats) i = []"
proof (rule disjCI)
  assume "flights (update_where c f ats) i \<noteq> []"
  then have "0 < length (flights (update_where c f ats) i)" by simp
  with flights_kept(2) [OF assms(1)] assms(2) show "flights (update_where c f ats) i = flights ats i"
    by (metis One_nat_def less_one not_less_eq order_less_le_trans)
qed

lemma resolve_step:
  "length ns \<le> 1 \<Longrightarrow> ns' = ns \<or> ns' = [] \<Longrightarrow> phase_step\<^sup>*\<^sup>* (status_phase ns st) (status_phase ns' st)"
  by (cases ns) (auto simp: status_phase_def)

lemma life_update_attempts:
  assumes "life v K w" and marks: "\<And>a. a \<in> set (attempts w) \<Longrightarrow> c a \<Longrightarrow> marks a (f a)"
  shows "life v K (w\<lparr>attempts := update_where c f (attempts w)\<rparr>)"
proof -
  let ?w = "w\<lparr>attempts := update_where c f (attempts w)\<rparr>"
  have fl: "flights (attempts ?w) i = flights (attempts w) i \<or> flights (attempts ?w) i = []" for i
    using flights_update [OF marks_flight [OF marks]] assms(1) by (simp add: life_def life_ok_def)
  have "map key3 (attempts ?w) = map key3 (attempts w)"
    using marks by (simp add: update_where_def marks_def)
  then have cols: "map (h \<circ> key3) (attempts ?w) = map (h \<circ> key3) (attempts w)" for h :: "uuid \<times> uuid \<times> int \<Rightarrow> 'c"
    by (metis list.map_comp)
  have fresh: "ids_fresh l ?w = ids_fresh l w" for l by (simp add: ids_fresh_def)
  have ids: "map at_id (attempts ?w) = map at_id (attempts w)"
    using cols [of fst] by (simp add: key3_def comp_def)
  have refs: "at_settlement ` set (attempts ?w) = at_settlement ` set (attempts w)"
    using cols [of "fst \<circ> snd"] by (simp add: key3_def comp_def) (metis list.set_map)
  have copies: "key3 ` set (attempts ?w) = key3 ` set (attempts w)"
    using cols [of id] by simp (metis list.set_map)
  have step: "phase_step\<^sup>*\<^sup>* (phase_of w s) (phase_of ?w s)" for s
    unfolding phase_of_def using fl assms(1) by (intro resolve_step) (auto simp: life_def life_ok_def)
  have adv: "settlements_advance v ?w"
    by (rule settlements_advance_trans [where w = w]) (use assms(1) step in \<open>simp_all add: life_def same_settlement_def\<close>)
  have ok: "life_ok w" using assms(1) by (simp add: life_def)
  have short: "length (flights (attempts ?w) i) \<le> 1" "flights (attempts ?w) i \<noteq> [] \<Longrightarrow> flights (attempts w) i \<noteq> []" for i
    using fl [of i] ok by (auto simp: life_ok_def)
  have "at_status x \<in> insert ''dispatched'' closed_statuses" if "x \<in> set (attempts ?w)" for x
  proof -
    from that obtain a where a: "a \<in> set (attempts w)" "x = (if c a then f a else a)" by (auto simp: update_where_def)
    then have "at_status a \<in> insert ''dispatched'' closed_statuses" using ok by (auto simp: life_ok_def)
    with a marks [OF a(1)] show ?thesis by (auto simp: marks_def split: if_splits)
  qed
  then have "at_status ` set (attempts ?w) \<subseteq> insert ''dispatched'' closed_statuses" by blast
  then have "life_ok ?w"
    unfolding life_ok_def fresh ids refs using ok short by (simp add: life_ok_def del: update_where_def)
  with assms(1) adv copies show ?thesis by (simp add: life_def)
qed

lemma flights_append: "flights (ats @ [a]) i = flights ats i @ (if at_settlement a = i \<and> at_status a = ''dispatched'' then [at_number a] else [])"
  by (simp add: flights_def)

text \<open>A new attempt: in flight only where nothing is.\<close>

lemma life_append_attempt:
  assumes "life v K w" and "at_id a = uuid_src w (uuid_next w)" and "at_settlement a \<in> st_id ` set (settlements w)"
    and "at_status a \<in> insert ''dispatched'' closed_statuses"
    and "at_status a = ''dispatched'' \<longrightarrow> flights (attempts w) (at_settlement a) = [] \<and>
      (\<forall>s \<in> set (settlements w). st_id s = at_settlement a \<longrightarrow> st_status s = ''settling'')"
  shows "life v (insert (key3 a) K) (w\<lparr>faults := bs, uuid_next := Suc (uuid_next w), attempts := attempts w @ [a]\<rparr>)"
proof -
  let ?w = "w\<lparr>faults := bs, uuid_next := Suc (uuid_next w), attempts := attempts w @ [a]\<rparr>"
  have ids: "ids_fresh (map at_id (attempts ?w)) ?w" "ids_fresh (map st_id (settlements ?w)) ?w"
    using assms by (auto simp: life_def life_ok_def intro: ids_fresh_append ids_fresh_mono)
  have step: "phase_step\<^sup>*\<^sup>* (phase_of w s) (phase_of ?w s)" if "s \<in> set (settlements w)" for s
    using assms(5) that by (auto simp: phase_of_def flights_append status_phase_def)
  have "settlements_advance v ?w"
    by (rule settlements_advance_trans [where w = w]) (use assms(1) step in \<open>simp_all add: life_def same_settlement_def\<close>)
  with assms(1,3,4,5) ids show ?thesis
    by (auto simp: life_def life_ok_def flights_append)
qed

lemma life_append_settlement:
  assumes "life v K w" and "st_id s = uuid_src w (uuid_next w)" and "st_session s \<notin> set (map st_session (settlements w))"
    and "st_status s = ''pending_dispatch''"
  shows "life v K (w\<lparr>faults := bs, uuid_next := Suc (uuid_next w), settlements := settlements w @ [s]\<rparr>)"
proof -
  let ?w = "w\<lparr>faults := bs, uuid_next := Suc (uuid_next w), settlements := settlements w @ [s]\<rparr>"
  have ids: "ids_fresh (map at_id (attempts ?w)) ?w" "ids_fresh (map st_id (settlements ?w)) ?w"
    using assms by (auto simp: life_def life_ok_def intro: ids_fresh_append ids_fresh_mono)
  have "st_id s \<notin> st_id ` set (settlements w)"
    using ids_fresh_next [of "map st_id (settlements w)" w] assms by (auto simp: life_def life_ok_def)
  moreover have "at_settlement ` set (attempts w) \<subseteq> st_id ` set (settlements w)"
    using assms(1) by (simp add: life_def life_ok_def)
  ultimately have none: "flights (attempts w) (st_id s) = []"
    unfolding flights_def filter_empty_conv map_is_Nil_conv by (metis image_eqI subsetD)
  have "settlements_advance v ?w"
    by (rule settlements_advance_trans [where w = w])
      (use assms none in \<open>simp_all add: life_def nth_append phase_of_def same_settlement_def nth_Cons'\<close>)
  with assms ids none show ?thesis
    by (auto simp: life_def life_ok_def settlement_statuses_def)
qed

section \<open>What holds between the statements\<close>

text \<open>
  \<open>steady v K P\<close>: the invariant holds, every settlement has advanced from \<open>v\<close>, the attempts of \<open>K\<close>
  exist, and \<open>P\<close> holds of the two tables.
\<close>

type_synonym tables = "settlement list \<Rightarrow> attempt list \<Rightarrow> bool"

definition steady :: "world \<Rightarrow> (uuid \<times> uuid \<times> int) set \<Rightarrow> tables \<Rightarrow> world \<Rightarrow> bool" where
  "steady v K P w \<longleftrightarrow> life v K w \<and> P (settlements w) (attempts w)"

definition anywhere :: tables where "anywhere = (\<lambda>_ _. True)"

definition grounded :: "uuid \<Rightarrow> tables" where "grounded i = (\<lambda>_ ats. flights ats i = [])"

definition ready :: "uuid \<Rightarrow> tables" where
  "ready i = (\<lambda>ss ats. flights ats i = [] \<and> (\<forall>s \<in> set ss. st_id s = i \<longrightarrow> st_status s = ''settling''))"

definition claimed :: "uuid \<Rightarrow> tables" where
  "claimed i = (\<lambda>ss _. \<forall>s \<in> set ss. st_id s = i \<longrightarrow> st_status s = ''dispatching'')"

lemma steady_anywhere: "steady v K anywhere = life v K"
  by (rule ext) (simp add: steady_def anywhere_def)

lemma steady_life: "steady v K P w \<Longrightarrow> life v K w"
  by (simp add: steady_def)

lemma ready_grounded: "steady v K (ready i) w \<Longrightarrow> steady v K (grounded i) w"
  by (simp add: steady_def ready_def grounded_def)

lemma life_mono: "life v K w \<Longrightarrow> J \<subseteq> K \<Longrightarrow> life v J w"
  by (auto simp: life_def)

lemma life_insert: "life v (insert k K) w \<Longrightarrow> life v K w"
  by (erule life_mono) blast

lemma steady_cong:
  "settlements w' = settlements w \<Longrightarrow> attempts w' = attempts w \<Longrightarrow> uuid_src w' = uuid_src w \<Longrightarrow> uuid_next w \<le> uuid_next w' \<Longrightarrow>
   steady v K P w \<Longrightarrow> steady v K P w'"
  by (auto simp: steady_def elim: life_cong [rotated -1])

lemma steady_simps:
  "steady v K P w \<Longrightarrow> steady v K P (w\<lparr>faults := a1\<rparr>)" "steady v K P w \<Longrightarrow> steady v K P (w\<lparr>now := a2\<rparr>)"
  "steady v K P w \<Longrightarrow> steady v K P (w\<lparr>outbox := a3\<rparr>)" "steady v K P w \<Longrightarrow> steady v K P (w\<lparr>reversals := a4\<rparr>)"
  "steady v K P w \<Longrightarrow> uuid_next w \<le> n \<Longrightarrow> steady v K P (w\<lparr>uuid_next := n\<rparr>)" "steady v K P w \<Longrightarrow> steady v K P (w\<lparr>ext_log := a5\<rparr>)"
  by (erule steady_cong [rotated -1], simp_all)+

lemma db_mono_steady [simp]: "db_mono (steady v K P)"
  by (auto simp: db_mono_def intro: steady_simps)

lemma steady_of_calm: "(\<And>u. keeps (calm u) m) \<Longrightarrow> keeps (steady v K P) m"
  by (erule keeps_calm, erule steady_cong [rotated -1]) (simp_all add: calm_def)

lemma steady_post: "keeps (steady v K P) (post t)"
  by (rule keepsI, erule post_cases) (auto intro: steady_cong [rotated -1])

lemma steady_claim: "keeps (steady v K P) (claim_post t)" "keeps (steady v K P) (post_once t)"
  unfolding post_once_def claim_post_def by (intro keeps_rules steady_post; simp)+

lemma steady_ask: "keeps (steady v K P) (ask c f)"
  by (intro keeps_ask steady_simps)

lemma keeps_answers [keeps_rules]:
  "keeps P a \<Longrightarrow> (\<And>m. keeps P (b m)) \<Longrightarrow> (\<And>m. keeps P (c m)) \<Longrightarrow>
   keeps P (case out of HyAccepted \<Rightarrow> a | HyRejected m \<Rightarrow> b m | HyUnknown m \<Rightarrow> c m)"
  "(\<And>m. keeps P (b m)) \<Longrightarrow> (\<And>st t. keeps P (d st t)) \<Longrightarrow> keeps P (case r of NoReply m \<Rightarrow> b m | Reply st t \<Rightarrow> d st t)"
  by (cases out, simp_all) (cases r, simp_all)

lemma steady_dispatch: "keeps (steady v K P) (provider_dispatch name req)"
  unfolding provider_dispatch_def hyparrow_dispatch_def http_dispatch_def sandbox_dispatch_def resolve_account_def
    hyparrow_send_def get_transfer_status_def hyparrow_do_def Let_def
  by (intro keeps_rules steady_ask steady_simps db_mono_steady)

lemmas steady_calm = calm_ops [THEN steady_of_calm]

section \<open>Statements\<close>

text \<open>Columns other than the status.\<close>

definition neutral :: "(settlement \<Rightarrow> settlement) \<Rightarrow> bool" where
  "neutral f \<longleftrightarrow> (\<forall>s. same_settlement s (f s) \<and> st_status (f s) = st_status s)"

definition unflying :: "(attempt \<Rightarrow> attempt) \<Rightarrow> bool" where
  "unflying f \<longleftrightarrow> (\<forall>a. marks a (f a))"

lemma steady_rows:
  "neutral f \<Longrightarrow> steady v K (grounded i) w \<Longrightarrow> steady v K (grounded i) (w\<lparr>settlements := update_where c f (settlements w)\<rparr>)"
  "neutral f \<Longrightarrow> life v K w \<Longrightarrow> life v K (w\<lparr>settlements := update_where c f (settlements w)\<rparr>)"
  by (auto simp: steady_def grounded_def neutral_def intro!: life_update_settlements)

lemma steady_update:
  "(\<And>t. neutral (f t)) \<Longrightarrow> keeps (steady v K (grounded i)) (update_settlement j f)"
  "(\<And>t. neutral (f t)) \<Longrightarrow> keeps (life v K) (update_settlement j f)"
  unfolding update_settlement_def by (intro keeps_exec steady_rows db_mono_steady db_mono_life; simp)+

lemma life_update_attempt: "unflying f \<Longrightarrow> keeps (life v K) (update_attempt j f)"
  unfolding update_attempt_def by (intro keeps_exec life_update_attempts db_mono_life) (simp_all add: unflying_def)

text \<open>A compare-and-set of the status along an edge, where nothing is in flight.\<close>

lemma life_cas:
  assumes "\<And>t s. same_settlement s (f t s) \<and> st_status (f t s) = to" and "(from, to) \<in> set settlement_edges" and "from \<noteq> ''settling''"
  shows "keeps (life v K) (cas_settlement i from f)"
  unfolding cas_settlement_def
proof (intro keeps_stmt keeps_bindE keeps_gets keeps_thenE keeps_modify keeps_ret db_mono_life)
  fix w assume l: "life v K w"
  show "life v K (w\<lparr>settlements := update_where (\<lambda>s. st_id s = i \<and> st_status s = from) (f (now w)) (settlements w)\<rparr>)"
    by (rule life_update_settlements [OF l]) (use assms l in \<open>auto simp: life_def life_ok_def\<close>)
qed

lemma grounded_cas:
  assumes "\<And>t s. same_settlement s (f t s) \<and> st_status (f t s) = to" and "(from, to) \<in> set settlement_edges"
  shows "keeps (steady v K (grounded i)) (cas_settlement i from f)"
  unfolding cas_settlement_def
proof (intro keeps_stmt keeps_bindE keeps_gets keeps_thenE keeps_modify keeps_ret db_mono_steady)
  fix w assume l: "steady v K (grounded i) w"
  let ?ss = "update_where (\<lambda>s. st_id s = i \<and> st_status s = from) (f (now w)) (settlements w)"
  have "life v K (w\<lparr>settlements := ?ss\<rparr>)"
    by (rule life_update_settlements) (use assms l in \<open>auto simp: steady_def grounded_def\<close>)
  with l show "steady v K (grounded i) (w\<lparr>settlements := ?ss\<rparr>)" by (simp add: steady_def grounded_def)
qed

lemma set_status_same: "same_settlement s (set_status to t s) \<and> st_status (set_status to t s) = to"
  by (simp add: set_status_def same_settlement_def)

lemma life_cas_settling: "keeps (life v K) (cas_settlement i ''settling'' (set_status ''settling''))"
  unfolding cas_settlement_def
  by (intro keeps_stmt keeps_bindE keeps_gets keeps_thenE keeps_modify keeps_ret db_mono_life life_update_settlements)
    (auto simp: set_status_same)

lemma life_transition:
  assumes "keeps (life v K) extra" and "(from, to) \<in> set settlement_edges \<and> from \<noteq> ''settling'' \<or> from = ''settling'' \<and> to = ''settling''"
  shows "keeps (life v K) (transition_settlement st from to ty extra)"
proof -
  have "keeps (life v K) (cas_settlement (st_id st) from (set_status to))"
    using assms(2) by (elim disjE conjE) (auto intro: life_cas life_cas_settling simp: set_status_same)
  then show ?thesis
    unfolding transition_settlement_def
    by (intro keeps_atomically keeps_thenE keeps_bindE keeps_if keeps_ret keeps_tick_fault assms(1) db_mono_life
        life_of_calm [OF calm_readers(6)])
qed

lemma grounded_transition:
  assumes "keeps (steady v K (grounded (st_id st))) extra" and "(from, to) \<in> set settlement_edges"
  shows "keeps (steady v K (grounded (st_id st))) (transition_settlement st from to ty extra)"
  unfolding transition_settlement_def
  by (intro keeps_atomically keeps_thenE keeps_bindE keeps_if keeps_ret keeps_tick_fault assms db_mono_steady
      steady_of_calm [OF calm_readers(6)] grounded_cas [where to = to] set_status_same)

lemma settling_edges:
  "(''settling'', ''settled'') \<in> set settlement_edges" "(''settling'', ''settlement_failed'') \<in> set settlement_edges"
  "(''settling'', ''awaiting_manual_payout'') \<in> set settlement_edges" "(''settling'', ''pending_dispatch'') \<in> set settlement_edges"
  by (simp_all add: settlement_edges_def)

lemma grounded_page: "keeps (steady v K (grounded i)) (page_ops j)"
  unfolding page_ops_def by (intro steady_update) (simp add: neutral_def same_settlement_def)

lemma grounded_fail: "keeps (steady v K (grounded (st_id st))) (fail_settlement st reason)"
  unfolding fail_settlement_def hand_to_manual_def Let_def
  by (intro keeps_bindE keeps_if keeps_case_option keeps_case_sum keeps_case_prod keeps_thenE keeps_attemptE keeps_ret steady_calm
      grounded_transition grounded_page settling_edges)

section \<open>Attempts\<close>

text \<open>The pre- and postconditions from here on; an error leaves what \<open>life\<close> says.\<close>

abbreviation living :: "world \<Rightarrow> (uuid \<times> uuid \<times> int) set \<Rightarrow> (world \<Rightarrow> bool) \<Rightarrow> 'a run \<Rightarrow> ('a \<Rightarrow> world \<Rightarrow> bool) \<Rightarrow> bool" where
  "living v K P m Q \<equiv> hoare P m Q (\<lambda>_. life v K)"

lemma living_keep: "keeps (steady v K P) m \<Longrightarrow> (\<And>x. living v K (steady v K P) (k x) Q) \<Longrightarrow> living v K (steady v K P) (bindE m k) Q"
  by (rule hoare_bindE [where R = "\<lambda>_. steady v K P"]) (simp_all add: keeps_hoare, erule hoare_weaken, auto dest: steady_life)

lemma living_of_keeps: "keeps (life v K) m \<Longrightarrow> (\<And>w. P w \<Longrightarrow> life v K w) \<Longrightarrow> (\<And>x w. life v K w \<Longrightarrow> Q x w) \<Longrightarrow> living v K P m Q"
  unfolding keeps_hoare by (erule hoare_weaken)

lemma living_ret: "(\<And>w. P w \<Longrightarrow> Q x w) \<Longrightarrow> living v K P (ret x) Q"
  by (rule hoare_pre [OF hoare_ret]) simp

lemma leads_of_living: "living v K P m (\<lambda>_. life v K) \<Longrightarrow> leads P (life v K) m"
  by (auto simp: leads_def hoare_def split: prod.splits sum.splits) (metis prod.collapse sum.exhaust)

text \<open>Where only the last step changes anything, an error leaves what was.\<close>

lemma errs_keep: "keeps P m \<Longrightarrow> (\<And>x. hoare P (k x) Q (\<lambda>_. P)) \<Longrightarrow> hoare P (bindE m k) Q (\<lambda>_. P)"
  unfolding keeps_hoare by (rule hoare_bindE)

lemma triple_any: "triple P m (\<lambda>_ _. True)"
  by (rule hoareI) simp_all

lemma errs_last: "triple P (bindE (modify f) (\<lambda>_. ret x)) Q \<Longrightarrow> hoare P (bindE (modify f) (\<lambda>_. ret x)) Q E"
  by (simp add: hoare_def bindE_def modify_def ret_def)

lemma insert_errs: "hoare (steady v K P) (insert_attempt i n name key status payload) (\<lambda>_ _. True) (\<lambda>_. steady v K P)"
  unfolding insert_attempt_def stmt_def thenE_def
  by (rule errs_keep [OF keeps_tick_fault [OF db_mono_steady]], rule errs_keep [OF keeps_gets], rule errs_keep [OF keeps_guardE],
    rule errs_keep [OF keeps_gets], rule errs_keep [OF keeps_guardE], rule errs_keep [OF keeps_gen_uuid [OF db_mono_steady]],
    rule errs_keep [OF keeps_gets], rule errs_last [OF triple_any])

text \<open>The insertion of an attempt in flight.\<close>

lemma insert_life:
  "living v K (steady v K (ready i)) (insert_attempt i n name key ''dispatched'' payload) (\<lambda>a. life v (insert (key3 a) K))"
proof (rule hoareI)
  fix w a w' assume ok: "steady v K (ready i) w" and run: "insert_attempt i n name key ''dispatched'' payload w = (Inr a, w')"
  then obtain bs where a: "at_id a = uuid_src w (uuid_next w)" "at_settlement a = i" "at_status a = ''dispatched''" and known: "i \<in> st_id ` set (settlements w)"
      and w': "w' = w\<lparr>faults := bs, uuid_next := Suc (uuid_next w), attempts := attempts w @ [a]\<rparr>"
    by (auto simp: insert_attempt_def op_simps list_ex_iff gen_uuid_def split: if_splits dest!: stmt_InrD)
  show "life v (insert (key3 a) K) w'"
    unfolding w' by (rule life_append_attempt) (use ok a known in \<open>auto simp: steady_def ready_def\<close>)
next
  fix w e w' assume ok: "steady v K (ready i) w" and run: "insert_attempt i n name key ''dispatched'' payload w = (Inl e, w')"
  then show "life v K w'"
    using hoare_InlD [OF insert_errs ok] steady_life by blast
qed

text \<open>Leaving the flight: the settlement has nothing in flight any more.\<close>

lemma marked_grounded:
  assumes "x \<in> set ats" and "c x" and "at_settlement x = i" and "at_status x = ''dispatched''" and "length (flights ats i) \<le> 1"
    and "\<And>a. a \<in> set ats \<Longrightarrow> c a \<Longrightarrow> key3 (f a) = key3 a \<and> at_status (f a) \<noteq> ''dispatched''"
  shows "flights (update_where c f ats) i = []"
proof -
  have "length (flights (update_where c f ats) i) < length (flights ats i)"
    using assms(1-4,6)
  proof (induction ats)
    case (Cons a ats)
    have le: "length (flights (update_where c f ats) i) \<le> length (flights ats i)"
      by (rule flights_kept(1)) (use Cons.prems(5) in auto)
    show ?case
    proof (cases "a = x")
      case True
      with Cons.prems le show ?thesis by (auto simp: flights_def)
    next
      case False
      with Cons have "length (flights (update_where c f ats) i) < length (flights ats i)" by auto
      with Cons.prems(5) [of a] show ?thesis by (auto simp: flights_def key3_def)
    qed
  qed simp
  with assms(5) have "length (flights (update_where c f ats) i) = 0" by linarith
  then show ?thesis by simp
qed

lemma mark_life:
  assumes "key3 a \<in> K" and "\<And>t x. key3 (f t x) = key3 x \<and> at_status (f t x) \<in> closed_statuses"
  shows "living v K (life v K) (mark_attempt (at_id a) f) (\<lambda>hit. if hit then steady v K (ready (at_settlement a)) else life v K)"
proof (rule hoareI)
  let ?c = "\<lambda>x. at_id x = at_id a \<and> at_status x = ''dispatched''"
  fix w hit w' assume ok: "life v K w" and "mark_attempt (at_id a) f w = (Inr hit, w')"
  then obtain bs where hit: "hit = list_ex ?c (attempts w)"
      and w': "w' = (w\<lparr>faults := bs\<rparr>)\<lparr>attempts := update_where ?c (f (now w)) (attempts w)\<rparr>"
    by (auto simp: mark_attempt_def op_simps dest!: stmt_InrD)
  have new: "life v K w'"
    unfolding w' using life_update_attempts [of v K "w\<lparr>faults := bs\<rparr>" ?c "f (now w)"] ok assms(2) by (simp add: life_simps marks_def)
  show "(if hit then steady v K (ready (at_settlement a)) else life v K) w'"
  proof (cases hit)
    case True
    then obtain x where x: "x \<in> set (attempts w)" "at_id x = at_id a" "at_status x = ''dispatched''"
      using hit by (auto simp: list_ex_iff)
    have ids: "distinct (map at_id (attempts w))" and one: "length (flights (attempts w) i) \<le> 1" for i
      using ok by (simp_all add: life_def life_ok_def ids_fresh_def)
    obtain y where y: "y \<in> set (attempts w)" "key3 y = key3 a"
      using ok assms(1) by (auto simp: life_def)
    then have "y = x" using x ids by (auto simp: key3_def distinct_map inj_on_def)
    with y x have sx: "at_settlement x = at_settlement a" by (auto simp: key3_def)
    have "flights (attempts w) (at_settlement a) \<noteq> []"
      using x sx by (auto simp: flights_def filter_empty_conv)
    then have rows: "\<forall>s \<in> set (settlements w). st_id s = at_settlement a \<longrightarrow> st_status s = ''settling''"
      using ok by (auto simp: life_def life_ok_def)
    have "flights (update_where ?c (f (now w)) (attempts w)) (at_settlement a) = []"
      by (rule marked_grounded [OF x(1) _ sx x(3) one]) (use x assms(2) closed_not_dispatched in auto)
    with rows True new show ?thesis by (simp add: steady_def ready_def w')
  qed (simp add: new)
next
  fix w e w' assume "life v K w" "mark_attempt (at_id a) f w = (Inl e, w')"
  then show "life v K w'"
    by (cases "faults w") (auto simp: mark_attempt_def stmt_def tick_fault_def op_defs bindE_def thenE_def life_simps split: if_splits)
qed

lemma hoare_of_keeps: "keeps P m \<Longrightarrow> triple (\<lambda>_. True) m Q \<Longrightarrow> hoare P m (\<lambda>x w. P w \<and> Q x w) (\<lambda>_. P)"
  by (rule hoareI) (auto dest: hoare_InrD keeps_eq)

section \<open>The operations\<close>

lemma neutral_columns [simp]:
  "neutral (\<lambda>s. s\<lparr>st_attempts := n, st_updated := t\<rparr>)" "neutral (\<lambda>s. s\<lparr>st_deadline := d\<rparr>)" "neutral (\<lambda>s. s\<lparr>st_destination := j\<rparr>)"
  "neutral (\<lambda>s. s\<lparr>st_deadline := d, st_paged := p\<rparr>)" "neutral (\<lambda>s. s\<lparr>st_attempts := n\<rparr>)" "neutral (\<lambda>s. s\<lparr>st_paged := p\<rparr>)"
  "neutral (\<lambda>s. if st_paged s = None then s\<lparr>st_paged := p\<rparr> else s)"
  by (auto simp: neutral_def same_settlement_def)

lemma unflying_columns [simp]:
  "unflying (\<lambda>a. a\<lparr>at_reference := r\<rparr>)" "unflying (\<lambda>a. a\<lparr>at_reference := r, at_reason := m\<rparr>)" "unflying (\<lambda>a. a\<lparr>at_reason := m\<rparr>)"
  by (auto simp: unflying_def marks_def key3_def)

lemmas life_calm = calm_ops [THEN life_of_calm]

lemmas life_claims = steady_claim [where P = anywhere, unfolded steady_anywhere]

lemma life_dispatch: "keeps (life v K) (provider_dispatch name req)"
  using steady_dispatch [of v K anywhere] by (simp add: steady_anywhere)

lemma life_clear: "keeps (life v K) (clear_destination st)"
  unfolding clear_destination_def by (intro keeps_if keeps_thenE keeps_ret steady_update) simp

lemma life_route: "keeps (life v K) (route_outcome st a name x)"
proof (cases "px_outcome x")
  case OutcomeAccepted
  then show ?thesis
    unfolding route_outcome_def
    by simp (intro keeps_bindE keeps_gets keeps_thenE keeps_ret life_transition life_update_attempt steady_update; simp)
next
  case OutcomeUncertain
  then show ?thesis
    unfolding route_outcome_def
    by simp (intro keeps_bindE keeps_gets keeps_thenE keeps_ret life_transition life_update_attempt steady_update life_calm; simp)
qed (simp_all add: route_outcome_def keeps_ret)

lemma route_same: "triple (\<lambda>_. True) (route_outcome st a name x) (\<lambda>r _. \<forall>a' b m t. r = Some (a', b, m, t) \<longrightarrow> a' = a)"
  unfolding route_outcome_def thenE_def by (cases "px_outcome x") (auto intro!: triple_skip triple_ret)

text \<open>One attempt, from a settlement with nothing in flight.\<close>

definition sent_life :: "world \<Rightarrow> (uuid \<times> uuid \<times> int) set \<Rightarrow> failed_send option \<Rightarrow> world \<Rightarrow> bool" where
  "sent_life v K r w \<longleftrightarrow> (case r of None \<Rightarrow> life v K w | Some (a, b, m, t) \<Rightarrow> life v (insert (key3 a) K) w)"

lemma send_life: "living v K (steady v K (ready (st_id st))) (send_attempt st) (sent_life v K)"
proof -
  let ?R = "steady v K (ready (st_id st))"
  have none: "living v K ?R (ret None) (sent_life v K)"
    by (rule living_ret) (simp add: sent_life_def steady_life)
  have failed: "living v K ?R (thenE (fail_settlement st m) (ret None)) (sent_life v K)" for m
  proof -
    have "keeps (steady v K (grounded (st_id st))) (thenE (fail_settlement st m) (ret (None :: failed_send option)))"
      by (intro keeps_thenE keeps_ret grounded_fail)
    moreover have "triple (\<lambda>_. True) (thenE (fail_settlement st m) (ret None)) (\<lambda>r _. r = (None :: failed_send option))"
      unfolding thenE_def by (intro triple_skip triple_ret) simp
    ultimately show ?thesis
      by (rule hoare_weaken [OF hoare_of_keeps]) (auto simp: sent_life_def dest: ready_grounded steady_life)
  qed
  have rest: "living v K (life v (insert (key3 a) K)) (bindE (update_settlement (st_id st) (\<lambda>t s. s\<lparr>st_attempts := n, st_updated := t\<rparr>)) (\<lambda>_.
      bindE (provider_dispatch name req) (\<lambda>x. bindE (clear_destination s) (\<lambda>s'. route_outcome s' a name x)))) (sent_life v K)" for a n name req s
    by (rule hoare_weaken [OF errs_keep [where P = "life v (insert (key3 a) K)", OF steady_update(2) errs_keep [OF life_dispatch errs_keep [OF life_clear
        hoare_of_keeps [OF life_route route_same]]]]]) (auto simp: sent_life_def dest: life_insert split: option.split)
  have claim: "living v K ?R (bindE (resolve_destination st) (\<lambda>dest.
      bindE (insert_attempt (st_id st) n name key ''dispatched'' dest) (\<lambda>a.
        bindE (update_settlement (st_id st) (\<lambda>t s. s\<lparr>st_attempts := n, st_updated := t\<rparr>)) (\<lambda>_.
          bindE (provider_dispatch name (req dest)) (\<lambda>x. bindE (clear_destination s) (\<lambda>s'. route_outcome s' a name x)))))) (sent_life v K)"
    for n name key req s
    by (rule living_keep [OF steady_calm(2)]) (rule hoare_bindE [OF insert_life rest])
  show ?thesis
    unfolding send_attempt_def Let_def thenE_def [of "update_settlement i f" for i f]
    by (rule living_keep [OF steady_of_calm [OF calm_selection(1)]], rule living_keep [OF steady_of_calm [OF calm_selection(2)]])
      (auto split: option.split intro: failed none claim
        intro!: living_keep [OF steady_of_calm [OF calm_resolve_accounts]] living_keep [OF steady_claim(1)])
qed

lemma grounded_post: "keeps (steady v K P) (post_once t)"
  by (rule steady_claim)

text \<open>The failure of an attempt: what it hands on has nothing in flight.\<close>

lemma fail_life:
  assumes "key3 a \<in> K" and "bucket \<in> closed_statuses"
  shows "living v K (life v K) (fail_attempt a bucket reason terminal)
    (\<lambda>r w. case r of None \<Rightarrow> life v K w | Some st \<Rightarrow> steady v K (ready (st_id st)) w)"
proof -
  let ?Q = "\<lambda>(r :: settlement option) w. case r of None \<Rightarrow> life v K w | Some st \<Rightarrow> steady v K (ready (st_id st)) w"
  let ?R = "steady v K (ready (at_settlement a))"
  have marks: "key3 (mark_failed bucket reason t x) = key3 x \<and> at_status (mark_failed bucket reason t x) \<in> closed_statuses" for t x
    using assms(2) by (simp add: mark_failed_def key3_def)
  have read: "living v K ?R (get_settlement (at_settlement a)) (\<lambda>st w. ?R w \<and> st_id st = at_settlement a)"
    by (rule hoare_weaken [OF hoare_of_keeps [OF steady_of_calm [OF calm_get_settlement(1)] get_settlement_row]])
      (auto dest: steady_life)
  have last: "living v K ?R (bindE (resolve_accounts (st_tenant st) (st_asset st) (st_fiat st)) (\<lambda>acc.
      bindE (post_once (attempt_reversal_txn st acc n)) (\<lambda>_. if stop then bindE (fail_settlement st reason) (\<lambda>_. ret None)
        else bindE (tried_providers (st_id st)) (\<lambda>tried. bindE (gets env) (\<lambda>e.
          bindE (if has_untried e tried then ret () else modify (\<lambda>w. w\<lparr>now := now w + RetryBackoff\<rparr>)) (\<lambda>_. ret (Some st))))))) ?Q"
    if i: "st_id st = at_settlement a" for st n stop
  proof -
    have give_up: "living v K ?R (bindE (fail_settlement st reason) (\<lambda>_. ret None)) ?Q"
    proof -
      have "keeps (steady v K (grounded (st_id st))) (bindE (fail_settlement st reason) (\<lambda>_. ret (None :: settlement option)))"
        by (intro keeps_bindE keeps_ret grounded_fail)
      moreover have "triple (\<lambda>_. True) (bindE (fail_settlement st reason) (\<lambda>_. ret None)) (\<lambda>r _. r = (None :: settlement option))"
        by (intro triple_skip triple_ret) simp
      ultimately show ?thesis
        by (rule hoare_weaken [OF hoare_of_keeps]) (auto simp: i dest: ready_grounded steady_life)
    qed
    have again: "living v K ?R (ret (Some st)) ?Q"
      by (rule living_ret) (simp add: i)
    have sleep: "keeps ?R (if b then ret () else modify (\<lambda>w. w\<lparr>now := now w + RetryBackoff\<rparr>))" for b
      by (intro keeps_if keeps_ret keeps_modify steady_simps)
    show ?thesis
      by (rule living_keep [OF steady_of_calm [OF calm_resolve_accounts]], rule living_keep [OF steady_claim(2)])
        (auto intro!: give_up again living_keep [OF steady_of_calm [OF calm_selection(1)]] living_keep [OF keeps_gets] living_keep [OF sleep])
  qed
  have hit: "living v K ?R (bindE (get_settlement (at_settlement a)) (\<lambda>st.
      bindE (resolve_accounts (st_tenant st) (st_asset st) (st_fiat st)) (\<lambda>acc.
      bindE (post_once (attempt_reversal_txn st acc (at_number a))) (\<lambda>_.
        if terminal \<or> at_number a \<ge> MaxAutoRetryAttempts then bindE (fail_settlement st reason) (\<lambda>_. ret None)
        else bindE (tried_providers (st_id st)) (\<lambda>tried. bindE (gets env) (\<lambda>e.
          bindE (if has_untried e tried then ret () else modify (\<lambda>w. w\<lparr>now := now w + RetryBackoff\<rparr>)) (\<lambda>_. ret (Some st)))))))) ?Q"
    by (rule hoare_bindE [OF read], rule hoareI) (auto dest: hoare_InrD [OF last] hoare_InlD [OF last])
  show ?thesis
    unfolding fail_attempt_def thenE_def
  proof (rule hoare_bindE [OF mark_life [OF assms(1) marks]])
    fix hit' show "living v K (if hit' then ?R else life v K) (if \<not> hit' then ret None else bindE (get_settlement (at_settlement a)) (\<lambda>st.
      bindE (resolve_accounts (st_tenant st) (st_asset st) (st_fiat st)) (\<lambda>acc.
      bindE (post_once (attempt_reversal_txn st acc (at_number a))) (\<lambda>_.
        if terminal \<or> at_number a \<ge> MaxAutoRetryAttempts then bindE (fail_settlement st reason) (\<lambda>_. ret None)
        else bindE (tried_providers (st_id st)) (\<lambda>tried. bindE (gets env) (\<lambda>e.
          bindE (if has_untried e tried then ret () else modify (\<lambda>w. w\<lparr>now := now w + RetryBackoff\<rparr>)) (\<lambda>_. ret (Some st)))))))) ?Q"
      using hit by (cases hit') (auto intro: living_ret)
  qed
qed

lemma leads_bind:
  "living v K P m Q \<Longrightarrow> (\<And>x. leads (Q x) (life v K) (k x)) \<Longrightarrow> leads P (life v K) (bindE m k)"
  by (fastforce simp: hoare_def leads_def bindE_def split: prod.splits sum.splits)

lemma leads_ret: "(\<And>w. P w \<Longrightarrow> R w) \<Longrightarrow> leads P R (ret x)"
  by (simp add: leads_def ret_def)

lemma leads_more: "leads P (life v J) m \<Longrightarrow> K \<subseteq> J \<Longrightarrow> leads P (life v K) m"
  by (auto simp: leads_def elim: life_mono)

lemma leads_iff_keeps: "leads P P m = keeps P m"
  by (simp add: leads_def keeps_def)

lemma failed_bucket: "send_attempt st w = (Inr (Some (a, b, m, t)), w') \<Longrightarrow> b \<in> closed_statuses"
proof -
  have route: "triple (\<lambda>_. True) (route_outcome s a n x) (\<lambda>r _. \<forall>a' b m t. r = Some (a', b, m, t) \<longrightarrow> b \<in> closed_statuses)" for s a n x
    unfolding route_outcome_def thenE_def by (cases "px_outcome x") (auto simp: closed_statuses_def intro!: triple_skip triple_ret)
  have "triple (\<lambda>_. True) (send_attempt st) (\<lambda>r _. \<forall>a' b m t. r = Some (a', b, m, t) \<longrightarrow> b \<in> closed_statuses)"
    unfolding send_attempt_def Let_def thenE_def
    by (auto split: option.split intro!: triple_skip triple_ret triple_if route [simplified])
  then show "send_attempt st w = (Inr (Some (a, b, m, t)), w') \<Longrightarrow> b \<in> closed_statuses"
    by (auto dest: hoare_InrD)
qed

lemma send_life': "living v K (steady v K (ready (st_id st))) (send_attempt st)
    (\<lambda>r w. sent_life v K r w \<and> (\<forall>a b m t. r = Some (a, b, m, t) \<longrightarrow> b \<in> closed_statuses))"
  by (rule hoareI) (auto dest: hoare_InrD [OF send_life] hoare_InlD [OF send_life] failed_bucket)

lemma dispatch_life: "leads (steady v K (ready (st_id st))) (life v K) (dispatch_attempt n st)"
proof (induction n arbitrary: st K)
  case (Suc n)
  have again: "leads (life v (insert (key3 a) K)) (life v K)
      (bindE (fail_attempt a b m t) (\<lambda>r. case r of None \<Rightarrow> ret () | Some st' \<Rightarrow> dispatch_attempt n st'))" if "b \<in> closed_statuses" for a b m t
    by (rule leads_more [OF leads_bind [OF fail_life [where K = "insert (key3 a) K"]]])
      (use that in \<open>auto split: option.split intro: leads_ret Suc.IH\<close>)
  show ?case
    unfolding dispatch_attempt.simps
  proof (rule leads_bind [OF send_life'])
    fix r
    show "leads (\<lambda>w. sent_life v K r w \<and> (\<forall>a b m t. r = Some (a, b, m, t) \<longrightarrow> b \<in> closed_statuses)) (life v K)
        (case r of None \<Rightarrow> ret () | Some (a, b, m, t) \<Rightarrow> bindE (fail_attempt a b m t)
          (\<lambda>r. case r of None \<Rightarrow> ret () | Some st' \<Rightarrow> dispatch_attempt n st'))"
    proof (cases r)
      case None
      then show ?thesis by (auto simp: sent_life_def intro: leads_ret)
    next
      case (Some y)
      obtain a b m t where y: "y = (a, b, m, t)" by (cases y)
      show ?thesis using again [of b a m t] unfolding Some y by (auto simp: leads_def sent_life_def)
    qed
  qed
qed (auto simp: leads_def fail_def dest: steady_life)

lemma failure_life:
  assumes "key3 a \<in> K" and "b \<in> closed_statuses"
  shows "keeps (life v K) (handle_attempt_failure a b m t)"
  unfolding handle_attempt_failure_def leads_iff_keeps [symmetric]
  by (rule leads_bind [OF fail_life [OF assms]]) (auto split: option.split intro: leads_ret dispatch_life)

lemma living_grounded:
  assumes "\<And>st. st_id st = i \<Longrightarrow> leads (steady v K (ready i)) (life v K) (k st)"
  shows "leads (steady v K (ready i)) (life v K) (bindE (get_settlement i) k)"
proof (rule leads_bind)
  show "living v K (steady v K (ready i)) (get_settlement i) (\<lambda>st w. steady v K (ready i) w \<and> st_id st = i)"
    by (rule hoare_weaken [OF hoare_of_keeps [OF steady_of_calm [OF calm_get_settlement(1)] get_settlement_row]])
      (auto dest: steady_life)
  show "leads (\<lambda>w. steady v K (ready i) w \<and> st_id st = i) (life v K) (k st)" for st
    using assms [of st] by (auto simp: leads_def)
qed

lemma leads_of_grounded: "keeps (steady v K (grounded i)) m \<Longrightarrow> leads (steady v K (ready i)) (life v K) m"
  by (auto simp: leads_def keeps_def dest: ready_grounded steady_life)

lemma succeeded_life:
  assumes "key3 a \<in> K"
  shows "keeps (life v K) (handle_payout_succeeded a)"
proof -
  have "leads (steady v K (ready (at_settlement a))) (life v K) (bindE (transition_settlement st ''settling'' ''settled'' ty (ret ()))
      (\<lambda>moved. if moved then complete_session st else ret ()))" if "st_id st = at_settlement a" for st ty
    using that by (intro leads_of_grounded keeps_bindE keeps_if keeps_ret steady_calm)
      (metis grounded_transition keeps_ret settling_edges(1))
  then show ?thesis
    unfolding handle_payout_succeeded_def leads_iff_keeps [symmetric]
    by (intro leads_bind [OF mark_life [OF assms]])
      (auto simp: mark_succeeded_def key3_def closed_statuses_def intro!: leads_ret living_grounded)
qed

lemma returned_life: "keeps (life v K) (handle_payout_returned a reason)"
proof -
  have ins: "keeps (life v K) (insert_reversal st reason)" for st
    unfolding insert_reversal_def by (intro keeps_rules db_mono_life life_simps)
  show ?thesis
    unfolding handle_payout_returned_def
    by (intro keeps_bindE keeps_if keeps_ret keeps_thenE life_calm life_claims life_transition ins) (simp add: settlement_edges_def)
qed

lemma declined_life: "keeps (life v K) (flag_declined_attempt a ref reason)"
proof -
  have upd: "life v K (w\<lparr>attempts := update_where c (\<lambda>x. x\<lparr>at_reason := r\<rparr>) (attempts w)\<rparr>)" if "life v K w" for w c r
    by (rule life_update_attempts [OF that]) (simp add: marks_def key3_def)
  show ?thesis
    unfolding flag_declined_attempt_def
    by (intro keeps_bindE keeps_stmt keeps_gets keeps_thenE keeps_modify keeps_ret keeps_if life_calm db_mono_life steady_update upd)
      (auto simp: neutral_def same_settlement_def)
qed

lemma found_life: "living v {} (life v {}) (find_attempt name ref) (\<lambda>a. life v {key3 a})"
proof (rule hoareI)
  fix w a w' assume ok: "life v {} w" and run: "find_attempt name ref w = (Inr a, w')"
  then obtain bs where a: "a \<in> set (attempts w)" and w': "w' = w\<lparr>faults := bs\<rparr>"
    by (auto simp: find_attempt_def fail_def ret_def split: option.splits elim!: bindE_InrE dest!: query_InrD first_min_in_set)
  from ok have "life v {} w'" unfolding w' by (rule life_simps)
  with a w' show "life v {key3 a} w'" by (simp add: life_def)
next
  fix w e w' assume "life v {} w" "find_attempt name ref w = (Inl e, w')"
  with keeps_eq [OF life_of_calm [OF calm_get_settlement(2)]] show "life v {} w'" by blast
qed

lemma apply_life: "key3 a \<in> K \<Longrightarrow> keeps (life v K) (apply_event a ev)"
  unfolding apply_event_def
  by (cases "we_kind ev") (auto simp: closed_statuses_def intro!: keeps_ret succeeded_life returned_life declined_life failure_life)

lemma webhook_life: "keeps (life v {}) (handle_settlement_webhook name body hdr)"
proof -
  have "leads (life v {}) (life v {}) (bindE (find_attempt name ref) (\<lambda>a. apply_event a ev))" for ref ev
  proof (rule leads_bind [OF found_life])
    show "leads (life v {key3 a}) (life v {}) (apply_event a ev)" for a
      by (rule leads_more [where J = "{key3 a}"]) (simp_all add: leads_iff_keeps apply_life)
  qed
  then show ?thesis
    unfolding handle_settlement_webhook_def
    by (intro keeps_bindE [OF keeps_gets] keeps_if keeps_fail keeps_case_sum keeps_ret) (simp_all add: leads_iff_keeps)
qed

section \<open>The worker\<close>

lemma life_grounded:
  assumes "life v K w" and "\<And>s. s \<in> set (settlements w) \<Longrightarrow> st_id s = i \<Longrightarrow> st_status s \<noteq> ''settling''"
  shows "flights (attempts w) i = []"
proof (rule ccontr)
  assume some: "flights (attempts w) i \<noteq> []"
  then obtain a where "a \<in> set (attempts w)" "at_settlement a = i"
    by (auto simp: flights_def filter_empty_conv)
  then have "i \<in> st_id ` set (settlements w)"
    using assms(1) by (auto simp: life_def life_ok_def)
  with some assms show False by (auto simp: life_def life_ok_def)
qed

lemma claim_life: "living v K (life v K) claim_next (\<lambda>r w. case r of None \<Rightarrow> life v K w | Some st \<Rightarrow> steady v K (claimed (st_id st)) w)"
proof (rule hoareI)
  fix w r w' assume ok: "life v K w" and run: "claim_next w = (Inr r, w')"
  show "case r of None \<Rightarrow> life v K w' | Some st \<Rightarrow> steady v K (claimed (st_id st)) w'"
  proof (cases r)
    case None
    with run obtain bs where "w' = w\<lparr>faults := bs\<rparr>"
      by (auto simp: claim_next_def bindE_def gets_def ret_def modify_def thenE_def dest!: stmt_InrD split: option.splits)
    with None ok show ?thesis by (simp add: life_simps)
  next
    case (Some st)
    with run obtain bs s where s: "s \<in> set (settlements w)" "st_status s = ''pending_dispatch''" "st_id st = st_id s"
        and w': "w' = (w\<lparr>faults := bs\<rparr>)\<lparr>settlements := update_where (\<lambda>x. st_id x = st_id s) (set_status ''dispatching'' (now w)) (settlements w)\<rparr>"
      by (auto simp: claim_next_def next_pending_def bindE_def gets_def ret_def modify_def thenE_def set_status_def
          dest!: stmt_InrD first_min_in_set split: option.splits)
    have same: "x = s" if "x \<in> set (settlements w)" "st_id x = st_id s" for x
      using ok that s(1) by (auto simp: life_def life_ok_def ids_fresh_def distinct_map inj_on_def)
    have none: "flights (attempts w) (st_id s) = []"
    proof (rule life_grounded [OF ok])
      fix x assume "x \<in> set (settlements w)" "st_id x = st_id s"
      with s(2) show "st_status x \<noteq> ''settling''" using same by fastforce
    qed
    have "(''pending_dispatch'', ''dispatching'') \<in> set settlement_edges" by (simp add: settlement_edges_def)
    then have "life v K w'"
      unfolding w' using life_update_settlements [of v K "w\<lparr>faults := bs\<rparr>" "\<lambda>x. st_id x = st_id s" "set_status ''dispatching'' (now w)"]
        ok none same s(2) by (simp add: life_simps set_status_same) (metis s(2))
    with Some s(3) w' show ?thesis
      by (auto simp: steady_def claimed_def set_update_where set_status_def)
  qed
next
  fix w e w' assume "life v K w" "claim_next w = (Inl e, w')"
  then show "life v K w'"
    by (cases "faults w") (auto simp: claim_next_def stmt_def tick_fault_def op_defs bindE_def thenE_def life_simps split: if_splits option.splits)
qed

lemma write_life: "living v K (steady v K (claimed i)) (write_settling i s amount fiat) (\<lambda>_. steady v K (ready i))"
proof (cases "(numeric_36_18 amount, numeric_36_18 fiat)")
  case (Pair x y)
  show ?thesis
  proof (cases "\<exists>a f. x = Some a \<and> y = Some f")
    case False
    with Pair have "write_settling i s amount fiat = stmt (fail (ConstraintErr ''settlements''))"
      by (cases x; cases y) (simp_all add: write_settling_def)
    moreover have "triple (\<lambda>_. True) (stmt (fail (ConstraintErr ''settlements''))) (\<lambda>_ _. False)"
      unfolding stmt_def thenE_def by (intro triple_skip triple_fail)
    moreover have "keeps (steady v K (claimed i)) (stmt (fail (ConstraintErr ''settlements'')))"
      by (intro keeps_stmt keeps_fail db_mono_steady)
    ultimately show ?thesis
      by (auto intro: hoare_weaken [OF hoare_of_keeps] dest: steady_life)
  next
    case True
    then obtain a f where num: "numeric_36_18 amount = Some a" "numeric_36_18 fiat = Some f" using Pair by auto
    let ?c = "\<lambda>st :: settlement. st_id st = i \<and> st_status st = ''dispatching''"
    let ?f = "\<lambda>(w :: world) st. (with_amounts s a f st)\<lparr>st_updated := now w\<rparr>"
    have def: "write_settling i s amount fiat = stmt (modify (\<lambda>w. w\<lparr>settlements := update_where ?c (?f w) (settlements w)\<rparr>))"
      using num by (simp add: write_settling_def)
    have step: "steady v K (ready i) (w\<lparr>settlements := update_where ?c (?f w) (settlements w)\<rparr>)" if ok: "steady v K (claimed i) w" for w
    proof -
      have none: "flights (attempts w) i = []"
        by (rule life_grounded [OF steady_life [OF ok]]) (use ok in \<open>auto simp: steady_def claimed_def\<close>)
      have edge: "(''dispatching'', ''settling'') \<in> set settlement_edges" by (simp add: settlement_edges_def)
      have "life v K (w\<lparr>settlements := update_where ?c (?f w) (settlements w)\<rparr>)"
      proof (rule life_update_settlements [OF steady_life [OF ok]])
        fix x assume "?c x"
        then show "same_settlement x (?f w x) \<and>
            (st_status (?f w x) = st_status x \<or> flights (attempts w) (st_id x) = [] \<and> (st_status x, st_status (?f w x)) \<in> set settlement_edges)"
          using none edge by (simp add: with_amounts_def same_settlement_def)
      qed
      moreover have "st_status y = ''settling''" if "y \<in> set (update_where ?c (?f w) (settlements w))" "st_id y = i" for y
      proof -
        from that(1) obtain x where x: "x \<in> set (settlements w)" "y = (if ?c x then ?f w x else x)"
          by (auto simp: update_where_def)
        with that(2) have "st_id x = i" by (simp add: with_amounts_def split: if_splits)
        with ok x(1) have "st_status x = ''dispatching''" by (simp add: steady_def claimed_def)
        with x(2) \<open>st_id x = i\<close> show ?thesis by (simp add: with_amounts_def)
      qed
      ultimately show ?thesis using none by (simp add: steady_def ready_def)
    qed
    have "living v K (steady v K (claimed i)) (modify (\<lambda>w. w\<lparr>settlements := update_where ?c (?f w) (settlements w)\<rparr>)) (\<lambda>_. steady v K (ready i))"
    proof (rule hoareI)
      fix w u w' assume "steady v K (claimed i) w" "modify (\<lambda>w. w\<lparr>settlements := update_where ?c (?f w) (settlements w)\<rparr>) w = (Inr u, w')"
      then show "steady v K (ready i) w'" unfolding modify_def using step by blast
    qed (simp add: modify_def)
    then show ?thesis
      unfolding def stmt_def thenE_def by (rule living_keep [OF keeps_tick_fault [OF db_mono_steady]])
  qed
qed

lemma prepare_life: "living v K (steady v K (claimed (st_id st))) (prepare_settlement st) (\<lambda>st'. steady v K (ready (st_id st')))"
proof -
  let ?C = "steady v K (claimed (st_id st))" and ?R = "steady v K (ready (st_id st))"
  have last: "living v K ?R (bindE (if s_status s \<noteq> ''settling'' then quiet (transition_to_settling (s_id s)) else ret ()) (\<lambda>_.
      ret ((with_amounts s amount fiat st)\<lparr>st_tenant := s_tenant s, st_corridor := s_corridor s\<rparr>))) (\<lambda>st'. steady v K (ready (st_id st')))"
    for s amount fiat
    by (intro living_keep keeps_if keeps_quiet keeps_ret steady_calm living_ret) (simp add: with_amounts_def)
  have stop: "living v K ?C (fail e) (\<lambda>st'. steady v K (ready (st_id st')))" for e
    by (rule hoare_pre [OF hoare_fail]) (rule steady_life)
  show ?thesis
    unfolding prepare_settlement_def Let_def thenE_def
  proof (rule living_keep [OF steady_of_calm [OF calm_readers(1)]])
    fix s
    show "living v K ?C (case (s_reservation s, s_lock s) of
       (Some rid, Some l) \<Rightarrow> bindE (get_confirmed_deposit_total rid) (\<lambda>amount. bindE (get_lock l) (\<lambda>lk.
           bindE (resolve_accounts (s_tenant s) (s_asset s) (s_fiat s)) (\<lambda>a.
             bindE (post_once (deposit_txn s a amount)) (\<lambda>_. bindE (post_once (conversion_txn s a (crypto_to_fiat lk amount))) (\<lambda>_.
               bindE (write_settling (st_id st) s amount (crypto_to_fiat lk amount)) (\<lambda>_.
                 bindE (if s_status s \<noteq> ''settling'' then quiet (transition_to_settling (s_id s)) else ret ()) (\<lambda>_.
                   ret ((with_amounts s amount (crypto_to_fiat lk amount) st)\<lparr>st_tenant := s_tenant s, st_corridor := s_corridor s\<rparr>))))))))
     | _ \<Rightarrow> fail (OtherErr ''settlement: session missing deposit reservation or rate lock'')) (\<lambda>st'. steady v K (ready (st_id st')))"
      by (cases "s_reservation s"; cases "s_lock s"; simp only: prod.case option.case)
        (rule stop | rule living_keep [OF steady_of_calm [OF calm_readers(8)]] living_keep [OF steady_of_calm [OF calm_readers(7)]]
          living_keep [OF steady_of_calm [OF calm_resolve_accounts]] living_keep [OF steady_claim(2)] hoare_bindE [OF write_life last])+
  qed
qed

lemma process_life: "leads (steady v K (claimed (st_id st))) (life v K) (process_settlement st)"
  unfolding process_settlement_def by (rule leads_bind [OF prepare_life dispatch_life])

lemma loop_life: "keeps (life v K) (dispatch_loop n)"
proof (induction n)
  case (Suc n)
  have "leads (steady v K (claimed (st_id st))) (life v K) (thenE (attemptE (process_settlement st)) (dispatch_loop n))" for st
  proof -
    have "leads (steady v K (claimed (st_id st))) (life v K) (attemptE (process_settlement st))"
      using process_life [of v K st] by (auto simp: leads_def attemptE_def split: prod.split)
    then show ?thesis unfolding thenE_def using Suc by (rule leads_after)
  qed
  then show ?case
    unfolding dispatch_loop.simps leads_iff_keeps [symmetric]
    by (intro leads_bind [OF claim_life]) (auto split: option.split intro: leads_ret)
qed (simp add: keeps_fail)

lemma keeps_forE_in: "(\<And>x. x \<in> set xs \<Longrightarrow> keeps P (f x)) \<Longrightarrow> keeps P (forE xs f)"
  by (induction xs) (auto intro: keeps_rules)

lemma sandbox_life: "keeps (life v {}) confirm_sandbox_dispatches"
  unfolding leads_iff_keeps [symmetric] confirm_sandbox_dispatches_def
proof (rule leads_bind)
  let ?due = "\<lambda>w. filter (\<lambda>a. at_provider a = ''sandbox'' \<and> at_status a = ''dispatched'') (attempts w)"
  show "living v {} (life v {}) (query ?due) (\<lambda>due. life v (key3 ` set due))"
  proof (rule hoareI)
    fix w due w' assume ok: "life v {} w" and "query ?due w = (Inr due, w')"
    then obtain bs where due: "due = ?due w" and w': "w' = w\<lparr>faults := bs\<rparr>" by (auto dest: query_InrD)
    have "life v {} w'" using ok by (simp add: w' life_simps)
    then show "life v (key3 ` set due) w'" by (auto simp: life_def due w')
  qed (use keeps_eq [OF keeps_query [OF db_mono_life]] in blast)
  show "leads (life v (key3 ` set due)) (life v {}) (forE due handle_payout_succeeded)" for due
    by (rule leads_more [where J = "key3 ` set due"]) (auto simp: leads_iff_keeps intro: keeps_forE_in succeeded_life)
qed

lemma tick_life: "keeps (life v {}) dispatch_tick"
  unfolding dispatch_tick_def dispatch_settlements_def
  by (intro keeps_thenE keeps_attemptE keeps_bindE keeps_gets keeps_if keeps_ret loop_life sandbox_life)

section \<open>The other commands\<close>

lemma resolve_life: "living v K (life v K) (resolve_confirmed_failed st admin) (\<lambda>_. steady v K (grounded (st_id st)))"
proof -
  let ?open = "\<lambda>a. at_settlement a = st_id st \<and> at_status a = ''dispatched''"
  let ?f = "\<lambda>w :: world. mark_confirmed_failed admin (now w)"
  let ?mark = "bindE (gets (\<lambda>w :: world. map at_number (filter ?open (attempts w)))) (\<lambda>ns.
      bindE (modify (\<lambda>w. w\<lparr>attempts := update_where ?open (?f w) (attempts w)\<rparr>)) (\<lambda>_. ret ns))"
  have step: "steady v K (grounded (st_id st)) (w\<lparr>attempts := update_where ?open (?f w) (attempts w)\<rparr>)" if "life v K w" for w
  proof -
    have "life v K (w\<lparr>attempts := update_where ?open (?f w) (attempts w)\<rparr>)"
      by (rule life_update_attempts [OF that]) (simp add: marks_def closed_statuses_def mark_confirmed_failed_def key3_def)
    moreover have "flights (update_where ?open (?f w) ats) (st_id st) = []" for ats
      by (induction ats) (auto simp: flights_def mark_confirmed_failed_def)
    ultimately show ?thesis by (simp add: steady_def grounded_def)
  qed
  have mark: "living v K (life v K) (stmt ?mark) (\<lambda>_. steady v K (grounded (st_id st)))"
  proof (rule hoareI)
    fix w ns w' assume ok: "life v K w" and "stmt ?mark w = (Inr ns, w')"
    then obtain bs where "w' = (w\<lparr>faults := bs\<rparr>)\<lparr>attempts := update_where ?open (?f (w\<lparr>faults := bs\<rparr>)) (attempts (w\<lparr>faults := bs\<rparr>))\<rparr>"
      by (auto simp: op_simps dest!: stmt_InrD)
    with step [of "w\<lparr>faults := bs\<rparr>"] ok show "steady v K (grounded (st_id st)) w'" by (simp only: life_simps)
  next
    fix w e w' assume "life v K w" "stmt ?mark w = (Inl e, w')"
    then show "life v K w'"
      by (cases "faults w") (auto simp: stmt_def tick_fault_def op_defs bindE_def thenE_def life_simps split: if_splits)
  qed
  show ?thesis
    unfolding resolve_confirmed_failed_def Let_def thenE_def
  proof (rule hoare_bindE [OF mark])
    fix ns
    have "keeps (steady v K (grounded (st_id st))) (if ns = [] then ret ()
        else bindE (resolve_accounts (st_tenant st) (st_asset st) (st_fiat st)) (\<lambda>acc. forE ns (\<lambda>n. post_once (attempt_reversal_txn st acc n))))"
      by (intro keeps_if keeps_ret keeps_bindE keeps_forE steady_claim steady_of_calm [OF calm_resolve_accounts])
    then show "living v K (steady v K (grounded (st_id st))) (if ns = [] then ret ()
        else bindE (resolve_accounts (st_tenant st) (st_asset st) (st_fiat st)) (\<lambda>acc. forE ns (\<lambda>n. post_once (attempt_reversal_txn st acc n))))
        (\<lambda>_. steady v K (grounded (st_id st)))"
      unfolding keeps_hoare by (rule hoare_weaken) (auto dest: steady_life)
  qed
qed

lemma retry_life: "keeps (life v K) (retry_payout i admin dest confirmed)"
proof -
  define f where "f t s = s\<lparr>st_status := ''pending_dispatch'', st_paged := None,
                st_destination := (case dest of RawJson j \<Rightarrow> Some j | _ \<Rightarrow> None), st_updated := t\<rparr>" for t and s :: settlement
  have same: "same_settlement s (f t s) \<and> st_status (f t s) = ''pending_dispatch''" for t s
    by (simp add: f_def same_settlement_def)
  define tail where "tail st fr sf = bindE (if dest = RawInvalid then fail (ConstraintErr ''settlements'') else cas_settlement i fr f)
      (\<lambda>hit. if \<not> hit then fail ErrNotRetryable else thenE (retry_to_settling (st_session st) sf) (get_settlement i))" for st :: settlement and fr sf
  have grounded: "keeps (steady v K (grounded i)) (tail st ''settling'' sf)" for st sf
    unfolding tail_def by (intro keeps_bindE keeps_if keeps_fail keeps_thenE steady_calm grounded_cas [OF same settling_edges(4)])
  have other: "keeps (life v K) (tail st fr sf)" if "(fr, ''pending_dispatch'') \<in> set settlement_edges" "fr \<noteq> ''settling''" for st fr sf
    unfolding tail_def using that by (intro keeps_bindE keeps_if keeps_fail keeps_thenE life_calm life_cas [OF same])
  have resolve: "keeps (life v K) (thenE (resolve_confirmed_failed st admin) (tail st ''settling'' sf))" if "st_id st = i" for st sf
    unfolding thenE_def leads_iff_keeps [symmetric]
    by (rule leads_bind [OF resolve_life]) (use grounded that in \<open>auto simp: leads_def keeps_def dest: steady_life\<close>)
  have row: "triple (life v K) (get_settlement i) (\<lambda>s _. st_id s = i)"
    by (rule hoare_weaken [OF get_settlement_row [where P = "\<lambda>_. True"]]) simp_all
  have def: "retry_payout i admin dest confirmed = bindE (get_settlement i) (\<lambda>st. case retry_from st confirmed of
       None \<Rightarrow> fail ErrNotRetryable
     | Some (from, session_from) \<Rightarrow> thenE (if from = ''settling'' then resolve_confirmed_failed st admin else ret ()) (tail st from session_from))"
    unfolding retry_payout_def tail_def f_def ..
  have edges: "(''settlement_failed'', ''pending_dispatch'') \<in> set settlement_edges" "(''awaiting_manual_payout'', ''pending_dispatch'') \<in> set settlement_edges"
    by (simp_all add: settlement_edges_def)
  have body: "keeps (life v K) (case retry_from st confirmed of None \<Rightarrow> fail ErrNotRetryable
     | Some (from, session_from) \<Rightarrow> thenE (if from = ''settling'' then resolve_confirmed_failed st admin else ret ()) (tail st from session_from))"
    if "st_id st = i" for st
    using resolve [OF that] keeps_thenE [OF keeps_ret other [OF edges(1)]] keeps_thenE [OF keeps_ret other [OF edges(2)]]
    by (auto simp: retry_from_def keeps_fail)
  show ?thesis
    unfolding def by (rule keeps_with [OF life_of_calm [OF calm_get_settlement(1)] row]) (rule keepsD [OF body])
qed

text \<open>The attempt that records a manual payout is not in flight.\<close>

lemma insert_done: "status \<in> closed_statuses \<Longrightarrow> keeps (life v K) (insert_attempt i n name key status payload)"
proof (rule keepsI)
  fix w r w' assume d: "status \<in> closed_statuses" and ok: "life v K w" and run: "insert_attempt i n name key status payload w = (r, w')"
  show "life v K w'"
  proof (cases r)
    case (Inl e)
    with hoare_InlD [OF insert_errs [where P = anywhere]] ok run show ?thesis by (auto simp: steady_anywhere)
  next
    case (Inr a)
    with run obtain bs where a: "at_id a = uuid_src w (uuid_next w)" "at_settlement a = i" "at_status a = status"
        and known: "i \<in> st_id ` set (settlements w)"
        and w': "w' = w\<lparr>faults := bs, uuid_next := Suc (uuid_next w), attempts := attempts w @ [a]\<rparr>"
      by (auto simp: insert_attempt_def op_simps list_ex_iff gen_uuid_def split: if_splits dest!: stmt_InrD)
    have "life v (insert (key3 a) K) w'"
      unfolding w' by (rule life_append_attempt) (use ok a known d closed_not_dispatched in auto)
    then show ?thesis by (rule life_insert)
  qed
qed

lemma manual_life: "keeps (life v K) (manual_settle i who)"
proof -
  have edge: "(''awaiting_manual_payout'', ''settled'') \<in> set settlement_edges \<and> ''awaiting_manual_payout'' \<noteq> ''settling'' \<or> 
      ''awaiting_manual_payout'' = ''settling'' \<and> ''settled'' = ''settling''"
    by (simp add: settlement_edges_def)
  show ?thesis
    unfolding manual_settle_def Let_def
    by (intro keeps_bindE keeps_if keeps_ret keeps_thenE life_calm life_claims life_transition [OF _ edge] insert_done steady_update) (simp_all add: closed_statuses_def)
qed

lemma telegram_life: "keeps (life v K) (handle_telegram_update secret body)"
  unfolding handle_telegram_update_def handle_press_def Let_def
  by (intro keeps_bindE keeps_gets keeps_if keeps_fail keeps_case_option keeps_case_prod keeps_case_sum keeps_thenE keeps_attemptE keeps_ret
      manual_life life_calm)

lemma deposit_life: "keeps (life v K) (claim_settlement e)"
proof (rule keepsI)
  fix w r w' assume ok: "life v K w" and run: "claim_settlement e w = (r, w')"
  show "life v K w'"
  proof (cases r)
    case (Inl x)
    with ok run show ?thesis
      by (cases "faults w") (auto simp: claim_settlement_def stmt_def tick_fault_def op_defs gen_uuid_def bindE_def thenE_def life_simps
          split: if_splits option.splits)
  next
    case (Inr u)
    show ?thesis
    proof (cases "settlements w' = settlements w")
      case True
      have "attempts w' = attempts w" "uuid_src w' = uuid_src w" "uuid_next w \<le> uuid_next w'"
        using run Inr by (auto simp: claim_settlement_def op_simps gen_uuid_def split: option.splits if_splits dest!: stmt_InrD)
      with True ok show ?thesis by (auto elim: life_cong [rotated -1])
    next
      case False
      from run Inr obtain bs where m: "bindE (gets (\<lambda>w. find (\<lambda>s. s_id s = ev_agg_id e) (sessions w))) (\<lambda>r. case r of
           None \<Rightarrow> ret ()
         | Some s \<Rightarrow> bindE (gets (\<lambda>w. list_ex (\<lambda>st. st_session st = s_id s) (settlements w))) (\<lambda>dup.
             if dup then ret ()
             else bindE gen_uuid (\<lambda>i. modify (\<lambda>w. w\<lparr>settlements := settlements w @ [new_settlement s i (now w)]\<rparr>)))) (w\<lparr>faults := bs\<rparr>) = (Inr u, w')"
        by (auto simp: claim_settlement_def dest: stmt_InrD)
      with False obtain s where f: "find (\<lambda>s. s_id s = ev_agg_id e) (sessions w) = Some s"
          and dup: "\<not> list_ex (\<lambda>st. st_session st = s_id s) (settlements w)"
        by (cases "find (\<lambda>s. s_id s = ev_agg_id e) (sessions w)") (auto simp: op_simps split: if_splits)
      from m f dup have w': "w' = w\<lparr>faults := bs, uuid_next := Suc (uuid_next w),
          settlements := settlements w @ [new_settlement s (uuid_src w (uuid_next w)) (now w)]\<rparr>"
        by (simp add: op_simps gen_uuid_def)
      have s: "s_id s \<notin> st_session ` set (settlements w)" using dup by (auto simp: list_ex_iff)
      show ?thesis
        unfolding w' by (rule life_append_settlement [OF ok]) (use s in \<open>auto simp: new_settlement_def\<close>)
    qed
  qed
qed

lemma timeouts_life: "keeps (life v K) page_timed_out"
proof -
  have "life v K (w\<lparr>settlements := update_where (timed_out w) (\<lambda>s. s\<lparr>st_paged := Some (now w)\<rparr>) (settlements w)\<rparr>)" if "life v K w" for w
    by (rule steady_rows(2) [OF _ that]) simp
  then show ?thesis
    unfolding page_timed_out_def by (intro keeps_exec db_mono_life)
qed

lemma reversal_life: "keeps (life v K) (resolve_reversal i admin debit credit amount remark)"
proof -
  have cas: "keeps (life v K) (cas_settlement j ''reversed'' (set_status ''reversal_resolved''))" for j
    by (rule life_cas [OF set_status_same]) (simp_all add: settlement_edges_def)
  show ?thesis
    unfolding resolve_reversal_def
    by (intro keeps_bindE keeps_query keeps_case_option keeps_fail keeps_if keeps_thenE keeps_stmt keeps_gets keeps_modify keeps_ret keeps_quiet
        db_mono_life life_claims life_calm cas life_simps)
qed

lemma life_step: "keeps (life v {}) (settlement_step cmd)"
  by (cases cmd) (simp_all add: keeps_quiet deposit_life tick_life webhook_life timeouts_life retry_life manual_life telegram_life
      reversal_life life_of_calm calm_session_step)

section \<open>Properties\<close>

lemma run_life: "life_ok w \<Longrightarrow> life w {} (run_settlements cmds w)"
  by (intro run_settlements_keeps [where P = "life w {}"] life_step life_start)


lemma life_ok_payout_world: "life_ok (payout_world e)"
proof -
  have "(\<exists>n < Suc 0. sample_src 0 = sample_src n)" by blast
  then show ?thesis
    by (simp add: life_ok_def payout_world_def empty_world_def ids_fresh_def inj_sample_src payout_row_def new_settlement_def flights_def
        settlement_statuses_def)
qed


text \<open>
  C28. The rows of the pipeline are always well formed: ids are unique, every session has at most one
  settlement, every attempt belongs to a settlement, every status is one its table allows (so no
  \<^verbatim>\<open>CHECK\<close> of the schema ever rejects a write), and a settlement has at most one attempt in flight, and
  only while it is settling.
\<close>

theorem settlement_rows_well_formed:
  assumes "life_ok w"
  shows "let w' = run_settlements cmds w in
    distinct (map st_id (settlements w')) \<and> distinct (map at_id (attempts w')) \<and> distinct (map st_session (settlements w')) \<and>
    (\<forall>a \<in> set (attempts w'). at_settlement a \<in> st_id ` set (settlements w') \<and> at_status a \<in> insert ''dispatched'' closed_statuses) \<and>
    (\<forall>s \<in> set (settlements w'). st_status s \<in> settlement_statuses \<and> length (flights (attempts w') (st_id s)) \<le> 1 \<and>
       (flights (attempts w') (st_id s) \<noteq> [] \<longrightarrow> st_status s = ''settling''))"
  using run_life [OF assms, of cmds] by (auto simp: Let_def life_def life_ok_def ids_fresh_def image_subset_iff)

theorem settlement_rows_well_formed_witness:
  "let w' = run_settlements [VDispatch, VTimeouts, VWebhook ''paystack'' ''accepted'' (\<lambda>_. ''sig''), VDispatch] (payout_world sample_env)
   in \<forall>s \<in> set (settlements w'). length (flights (attempts w') (st_id s)) \<le> 1"
  using settlement_rows_well_formed [OF life_ok_payout_world] unfolding Let_def by blast

text \<open>In the abstract, what was paid can only bounce.\<close>

lemma paid_forward: "phase_step\<^sup>*\<^sup>* p q \<Longrightarrow> p \<in> {Paid, Returned, Closed} \<Longrightarrow> q \<in> {Paid, Returned, Closed}"
  by (induction rule: rtranclp_induct) (auto elim: phase_step.cases)

definition paid_statuses :: "string set" where
  "paid_statuses = {''settled'', ''reversed'', ''reversal_resolved''}"

lemma phase_paid_iff: "st \<in> settlement_statuses \<Longrightarrow> status_phase ns st \<in> {Paid, Returned, Closed} \<longleftrightarrow> st \<in> paid_statuses"
  by (auto simp: settlement_statuses_def paid_statuses_def status_phase_def)



end
