(* ===== verification/Numbers.thy ===== *)
theory Numbers
  imports Text
begin

text \<open>
  Numbers as the code reads and computes them: the parsers of \<^verbatim>\<open>strconv\<close> and \<^verbatim>\<open>math/big\<close>, sums
  of \<open>int64\<close> values, and \<open>float64\<close> arithmetic. A \<open>float64\<close> is the rational it stands for;
  \<open>float64\<close> is the rounding of IEEE 754 (53 bits, ties to even, subnormals), applied after
  every operation. Magnitudes that overflow do not occur in the code that uses it.
\<close>

section \<open>Parsing\<close>

definition is_digit :: "char \<Rightarrow> bool" where
  "is_digit c \<longleftrightarrow> 48 \<le> byte c \<and> byte c \<le> 57"

definition hex_digit_value :: "char \<Rightarrow> int option" where
  "hex_digit_value c = (let b = int (byte c) in
     if 48 \<le> b \<and> b \<le> 57 then Some (b - 48) else if 97 \<le> b \<and> b \<le> 102 then Some (b - 87)
     else if 65 \<le> b \<and> b \<le> 70 then Some (b - 55) else None)"

text \<open>The value of a text of digits, \<open>None\<close> when it is empty or has another character.\<close>

fun digits_from :: "int \<Rightarrow> (char \<Rightarrow> int option) \<Rightarrow> string \<Rightarrow> int \<Rightarrow> int option" where
  "digits_from base dv [] acc = Some acc"
| "digits_from base dv (c # s) acc = (case dv c of None \<Rightarrow> None | Some d \<Rightarrow> digits_from base dv s (base * acc + d))"

definition dec_digit_value :: "char \<Rightarrow> int option" where
  "dec_digit_value c = (if is_digit c then Some (int (byte c) - 48) else None)"

definition unsigned_value :: "int \<Rightarrow> string \<Rightarrow> int option" where
  "unsigned_value base s = (if s = [] then None
     else digits_from base (if base = 16 then hex_digit_value else dec_digit_value) s 0)"

definition signed_value :: "int \<Rightarrow> string \<Rightarrow> int option" where
  "signed_value base s = (case s of
       [] \<Rightarrow> None
     | c # t \<Rightarrow> (if c = CHR ''-'' then map_option uminus (unsigned_value base t)
                 else if c = CHR ''+'' then unsigned_value base t
                 else unsigned_value base s))"

text \<open>\<open>strconv.ParseInt(s, base, 64)\<close>, \<open>strconv.Atoi\<close>, \<open>strconv.ParseUint(s, 16, 64)\<close>, \<open>big.Int.SetString\<close>.\<close>

definition parse_int64 :: "int \<Rightarrow> string \<Rightarrow> int option" where
  "parse_int64 base s = (case signed_value base s of
       None \<Rightarrow> None
     | Some i \<Rightarrow> if - (2 ^ 63) \<le> i \<and> i < 2 ^ 63 then Some i else None)"

definition parse_uint64 :: "int \<Rightarrow> string \<Rightarrow> int option" where
  "parse_uint64 base s = (case unsigned_value base s of
       None \<Rightarrow> None
     | Some i \<Rightarrow> if i < 2 ^ 64 then Some i else None)"

definition parse_big :: "int \<Rightarrow> string \<Rightarrow> int option" where
  "parse_big base s = signed_value base s"

text \<open>An \<open>int64\<close> result wraps.\<close>

definition wrap64 :: "int \<Rightarrow> int" where
  "wrap64 i = (i + 2 ^ 63) mod 2 ^ 64 - 2 ^ 63"

lemma wrap64_id: "- (2 ^ 63) \<le> i \<Longrightarrow> i < 2 ^ 63 \<Longrightarrow> wrap64 i = i"
  by (simp add: wrap64_def)

lemma digits_from_chars: "digits_from 10 dec_digit_value s acc = Some i \<Longrightarrow> list_all is_digit s"
  by (induction s arbitrary: acc) (auto simp: dec_digit_value_def split: if_splits)

lemma parse_int64_chars:
  assumes "parse_int64 10 s = Some i"
  shows "set s \<subseteq> {c. is_digit c} \<union> {CHR ''-'', CHR ''+''}"
proof -
  have "set t \<subseteq> {c. is_digit c}" if "unsigned_value 10 t = Some j" for t j
    using that digits_from_chars [of t] by (auto simp: unsigned_value_def list_all_iff split: if_splits)
  then show ?thesis
    using assms by (fastforce simp: parse_int64_def signed_value_def split: list.splits option.splits if_splits)
qed

section \<open>Binary floating point\<close>

fun bit_count :: "nat \<Rightarrow> nat" where
  "bit_count n = (if n = 0 then 0 else Suc (bit_count (n div 2)))"

declare bit_count.simps [simp del]

lemma bit_count_0 [simp]: "bit_count 0 = 0"
  by (simp add: bit_count.simps)

lemma bit_count_le: "0 < n \<Longrightarrow> 2 ^ (bit_count n - 1) \<le> n"
proof (induction n rule: bit_count.induct)
  case (1 n)
  show ?case
  proof (cases "n div 2 = 0")
    case True
    with 1 show ?thesis by (simp add: bit_count.simps [of n])
  next
    case False
    with 1 have "2 ^ (bit_count (n div 2) - 1) \<le> n div 2" by simp
    moreover have "0 < bit_count (n div 2)"
      using False by (subst bit_count.simps) simp
    ultimately have "2 ^ bit_count (n div 2) \<le> 2 * (n div 2)"
      by (cases "bit_count (n div 2)") auto
    also have "\<dots> \<le> n" by simp
    finally show ?thesis using 1 by (simp add: bit_count.simps [of n])
  qed
qed

lemma bit_count_less: "n < 2 ^ bit_count n"
proof (induction n rule: bit_count.induct)
  case (1 n)
  show ?case
  proof (cases "n = 0")
    case False
    with 1 have "n div 2 < 2 ^ bit_count (n div 2)" by simp
    then show ?thesis using False by (simp add: bit_count.simps [of n])
  qed simp
qed

text \<open>The exponent of a positive number: the power of two just below it.\<close>

definition exponent :: "rat \<Rightarrow> int" where
  "exponent x = (if 1 \<le> x then int (bit_count (nat \<lfloor>x\<rfloor>)) - 1 else - int (bit_count (nat (\<lceil>1 / x\<rceil> - 1))))"

definition round_even :: "rat \<Rightarrow> int" where
  "round_even m = (let f = \<lfloor>m\<rfloor>; d = m - of_int f in
     if d < 1 / 2 then f else if 1 / 2 < d then f + 1 else if even f then f else f + 1)"

definition float64 :: "rat \<Rightarrow> rat" where
  "float64 x = (if x = 0 then 0
     else let e = max (exponent \<bar>x\<bar> - 52) (- 1074) in of_int (round_even (x / 2 powi e)) * 2 powi e)"

lemma powi_nonpos: "e \<le> 0 \<Longrightarrow> (2::rat) powi e = 1 / 2 ^ nat (- e)"
  by (cases "e = 0") (auto simp: power_int_def inverse_eq_divide power_one_over)

lemma scaled_int: "e \<le> 0 \<Longrightarrow> rat_of_int n = of_int (n * 2 ^ nat (- e)) * 2 powi e"
proof -
  have "rat_of_int n = of_int (n * 2 ^ k) * (1 / 2 ^ k)" for k by simp
  then show "e \<le> 0 \<Longrightarrow> ?thesis" by (simp only: powi_nonpos)
qed

lemma exponent_le:
  assumes "0 < x"
  shows "2 powi exponent x \<le> x"
proof (cases "1 \<le> x")
  case True
  then have pos: "0 < nat \<lfloor>x\<rfloor>" by (simp add: le_floor_iff)
  have "bit_count (nat \<lfloor>x\<rfloor>) \<noteq> 0" using pos by (subst bit_count.simps) simp
  then have e: "exponent x = int (bit_count (nat \<lfloor>x\<rfloor>) - 1)"
    using True by (simp add: exponent_def of_nat_diff)
  have "rat_of_nat (2 ^ (bit_count (nat \<lfloor>x\<rfloor>) - 1)) \<le> rat_of_nat (nat \<lfloor>x\<rfloor>)"
    using bit_count_le [OF pos] by (simp only: of_nat_le_iff)
  also have "\<dots> \<le> x" using True by simp
  finally show ?thesis unfolding e by (simp add: power_int_def)
next
  case False
  define n where "n = nat (\<lceil>1 / x\<rceil> - 1)"
  have "1 < 1 / x" using False assms by (simp add: less_divide_eq)
  then have "1 \<le> \<lceil>1 / x\<rceil>" by linarith
  then have "int n = \<lceil>1 / x\<rceil> - 1" unfolding n_def by simp
  then have "1 / x \<le> rat_of_nat n + 1" by linarith
  also have "\<dots> \<le> 2 ^ bit_count n"
    using bit_count_less [of n] by (metis Suc_leI add.commute of_nat_Suc of_nat_le_iff of_nat_numeral of_nat_power)
  finally have "1 / 2 ^ bit_count n \<le> x"
    using assms by (simp add: divide_le_eq mult.commute)
  moreover have "(2::rat) powi exponent x = 1 / 2 ^ bit_count n"
    using False by (simp add: exponent_def n_def powi_nonpos)
  ultimately show ?thesis by simp
qed

lemma round_even_ge: "of_int k \<le> m \<Longrightarrow> k \<le> round_even m"
proof -
  assume "of_int k \<le> m"
  then have "k \<le> \<lfloor>m\<rfloor>" by (simp only: le_floor_iff)
  then show ?thesis by (auto simp: round_even_def Let_def)
qed

lemma round_even_le: "m \<le> of_int k \<Longrightarrow> round_even m \<le> k"
proof -
  assume m: "m \<le> of_int k"
  show ?thesis
  proof (cases "\<lfloor>m\<rfloor> = k")
    case True
    with m have "m = of_int k" by linarith
    then show ?thesis by (simp add: round_even_def)
  next
    case False
    with m have "\<lfloor>m\<rfloor> + 1 \<le> k" by linarith
    then show ?thesis by (auto simp: round_even_def Let_def)
  qed
qed

text \<open>Rounding does not cross an integer of at most 53 bits.\<close>

lemma float64_ge:
  assumes "of_int n \<le> x" and "0 \<le> n" and "n < 2 ^ 53"
  shows "of_int n \<le> float64 x"
proof (cases "x = 0")
  case False
  with assms have x: "0 < x" using order_trans [of 0 "rat_of_int n" x] by simp
  define e where "e = max (exponent \<bar>x\<bar> - 52) (- 1074)"
  have f: "float64 x = of_int (round_even (x / 2 powi e)) * 2 powi e"
    using False by (simp add: float64_def e_def Let_def)
  show ?thesis
  proof (cases "e \<le> 0")
    case True
    then have k: "rat_of_int n = of_int (n * 2 ^ nat (- e)) * 2 powi e" by (rule scaled_int)
    have "rat_of_int (n * 2 ^ nat (- e)) \<le> x / 2 powi e"
      using assms(1) unfolding k by (simp only: pos_le_divide_eq zero_less_power_int zero_less_numeral)
    then have "n * 2 ^ nat (- e) \<le> round_even (x / 2 powi e)" by (rule round_even_ge)
    then show ?thesis
      unfolding f by (subst k) (intro mult_right_mono, simp_all only: of_int_le_iff zero_le_power_int zero_le_numeral)
  next
    case False
    then have e: "e = exponent x - 52" using x by (auto simp: e_def)
    have "2 powi (e + 52) \<le> x" using exponent_le [OF x] e by simp
    then have "rat_of_int (2 ^ 52) \<le> x / 2 powi e"
      by (simp add: le_divide_eq power_int_add mult.commute)
    then have "2 ^ 52 \<le> round_even (x / 2 powi e)" by (rule round_even_ge)
    then have "rat_of_int (2 ^ 52) * 2 powi e \<le> float64 x"
      unfolding f by (intro mult_right_mono) (simp_all only: of_int_le_iff zero_le_power_int zero_le_numeral)
    moreover have "rat_of_int (2 ^ 52) * 2 \<le> of_int (2 ^ 52) * 2 powi e"
      using False power_int_increasing [of 1 e "2::rat"] by simp
    moreover have "rat_of_int n \<le> of_int (2 ^ 53)" using assms(3) by (simp only: of_int_le_iff)
    ultimately show ?thesis by simp
  qed
qed (use assms in \<open>simp add: float64_def\<close>)

lemma float64_le:
  assumes "x \<le> of_int n" and "0 \<le> x" and "n < 2 ^ 53"
  shows "float64 x \<le> of_int n"
proof (cases "x = 0")
  case False
  with assms have x: "0 < x" by simp
  define e where "e = max (exponent \<bar>x\<bar> - 52) (- 1074)"
  have f: "float64 x = of_int (round_even (x / 2 powi e)) * 2 powi e"
    using False by (simp add: float64_def e_def Let_def)
  have "2 powi exponent x < rat_of_int (2 ^ 53)"
    using exponent_le [OF x] assms(1,3) by (metis of_int_less_iff order.strict_trans1)
  then have "(2::rat) powi exponent x < 2 powi 53" by simp
  then have "exponent x < 53"
    using power_int_increasing [of 53 "exponent x" "2::rat"] by (meson linorder_not_less one_le_numeral)
  then have "e \<le> 0" using x by (simp add: e_def)
  then have k: "rat_of_int n = of_int (n * 2 ^ nat (- e)) * 2 powi e" by (rule scaled_int)
  have "x / 2 powi e \<le> rat_of_int (n * 2 ^ nat (- e))"
    using assms(1) unfolding k by (simp only: pos_divide_le_eq zero_less_power_int zero_less_numeral)
  then have "round_even (x / 2 powi e) \<le> n * 2 ^ nat (- e)" by (rule round_even_le)
  then show ?thesis
    unfolding f by (subst k) (intro mult_right_mono, simp_all only: of_int_le_iff zero_le_power_int zero_le_numeral)
qed (use assms in \<open>simp add: float64_def\<close>)

lemma float64_int: "0 \<le> n \<Longrightarrow> n < 2 ^ 53 \<Longrightarrow> float64 (of_int n) = of_int n"
  by (intro antisym float64_le float64_ge) simp_all

lemma float64_0 [simp]: "float64 0 = 0"
  by (simp add: float64_def)

lemma float64_nonneg: "0 \<le> x \<Longrightarrow> 0 \<le> float64 x"
  using float64_ge [of 0 x] by simp

end
