(* ===== verification/EvmTx.thy ===== *)
theory EvmTx
  imports Wallet Numbers
begin

text \<open>
  Building an EVM transaction by hand (\<^verbatim>\<open>internal/treasury/wallet/rlp.go\<close> and \<^verbatim>\<open>evm.go\<close>): the RLP
  encoding and the decoder its tests use, the EIP-1559 envelope, the call data of an ERC-20 transfer
  and the EIP-55 checksum. A byte slice is a string. Keccak-256 and the signature are arguments of
  the model. The lemmas show that decoding gives back what was encoded, for every list of byte
  strings a slice can hold, and so that the payload that is signed determines the transaction.
\<close>

section \<open>RLP\<close>

text \<open>\<open>bigEndianMinimal\<close> on a \<open>uint64\<close>, and \<open>big.Int.Bytes\<close>.\<close>

function big_endian_minimal :: "64 word \<Rightarrow> string" where
  "big_endian_minimal v = (if v = 0 then [] else big_endian_minimal (drop_bit 8 v) @ [char_of (unat (take_bit 8 v))])"
  by pat_completeness auto

termination
proof (relation "measure unat")
  fix v :: "64 word" assume "v \<noteq> 0"
  then have "0 < unat v" by (simp add: unat_gt_0)
  then have "unat v div 256 < unat v" by simp
  moreover have "unat (drop_bit 8 v) = unat v div 256" by (simp only: unat_drop_bit_eq drop_bit_eq_div) (simp add: unat_div)
  ultimately show "(drop_bit 8 v, v) \<in> measure unat" by simp
qed simp

declare big_endian_minimal.simps [simp del]

fun nat_bytes :: "nat \<Rightarrow> string" where
  "nat_bytes n = (if n = 0 then [] else nat_bytes (n div 256) @ [char_of (n mod 256)])"

declare nat_bytes.simps [simp del]

definition rlp_encode_length :: "nat \<Rightarrow> nat \<Rightarrow> string" where
  "rlp_encode_length l offset = (if l < 56 then [char_of ((offset + l) mod 256)]
     else let b = big_endian_minimal (word_of_nat l) in char_of ((offset + 55 + length b) mod 256) # b)"

definition rlp_encode_bytes :: "string \<Rightarrow> string" where
  "rlp_encode_bytes b = (if length b = 1 \<and> byte (hd b) < 0x80 then b else rlp_encode_length (length b) 0x80 @ b)"

definition rlp_encode_list :: "string list \<Rightarrow> string" where
  "rlp_encode_list items = (let payload = concat items in rlp_encode_length (length payload) 0xc0 @ payload)"

definition rlp_encode_uint :: "64 word \<Rightarrow> string" where
  "rlp_encode_uint v = rlp_encode_bytes (big_endian_minimal v)"

definition rlp_encode_big_int :: "int \<Rightarrow> string" where
  "rlp_encode_big_int v = (if v = 0 then rlp_encode_bytes [] else rlp_encode_bytes (nat_bytes (nat \<bar>v\<bar>)))"

text \<open>
  The decoder. A length is read into an \<open>int\<close> by shifting; one that overflows to a negative value
  makes the slicing panic, which is an error here too.
\<close>

definition length_value :: "string \<Rightarrow> int" where
  "length_value s = foldl (\<lambda>l c. wrap64 (l * 256 + int (byte c))) 0 s"

definition take_string :: "string \<Rightarrow> int \<Rightarrow> string \<Rightarrow> err + string \<times> string" where
  "take_string what n data = (if n < 0 \<or> int (length data) < n then Inl (OtherErr what)
     else Inr (take (nat n) data, drop (nat n) data))"

fun rlp_decode_one_string :: "string \<Rightarrow> err + string \<times> string" where
  "rlp_decode_one_string [] = Inl (OtherErr ''rlp: unexpected end of input'')"
| "rlp_decode_one_string (c # data) = (let p = byte c in
     if p < 0x80 then Inr ([c], data)
     else if p = 0xc0 then Inr ([], data)
     else if p \<le> 0xb7 then take_string ''rlp: truncated string'' (int p - 0x80) data
     else if p \<le> 0xbf then
       (let n = p - 0xb7 in
        if length data < n then Inl (OtherErr ''rlp: truncated long-string length'')
        else take_string ''rlp: truncated long string'' (length_value (take n data)) (drop n data))
     else Inl (OtherErr ''rlp: unsupported item prefix''))"

lemma decode_one_shrinks: "rlp_decode_one_string data = Inr (item, rest) \<Longrightarrow> length rest < length data"
  by (cases data) (auto simp: Let_def take_string_def split: if_splits)

function rlp_decode_items :: "string \<Rightarrow> err + string list" where
  "rlp_decode_items payload = (if payload = [] then Inr []
     else case rlp_decode_one_string payload of
       Inl e \<Rightarrow> Inl e
     | Inr (item, rest) \<Rightarrow> (case rlp_decode_items rest of Inl e \<Rightarrow> Inl e | Inr items \<Rightarrow> Inr (item # items)))"
  by pat_completeness auto

termination
  by (relation "measure length") (auto dest: decode_one_shrinks)

declare rlp_decode_items.simps [simp del]

fun rlp_decode_top_level_list :: "string \<Rightarrow> err + string list" where
  "rlp_decode_top_level_list [] = Inl (OtherErr ''rlp: empty input'')"
| "rlp_decode_top_level_list (c # data) = (let p = byte c in
     if p < 0xc0 then Inl (OtherErr ''rlp: not a list'')
     else if p \<le> 0xf7 then
       (if length data \<noteq> p - 0xc0 then Inl (OtherErr ''rlp: list length mismatch'') else rlp_decode_items data)
     else
       (let n = p - 0xf7 in
        if length data < n then Inl (OtherErr ''rlp: truncated long-list length'')
        else if int (length (drop n data)) \<noteq> length_value (take n data) then Inl (OtherErr ''rlp: list length mismatch'')
        else rlp_decode_items (drop n data)))"

section \<open>Transactions\<close>

definition keccak256 :: "externals \<Rightarrow> string \<Rightarrow> string" where
  "keccak256 e s = x_keccak e s"

record evm_tx =
  tx_chain_id :: "64 word"
  tx_nonce :: "64 word"
  tx_priority_fee :: int
  tx_max_fee :: int
  tx_gas_limit :: "64 word"
  tx_to :: string
  tx_value :: int
  tx_data :: string

definition evm_fields :: "evm_tx \<Rightarrow> string list" where
  "evm_fields p = [rlp_encode_uint (tx_chain_id p), rlp_encode_uint (tx_nonce p), rlp_encode_big_int (tx_priority_fee p),
     rlp_encode_big_int (tx_max_fee p), rlp_encode_uint (tx_gas_limit p), rlp_encode_bytes (tx_to p),
     rlp_encode_big_int (tx_value p), rlp_encode_bytes (tx_data p), rlp_encode_list []]"

definition encode_unsigned_evm_tx :: "evm_tx \<Rightarrow> string" where
  "encode_unsigned_evm_tx p = rlp_encode_list (evm_fields p)"

definition bytes_value :: "string \<Rightarrow> nat" where
  "bytes_value s = foldl (\<lambda>n c. n * 256 + byte c) 0 s"

text \<open>The raw transaction and its hash; \<open>SignCompact\<close> gives the recovery byte and two 32-byte numbers.\<close>

definition build_and_sign_evm_tx :: "externals \<Rightarrow> private_key \<Rightarrow> evm_tx \<Rightarrow> err + string \<times> string" where
  "build_and_sign_evm_tx e key p =
     (let hash = keccak256 e (CHR 0x02 # encode_unsigned_evm_tx p); sig = x_sign e key hash in
      if length sig \<noteq> 65 then Inl (OtherErr ''wallet: unexpected signature length'')
      else let parity = word_of_nat (byte (hd sig)) - 27;
             r = int (bytes_value (take 32 (drop 1 sig))); s = int (bytes_value (take 32 (drop 33 sig)));
             raw = CHR 0x02 # rlp_encode_list (evm_fields p @ [rlp_encode_uint parity, rlp_encode_big_int r, rlp_encode_big_int s])
        in Inr (raw, keccak256 e raw))"

definition erc20TransferSelector :: string where
  "erc20TransferSelector = [CHR 0xa9, CHR 0x05, CHR 0x9c, CHR 0xbb]"

text \<open>An amount of more than 32 bytes makes \<open>make\<close> panic.\<close>

definition build_erc20_transfer_data :: "string \<Rightarrow> int \<Rightarrow> string option" where
  "build_erc20_transfer_data to amount = (let b = nat_bytes (nat \<bar>amount\<bar>) in
     if 32 < length b then None
     else Some (erc20TransferSelector @ replicate 12 (CHR 0x00) @ to @ replicate (32 - length b) (CHR 0x00) @ b))"

section \<open>EIP-55\<close>

text \<open>Nibble \<open>i\<close> of the hash, the high one of a byte first.\<close>

definition nibble :: "string \<Rightarrow> nat \<Rightarrow> nat" where
  "nibble h i = (let b = byte (h ! (i div 2)) in if even i then b div 16 else b mod 16)"

definition eip55_checksum :: "externals \<Rightarrow> string \<Rightarrow> string" where
  "eip55_checksum e addr = (let lower = hex_encode addr; h = keccak256 e lower in
     ''0x'' @ map (\<lambda>i. let c = lower ! i in if is_digit c then c else if 8 \<le> nibble h i then upper_char c else c) [0..<length lower])"

fun hex_decode :: "string \<Rightarrow> string option" where
  "hex_decode [] = Some []"
| "hex_decode [c] = None"
| "hex_decode (c # d # s) = (case (hex_digit_value c, hex_digit_value d) of
       (Some a, Some b) \<Rightarrow> map_option (\<lambda>r. char_of (nat (a * 16 + b)) # r) (hex_decode s)
     | _ \<Rightarrow> None)"

definition trim_0x :: "string \<Rightarrow> string" where
  "trim_0x s = (case cut_prefix s ''0x'' of None \<Rightarrow> s | Some t \<Rightarrow> t)"

definition validate_evm_address :: "externals \<Rightarrow> string \<Rightarrow> err option" where
  "validate_evm_address e address = (let h = trim_0x address in case hex_decode h of
       None \<Rightarrow> Some (OtherErr ''wallet: invalid evm address'')
     | Some d \<Rightarrow> if length d \<noteq> 20 then Some (OtherErr ''wallet: evm address is not 20 bytes'')
         else if h = to_lower h \<or> h = to_upper h then None
         else if eip55_checksum e d \<noteq> ''0x'' @ h then Some (OtherErr ''wallet: evm address has an invalid checksum'')
         else None)"

text \<open>\<open>hexAddressInto\<close> of the sweeper.\<close>

definition hex_address_into :: "string \<Rightarrow> err + string" where
  "hex_address_into address = (case hex_decode (trim_0x address) of
       None \<Rightarrow> Inl (OtherErr ''treasury: decode address'')
     | Some d \<Rightarrow> if length d \<noteq> 20 then Inl (OtherErr ''treasury: address is not 20 bytes'') else Inr d)"

section \<open>Decoding gives back what was encoded\<close>

lemma byte_of_nat [simp]: "byte (char_of n) = n mod 256"
  by (simp add: byte_def)

lemma big_endian_nat: "big_endian_minimal v = nat_bytes (unat v)"
proof (induction v rule: big_endian_minimal.induct)
  case (1 v)
  have "unat (drop_bit 8 v) = unat v div 256" by (simp only: unat_drop_bit_eq drop_bit_eq_div) (simp add: unat_div)
  moreover have "unat (take_bit 8 v) = unat v mod 256" by (simp only: unsigned_take_bit_eq take_bit_eq_mod) (simp add: unat_mod)
  ultimately show ?case
    using 1 by (simp add: big_endian_minimal.simps [of v] nat_bytes.simps [of "unat v"] unat_eq_zero)
qed

lemma bytes_value_append [simp]: "bytes_value (s @ [c]) = bytes_value s * 256 + byte c"
  by (simp add: bytes_value_def)

lemma bytes_value_nat_bytes [simp]: "bytes_value (nat_bytes n) = n"
proof (induction n rule: nat_bytes.induct)
  case (1 n)
  then show ?case by (cases "n = 0") (simp_all add: nat_bytes.simps [of n] nat_bytes.simps [of 0], simp_all add: bytes_value_def)
qed

lemma nat_bytes_inject [simp]: "nat_bytes m = nat_bytes n \<longleftrightarrow> m = n"
  by (metis bytes_value_nat_bytes)

lemma length_nat_bytes: "n < 256 ^ k \<Longrightarrow> length (nat_bytes n) \<le> k"
proof (induction k arbitrary: n)
  case 0
  then show ?case by (simp add: nat_bytes.simps)
next
  case (Suc k)
  then have "n div 256 < 256 ^ k" by (simp add: div_less_iff_less_mult mult.commute)
  with Suc.IH show ?case by (simp add: nat_bytes.simps [of n])
qed

lemma nat_bytes_eq_Nil [simp]: "nat_bytes n = [] \<longleftrightarrow> n = 0"
  by (simp add: nat_bytes.simps [of n])

lemma length_value_bytes: "bytes_value s < 2 ^ 63 \<Longrightarrow> length_value s = int (bytes_value s)"
proof (induction s rule: rev_induct)
  case Nil
  then show ?case by (simp add: length_value_def bytes_value_def)
next
  case (snoc c s)
  have "length_value (s @ [c]) = wrap64 (length_value s * 256 + int (byte c))" by (simp add: length_value_def)
  with snoc show ?case by (simp add: wrap64_id)
qed

text \<open>The code \<open>s\<close> of an item is read off the front of whatever follows it.\<close>

definition encodes :: "string \<Rightarrow> string \<Rightarrow> bool" where
  "encodes s b \<longleftrightarrow> s \<noteq> [] \<and> (\<forall>rest. rlp_decode_one_string (s @ rest) = Inr (b, rest))"

text \<open>A long length: its bytes, between one and eight, hold it.\<close>

lemma long_length:
  assumes "56 \<le> l" and "l < 2 ^ 63"
  obtains b where "rlp_encode_length l offset = char_of ((offset + 55 + length b) mod 256) # b" and "length_value b = int l"
    and "b \<noteq> []" and "length b \<le> 8"
proof
  let ?b = "nat_bytes l"
  have u: "unat (word_of_nat l :: 64 word) = l" using assms(2) by (simp add: unsigned_of_nat take_bit_nat_eq_self)
  show "rlp_encode_length l offset = char_of ((offset + 55 + length ?b) mod 256) # ?b"
    using assms(1) by (simp add: rlp_encode_length_def big_endian_nat u Let_def)
  show "length_value ?b = int l" using assms(2) by (simp add: length_value_bytes)
  show "?b \<noteq> []" using assms(1) by simp
  show "length ?b \<le> 8" using assms(2) by (intro length_nat_bytes) simp
qed

lemma encodes_bytes:
  assumes "length b < 2 ^ 63"
  shows "encodes (rlp_encode_bytes b) b"
proof -
  have small: "encodes (rlp_encode_bytes b) b" if "length b = 1" "byte (hd b) < 0x80"
    using that by (cases b) (auto simp: encodes_def rlp_encode_bytes_def)
  have short: "encodes (rlp_encode_length (length b) 0x80 @ b) b" if "length b < 56"
    using that by (simp add: encodes_def rlp_encode_length_def take_string_def Let_def)
  have long: "encodes (rlp_encode_length (length b) 0x80 @ b) b" if "\<not> length b < 56"
  proof -
    have "56 \<le> length b" using that by simp
    from long_length [OF this assms, where offset = "0x80"] obtain lb where lb: "rlp_encode_length (length b) 0x80 = char_of ((0x80 + 55 + length lb) mod 256) # lb"
      "length_value lb = int (length b)" "lb \<noteq> []" "length lb \<le> 8" by blast
    then show ?thesis by (simp add: encodes_def take_string_def Let_def)
  qed
  show ?thesis
  proof (cases "length b = 1 \<and> byte (hd b) < 0x80")
    case True
    with small show ?thesis by blast
  next
    case False
    then have "rlp_encode_bytes b = rlp_encode_length (length b) 0x80 @ b" unfolding rlp_encode_bytes_def by (rule if_not_P)
    with short long show ?thesis by (cases "length b < 56") simp_all
  qed
qed

lemma encodes_empty_list: "encodes (rlp_encode_list []) []"
  by (simp add: encodes_def rlp_encode_list_def rlp_encode_length_def)

lemma decode_items: "list_all2 encodes ss bs \<Longrightarrow> rlp_decode_items (concat ss) = Inr bs"
proof (induction ss bs rule: list_all2_induct)
  case Nil
  then show ?case by (simp add: rlp_decode_items.simps)
next
  case (Cons s ss b bs)
  then show ?case by (simp add: encodes_def rlp_decode_items.simps [of "s @ concat ss"])
qed

lemma decode_list:
  assumes "list_all2 encodes ss bs" and "length (concat ss) < 2 ^ 63"
  shows "rlp_decode_top_level_list (rlp_encode_list ss) = Inr bs"
proof (cases "length (concat ss) < 56")
  case True
  with decode_items [OF assms(1)] show ?thesis by (simp add: rlp_encode_list_def rlp_encode_length_def Let_def)
next
  case False
  then have "56 \<le> length (concat ss)" by simp
  from long_length [OF this assms(2), where offset = "0xc0"] obtain lb
    where lb: "rlp_encode_length (length (concat ss)) 0xc0 = char_of ((0xc0 + 55 + length lb) mod 256) # lb"
      "length_value lb = int (length (concat ss))" "lb \<noteq> []" "length lb \<le> 8" by blast
  with decode_items [OF assms(1)] show ?thesis by (simp add: rlp_encode_list_def Let_def)
qed

section \<open>Transactions\<close>

text \<open>What the fields of a transaction are, as byte strings; the last is the empty access list.\<close>

definition field_bytes :: "evm_tx \<Rightarrow> string list" where
  "field_bytes p = [nat_bytes (unat (tx_chain_id p)), nat_bytes (unat (tx_nonce p)), nat_bytes (nat \<bar>tx_priority_fee p\<bar>),
     nat_bytes (nat \<bar>tx_max_fee p\<bar>), nat_bytes (unat (tx_gas_limit p)), tx_to p, nat_bytes (nat \<bar>tx_value p\<bar>), tx_data p, []]"

lemma big_int_bytes: "rlp_encode_big_int v = rlp_encode_bytes (nat_bytes (nat \<bar>v\<bar>))"
  by (simp add: rlp_encode_big_int_def nat_bytes.simps [of 0])

lemma evm_fields_encode:
  assumes "length (concat (evm_fields p)) < 2 ^ 63"
  shows "list_all2 encodes (evm_fields p) (field_bytes p)"
proof -
  have item: "encodes (rlp_encode_bytes b) b" if "rlp_encode_bytes b \<in> set (evm_fields p)" for b
  proof (rule encodes_bytes)
    have "length b \<le> length (rlp_encode_bytes b)" by (simp add: rlp_encode_bytes_def)
    also have "\<dots> \<le> length (concat (evm_fields p))"
      unfolding length_concat using that by (intro member_le_sum_list) auto
    also note assms
    finally show "length b < 2 ^ 63" .
  qed
  show ?thesis
    using item unfolding evm_fields_def field_bytes_def rlp_encode_uint_def big_endian_nat big_int_bytes
    by (simp add: encodes_empty_list)
qed

text \<open>
  C33. The decoder reads the encoding of a transaction back as its fields (each number as its minimal
  big-endian bytes), for every transaction that fits a slice.
\<close>

theorem evm_tx_roundtrip:
  assumes "length (concat (evm_fields p)) < 2 ^ 63"
  shows "rlp_decode_top_level_list (encode_unsigned_evm_tx p) = Inr (field_bytes p)"
  unfolding encode_unsigned_evm_tx_def by (rule decode_list [OF evm_fields_encode [OF assms] assms])

definition sample_tx :: evm_tx where
  "sample_tx = \<lparr>tx_chain_id = 1, tx_nonce = 300, tx_priority_fee = 5, tx_max_fee = 5, tx_gas_limit = 21000,
     tx_to = replicate 20 (CHR 0x11), tx_value = 10 ^ 18, tx_data = ''''\<rparr>"

lemma length_rlp_bytes: "length b < 56 \<Longrightarrow> length (rlp_encode_bytes b) \<le> 57"
  by (simp add: rlp_encode_bytes_def rlp_encode_length_def)

theorem evm_tx_roundtrip_witness:
  "rlp_decode_top_level_list (encode_unsigned_evm_tx sample_tx) = Inr (field_bytes sample_tx)"
proof (rule evm_tx_roundtrip)
  have "length (nat_bytes n) < 56" if "n < 256 ^ 8" for n using length_nat_bytes [OF that] by simp
  then have "length (rlp_encode_bytes (nat_bytes n)) \<le> 57" if "n < 256 ^ 8" for n using length_rlp_bytes that by blast
  note bound = this
  have "length (rlp_encode_bytes (replicate 20 (CHR 0x11))) \<le> 57" by (rule length_rlp_bytes) simp
  moreover have "length (rlp_encode_bytes []) \<le> 57" by (rule length_rlp_bytes) simp
  moreover have "length (rlp_encode_list []) \<le> 57" by (simp add: rlp_encode_list_def rlp_encode_length_def)
  ultimately have "length (concat (evm_fields sample_tx)) \<le> 9 * 57"
    using bound [of 1] bound [of 300] bound [of 5] bound [of 21000] bound [of "10 ^ 18"]
    unfolding evm_fields_def sample_tx_def rlp_encode_uint_def big_endian_nat big_int_bytes evm_tx.select_convs
      concat.simps length_append list.size by simp
  then show "length (concat (evm_fields sample_tx)) < 2 ^ 63" by simp
qed

text \<open>The payload that is signed determines the transaction.\<close>

lemma signing_payload_inject:
  assumes "encode_unsigned_evm_tx p = encode_unsigned_evm_tx q"
    and "length (concat (evm_fields p)) < 2 ^ 63" and "length (concat (evm_fields q)) < 2 ^ 63"
    and "\<And>t. t \<in> {p, q} \<Longrightarrow> 0 \<le> tx_priority_fee t \<and> 0 \<le> tx_max_fee t \<and> 0 \<le> tx_value t"
  shows "p = q"
proof -
  have "field_bytes p = field_bytes q"
    using evm_tx_roundtrip [OF assms(2)] evm_tx_roundtrip [OF assms(3)] assms(1) by simp
  then have e: "unat (tx_chain_id p) = unat (tx_chain_id q)" "unat (tx_nonce p) = unat (tx_nonce q)"
    "nat \<bar>tx_priority_fee p\<bar> = nat \<bar>tx_priority_fee q\<bar>" "nat \<bar>tx_max_fee p\<bar> = nat \<bar>tx_max_fee q\<bar>"
    "unat (tx_gas_limit p) = unat (tx_gas_limit q)" "tx_to p = tx_to q" "nat \<bar>tx_value p\<bar> = nat \<bar>tx_value q\<bar>" "tx_data p = tx_data q"
    by (simp_all add: field_bytes_def)
  have "0 \<le> tx_priority_fee t" "0 \<le> tx_max_fee t" "0 \<le> tx_value t" if "t \<in> {p, q}" for t using assms(4) that by blast+
  with e(3,4,7) have "tx_priority_fee p = tx_priority_fee q" "tx_max_fee p = tx_max_fee q" "tx_value p = tx_value q"
    by (simp_all add: eq_nat_nat_iff)
  with e show ?thesis by (intro evm_tx.equality) (simp_all add: word_unat_eq_iff)
qed

lemma erc20_call_data:
  assumes "length to = 20" and "0 \<le> amount" and "amount < 2 ^ 256"
  shows "\<exists>d. build_erc20_transfer_data to amount = Some d \<and> length d = 68 \<and> take 4 d = erc20TransferSelector \<and>
    take 20 (drop 16 d) = to \<and> bytes_value (drop 36 d) = nat amount"
proof -
  let ?b = "nat_bytes (nat \<bar>amount\<bar>)"
  have "nat amount < 256 ^ 32" using assms(2,3) by (simp add: nat_less_iff)
  then have l: "length ?b \<le> 32" using assms(2) length_nat_bytes [of "nat amount" 32] by simp
  have zeros: "foldl (\<lambda>n c. n * 256 + byte c) 0 (replicate k (CHR 0x00)) = 0" for k
    by (induction k) (simp_all add: byte_def)
  have "bytes_value (replicate k (CHR 0x00) @ s) = bytes_value s" for k s
    by (simp add: bytes_value_def zeros)
  then show ?thesis using assms l by (simp add: build_erc20_transfer_data_def Let_def erc20TransferSelector_def)
qed

end
