(* ===== verification/Chains.thy ===== *)
theory Chains
  imports EvmTx
begin

text \<open>
  What the engine asks the block explorers and nodes (\<^verbatim>\<open>internal/treasury/watcher.go\<close>, and the
  broadcasting functions of \<^verbatim>\<open>internal/treasury/wallet\<close>): the incoming transactions of an address,
  the height of the chain, unspent outputs, nonces, gas prices and balances, and sending a signed
  transaction. A request is a constructor of \<open>chain_request\<close>; the reply, a status and a body, is
  \<open>x_chain\<close>'s, and everything after it (the status check, decoding the JSON into the structs of the
  code, parsing the numbers) is modelled.
\<close>

section \<open>Replies\<close>

definition ask_chain :: "chain_request \<Rightarrow> http_reply run" where
  "ask_chain req = ask (CallChain req) (\<lambda>e log. x_chain e log req)"

text \<open>The body of a reply with status 200; and the body whatever the status, where the code does not look at it.\<close>

definition ok_body :: "string \<Rightarrow> http_reply \<Rightarrow> err + string" where
  "ok_body what r = (case r of NoReply _ \<Rightarrow> Inl (OtherErr what) | Reply status body \<Rightarrow> if status = 200 then Inr body else Inl (OtherErr what))"

definition any_body :: "string \<Rightarrow> http_reply \<Rightarrow> err + string" where
  "any_body what r = (case r of NoReply _ \<Rightarrow> Inl (OtherErr what) | Reply status body \<Rightarrow> Inr body)"

definition parsed :: "string \<Rightarrow> 'a option \<Rightarrow> ('s, 'a) op" where
  "parsed what r = (case r of None \<Rightarrow> fail (OtherErr what) | Some x \<Rightarrow> ret x)"

text \<open>A decimal with an exponent, \<open>decimal.New\<close> and \<open>Shift\<close>, and its truncation \<open>BigInt\<close>.\<close>

definition shift10 :: "int \<Rightarrow> rat \<Rightarrow> rat" where
  "shift10 n x = (if 0 \<le> n then x * 10 ^ nat n else x / 10 ^ nat (- n))"

definition trunc_int :: "rat \<Rightarrow> int" where
  "trunc_int x = (if x < 0 then \<lceil>x\<rceil> else \<lfloor>x\<rfloor>)"

definition wrap32 :: "int \<Rightarrow> int" where
  "wrap32 i = (i + 2 ^ 31) mod 2 ^ 32 - 2 ^ 31"

record chain_tx =
  ct_id :: string
  ct_asset :: string
  ct_amount :: rat
  ct_confirmed :: bool
  ct_height :: int
  ct_rbf :: bool

text \<open>The loop over what an explorer reports: skip, take, or give up with an error.\<close>

fun collect :: "('a \<Rightarrow> err + 'b option) \<Rightarrow> 'a list \<Rightarrow> err + 'b list" where
  "collect f [] = Inr []"
| "collect f (x # xs) = (case f x of
       Inl e \<Rightarrow> Inl e
     | Inr None \<Rightarrow> collect f xs
     | Inr (Some y) \<Rightarrow> (case collect f xs of Inl e \<Rightarrow> Inl e | Inr ys \<Rightarrow> Inr (y # ys)))"

lemma collect_mem: "collect f xs = Inr ys \<Longrightarrow> y \<in> set ys \<Longrightarrow> \<exists>x \<in> set xs. f x = Inr (Some y)"
  by (induction xs arbitrary: ys) (auto split: sum.splits option.splits)

section \<open>Bitcoin: an Esplora API\<close>

record blockstream_tx =
  bx_id :: string
  bx_confirmed :: bool
  bx_height :: int
  bx_sequences :: "int list"
  bx_outs :: "(string \<times> int) list"

definition decode_out :: "(string \<times> json) list \<Rightarrow> (string \<times> int) option" where
  "decode_out v = (case (str_field v ''scriptpubkey_address'', int_field v ''value'') of
     (Some a, Some n) \<Rightarrow> Some (a, n) | _ \<Rightarrow> None)"

definition decode_blockstream_tx :: "(string \<times> json) list \<Rightarrow> blockstream_tx option" where
  "decode_blockstream_tx kvs = (case (str_field kvs ''txid'', obj_field kvs ''status'', objs_field kvs ''vin'', objs_field kvs ''vout'') of
       (Some i, Some st, Some vin, Some vout) \<Rightarrow>
         (case (bool_field st ''confirmed'', int_field st ''block_height'', those (map (\<lambda>v. uint32_field v ''sequence'') vin),
                those (map decode_out vout)) of
            (Some c, Some h, Some ss, Some os) \<Rightarrow>
              Some \<lparr>bx_id = i, bx_confirmed = c, bx_height = h, bx_sequences = ss, bx_outs = os\<rparr>
          | _ \<Rightarrow> None)
     | _ \<Rightarrow> None)"

definition is_rbf_enabled :: "blockstream_tx \<Rightarrow> bool" where
  "is_rbf_enabled tx \<longleftrightarrow> list_ex (\<lambda>s. s < 0xfffffffe) (bx_sequences tx)"

definition paid_to :: "string \<Rightarrow> blockstream_tx \<Rightarrow> int" where
  "paid_to address tx = fold (\<lambda>(a, n) total. if a = address then wrap64 (total + n) else total) (bx_outs tx) 0"

definition esplora_get :: "chain_request \<Rightarrow> string run" where
  "esplora_get req = bindE (ask_chain req) (\<lambda>r. lift_sum (ok_body ''treasury: call blockstream'' r))"

definition blockstream_incoming :: "string \<Rightarrow> chain_tx list run" where
  "blockstream_incoming address = bindE (esplora_get (EsploraTxs address)) (\<lambda>body. bindE (gets env) (\<lambda>e.
     bindE (parsed ''treasury: parse blockstream response''
       (case struct_list (x_json e body) of None \<Rightarrow> None | Some xs \<Rightarrow> those (map decode_blockstream_tx xs))) (\<lambda>txs.
       lift_sum (collect (\<lambda>tx. let total = paid_to address tx in
         if total = 0 then Inr None
         else Inr (Some \<lparr>ct_id = bx_id tx, ct_asset = ''BTC'', ct_amount = shift10 (- 8) (of_int total),
           ct_confirmed = bx_confirmed tx, ct_height = bx_height tx, ct_rbf = is_rbf_enabled tx\<rparr>)) txs))))"

definition decode_utxo :: "(string \<times> json) list \<Rightarrow> (bool \<times> string \<times> nat \<times> int) option" where
  "decode_utxo kvs = (case (str_field kvs ''txid'', uint32_field kvs ''vout'', int_field kvs ''value'', obj_field kvs ''status'') of
       (Some i, Some v, Some n, Some st) \<Rightarrow> map_option (\<lambda>c. (c, i, nat v, n)) (bool_field st ''confirmed'')
     | _ \<Rightarrow> None)"

definition list_utxos :: "string \<Rightarrow> (string \<times> nat \<times> int) list run" where
  "list_utxos address = bindE (esplora_get (EsploraUtxos address)) (\<lambda>body. bindE (gets env) (\<lambda>e.
     bindE (parsed ''treasury: parse blockstream utxo response''
       (case struct_list (x_json e body) of None \<Rightarrow> None | Some xs \<Rightarrow> those (map decode_utxo xs))) (\<lambda>us.
       ret (map snd (filter fst us)))))"

definition blockstream_tip :: "int run" where
  "blockstream_tip = bindE (esplora_get EsploraTip) (\<lambda>body.
     parsed ''treasury: parse blockstream tip height'' (parse_int64 10 (trim_space body)))"

section \<open>Ethereum and BSC: the Etherscan API\<close>

definition etherscan_chain_id :: "string \<Rightarrow> 64 word" where
  "etherscan_chain_id c = (if c = Ethereum then 1 else if c = BSC then 56 else 0)"

definition usdt_contract_address :: "string \<Rightarrow> string option" where
  "usdt_contract_address c = (if c = Ethereum then Some ''0xdAC17F958D2ee523a2206206994597C13D831ec7''
     else if c = BSC then Some ''0x55d398326f99059fF775485246999027B3197955''
     else if c = Tron then Some ''TR7NHqjeKQxGTCi8q8ZY4pL8otSzgjLj6t'' else None)"

text \<open>\<open>getJSON\<close> into a struct: the bindings of the document.\<close>

definition get_json :: "chain_request \<Rightarrow> (string \<times> json) list run" where
  "get_json req = bindE (ask_chain req) (\<lambda>r. bindE (lift_sum (ok_body ''treasury: call etherscan'' r)) (\<lambda>body.
     bindE (gets env) (\<lambda>e. parsed ''treasury: parse etherscan response'' (struct_fields (x_json e body)))))"

record scan_tx =
  sx_hash :: string
  sx_to :: string
  sx_value :: string
  sx_block :: string

definition decode_scan_tx :: "(string \<times> json) list \<Rightarrow> scan_tx option" where
  "decode_scan_tx kvs = (case (str_field kvs ''hash'', str_field kvs ''to'', str_field kvs ''value'', str_field kvs ''blocknumber'') of
       (Some h, Some t, Some v, Some b) \<Rightarrow> Some \<lparr>sx_hash = h, sx_to = t, sx_value = v, sx_block = b\<rparr>
     | _ \<Rightarrow> None)"

definition decode_native_tx :: "(string \<times> json) list \<Rightarrow> (scan_tx \<times> string) option" where
  "decode_native_tx kvs = (case (decode_scan_tx kvs, str_field kvs ''iserror'') of
     (Some t, Some x) \<Rightarrow> Some (t, x) | _ \<Rightarrow> None)"

definition decode_token_tx :: "(string \<times> json) list \<Rightarrow> (scan_tx \<times> string \<times> string) option" where
  "decode_token_tx kvs = (case (decode_scan_tx kvs, str_field kvs ''contractaddress'', str_field kvs ''tokensymbol'', str_field kvs ''tokendecimal'') of
     (Some t, Some _, Some s, Some d) \<Rightarrow> Some (t, s, d) | _ \<Rightarrow> None)"

definition decode_results :: "((string \<times> json) list \<Rightarrow> 'a option) \<Rightarrow> (string \<times> json) list \<Rightarrow> 'a list option" where
  "decode_results dec kvs = (case (str_field kvs ''status'', objs_field kvs ''result'') of
     (Some _, Some xs) \<Rightarrow> those (map dec xs) | _ \<Rightarrow> None)"

definition parse_wei_and_block :: "string \<Rightarrow> string \<Rightarrow> int \<Rightarrow> err + rat \<times> int" where
  "parse_wei_and_block v b decimals = (case parse_big 10 v of
       None \<Rightarrow> Inl (OtherErr ''treasury: parse value'')
     | Some raw \<Rightarrow> (case parse_int64 10 b of
         None \<Rightarrow> Inl (OtherErr ''treasury: parse block number'')
       | Some h \<Rightarrow> Inr (shift10 (wrap32 (- decimals)) (of_int raw), h)))"

definition scan_deposit :: "scan_tx \<Rightarrow> string \<Rightarrow> int \<Rightarrow> err + chain_tx option" where
  "scan_deposit t asset decimals = (case parse_wei_and_block (sx_value t) (sx_block t) decimals of
       Inl e \<Rightarrow> Inl e
     | Inr (a, h) \<Rightarrow> Inr (Some \<lparr>ct_id = sx_hash t, ct_asset = asset, ct_amount = a, ct_confirmed = True, ct_height = h, ct_rbf = False\<rparr>))"

definition native_deposit :: "string \<Rightarrow> string \<Rightarrow> scan_tx \<times> string \<Rightarrow> err + chain_tx option" where
  "native_deposit symbol address = (\<lambda>(t, is_error).
     if to_lower (sx_to t) \<noteq> to_lower address \<or> is_error \<noteq> ''0'' then Inr None else scan_deposit t symbol 18)"

definition token_deposit :: "string \<Rightarrow> scan_tx \<times> string \<times> string \<Rightarrow> err + chain_tx option" where
  "token_deposit address = (\<lambda>(t, symbol, decimals).
     if to_lower (sx_to t) \<noteq> to_lower address then Inr None
     else case parse_int64 10 decimals of
         None \<Rightarrow> Inl (OtherErr ''treasury: parse token decimals'')
       | Some d \<Rightarrow> scan_deposit t symbol (wrap32 d))"

definition etherscan_incoming :: "string \<Rightarrow> string \<Rightarrow> chain_tx list run" where
  "etherscan_incoming c address = bindE (get_json (ScanTxList c address)) (\<lambda>kvs.
     bindE (parsed ''treasury: parse etherscan response'' (decode_results decode_native_tx kvs)) (\<lambda>txs.
     bindE (lift_sum (collect (native_deposit (if c = BSC then ''BNB'' else ''ETH'') address) txs)) (\<lambda>native.
     case usdt_contract_address c of
       None \<Rightarrow> ret native
     | Some contract \<Rightarrow> bindE (get_json (ScanTokenTx c address contract)) (\<lambda>kvs'.
         bindE (parsed ''treasury: parse etherscan response'' (decode_results decode_token_tx kvs')) (\<lambda>toks.
         bindE (lift_sum (collect (token_deposit address) toks)) (\<lambda>tokens. ret (native @ tokens)))))))"

definition scan_result :: "chain_request \<Rightarrow> string run" where
  "scan_result req = bindE (get_json req) (\<lambda>kvs. parsed ''treasury: parse etherscan response'' (str_field kvs ''result''))"

definition nonce_at :: "string \<Rightarrow> string \<Rightarrow> 64 word run" where
  "nonce_at c address = bindE (scan_result (ScanNonce c address)) (\<lambda>s.
     parsed ''treasury: parse eth_getTransactionCount'' (map_option word_of_int (parse_uint64 16 (trim_0x s))))"

definition suggested_gas_price :: "string \<Rightarrow> rat run" where
  "suggested_gas_price c = bindE (scan_result (ScanGasPrice c)) (\<lambda>s.
     parsed ''treasury: parse eth_gasPrice'' (map_option of_int (parse_big 16 (trim_0x s))))"

definition etherscan_balance :: "string \<Rightarrow> string \<Rightarrow> rat run" where
  "etherscan_balance c address = bindE (scan_result (ScanBalance c address)) (\<lambda>s.
     parsed ''treasury: parse native balance'' (map_option (\<lambda>i. shift10 (- 18) (of_int i)) (parse_big 10 s)))"

definition etherscan_tip :: "string \<Rightarrow> int run" where
  "etherscan_tip c = bindE (scan_result (ScanTip c)) (\<lambda>s. parsed ''treasury: parse eth_blockNumber'' (parse_int64 16 (trim_0x s)))"

section \<open>Tron: the TronGrid API\<close>

record grid_tx =
  gx_id :: string
  gx_to :: string
  gx_value :: string
  gx_symbol :: string
  gx_decimals :: int

definition decode_grid_tx :: "(string \<times> json) list \<Rightarrow> grid_tx option" where
  "decode_grid_tx kvs = (case (str_field kvs ''transaction_id'', str_field kvs ''to'', str_field kvs ''value'',
       obj_field kvs ''token_info'', int_field kvs ''block_timestamp'') of
       (Some i, Some t, Some v, Some info, Some _) \<Rightarrow>
         (case (str_field info ''symbol'', int_field info ''decimals'') of
            (Some s, Some d) \<Rightarrow> Some \<lparr>gx_id = i, gx_to = t, gx_value = v, gx_symbol = s, gx_decimals = d\<rparr>
          | _ \<Rightarrow> None)
     | _ \<Rightarrow> None)"

definition decode_data :: "((string \<times> json) list \<Rightarrow> 'a option) \<Rightarrow> json option \<Rightarrow> 'a list option" where
  "decode_data dec j = (case struct_fields j of None \<Rightarrow> None | Some kvs \<Rightarrow>
     (case objs_field kvs ''data'' of None \<Rightarrow> None | Some xs \<Rightarrow> those (map dec xs)))"

definition trc20_deposit :: "string \<Rightarrow> grid_tx \<Rightarrow> err + chain_tx option" where
  "trc20_deposit address t = (if gx_to t \<noteq> address then Inr None
     else case parse_big 10 (gx_value t) of
         None \<Rightarrow> Inl (OtherErr ''treasury: parse trc20 value'')
       | Some raw \<Rightarrow> Inr (Some \<lparr>ct_id = gx_id t, ct_asset = gx_symbol t,
           ct_amount = shift10 (wrap32 (- wrap32 (gx_decimals t))) (of_int raw), ct_confirmed = True, ct_height = 0, ct_rbf = False\<rparr>))"

definition trongrid_incoming :: "string \<Rightarrow> chain_tx list run" where
  "trongrid_incoming address = bindE (ask_chain (GridTransfers address (the (usdt_contract_address Tron)))) (\<lambda>r.
     bindE (lift_sum (ok_body ''treasury: call trongrid'' r)) (\<lambda>body. bindE (gets env) (\<lambda>e.
       bindE (parsed ''treasury: parse trongrid response'' (decode_data decode_grid_tx (x_json e body))) (\<lambda>txs.
         lift_sum (collect (trc20_deposit address) txs)))))"

text \<open>Neither of the next two looks at the status of the reply.\<close>

definition trongrid_balance :: "string \<Rightarrow> rat run" where
  "trongrid_balance address = bindE (ask_chain (GridAccount address)) (\<lambda>r.
     bindE (lift_sum (any_body ''treasury: call trongrid account'' r)) (\<lambda>body. bindE (gets env) (\<lambda>e.
       bindE (parsed ''treasury: parse trongrid account response'' (decode_data (\<lambda>kvs. int_field kvs ''balance'') (x_json e body))) (\<lambda>bs.
         ret (case bs of [] \<Rightarrow> 0 | b # _ \<Rightarrow> shift10 (- 6) (of_int b))))))"

definition trongrid_tip :: "int run" where
  "trongrid_tip = bindE (ask_chain GridNowBlock) (\<lambda>r.
     bindE (lift_sum (any_body ''treasury: call trongrid getnowblock'' r)) (\<lambda>body. bindE (gets env) (\<lambda>e.
       parsed ''treasury: parse trongrid getnowblock response''
         (case struct_fields (x_json e body) of None \<Rightarrow> None | Some kvs \<Rightarrow>
           (case obj_field kvs ''block_header'' of None \<Rightarrow> None | Some h \<Rightarrow>
             (case obj_field h ''raw_data'' of None \<Rightarrow> None | Some d \<Rightarrow> int_field d ''number''))))))"

section \<open>The client of a chain\<close>

text \<open>\<open>NewWatcher\<close>: a chain that is not enabled, or not one of the four, has no client.\<close>

definition has_client :: "externals \<Rightarrow> string \<Rightarrow> bool" where
  "has_client e c \<longleftrightarrow> c \<in> {Bitcoin, Ethereum, BSC, Tron} \<and> ch_enabled (cfg_chain e c)"

definition list_incoming_transactions :: "string \<Rightarrow> string \<Rightarrow> chain_tx list run" where
  "list_incoming_transactions c address = (if c = Bitcoin then blockstream_incoming address
     else if c = Tron then trongrid_incoming address else etherscan_incoming c address)"

definition tip_height :: "string \<Rightarrow> int run" where
  "tip_height c = (if c = Bitcoin then blockstream_tip else if c = Tron then trongrid_tip else etherscan_tip c)"

section \<open>Sending\<close>

definition broadcast_btc_transaction :: "string \<Rightarrow> string run" where
  "broadcast_btc_transaction raw = bindE (ask_chain (EsploraBroadcast raw)) (\<lambda>r. lift_sum (ok_body ''wallet: broadcast rejected'' r))"

text \<open>The JSON-RPC reply: its status is not looked at, only an \<open>error\<close> object makes it a failure.\<close>

definition rpc_result :: "externals \<Rightarrow> string \<Rightarrow> err + string" where
  "rpc_result e body = (case struct_fields (x_json e body) of
       None \<Rightarrow> Inl (OtherErr ''wallet: parse rpc response'')
     | Some kvs \<Rightarrow> (case (str_field kvs ''result'', obj_ptr kvs ''error'') of
         (Some res, Some None) \<Rightarrow> Inr res
       | (Some res, Some (Some o')) \<Rightarrow> Inl (OtherErr (if str_field o' ''message'' = None then ''wallet: parse rpc response''
           else ''wallet: rpc rejected transaction''))
       | _ \<Rightarrow> Inl (OtherErr ''wallet: parse rpc response'')))"

definition broadcast_evm_transaction :: "string \<Rightarrow> string \<Rightarrow> string run" where
  "broadcast_evm_transaction c raw = bindE (ask_chain (ScanSendRaw c (''0x'' @ hex_encode raw))) (\<lambda>r.
     bindE (lift_sum (any_body ''wallet: broadcast evm transaction'' r)) (\<lambda>body. bindE (gets env) (\<lambda>e. lift_sum (rpc_result e body))))"

text \<open>
  The wallet's Tron client builds, signs and sends over gRPC: one call, answered with the id of the
  transaction or not at all.
\<close>

definition tron_send :: "chain_request \<Rightarrow> string run" where
  "tron_send req = bindE (ask_chain req) (\<lambda>r. lift_sum (ok_body ''wallet: broadcast tron transaction'' r))"

section \<open>Asking changes nothing but the log of the calls\<close>

definition log_view :: "(world \<Rightarrow> 'b) \<Rightarrow> bool" where
  "log_view f \<longleftrightarrow> (\<forall>w l. f (w\<lparr>ext_log := l\<rparr>) = f w)"

lemma log_view_tables [simp]:
  "log_view deposits" "log_view reservations" "log_view sweeps" "log_view env" "log_view seed" "log_view derived" "log_view outbox"
  by (simp_all add: log_view_def)

lemma frame_ask_chain [frame_rules]: "log_view f \<Longrightarrow> frame f (ask_chain req)"
  by (simp add: ask_chain_def log_view_def frame_ask)

lemma frame_parsed [frame_rules]: "frame f (parsed what r)"
  by (cases r) (auto simp: parsed_def intro: frame_rules)

lemma frame_queries [frame_rules]:
  assumes "log_view f"
  shows "frame f (esplora_get req)" "frame f (get_json req)" "frame f (scan_result req)" "frame f (tron_send req)"
    "frame f (broadcast_btc_transaction raw)" "frame f (broadcast_evm_transaction c raw)" "frame f (trongrid_balance address)"
    "frame f trongrid_tip"
  unfolding esplora_get_def get_json_def scan_result_def tron_send_def broadcast_btc_transaction_def
    broadcast_evm_transaction_def trongrid_balance_def trongrid_tip_def
  by (intro frame_rules assms)+

lemma frame_chain_queries [frame_rules]:
  assumes "log_view f"
  shows "frame f (list_utxos address)" "frame f (nonce_at c address)" "frame f (suggested_gas_price c)"
    "frame f (etherscan_balance c address)" "frame f (tip_height c)" "frame f (list_incoming_transactions c address)"
  unfolding list_utxos_def nonce_at_def suggested_gas_price_def etherscan_balance_def tip_height_def list_incoming_transactions_def
    blockstream_tip_def etherscan_tip_def blockstream_incoming_def etherscan_incoming_def trongrid_incoming_def
  by (intro frame_rules assms)+

section \<open>What the explorers report\<close>

text \<open>
  A TRC-20 transfer carries no height: it is reported confirmed, as if it were in block 0. And an error page
  of TronGrid that is a JSON object (whatever its status) reads as an empty account.
\<close>

lemma trc20_reported: "trc20_deposit address t = Inr (Some tx) \<Longrightarrow> ct_confirmed tx \<and> ct_height tx = 0 \<and> gx_to t = address"
  by (auto simp: trc20_deposit_def split: if_splits option.splits)

lemma error_page_is_empty_account:
  assumes "x_chain (env w) (ext_log w) (GridAccount address) = Reply status body"
    and "x_json (env w) body = Some (JObj kvs)" and "vals_at kvs ''data'' = []"
  shows "fst (trongrid_balance address w) = Inr 0"
  using assms by (simp add: trongrid_balance_def ask_chain_def ask_def bindE_def any_body_def gets_def parsed_def decode_data_def
      objs_field_def ret_def lift_sum_def)

text \<open>
  Any JSON object with a text for \<open>result\<close> and no \<open>error\<close> is taken for an accepted transaction, an
  error reply of the explorer's included.
\<close>

lemma explorer_error_accepted:
  assumes "x_chain (env w) (ext_log w) (ScanSendRaw c (''0x'' @ hex_encode raw)) = Reply status body"
    and "x_json (env w) body = Some (JObj [(''status'', JStr ''0''), (''message'', JStr ''NOTOK''), (''result'', JStr why)])"
  shows "fst (broadcast_evm_transaction c raw w) = Inr why"
proof -
  have "rpc_result (env w) body = Inr why"
    using assms(2) by (simp add: rpc_result_def str_field_def str_lax_def obj_ptr_def vals_at_def to_lower_def lower_char_def byte_def)
  then show ?thesis
    using assms(1) by (simp add: broadcast_evm_transaction_def ask_chain_def ask_def bindE_def any_body_def gets_def ret_def lift_sum_def)
qed

lemma log_view_rest [simp]: "log_view (\<lambda>w. w\<lparr>ext_log := []\<rparr>)"
  by (simp add: log_view_def)

lemma wp_log_only:
  assumes "frame (\<lambda>w. w\<lparr>ext_log := []\<rparr>) m" and "\<And>r l. Q r (w\<lparr>ext_log := l\<rparr>)"
  shows "wp m Q w"
proof (rule wpI)
  fix r w' assume run: "m w = (r, w')"
  have "w' = (w'\<lparr>ext_log := []\<rparr>)\<lparr>ext_log := ext_log w'\<rparr>" by simp
  also have "\<dots> = w\<lparr>ext_log := ext_log w'\<rparr>" using frame_eq [OF assms(1) run] by simp
  finally have "w' = w\<lparr>ext_log := ext_log w'\<rparr>" .
  then show "Q r w'" using assms(2) by metis
qed

end
