(* ===== verification/Sweep.thy ===== *)
theory Sweep
  imports Chains Treasury
begin

text \<open>
  Moving confirmed deposits out of the addresses the engine holds the keys of
  (\<^verbatim>\<open>internal/treasury/sweep.go\<close>): the key of an address, the transaction of each chain, topping an
  address up with gas before a token moves, the sweep and deposit rows, and the batch of the stable
  assets. A private key is the mnemonic and the path it is derived on; a transfer is signed with
  \<open>x_sign\<close> and \<open>x_btc_tx\<close>, and its sender is the address of the key.
\<close>

section \<open>Keys\<close>

definition derive_private_key_at_account :: "string \<Rightarrow> string \<Rightarrow> 32 word \<Rightarrow> 32 word \<Rightarrow> err + private_key" where
  "derive_private_key_at_account sd c account index = (case derivation_path c account index of
     None \<Rightarrow> Inl unsupported_chain | Some path \<Rightarrow> Inr (sd, path))"

definition derive_private_key :: "string \<Rightarrow> string \<Rightarrow> 32 word \<Rightarrow> err + private_key" where
  "derive_private_key sd c index = derive_private_key_at_account sd c depositAccount index"

definition derive_gas_funding_private_key :: "string \<Rightarrow> string \<Rightarrow> err + private_key" where
  "derive_gas_funding_private_key sd c = derive_private_key_at_account sd c gasFundingAccount 0"

definition derive_address_from_key :: "externals \<Rightarrow> private_key \<Rightarrow> string \<Rightarrow> err + string" where
  "derive_address_from_key e key c = (case address_format c of
     None \<Rightarrow> Inl unsupported_chain | Some fmt \<Rightarrow> Inr (x_key_address e key fmt))"

section \<open>Assets and amounts\<close>

definition is_stable_asset :: "string \<Rightarrow> bool" where
  "is_stable_asset asset \<longleftrightarrow> has_prefix (to_upper asset) ''USDT''"

definition gas_top_up_amount :: "string \<Rightarrow> rat" where
  "gas_top_up_amount c = (if c = Ethereum then 5 / 1000 else if c = BSC then 1 / 100 else if c = Tron then 20 else 0)"

abbreviation ErrNoSweepDestination :: err where
  "ErrNoSweepDestination \<equiv> Sentinel ''treasury: no sweep destination configured for this chain/asset''"
abbreviation errSweepDeferredForGas :: err where
  "errSweepDeferredForGas \<equiv> Sentinel ''treasury: gas top-up sent, sweep deferred to next cycle''"

section \<open>The transaction of each chain\<close>

definition total_sats :: "(string \<times> nat \<times> int) list \<Rightarrow> int" where
  "total_sats us = fold (\<lambda>(_, _, n) t. wrap64 (t + n)) us 0"

definition build_and_sign_btc_sweep :: "externals \<Rightarrow> private_key \<Rightarrow> (string \<times> nat \<times> int) list \<Rightarrow> string \<Rightarrow> int \<Rightarrow> err + string" where
  "build_and_sign_btc_sweep e key us dest fee =
     (let send = wrap64 (total_sats us - fee) in
      if us = [] then Inl (OtherErr ''wallet: no utxos to sweep'')
      else if send \<le> 0 then Inl (OtherErr ''wallet: utxo total insufficient to cover fee'')
      else x_btc_tx e key us dest send)"

definition sweep_btc :: "private_key \<Rightarrow> string \<Rightarrow> string \<Rightarrow> string run" where
  "sweep_btc key address dest = bindE (gets env) (\<lambda>e.
     if \<not> ch_enabled (cfg_chain e Bitcoin) then fail (OtherErr ''treasury: bitcoin watcher not configured'')
     else bindE (list_utxos address) (\<lambda>us.
       if us = [] then fail (OtherErr ''treasury: no confirmed utxos'')
       else bindE (lift_sum (build_and_sign_btc_sweep e key us dest 2000)) broadcast_btc_transaction))"

text \<open>
  The two EVM transfers share all but the destination and the call: the nonce of the sender, the gas
  price for both fees, and the signature. A token amount that does not fit 32 bytes panics.
\<close>

definition evm_transfer :: "string \<Rightarrow> private_key \<Rightarrow> string \<Rightarrow> (string \<Rightarrow> err + evm_tx) \<Rightarrow> string run" where
  "evm_transfer c key to_address call = bindE (gets env) (\<lambda>e.
     bindE (lift_sum (derive_address_from_key e key c)) (\<lambda>from.
     bindE (nonce_at c from) (\<lambda>nonce.
     bindE (suggested_gas_price c) (\<lambda>price.
     bindE (lift_sum (hex_address_into to_address)) (\<lambda>to.
     bindE (lift_sum (call to)) (\<lambda>p.
     bindE (lift_sum (build_and_sign_evm_tx e key (p\<lparr>tx_chain_id := etherscan_chain_id c, tx_nonce := nonce,
         tx_priority_fee := trunc_int price, tx_max_fee := trunc_int price\<rparr>))) (\<lambda>(raw, _).
       broadcast_evm_transaction c raw)))))))"

definition broadcast_evm_native_transfer :: "string \<Rightarrow> private_key \<Rightarrow> string \<Rightarrow> rat \<Rightarrow> string run" where
  "broadcast_evm_native_transfer c key to_address amount = evm_transfer c key to_address (\<lambda>to.
     Inr \<lparr>tx_chain_id = 0, tx_nonce = 0, tx_priority_fee = 0, tx_max_fee = 0, tx_gas_limit = 21000, tx_to = to,
       tx_value = trunc_int (shift10 18 amount), tx_data = ''''\<rparr>)"

definition broadcast_evm_token_transfer :: "string \<Rightarrow> private_key \<Rightarrow> string \<Rightarrow> rat \<Rightarrow> string run" where
  "broadcast_evm_token_transfer c key to_address amount = evm_transfer c key to_address (\<lambda>to.
     case usdt_contract_address c of
       None \<Rightarrow> Inl (OtherErr ''treasury: no usdt contract configured'')
     | Some contract \<Rightarrow> (case hex_address_into contract of
         Inl e \<Rightarrow> Inl e
       | Inr contract_addr \<Rightarrow> (case build_erc20_transfer_data to (trunc_int (shift10 6 amount)) of
           None \<Rightarrow> Inl (OtherErr ''panic: makeslice: len out of range'')
         | Some data \<Rightarrow> Inr \<lparr>tx_chain_id = 0, tx_nonce = 0, tx_priority_fee = 0, tx_max_fee = 0, tx_gas_limit = 80000,
             tx_to = contract_addr, tx_value = 0, tx_data = data\<rparr>)))"

definition top_up_gas_evm :: "string \<Rightarrow> string \<Rightarrow> string \<Rightarrow> rat \<Rightarrow> unit run" where
  "top_up_gas_evm sd c to_address amount = bindE (lift_sum (derive_gas_funding_private_key sd c)) (\<lambda>key.
     thenE (broadcast_evm_native_transfer c key to_address amount) (ret ()))"

definition sweep_evm :: "string \<Rightarrow> string \<Rightarrow> private_key \<Rightarrow> string \<Rightarrow> string \<Rightarrow> rat \<Rightarrow> string \<Rightarrow> string run" where
  "sweep_evm sd c key address asset amount dest = bindE (gets env) (\<lambda>e.
     if \<not> ch_enabled (cfg_chain e c) then fail (OtherErr ''treasury: watcher not configured'')
     else if is_stable_asset asset then
       bindE (etherscan_balance c address) (\<lambda>balance.
         if balance < gas_top_up_amount c then
           thenE (onErr (top_up_gas_evm sd c address (gas_top_up_amount c - balance)) (\<lambda>_. fail (OtherErr ''treasury: gas top-up'')))
             (fail errSweepDeferredForGas)
         else broadcast_evm_token_transfer c key dest amount)
     else broadcast_evm_native_transfer c key dest amount)"

text \<open>\<open>SweepTRX\<close> and \<open>SweepTRC20\<close> of the Tron client.\<close>

definition sweep_trx :: "private_key \<Rightarrow> string \<Rightarrow> int \<Rightarrow> string run" where
  "sweep_trx key dest sun = bindE (gets env) (\<lambda>e. tron_send (TronTransfer (x_key_address e key ''tron'') dest sun))"

definition sweep_trc20 :: "private_key \<Rightarrow> string \<Rightarrow> string \<Rightarrow> int \<Rightarrow> int \<Rightarrow> string run" where
  "sweep_trc20 key dest contract amount fee_limit = bindE (gets env) (\<lambda>e.
     tron_send (TronTokenTransfer (x_key_address e key ''tron'') dest contract amount fee_limit))"

definition sweep_tron :: "string \<Rightarrow> private_key \<Rightarrow> string \<Rightarrow> string \<Rightarrow> rat \<Rightarrow> string \<Rightarrow> string run" where
  "sweep_tron sd key address asset amount dest = bindE (gets env) (\<lambda>e.
     if \<not> (cfg_tron_node e \<and> ch_enabled (cfg_chain e Tron)) then fail (OtherErr ''treasury: tron watcher/client not configured'')
     else if is_stable_asset asset then
       bindE (trongrid_balance address) (\<lambda>balance.
         if balance < gas_top_up_amount Tron then
           bindE (lift_sum (derive_gas_funding_private_key sd Tron)) (\<lambda>gas_key.
             thenE (onErr (sweep_trx gas_key address (wrap64 (trunc_int (shift10 6 (gas_top_up_amount Tron - balance)))))
                 (\<lambda>_. fail (OtherErr ''treasury: gas top-up'')))
               (fail errSweepDeferredForGas))
         else sweep_trc20 key dest (the (usdt_contract_address Tron)) (trunc_int (shift10 6 amount)) 100000000)
     else sweep_trx key dest (wrap64 (trunc_int (shift10 6 amount))))"

section \<open>The rows\<close>

definition unswept :: "deposit \<Rightarrow> bool" where
  "unswept d \<longleftrightarrow> dp_status d = ''confirmed'' \<and> dp_swept_at d = None"

definition get_sweepable_deposits :: "uuid \<Rightarrow> (uuid list \<times> rat) run" where
  "get_sweepable_deposits rid = query (\<lambda>w. let ds = filter (\<lambda>d. dp_reservation d = rid \<and> unswept d) (deposits w) in
     (map dp_id ds, sum_list (map dp_amount ds)))"

definition mark_deposits_swept :: "uuid list \<Rightarrow> unit run" where
  "mark_deposits_swept ids = exec (\<lambda>w. w\<lparr>deposits := update_where (\<lambda>d. dp_id d \<in> set ids)
     (\<lambda>d. d\<lparr>dp_swept_at := Some (now w)\<rparr>) (deposits w)\<rparr>)"

definition get_sweep_destination :: "string \<Rightarrow> string \<Rightarrow> string run" where
  "get_sweep_destination network asset = bindE (query (\<lambda>w. map_of (sweep_destinations w) (network, asset)))
     (\<lambda>r. case r of None \<Rightarrow> fail ErrNoSweepDestination | Some a \<Rightarrow> ret a)"

definition set_sweep_destination :: "string \<Rightarrow> string \<Rightarrow> string \<Rightarrow> unit run" where
  "set_sweep_destination network asset address =
     exec (\<lambda>w. w\<lparr>sweep_destinations := AList.update (network, asset) address (sweep_destinations w)\<rparr>)"

definition persist_sweep :: "uuid \<Rightarrow> string \<Rightarrow> rat \<Rightarrow> string \<Rightarrow> uuid run" where
  "persist_sweep rid asset amount dest = stmt (case numeric_col 20 8 amount of
       None \<Rightarrow> fail (ConstraintErr ''treasury_sweeps'')
     | Some a \<Rightarrow> bindE gen_uuid (\<lambda>i. thenE (modify (\<lambda>w. w\<lparr>sweeps := sweeps w @
         [\<lparr>sw_id = i, sw_reservation = rid, sw_asset = asset, sw_amount = a, sw_destination = dest, sw_status = ''pending'',
           sw_tx = None\<rparr>]\<rparr>)) (ret i)))"

definition update_sweep_status :: "uuid \<Rightarrow> string \<Rightarrow> string \<Rightarrow> unit run" where
  "update_sweep_status i status tx = exec (\<lambda>w. w\<lparr>sweeps := update_where (\<lambda>s. sw_id s = i)
     (\<lambda>s. s\<lparr>sw_status := status, sw_tx := (if tx = '''' then None else Some tx)\<rparr>) (sweeps w)\<rparr>)"

definition find_derivation_index :: "string \<Rightarrow> string \<Rightarrow> nat run" where
  "find_derivation_index c address = bindE (query (\<lambda>w. find (\<lambda>(c', _, _, a). c' = c \<and> a = address) (derived w)))
     (\<lambda>r. case r of None \<Rightarrow> fail (OtherErr ''treasury: no derived_addresses row'') | Some (_, _, i, _) \<Rightarrow> ret i)"

section \<open>Sweeping a reservation\<close>

definition send_sweep :: "string \<Rightarrow> string \<Rightarrow> private_key \<Rightarrow> reservation \<Rightarrow> rat \<Rightarrow> string \<Rightarrow> string run" where
  "send_sweep sd c key r amount dest =
     (if c = Bitcoin then sweep_btc key (rv_address r) dest
      else if c = Ethereum \<or> c = BSC then sweep_evm sd c key (rv_address r) (rv_asset r) amount dest
      else if c = Tron then sweep_tron sd key (rv_address r) (rv_asset r) amount dest
      else fail (OtherErr ''treasury: sweep: unsupported chain''))"

definition finish_sweep :: "uuid \<Rightarrow> uuid list \<Rightarrow> err + string \<Rightarrow> unit run" where
  "finish_sweep sid ids tx = (case tx of
       Inl e \<Rightarrow> if e = errSweepDeferredForGas then thenE (attemptE (update_sweep_status sid ''pending'' '''')) (ret ())
         else thenE (attemptE (update_sweep_status sid ''failed'' '''')) (fail e)
     | Inr h \<Rightarrow> thenE (update_sweep_status sid ''broadcast'' h) (mark_deposits_swept ids))"

definition execute_sweep :: "uuid \<Rightarrow> unit run" where
  "execute_sweep rid = bindE (get_reservation rid) (\<lambda>r.
     if rv_custody r \<noteq> CustodyTypeSelf then fail (OtherErr ''treasury: sweep: reservation is not self-custody'')
     else bindE (gets seed) (\<lambda>s. case s of
         None \<Rightarrow> fail ErrHDWalletNotInitialized
       | Some sd \<Rightarrow> let c = fst (chain_for_network (rv_network r)) in
           bindE (get_sweepable_deposits rid) (\<lambda>(ids, amount).
             if ids = [] then ret ()
             else bindE (get_sweep_destination (rv_network r) (rv_asset r)) (\<lambda>dest.
               bindE (find_derivation_index c (rv_address r)) (\<lambda>index.
               bindE (lift_sum (derive_private_key sd c (of_nat index))) (\<lambda>key.
               bindE (persist_sweep rid (rv_asset r) amount dest) (\<lambda>sid.
               bindE (attemptE (send_sweep sd c key r amount dest)) (finish_sweep sid ids))))))))"

section \<open>The batch of the stable assets\<close>

definition stable_deposits :: "world \<Rightarrow> uuid \<Rightarrow> deposit list" where
  "stable_deposits w rid = filter (\<lambda>d. dp_reservation d = rid \<and> unswept d \<and> has_prefix (to_upper (dp_asset d)) ''USDT'') (deposits w)"

definition sweep_is_due :: "world \<Rightarrow> deposit list \<Rightarrow> bool" where
  "sweep_is_due w ds \<longleftrightarrow> ds \<noteq> [] \<and> (cfg_sweep_threshold (env w) \<le> sum_list (map dp_amount ds) \<or>
     list_ex (\<lambda>d. case dp_confirmed_at d of None \<Rightarrow> False | Some t \<Rightarrow> t \<le> now w - cfg_sweep_backstop (env w)) ds)"

definition list_stable_sweep_candidates :: "uuid list run" where
  "list_stable_sweep_candidates = query (\<lambda>w. map rv_id (filter (\<lambda>r. rv_custody r = CustodyTypeSelf \<and>
     sweep_is_due w (stable_deposits w (rv_id r))) (reservations w)))"

definition batch_sweep_once :: "unit run" where
  "batch_sweep_once = bindE (attemptE list_stable_sweep_candidates) (\<lambda>r. case r of
       Inl _ \<Rightarrow> ret ()
     | Inr ids \<Rightarrow> forE ids (\<lambda>i. thenE (attemptE (execute_sweep i)) (ret ())))"

section \<open>What a sweep changes\<close>

lemma frame_evm_transfer [frame_rules]: "log_view f \<Longrightarrow> frame f (evm_transfer c key to_address call)"
  unfolding evm_transfer_def by (intro frame_rules) simp_all

lemma frame_senders [frame_rules]:
  assumes "log_view f"
  shows "frame f (sweep_btc key address dest)" "frame f (sweep_evm sd c key address asset amount dest)"
    "frame f (sweep_tron sd key address asset amount dest)"
  unfolding sweep_btc_def sweep_evm_def sweep_tron_def top_up_gas_evm_def broadcast_evm_native_transfer_def
    broadcast_evm_token_transfer_def sweep_trx_def sweep_trc20_def
  by (intro frame_rules assms)+

lemma frame_send_sweep [frame_rules]: "log_view f \<Longrightarrow> frame f (send_sweep sd c key r amount dest)"
  unfolding send_sweep_def by (intro frame_rules)

text \<open>
  At most one new sweep row; deposits change only when it says the transaction was broadcast, and then
  exactly the confirmed, unswept deposits of a self-custody reservation are marked.
\<close>

definition swept :: "time \<Rightarrow> deposit \<Rightarrow> deposit" where
  "swept t = (\<lambda>d. d\<lparr>dp_swept_at := Some t\<rparr>)"

definition sweepable_ids :: "world \<Rightarrow> uuid \<Rightarrow> uuid list" where
  "sweepable_ids w rid = map dp_id (filter (\<lambda>d. dp_reservation d = rid \<and> unswept d) (deposits w))"

definition self_custody :: "world \<Rightarrow> uuid \<Rightarrow> bool" where
  "self_custody w rid \<longleftrightarrow> (\<exists>r \<in> set (reservations w). rv_id r = rid \<and> rv_custody r = CustodyTypeSelf)"

definition swept_step :: "uuid \<Rightarrow> world \<Rightarrow> world \<Rightarrow> bool" where
  "swept_step rid w w' \<longleftrightarrow> env w' = env w \<and> reservations w' = reservations w \<and> outbox w' = outbox w \<and> seed w' = seed w \<and>
     derived w' = derived w \<and> uuid_src w' = uuid_src w \<and> uuid_next w \<le> uuid_next w' \<and>
     (sweeps w' = sweeps w \<and> deposits w' = deposits w \<or>
      (\<exists>s. sweeps w' = sweeps w @ [s] \<and> sw_id s = uuid_src w (uuid_next w) \<and> uuid_next w < uuid_next w' \<and>
         sw_reservation s = rid \<and> self_custody w rid \<and>
         (deposits w' = deposits w \<or> sw_status s = ''broadcast'' \<and>
           deposits w' = update_where (\<lambda>d. dp_id d \<in> set (sweepable_ids w rid)) (swept (now w)) (deposits w))))"

lemma update_fresh_sweep:
  "ids_fresh (map sw_id ss) w \<Longrightarrow> sw_id s = uuid_src w (uuid_next w) \<Longrightarrow>
   update_where (\<lambda>x. sw_id x = uuid_src w (uuid_next w)) f (ss @ [s]) = ss @ [f s]"
  using ids_fresh_next [of "map sw_id ss" w] by (force simp: update_where_def intro!: map_idI)

lemma wp_execute_sweep:
  assumes "ids_fresh (map sw_id (sweeps w)) w"
  shows "wp (execute_sweep rid) (\<lambda>_. swept_step rid w) w"
  unfolding execute_sweep_def get_reservation_def get_sweepable_deposits_def get_sweep_destination_def find_derivation_index_def
    persist_sweep_def finish_sweep_def update_sweep_status_def mark_deposits_swept_def Let_def
  by (intro wp_rules wp_attemptE wp_log_only frame_rules log_view_rest)
    (auto simp: swept_step_def update_fresh_sweep [OF assms] swept_def sweepable_ids_def self_custody_def
     dest!: find_Some_mem)

text \<open>What a sweep keeps: whatever looks at none of the call log, the sweeps and the mark on a deposit.\<close>

lemma keeps_execute_sweep:
  assumes "db_mono P" and "log_view P" and "\<And>w x. P w \<Longrightarrow> P (w\<lparr>sweeps := x\<rparr>)"
    and "\<And>w c t. P w \<Longrightarrow> P (w\<lparr>deposits := update_where c (swept t) (deposits w)\<rparr>)"
  shows "keeps P (execute_sweep rid)"
  unfolding execute_sweep_def get_reservation_def get_sweepable_deposits_def get_sweep_destination_def find_derivation_index_def
    persist_sweep_def finish_sweep_def update_sweep_status_def mark_deposits_swept_def Let_def
  by (intro keeps_rules assms(1) keeps_frame [where P = id, unfolded id_apply] frame_send_sweep)
    (auto simp: assms(3) assms(2) assms(4) [unfolded swept_def])

section \<open>The key of a sweep\<close>

text \<open>
  The address of a reservation was derived at its tenant's account, at or above \<open>TenantAccountOffset\<close>; the
  sweep derives the key at account 0, on another path.
\<close>

lemma sweep_key_is_not_the_address_key:
  assumes "hd_ok w" and "seed w = Some sd" and "(c, t, i, addr) \<in> set (derived w)"
    and "\<And>a. a \<in> snd ` set (hd_accounts w) \<Longrightarrow> a < 2 ^ 32"
  shows "\<exists>a path key. (t, a) \<in> set (hd_accounts w) \<and> derivation_path c (of_nat a) (of_nat i) = Some path \<and>
    derive_private_key sd c (of_nat i) = Inr (sd, key) \<and> key \<noteq> path"
proof -
  from assms obtain a where a: "(t, a) \<in> set (hd_accounts w)" "derive_address_at_account (env w) sd c (of_nat a) (of_nat i) = Inr addr"
    by (auto simp: hd_ok_def derived_ok_def derived_row_ok_def list_all_iff)
  then have "2 \<le> a" "a < 2 ^ 32"
    using assms(1,4) by (force simp: hd_ok_def accounts_ok_def TenantAccountOffset_def)+
  then have account: "(of_nat a :: 32 word) \<noteq> 0" by (simp add: word_of_nat_eq_0_iff dvd_imp_le) (metis dvd_imp_le not_le less_le_trans zero_less_numeral)
  from a(2) obtain p where "purpose c = Some p"
    by (auto simp: derive_address_at_account_def derivation_path_def split: option.splits)
  then have "derivation_path c (of_nat a) (of_nat i) \<noteq> None" "derivation_path c 0 (of_nat i) \<noteq> None"
    by (simp_all add: derivation_path_def)
  then obtain path key where "derivation_path c (of_nat a) (of_nat i) = Some path" "derivation_path c 0 (of_nat i) = Some key" by blast
  moreover from this have "key \<noteq> path" using account derivation_path_eqD by blast
  ultimately show ?thesis
    using a(1) by (auto simp: derive_private_key_def derive_private_key_at_account_def depositAccount_def)
qed

end
