(* ===== verification/Gateway.thy ===== *)
theory Gateway
  imports Schema Numbers
begin

text \<open>
  The boundary of the tenant API, \<^verbatim>\<open>internal/platform/gateway\<close>, \<^verbatim>\<open>ratelimit\<close> and
  \<^verbatim>\<open>idempotency\<close>: the sliding-window counter of a key, the HMAC middleware with its checks in
  the order of the code, the permissions of a key, and the claim of an inbound idempotency key.
  The counters live in memory (\<open>limiter\<close>). The middleware takes the lookup of a credential as an
  argument; \<open>credential_lookup\<close> is the contract it relies on.
\<close>

section \<open>The rate limiter\<close>

definition roll :: "time \<Rightarrow> time \<Rightarrow> bucket \<Rightarrow> bucket" where
  "roll window t b = (let elapsed = t - bk_start b in
     if 2 * window \<le> elapsed then \<lparr>bk_start = t, bk_prev = 0, bk_curr = 0\<rparr>
     else if window \<le> elapsed then \<lparr>bk_start = bk_start b + window, bk_prev = bk_curr b, bk_curr = 0\<rparr>
     else b)"

text \<open>\<open>weight := 1 - float64(elapsed)/float64(window)\<close>, and the blended estimate.\<close>

definition weight :: "time \<Rightarrow> time \<Rightarrow> rat" where
  "weight window elapsed = float64 (1 - float64 (float64 (of_int elapsed) / float64 (of_int window)))"

definition estimate :: "time \<Rightarrow> time \<Rightarrow> bucket \<Rightarrow> rat" where
  "estimate window t b = float64 (float64 (float64 (of_int (bk_prev b)) * weight window (t - bk_start b))
     + float64 (of_int (bk_curr b)))"

definition allow :: "time \<Rightarrow> time \<Rightarrow> string \<Rightarrow> int \<Rightarrow> (string \<Rightarrow> bucket option) \<Rightarrow> bool \<times> (string \<Rightarrow> bucket option)" where
  "allow window t key limit l =
     (if limit \<le> 0 then (True, l)
      else let b = (case l key of Some b \<Rightarrow> roll window t b | None \<Rightarrow> roll window t \<lparr>bk_start = t, bk_prev = 0, bk_curr = 0\<rparr>) in
        if float64 (of_int limit) \<le> estimate window t b then (False, l(key \<mapsto> b))
        else (True, l(key \<mapsto> b\<lparr>bk_curr := bk_curr b + 1\<rparr>)))"

definition evict :: "time \<Rightarrow> time \<Rightarrow> (string \<Rightarrow> bucket option) \<Rightarrow> string \<Rightarrow> bucket option" where
  "evict window t l = (\<lambda>key. case l key of None \<Rightarrow> None
     | Some b \<Rightarrow> if bk_start b < t - 2 * window then None else Some b)"

definition limit_window :: time where "limit_window = minute"

definition allow_request :: "string \<Rightarrow> int \<Rightarrow> bool run" where
  "allow_request key limit = (\<lambda>w. case allow limit_window (now w) key limit (limiter w) of
     (ok, l) \<Rightarrow> (Inr ok, w\<lparr>limiter := l\<rparr>))"

definition evict_buckets :: "unit run" where
  "evict_buckets = modify (\<lambda>w. w\<lparr>limiter := evict limit_window (now w) (limiter w)\<rparr>)"

section \<open>The client's address\<close>

text \<open>\<open>net.SplitHostPort\<close>: the host, or \<open>None\<close> for an error.\<close>

definition last_colon :: "string \<Rightarrow> nat option" where
  "last_colon s = (case dropWhile (\<lambda>c. c \<noteq> CHR '':'') (rev s) of [] \<Rightarrow> None | _ # r \<Rightarrow> Some (length r))"

definition split_host :: "string \<Rightarrow> string option" where
  "split_host s = (case last_colon s of
       None \<Rightarrow> None
     | Some i \<Rightarrow>
         if hd s = CHR ''['' then
           (let n = length (takeWhile (\<lambda>c. c \<noteq> CHR '']'') s) in
            if n = length s \<or> n + 1 \<noteq> i then None
            else if CHR ''['' \<in> set (drop 1 s) \<or> CHR '']'' \<in> set (drop (n + 1) s) then None
            else Some (drop 1 (take n s)))
         else if CHR '':'' \<in> set (take i s) then None
         else if CHR ''['' \<in> set s \<or> CHR '']'' \<in> set s then None
         else Some (take i s))"

record http_request =
  rq_method :: string
  rq_path :: string
  rq_header :: "string \<Rightarrow> string"
  rq_body :: "string option"
  rq_remote :: string

definition client_ip :: "http_request \<Rightarrow> string" where
  "client_ip r = (let fwd = rq_header r ''X-Forwarded-For''; real = rq_header r ''X-Real-IP'' in
     if fwd \<noteq> '''' then trim_space (takeWhile (\<lambda>c. c \<noteq> CHR '','') fwd)
     else if real \<noteq> '''' then real
     else case split_host (rq_remote r) of None \<Rightarrow> rq_remote r | Some h \<Rightarrow> h)"

text \<open>\<open>IPNet.Contains\<close>, and the allowlist of a key: an entry that is no CIDR matches nothing.\<close>

fun cidr_contains :: "ip_address \<times> nat \<Rightarrow> ip_address \<Rightarrow> bool" where
  "cidr_contains (IPv4 a, n) (IPv4 b) \<longleftrightarrow> drop_bit (32 - n) a = drop_bit (32 - n) b"
| "cidr_contains (IPv6 a, n) (IPv6 b) \<longleftrightarrow> drop_bit (128 - n) a = drop_bit (128 - n) b"
| "cidr_contains _ _ \<longleftrightarrow> False"

definition ip_allowed :: "externals \<Rightarrow> string \<Rightarrow> string list \<Rightarrow> bool" where
  "ip_allowed e client cidrs = (case x_ip e client of
       None \<Rightarrow> False
     | Some ip \<Rightarrow> list_ex (\<lambda>c. case x_cidr e c of None \<Rightarrow> False | Some net \<Rightarrow> cidr_contains net ip) cidrs)"

section \<open>The HMAC middleware\<close>

definition tier_limits :: "(string \<times> int) list" where
  "tier_limits = [(''basic'', 100), (''standard'', 1000), (''enterprise'', 10000)]"

definition limit_for_tier :: "string \<Rightarrow> int" where
  "limit_for_tier tier = (case map_of tier_limits tier of Some n \<Rightarrow> n | None \<Rightarrow> 100)"

record credentials =
  cd_secret :: string
  cd_tenant :: uuid
  cd_key :: uuid
  cd_tier :: string
  cd_cidrs :: "string list"
  cd_permissions :: "string list"

definition signing_string :: "string \<Rightarrow> string \<Rightarrow> string \<Rightarrow> string \<Rightarrow> string" where
  "signing_string m p ts body_hash = m @ ''|'' @ p @ ''|'' @ ts @ ''|'' @ body_hash"

definition compute_signature :: "externals \<Rightarrow> string \<Rightarrow> string \<Rightarrow> string \<Rightarrow> string \<Rightarrow> string \<Rightarrow> string" where
  "compute_signature e secret m p ts body =
     hex_encode (x_hmac e secret (signing_string m p ts (hex_encode (x_sha256 e body))))"

text \<open>What the middleware answers: a status with its message, or the identity it hands on.\<close>

datatype verdict = Denied int string | Granted uuid uuid "string list"

definition ErrMissingHeaders :: string where "ErrMissingHeaders = ''missing X-API-Key/X-Timestamp/X-Signature headers''"
definition ErrUnknownAPIKey :: string where "ErrUnknownAPIKey = ''unknown api key''"
definition ErrClockSkew :: string where "ErrClockSkew = ''timestamp outside allowed window''"
definition ErrBadSignature :: string where "ErrBadSignature = ''signature mismatch''"
definition ErrIPNotAllowed :: string where "ErrIPNotAllowed = ''source ip not in this key's allowlist''"
definition ErrPermissionDenied :: string where "ErrPermissionDenied = ''api key not permitted for this action''"

definition millisecond :: time where "millisecond = 1000000"

definition check_signature :: "http_request \<Rightarrow> credentials \<Rightarrow> verdict run" where
  "check_signature r cr = bindE (gets env) (\<lambda>e.
     if cd_cidrs cr \<noteq> [] \<and> \<not> ip_allowed e (client_ip r) (cd_cidrs cr) then ret (Denied 401 ErrIPNotAllowed)
     else case rq_body r of
       None \<Rightarrow> ret (Denied 400 ''failed to read body'')
     | Some body \<Rightarrow>
         if compute_signature e (cd_secret cr) (rq_method r) (rq_path r) (rq_header r ''X-Timestamp'') body
            \<noteq> rq_header r ''X-Signature''
         then ret (Denied 401 ErrBadSignature)
         else bindE (allow_request (''tenant:'' @ cd_tenant cr) (limit_for_tier (cd_tier cr))) (\<lambda>ok.
           if ok then ret (Granted (cd_tenant cr) (cd_key cr) (cd_permissions cr))
           else ret (Denied 429 ''rate limit exceeded'')))"

definition hmac_middleware :: "(string \<Rightarrow> credentials option run) \<Rightarrow> http_request \<Rightarrow> verdict run" where
  "hmac_middleware lookup r =
     (let key = rq_header r ''X-API-Key''; stamp = rq_header r ''X-Timestamp''; sig = rq_header r ''X-Signature'' in
      if key = '''' \<or> stamp = '''' \<or> sig = '''' then ret (Denied 401 ErrMissingHeaders)
      else case parse_int64 10 stamp of
        None \<Rightarrow> ret (Denied 401 ErrMissingHeaders)
      | Some ts \<Rightarrow> bindE (gets (\<lambda>w. (now w - ts * millisecond, cfg_clock_skew (env w)))) (\<lambda>(skew, bound).
          if skew > bound \<or> skew < - bound then ret (Denied 401 ErrClockSkew)
          else bindE (attemptE (lookup key)) (\<lambda>c. case c of
              Inl _ \<Rightarrow> ret (Denied 500 ''internal error'')
            | Inr None \<Rightarrow> ret (Denied 401 ErrUnknownAPIKey)
            | Inr (Some cr) \<Rightarrow> check_signature r cr)))"

section \<open>Permissions\<close>

definition PermissionSessionsWrite :: string where "PermissionSessionsWrite = ''sessions:write''"
definition PermissionSessionsRead :: string where "PermissionSessionsRead = ''sessions:read''"
definition PermissionKYCVerify :: string where "PermissionKYCVerify = ''kyc:verify''"

definition require_permission :: "string \<Rightarrow> string list \<Rightarrow> bool" where
  "require_permission perm perms \<longleftrightarrow> perms = [] \<or> perm \<in> set perms"

definition require_explicit_permission :: "string \<Rightarrow> string list \<Rightarrow> bool" where
  "require_explicit_permission perm perms \<longleftrightarrow> perm \<in> set perms"

section \<open>Idempotency keys\<close>

datatype idem_outcome = Claimed | InFlight | Completed int "json option"

definition key_row :: "uuid \<Rightarrow> string \<Rightarrow> idempotency_key \<Rightarrow> bool" where
  "key_row tenant key k \<longleftrightarrow> ik_tenant k = tenant \<and> ik_key k = key"

definition claim_key :: "uuid \<Rightarrow> string \<Rightarrow> bool run" where
  "claim_key tenant key = stmt (bindE (gets (\<lambda>w. list_ex (key_row tenant key) (idempotency_keys w))) (\<lambda>dup.
     if dup then ret False
     else thenE (modify (\<lambda>w. w\<lparr>idempotency_keys := idempotency_keys w @
       [\<lparr>ik_tenant = tenant, ik_key = key, ik_response = None\<rparr>]\<rparr>)) (ret True)))"

definition reserve_key :: "uuid \<Rightarrow> string \<Rightarrow> idem_outcome run" where
  "reserve_key tenant key = bindE (claim_key tenant key) (\<lambda>fresh.
     if fresh then ret Claimed
     else bindE (query (\<lambda>w. find (key_row tenant key) (idempotency_keys w))) (\<lambda>r. case r of
         None \<Rightarrow> fail (OtherErr ''idempotency: check existing'')
       | Some k \<Rightarrow> (case ik_response k of None \<Rightarrow> ret InFlight | Some (code, body) \<Rightarrow> ret (Completed code body))))"

text \<open>The \<open>JSONB\<close> column takes a response body that is JSON, or none.\<close>

definition set_response :: "uuid \<Rightarrow> string \<Rightarrow> int \<Rightarrow> json option \<Rightarrow> unit run" where
  "set_response tenant key code body = exec (\<lambda>w. w\<lparr>idempotency_keys := update_where (key_row tenant key)
     (\<lambda>k. k\<lparr>ik_response := Some (code, body)\<rparr>) (idempotency_keys w)\<rparr>)"

definition complete_key :: "uuid \<Rightarrow> string \<Rightarrow> int \<Rightarrow> raw_json \<Rightarrow> unit run" where
  "complete_key tenant key code body = (case body of
       RawJson b \<Rightarrow> set_response tenant key code (Some b)
     | RawNil \<Rightarrow> set_response tenant key code None
     | RawInvalid \<Rightarrow> stmt (fail (ConstraintErr ''idempotency_keys'')))"

section \<open>The counter is a sliding window\<close>

text \<open>
  A run of the limiter: requests under keys with their limits, and evictions by the background
  job. \<open>passed\<close> are the times at which requests under a key were allowed.
\<close>

datatype limit_event = Hit time string int | Evict time

fun event_time :: "limit_event \<Rightarrow> time" where
  "event_time (Hit t k n) = t"
| "event_time (Evict t) = t"

fun limit_step :: "time \<Rightarrow> limit_event \<Rightarrow> (string \<Rightarrow> bucket option) \<Rightarrow> bool \<times> (string \<Rightarrow> bucket option)" where
  "limit_step window (Hit t k n) l = allow window t k n l"
| "limit_step window (Evict t) l = (False, evict window t l)"

fun decisions :: "time \<Rightarrow> limit_event list \<Rightarrow> (string \<Rightarrow> bucket option) \<Rightarrow> (limit_event \<times> bool) list" where
  "decisions window [] l = []"
| "decisions window (ev # evs) l = (case limit_step window ev l of (ok, l') \<Rightarrow> (ev, ok) # decisions window evs l')"

definition passed :: "string \<Rightarrow> (limit_event \<times> bool) list \<Rightarrow> time list" where
  "passed k ds = map (event_time \<circ> fst) (filter (\<lambda>(ev, ok). ok \<and> (\<exists>t n. ev = Hit t k n)) ds)"

definition in_window :: "time \<Rightarrow> time \<Rightarrow> time list \<Rightarrow> nat" where
  "in_window a b ts = count_where (\<lambda>t. a \<le> t \<and> t < b) ts"

definition since :: "time \<Rightarrow> time list \<Rightarrow> nat" where
  "since a ts = count_where (\<lambda>t. a \<le> t) ts"

lemma in_window_append [simp]: "in_window a b (ts @ [t]) = in_window a b ts + (if a \<le> t \<and> t < b then 1 else 0)"
  by (simp add: in_window_def count_where_def)

lemma since_append [simp]: "since a (ts @ [t]) = since a ts + (if a \<le> t then 1 else 0)"
  by (simp add: since_def count_where_def)

lemma since_0: "(\<And>t. t \<in> set ts \<Longrightarrow> t < a) \<Longrightarrow> since a ts = 0"
  by (auto simp: since_def count_where_0_iff not_le)

lemma since_split: "a \<le> b \<Longrightarrow> since a ts = in_window a b ts + since b ts"
  by (induction ts) (auto simp: since_def in_window_def)

lemma window_le_since: "a \<le> a' \<Longrightarrow> in_window a' b ts \<le> since a ts"
  by (induction ts) (auto simp: since_def in_window_def)

lemma since_mono: "a \<le> a' \<Longrightarrow> since a' ts \<le> since a ts"
  by (induction ts) (auto simp: since_def)

lemma since_eq_window: "(\<And>t. t \<in> set ts \<Longrightarrow> t < b) \<Longrightarrow> since a ts = in_window a b ts"
  by (induction ts) (auto simp: since_def in_window_def)

text \<open>What a bucket knows of the requests \<open>ts\<close> that passed under its key until \<open>t\<close>.\<close>

definition knows :: "time \<Rightarrow> int \<Rightarrow> time list \<Rightarrow> time \<Rightarrow> bucket \<Rightarrow> bool" where
  "knows window n ts t b \<longleftrightarrow> bk_start b \<le> t \<and> (\<forall>x \<in> set ts. x < bk_start b + window) \<and>
     int (since (bk_start b) ts) = bk_curr b \<and> int (in_window (bk_start b - window) (bk_start b) ts) = bk_prev b \<and>
     bk_curr b \<le> n \<and> bk_prev b \<le> n"

definition tracks :: "time \<Rightarrow> int \<Rightarrow> time list \<Rightarrow> time \<Rightarrow> bucket option \<Rightarrow> bool" where
  "tracks window n ts t b \<longleftrightarrow> (case b of
       None \<Rightarrow> \<forall>x \<in> set ts. x < t - window
     | Some b \<Rightarrow> knows window n ts t b)"

lemma knows_fresh: "0 < window \<Longrightarrow> 0 \<le> n \<Longrightarrow> (\<And>x. x \<in> set ts \<Longrightarrow> x < t - window) \<Longrightarrow>
  knows window n ts t \<lparr>bk_start = t, bk_prev = 0, bk_curr = 0\<rparr>"
  using since_0 [of ts "t - window"] since_0 [of ts t] since_split [of "t - window" t ts]
  by (force simp: knows_def)

lemma knows_roll:
  assumes "0 < window" and "0 \<le> n" and "knows window n ts t0 b" and "t0 \<le> t"
  shows "knows window n ts t (roll window t b) \<and> t < bk_start (roll window t b) + window"
proof -
  let ?e = "t - bk_start b"
  have past: "x < bk_start b + window" if "x \<in> set ts" for x using assms(3) that by (simp add: knows_def)
  consider "2 * window \<le> ?e" | "window \<le> ?e" "?e < 2 * window" | "?e < window" by linarith
  then show ?thesis
  proof cases
    case 1
    then have "x < t - window" if "x \<in> set ts" for x using past [OF that] by simp
    from knows_fresh [OF assms(1,2) this] 1 assms(1) show ?thesis by (simp add: roll_def Let_def)
  next
    case 2
    have "since (bk_start b + window) ts = 0" using past by (rule since_0)
    moreover have "since (bk_start b) ts = in_window (bk_start b) (bk_start b + window) ts"
      using past by (rule since_eq_window)
    moreover have "\<forall>x \<in> set ts. x < bk_start b + window + window" using past assms(1) by fastforce
    ultimately show ?thesis using 2 assms by (simp add: roll_def Let_def knows_def)
  next
    case 3
    with assms show ?thesis by (simp add: roll_def Let_def knows_def)
  qed
qed

text \<open>The estimate lies between the current count and the count of both windows.\<close>

lemma weight_bounds: "0 < window \<Longrightarrow> 0 \<le> x \<Longrightarrow> x < window \<Longrightarrow> window < 2 ^ 53 \<Longrightarrow> 0 \<le> weight window x \<and> weight window x \<le> 1"
proof -
  assume w: "0 < window" "0 \<le> x" "x < window" "window < 2 ^ 53"
  let ?q = "float64 (of_int x) / float64 (of_int window)"
  have q: "0 \<le> ?q \<and> ?q \<le> 1" using w by (simp add: float64_int)
  then have "0 \<le> float64 ?q" "float64 ?q \<le> 1"
    using float64_nonneg [of ?q] float64_le [of ?q 1] by simp_all
  then show ?thesis
    unfolding weight_def using float64_nonneg [of "1 - float64 ?q"] float64_le [of "1 - float64 ?q" 1] by simp
qed

lemma estimate_bounds:
  assumes "0 < window" and "window < 2 ^ 53" and "n < 2 ^ 52" and "knows window n ts t b" and "t < bk_start b + window"
  shows "of_int (bk_curr b) \<le> estimate window t b \<and> estimate window t b \<le> of_int (bk_prev b + bk_curr b)"
proof -
  let ?w = "weight window (t - bk_start b)"
  have b: "0 \<le> bk_prev b" "0 \<le> bk_curr b" "bk_prev b \<le> n" "bk_curr b \<le> n" "bk_start b \<le> t"
    using assms(4) by (auto simp: knows_def)
  have w: "0 \<le> ?w" "?w \<le> 1" using weight_bounds [of window "t - bk_start b"] assms b by simp_all
  have ints: "float64 (of_int (bk_prev b)) = of_int (bk_prev b)" "float64 (of_int (bk_curr b)) = of_int (bk_curr b)"
    using b assms(3) by (simp_all add: float64_int)
  let ?p = "of_int (bk_prev b) * ?w"
  have p: "0 \<le> ?p" "?p \<le> of_int (bk_prev b)"
    using b w by (simp_all add: mult_left_le)
  then have fp: "0 \<le> float64 ?p" "float64 ?p \<le> of_int (bk_prev b)"
    using float64_nonneg float64_le [of ?p "bk_prev b"] b assms(3) by simp_all
  have e: "estimate window t b = float64 (float64 ?p + of_int (bk_curr b))"
    by (simp add: estimate_def ints)
  have "of_int (bk_curr b) \<le> estimate window t b"
    unfolding e using fp b assms(3) by (intro float64_ge) simp_all
  moreover have "estimate window t b \<le> of_int (bk_prev b + bk_curr b)"
    unfolding e using fp b assms(3) by (intro float64_le) simp_all
  ultimately show ?thesis ..
qed

lemma tracks_later: "tracks window n ts t b \<Longrightarrow> t \<le> t' \<Longrightarrow> tracks window n ts t' b"
  by (fastforce simp: tracks_def knows_def split: option.splits)

lemma tracks_evict:
  assumes "tracks window n ts t0 (l k)" and "t0 \<le> t" and "0 < window"
  shows "tracks window n ts t (evict window t l k)"
  using assms tracks_later [OF assms(1,2)]
  by (fastforce simp: tracks_def evict_def knows_def split: option.splits)

lemma knows_count: "knows window n ts t b \<Longrightarrow> t < bk_start b + window \<Longrightarrow> 0 < window \<Longrightarrow> bk_curr b < n \<Longrightarrow>
  knows window n (ts @ [t]) t (b\<lparr>bk_curr := bk_curr b + 1\<rparr>)"
  by (auto simp: knows_def)

text \<open>One request: what the bucket knows stays true, and the request passes when the last two windows have room.\<close>

lemma allow_step:
  assumes "0 < window" and "window < 2 ^ 53" and "0 < n" and "n < 2 ^ 52"
    and "tracks window n ts t0 (l k)" and "t0 \<le> t" and run: "allow window t k n l = (ok, l')"
  shows "\<exists>b. l' = l(k \<mapsto> b) \<and> knows window n (if ok then ts @ [t] else ts) t b \<and> t < bk_start b + window \<and>
    (int (since (t - 2 * window) ts) < n \<longrightarrow> ok)"
proof -
  define b where "b = (case l k of Some b \<Rightarrow> roll window t b | None \<Rightarrow> roll window t \<lparr>bk_start = t, bk_prev = 0, bk_curr = 0\<rparr>)"
  have b: "knows window n ts t b \<and> t < bk_start b + window"
  proof (cases "l k")
    case None
    with assms have "knows window n ts t \<lparr>bk_start = t, bk_prev = 0, bk_curr = 0\<rparr>"
      by (intro knows_fresh) (auto simp: tracks_def)
    then show ?thesis using None knows_roll [of window n ts t] assms by (simp add: b_def)
  next
    case (Some b0)
    then show ?thesis using knows_roll [of window n ts t0 b0 t] assms by (simp add: b_def tracks_def)
  qed
  have est: "of_int (bk_curr b) \<le> estimate window t b" "estimate window t b \<le> of_int (bk_prev b + bk_curr b)"
    using estimate_bounds [of window n ts t b] assms b by simp_all
  have n: "float64 (of_int n) = of_int n" using assms by (simp add: float64_int)
  have "allow window t k n l = (if of_int n \<le> estimate window t b then (False, l(k \<mapsto> b)) else (True, l(k \<mapsto> b\<lparr>bk_curr := bk_curr b + 1\<rparr>)))"
    using assms(3) n by (simp add: allow_def Let_def b_def)
  note run' = run [symmetric, unfolded this]
  have start: "bk_start b \<le> t" using b by (simp add: knows_def)
  have "int (since (t - 2 * window) ts) \<ge> bk_prev b + bk_curr b"
  proof -
    have "bk_prev b + bk_curr b = int (since (bk_start b - window) ts)"
      using b since_split [of "bk_start b - window" "bk_start b" ts] assms(1) by (simp add: knows_def)
    also have "\<dots> \<le> int (since (t - 2 * window) ts)" using b since_mono [of "t - 2 * window" "bk_start b - window" ts] by simp
    finally show ?thesis .
  qed
  then have room: "int (since (t - 2 * window) ts) < n \<Longrightarrow> estimate window t b < of_int n"
    using est(2) by (metis of_int_less_iff order_le_less_trans order.strict_trans1)
  show ?thesis
  proof (cases "of_int n \<le> estimate window t b")
    case True
    with run' b room show ?thesis by auto
  next
    case False
    with est(1) have "bk_curr b < n" by (metis of_int_le_iff linorder_not_le order.trans)
    with False run' b knows_count [of window n ts t b] assms(1) show ?thesis by auto
  qed
qed

definition spread :: "time \<Rightarrow> int \<Rightarrow> time list \<Rightarrow> bool" where
  "spread window n ts \<longleftrightarrow> (\<forall>a. int (in_window a (a + window) ts) \<le> 2 * n)"

lemma spread_append:
  assumes "spread window n ts" and "knows window n (ts @ [t]) t b" and "t < bk_start b + window" and "0 < window"
  shows "spread window n (ts @ [t])"
  unfolding spread_def
proof
  fix a
  show "int (in_window a (a + window) (ts @ [t])) \<le> 2 * n"
  proof (cases "a \<le> t \<and> t < a + window")
    case True
    have "in_window a (a + window) (ts @ [t]) \<le> since (bk_start b - window) (ts @ [t])"
      using True assms(2) by (intro window_le_since) (auto simp: knows_def)
    also have "\<dots> = in_window (bk_start b - window) (bk_start b) (ts @ [t]) + since (bk_start b) (ts @ [t])"
      using assms(4) by (intro since_split) simp
    finally show ?thesis using assms(2) unfolding knows_def by linarith
  next
    case False
    with assms(1) show ?thesis by (auto simp: spread_def)
  qed
qed

lemma passed_simps [simp]:
  "passed k [] = []"
  "passed k ((ev, ok) # ds) = (if ok \<and> (\<exists>t n. ev = Hit t k n) then event_time ev # passed k ds else passed k ds)"
  by (simp_all add: passed_def)

text \<open>One event, for the requests \<open>ts\<close> that passed under the key \<open>k\<close> before it.\<close>

definition passed_then :: "string \<Rightarrow> limit_event \<Rightarrow> bool \<Rightarrow> time list \<Rightarrow> time list" where
  "passed_then k ev ok ts = (if ok \<and> (\<exists>t n. ev = Hit t k n) then ts @ [event_time ev] else ts)"

lemma limit_step_tracks:
  assumes "0 < window" and "window < 2 ^ 53" and "0 < n" and "n < 2 ^ 52"
    and "t0 \<le> event_time ev" and only: "\<forall>t m. ev = Hit t k m \<longrightarrow> m = n"
    and "tracks window n ts t0 (l k)" and "spread window n ts" and run: "limit_step window ev l = (ok, l')"
  shows "tracks window n (passed_then k ev ok ts) (event_time ev) (l' k) \<and> spread window n (passed_then k ev ok ts) \<and>
    (\<forall>t. ev = Hit t k n \<longrightarrow> int (since (t - 2 * window) ts) < n \<longrightarrow> ok)"
proof (cases "\<exists>t m. ev = Hit t k m")
  case True
  then obtain t where ev: "ev = Hit t k n" using only by auto
  have ts': "passed_then k ev ok ts = (if ok then ts @ [t] else ts)" using ev by (simp add: passed_then_def)
  have "allow window t k n l = (ok, l')" "t0 \<le> t" using run assms(5) ev by simp_all
  from allow_step [where l = l and k = k, OF assms(1-4) assms(7) this(2,1)] obtain b where
    b: "l' = l(k \<mapsto> b)" "knows window n (passed_then k ev ok ts) t b" "t < bk_start b + window"
      "int (since (t - 2 * window) ts) < n \<longrightarrow> ok"
    unfolding ts' by blast
  then have "spread window n (passed_then k ev ok ts)"
    using spread_append [of window n ts t b] assms(1,8) by (auto simp: ts' split: if_splits)
  with b ev show ?thesis by (simp add: tracks_def)
next
  case False
  have "l' k = l k \<or> (\<exists>t. ev = Evict t \<and> l' k = evict window t l k)"
  proof (cases ev)
    case (Hit t k' m)
    with False run show ?thesis by (auto simp: allow_def Let_def split: if_splits)
  qed (use run in auto)
  then have "tracks window n ts (event_time ev) (l' k)"
    using tracks_later [OF assms(7,5)] tracks_evict [where l = l and k = k, OF assms(7,5,1)] by auto
  with False assms(8) show ?thesis by (auto simp: passed_then_def)
qed

lemma decisions_spread:
  assumes "0 < window" and "window < 2 ^ 53" and "0 < n" and "n < 2 ^ 52"
    and "sorted (t0 # map event_time evs)" and "\<forall>ev \<in> set evs. \<forall>t m. ev = Hit t k m \<longrightarrow> m = n"
    and "tracks window n ts t0 (l k)" and "spread window n ts"
  shows "spread window n (ts @ passed k (decisions window evs l)) \<and>
    (\<forall>i < length evs. \<forall>t. evs ! i = Hit t k n \<longrightarrow>
       int (since (t - 2 * window) (ts @ passed k (take i (decisions window evs l)))) < n \<longrightarrow> snd (decisions window evs l ! i))"
  using assms(5-)
proof (induction evs arbitrary: ts t0 l)
  case Nil
  then show ?case by simp
next
  case (Cons ev evs)
  obtain ok l' where run: "limit_step window ev l = (ok, l')" by (cases "limit_step window ev l")
  have t: "t0 \<le> event_time ev" "sorted (event_time ev # map event_time evs)" using Cons.prems(1) by auto
  have only: "\<forall>t m. ev = Hit t k m \<longrightarrow> m = n" "\<forall>ev \<in> set evs. \<forall>t m. ev = Hit t k m \<longrightarrow> m = n"
    using Cons.prems(2) by simp_all
  note step = limit_step_tracks [where l = l and k = k, OF assms(1-4) t(1) only(1) Cons.prems(3,4) run]
  note ih = Cons.IH [where l = l', OF t(2) only(2) conjunct1 [OF step] conjunct1 [OF conjunct2 [OF step]]]
  have split: "ts @ passed k ((ev, ok) # ds) = passed_then k ev ok ts @ passed k ds" for ds by (simp add: passed_then_def)
  show ?case
  proof (intro conjI allI impI)
    show "spread window n (ts @ passed k (decisions window (ev # evs) l))"
      using conjunct1 [OF ih] by (simp only: run split decisions.simps prod.case)
  next
    fix i t assume i: "i < length (ev # evs)" "(ev # evs) ! i = Hit t k n"
      "int (since (t - 2 * window) (ts @ passed k (take i (decisions window (ev # evs) l)))) < n"
    show "snd (decisions window (ev # evs) l ! i)"
    proof (cases i)
      case 0
      with i step have ok by simp
      then show ?thesis using 0 by (simp add: run)
    next
      case (Suc j)
      with i(3) run have "int (since (t - 2 * window) (passed_then k ev ok ts @ passed k (take j (decisions window evs l')))) < n"
        by (simp only: take_Suc_Cons decisions.simps prod.case split)
      with conjunct2 [OF ih] i Suc run show ?thesis by simp
    qed
  qed
qed

text \<open>
  C30. The request limit of a key: whatever requests come in under whatever keys and whenever the
  background job evicts buckets, any interval of one window (a minute) sees at most twice the limit of
  a key let through, and a request is always let through when fewer than the limit were in the two
  windows before it. Both hold with the rounding of \<open>float64\<close>.
\<close>

theorem rate_limit_window:
  assumes "sorted (map event_time evs)" and "0 < n" and "n < 2 ^ 52" and "\<forall>ev \<in> set evs. \<forall>t m. ev = Hit t k m \<longrightarrow> m = n"
  shows "let ds = decisions limit_window evs (\<lambda>_. None) in
    (\<forall>a. int (in_window a (a + limit_window) (passed k ds)) \<le> 2 * n) \<and>
    (\<forall>i < length evs. \<forall>t. evs ! i = Hit t k n \<longrightarrow>
       int (since (t - 2 * limit_window) (passed k (take i ds))) < n \<longrightarrow> snd (ds ! i))"
proof (cases evs)
  case Nil
  with assms(2) show ?thesis by (simp add: in_window_def)
next
  case (Cons ev evs')
  have w: "0 < limit_window" "limit_window < 2 ^ 53" by (simp_all add: limit_window_def minute_def second_def)
  have s: "sorted (event_time ev # map event_time evs)" using assms(1) Cons by auto
  have "spread limit_window n []" using assms(2) by (simp add: spread_def in_window_def)
  then show ?thesis
    using decisions_spread [OF w assms(2,3) s assms(4), of "[]" "\<lambda>_. None"] by (simp add: Let_def spread_def tracks_def)
qed

theorem rate_limit_window_witness:
  "int (in_window 0 limit_window (passed ''k'' (decisions limit_window [Hit 0 ''k'' 2, Hit 1 ''k'' 2, Evict 1, Hit 2 ''k'' 2] (\<lambda>_. None)))) \<le> 4"
proof -
  let ?evs = "[Hit 0 ''k'' 2, Hit 1 ''k'' 2, Evict 1, Hit 2 ''k'' 2]"
  have "sorted (map event_time ?evs)" "\<forall>ev \<in> set ?evs. \<forall>t m. ev = Hit t ''k'' m \<longrightarrow> m = 2" by simp_all
  moreover have "0 < (2::int)" "(2::int) < 2 ^ 52" by simp_all
  ultimately have "int (in_window 0 (0 + limit_window) (passed ''k'' (decisions limit_window ?evs (\<lambda>_. None)))) \<le> 4"
    using rate_limit_window [of ?evs 2 "''k''"] unfolding Let_def by (metis mult_2 numeral_Bit0)
  then show ?thesis by (simp only: add_0)
qed

text \<open>Evicting a bucket is never seen: it is gone only when it would have been reset anyway.\<close>

definition stale_only :: "time \<Rightarrow> time \<Rightarrow> (string \<Rightarrow> bucket option) \<Rightarrow> (string \<Rightarrow> bucket option) \<Rightarrow> bool" where
  "stale_only window t l l' \<longleftrightarrow> (\<forall>k. l k = l' k \<or> (l k = None \<and> (\<exists>b. l' k = Some b \<and> bk_start b < t - 2 * window)))"

lemma stale_only_later: "stale_only window t l l' \<Longrightarrow> t \<le> t' \<Longrightarrow> stale_only window t' l l'"
  by (fastforce simp: stale_only_def)

lemma stale_only_evict: "stale_only window t l l' \<Longrightarrow> stale_only window t (evict window t l) l'"
  unfolding stale_only_def
proof (rule allI)
  fix k assume "\<forall>k. l k = l' k \<or> (l k = None \<and> (\<exists>b. l' k = Some b \<and> bk_start b < t - 2 * window))"
  from spec [OF this, of k]
  show "evict window t l k = l' k \<or> (evict window t l k = None \<and> (\<exists>b. l' k = Some b \<and> bk_start b < t - 2 * window))"
    by (auto simp: evict_def split: option.splits)
qed

lemma stale_only_allow:
  assumes "stale_only window t l l'" and "0 < window"
  shows "fst (allow window t k n l) = fst (allow window t k n l') \<and>
    stale_only window t (snd (allow window t k n l)) (snd (allow window t k n l'))"
proof -
  have fresh: "roll window t \<lparr>bk_start = t, bk_prev = 0, bk_curr = 0\<rparr> = \<lparr>bk_start = t, bk_prev = 0, bk_curr = 0\<rparr>"
    using assms(2) by (simp add: roll_def Let_def)
  have "(case l k of Some b \<Rightarrow> roll window t b | None \<Rightarrow> roll window t \<lparr>bk_start = t, bk_prev = 0, bk_curr = 0\<rparr>) =
    (case l' k of Some b \<Rightarrow> roll window t b | None \<Rightarrow> roll window t \<lparr>bk_start = t, bk_prev = 0, bk_curr = 0\<rparr>)"
    using assms(1) spec [OF assms(1) [unfolded stale_only_def], of k] unfolding fresh
    by (auto simp: roll_def Let_def split: option.splits)
  then show ?thesis
    using assms(1) by (auto simp: allow_def Let_def stale_only_def)
qed

definition is_hit :: "limit_event \<Rightarrow> bool" where
  "is_hit ev \<longleftrightarrow> (\<exists>t k n. ev = Hit t k n)"

lemma eviction_unobservable:
  assumes "0 < window" and "sorted (t0 # map event_time evs)" and "stale_only window t0 l l'"
  shows "filter (is_hit \<circ> fst) (decisions window evs l) = decisions window (filter is_hit evs) l'"
  using assms(2-)
proof (induction evs arbitrary: t0 l l')
  case Nil
  then show ?case by simp
next
  case (Cons ev evs)
  have t: "t0 \<le> event_time ev" "sorted (event_time ev # map event_time evs)" using Cons.prems(1) by auto
  note stale = stale_only_later [OF Cons.prems(2) t(1)]
  show ?case
  proof (cases ev)
    case (Hit t k n)
    with stale stale_only_allow [of window t l l' k n] assms(1)
    have "fst (allow window t k n l) = fst (allow window t k n l')"
      "stale_only window t (snd (allow window t k n l)) (snd (allow window t k n l'))" by simp_all
    with Cons.IH [of t "snd (allow window t k n l)" "snd (allow window t k n l')"] Hit t(2) show ?thesis
      by (cases "allow window t k n l"; cases "allow window t k n l'") (simp add: is_hit_def)
  next
    case (Evict t)
    with stale have "stale_only window t (evict window t l) l'" by (simp add: stale_only_evict)
    with Cons.IH [of t "evict window t l" l'] Evict t(2) show ?thesis by (simp add: is_hit_def)
  qed
qed

section \<open>Who passes the middleware\<close>

text \<open>
  The contract of the lookup: it only reads, and what it returns for a key is a credential that
  is valid in the tables, decrypted.
\<close>

locale credential_lookup =
  fixes lookup :: "string \<Rightarrow> credentials option run"
    and valid :: "world \<Rightarrow> string \<Rightarrow> credentials \<Rightarrow> bool"
  assumes lookup_reads: "\<exists>bs. snd (lookup key w) = w\<lparr>faults := bs\<rparr>"
    and lookup_valid: "fst (lookup key w) = Inr (Some cr) \<Longrightarrow> valid w key cr"
begin

definition signed_by :: "world \<Rightarrow> http_request \<Rightarrow> credentials \<Rightarrow> bool" where
  "signed_by w r cr \<longleftrightarrow> (\<exists>ts body. parse_int64 10 (rq_header r ''X-Timestamp'') = Some ts \<and>
     \<bar>now w - ts * millisecond\<bar> \<le> cfg_clock_skew (env w) \<and> rq_body r = Some body \<and>
     (cd_cidrs cr = [] \<or> ip_allowed (env w) (client_ip r) (cd_cidrs cr)) \<and>
     rq_header r ''X-Signature'' = compute_signature (env w) (cd_secret cr) (rq_method r) (rq_path r) (rq_header r ''X-Timestamp'') body)"

definition admits :: "world \<Rightarrow> http_request \<Rightarrow> err + verdict \<Rightarrow> bool" where
  "admits w r v \<longleftrightarrow> (\<forall>tenant key perms. v = Inr (Granted tenant key perms) \<longrightarrow>
     (\<exists>cr. valid w (rq_header r ''X-API-Key'') cr \<and> signed_by w r cr \<and>
        tenant = cd_tenant cr \<and> key = cd_key cr \<and> perms = cd_permissions cr))"

lemma admits_denied [simp]: "admits w r (Inl e)" "admits w r (Inr (Denied code msg))"
  by (simp_all add: admits_def)

lemma admits_granted:
  "valid w (rq_header r ''X-API-Key'') cr \<Longrightarrow> signed_by w r cr \<Longrightarrow>
   admits w r (Inr (Granted (cd_tenant cr) (cd_key cr) (cd_permissions cr)))"
  unfolding admits_def by blast

lemma granted_signed: "wp (hmac_middleware lookup r) (\<lambda>v w'. admits w r v) w"
proof -
  have checked: "wp (check_signature r cr) (\<lambda>v w'. admits w r v) v"
    if "valid w (rq_header r ''X-API-Key'') cr" "parse_int64 10 (rq_header r ''X-Timestamp'') = Some ts"
      "\<bar>now w - ts * millisecond\<bar> \<le> cfg_clock_skew (env w)" "env v = env w" for cr ts v
  proof -
    have "signed_by w r cr" if "rq_body r = Some body" "cd_cidrs cr = [] \<or> ip_allowed (env v) (client_ip r) (cd_cidrs cr)"
      "compute_signature (env v) (cd_secret cr) (rq_method r) (rq_path r) (rq_header r ''X-Timestamp'') body = rq_header r ''X-Signature''"
      for body using \<open>env v = env w\<close> that \<open>parse_int64 10 _ = Some ts\<close> \<open>\<bar>_\<bar> \<le> _\<close> by (auto simp: signed_by_def)
    with \<open>valid w _ cr\<close> show ?thesis
      unfolding check_signature_def
      by (intro wp_rules) (auto intro!: wp_rules admits_granted simp: wp_def allow_request_def wp_bind_def ret_def split: prod.split)
  qed
  show ?thesis
    unfolding hmac_middleware_def Let_def
  proof (intro wp_rules wp_attemptE)
    fix ts skew bound
    assume ts: "parse_int64 10 (rq_header r ''X-Timestamp'') = Some ts"
      and p: "(now w - ts * millisecond, cfg_clock_skew (env w)) = (skew, bound)" and near: "\<not> (skew > bound \<or> skew < - bound)"
    show "wp (lookup (rq_header r ''X-API-Key'')) (\<lambda>c w'. wp_bind (\<lambda>c. case c of
        Inl _ \<Rightarrow> ret (Denied 500 ''internal error'') | Inr None \<Rightarrow> ret (Denied 401 ErrUnknownAPIKey)
      | Inr (Some cr) \<Rightarrow> check_signature r cr) (\<lambda>v w'. admits w r v) (Inr c) w') w"
    proof (rule wpI)
      fix c w' assume run: "lookup (rq_header r ''X-API-Key'') w = (c, w')"
      obtain bs where w': "w' = w\<lparr>faults := bs\<rparr>" using lookup_reads [of "rq_header r ''X-API-Key''" w] run by auto
      show "wp_bind (\<lambda>c. case c of
        Inl _ \<Rightarrow> ret (Denied 500 ''internal error'') | Inr None \<Rightarrow> ret (Denied 401 ErrUnknownAPIKey)
      | Inr (Some cr) \<Rightarrow> check_signature r cr) (\<lambda>v w'. admits w r v) (Inr c) w'"
        using lookup_valid [of "rq_header r ''X-API-Key''" w] run ts p near w'
        by (intro wp_rules) (auto intro!: wp_rules checked split: sum.splits option.splits)
    qed
  qed (auto simp: admits_def)
qed

end

text \<open>
  What a signature binds. The canonical string determines the path, the time stamp and the hash of
  the body when the method is one the router knows (no separator in it).
\<close>

lemma split_last_inject:
  assumes "a @ sep # b = a' @ sep # b'" and "sep \<notin> set b" and "sep \<notin> set b'"
  shows "a = a' \<and> b = b'"
proof -
  have tail: "takeWhile (\<lambda>c. c \<noteq> sep) (rev (x @ sep # y)) = rev y" if "sep \<notin> set y" for x y
    using that by (subst rev_append, subst rev.simps(2), subst append_assoc, subst takeWhile_append2) auto
  have "rev b = rev b'" using tail [OF assms(2), of a] tail [OF assms(3), of a'] assms(1) by simp
  then show ?thesis using assms(1) by simp
qed

lemma split_first_inject:
  "a @ sep # b = a' @ sep # b' \<Longrightarrow> sep \<notin> set a \<Longrightarrow> sep \<notin> set a' \<Longrightarrow> a = a' \<and> b = b'"
  by (induction a arbitrary: a') (auto simp: Cons_eq_append_conv append_eq_Cons_conv)

lemma hex_digit_no_bar: "n < 16 \<Longrightarrow> hex_digit n \<noteq> CHR ''|''"
  using nth_mem [of n "''0123456789abcdef''"] by (auto simp: hex_digit_def)

lemma hex_no_bar: "CHR ''|'' \<notin> set (hex_encode s)"
proof -
  have "hex_digit (byte c div 16) \<noteq> CHR ''|''" "hex_digit (byte c mod 16) \<noteq> CHR ''|''" for c
    using byte_less [of c] by (intro hex_digit_no_bar, linarith)+
  then show ?thesis by (simp add: hex_encode_def not_sym)
qed

lemma stamp_no_bar:
  assumes "parse_int64 10 s = Some ts"
  shows "CHR ''|'' \<notin> set s"
proof
  assume "CHR ''|'' \<in> set s"
  with parse_int64_chars [OF assms] show False by (fastforce simp: is_digit_def byte_def)
qed

lemma signing_string_inject:
  assumes "signing_string m p s (hex_encode h) = signing_string m' p' s' (hex_encode h')"
    and "CHR ''|'' \<notin> set m" and "CHR ''|'' \<notin> set m'" and "parse_int64 10 s = Some ts" and "parse_int64 10 s' = Some ts'"
  shows "m = m' \<and> p = p' \<and> s = s' \<and> h = h'"
proof -
  have "((m @ ''|'' @ p) @ CHR ''|'' # s) @ CHR ''|'' # hex_encode h = ((m' @ ''|'' @ p') @ CHR ''|'' # s') @ CHR ''|'' # hex_encode h'"
    using assms(1) by (simp add: signing_string_def)
  from split_last_inject [OF this hex_no_bar hex_no_bar]
  have h: "hex_encode h = hex_encode h'" and rest: "(m @ ''|'' @ p) @ CHR ''|'' # s = (m' @ ''|'' @ p') @ CHR ''|'' # s'" by simp_all
  from split_last_inject [OF rest stamp_no_bar [OF assms(4)] stamp_no_bar [OF assms(5)]]
  have "m @ CHR ''|'' # p = m' @ CHR ''|'' # p'" and "s = s'" by simp_all
  with split_first_inject [of m "CHR ''|''" p m' p'] assms(2,3) h show ?thesis by (simp add: hex_encode_inject)
qed



section \<open>A key is claimed once and answered with its response\<close>

text \<open>
  A run of the store of idempotency keys, with its log. The specification keeps, for each key,
  nothing (never seen), no response (in flight) or the response.
\<close>

datatype idem_op = Reserve uuid string | Complete uuid string int raw_json

fun idem_step :: "idem_op \<Rightarrow> idem_outcome option run" where
  "idem_step (Reserve tenant key) = bindE (reserve_key tenant key) (\<lambda>out. ret (Some out))"
| "idem_step (Complete tenant key code body) = thenE (complete_key tenant key code body) (ret None)"

type_synonym key_states = "uuid \<times> string \<Rightarrow> (int \<times> json option) option option"

fun idem_spec :: "idem_op \<Rightarrow> key_states \<Rightarrow> idem_outcome option \<times> key_states" where
  "idem_spec (Reserve tenant key) ks = (case ks (tenant, key) of
       None \<Rightarrow> (Some Claimed, ks((tenant, key) := Some None))
     | Some None \<Rightarrow> (Some InFlight, ks)
     | Some (Some (code, body)) \<Rightarrow> (Some (Completed code body), ks))"
| "idem_spec (Complete tenant key code body) ks =
     (None, case ks (tenant, key) of None \<Rightarrow> ks
       | Some _ \<Rightarrow> ks((tenant, key) := Some (Some (code, case body of RawJson b \<Rightarrow> Some b | _ \<Rightarrow> None))))"

definition key_states_of :: "idempotency_key list \<Rightarrow> key_states" where
  "key_states_of ks = (\<lambda>(tenant, key). map_option ik_response (find (key_row tenant key) ks))"

lemma find_append: "find P (xs @ ys) = (case find P xs of Some x \<Rightarrow> Some x | None \<Rightarrow> find P ys)"
  by (induction xs) auto

lemma find_update_where:
  assumes "\<And>x. c x \<Longrightarrow> P (f x) = P x"
  shows "find P (update_where c f xs) = map_option (\<lambda>x. if c x then f x else x) (find P xs)"
  using assms by (induction xs) auto

lemma key_states_claim:
  assumes "\<not> list_ex (key_row tenant key) ks"
  shows "key_states_of (ks @ [\<lparr>ik_tenant = tenant, ik_key = key, ik_response = None\<rparr>]) = (key_states_of ks)((tenant, key) := Some None)"
proof -
  have "find (key_row tenant key) ks = None" using assms by (auto simp: find_None_iff list_ex_iff)
  then show ?thesis
    by (auto simp: key_states_of_def find_append key_row_def fun_eq_iff split: option.split)
qed

lemma key_states_response:
  "key_states_of (update_where (key_row tenant key) (\<lambda>k. k\<lparr>ik_response := r\<rparr>) ks) =
    (case key_states_of ks (tenant, key) of None \<Rightarrow> key_states_of ks | Some _ \<Rightarrow> (key_states_of ks)((tenant, key) := Some r))"
  (is "?l = ?r")
proof (rule ext, clarify)
  fix t k
  have same: "key_row t k (x\<lparr>ik_response := r\<rparr>) = key_row t k x" for x by (simp add: key_row_def)
  have "?l (t, k) = map_option (\<lambda>x. if key_row tenant key x then r else ik_response x) (find (key_row t k) ks)"
    by (simp add: key_states_of_def find_update_where same option.map_comp o_def if_distrib cong: if_cong)
  also have "\<dots> = ?r (t, k)"
    by (cases "find (key_row t k) ks"; cases "t = tenant \<and> k = key")
      (auto simp: key_states_of_def key_row_def dest!: find_Some_mem split: option.split)
  finally show "?l (t, k) = ?r (t, k)" .
qed

definition idem_refines :: "idem_op \<Rightarrow> world \<Rightarrow> err + idem_outcome option \<Rightarrow> world \<Rightarrow> bool" where
  "idem_refines op w r w' \<longleftrightarrow> (case r of
       Inl _ \<Rightarrow> key_states_of (idempotency_keys w') = key_states_of (idempotency_keys w)
     | Inr out \<Rightarrow> (out, key_states_of (idempotency_keys w')) = idem_spec op (key_states_of (idempotency_keys w)))"

lemma reserve_refines: "wp (idem_step (Reserve tenant key)) (idem_refines (Reserve tenant key) w) w"
proof -
  have "key_states_of (idempotency_keys w) (tenant, key) = None" if "\<not> list_ex (key_row tenant key) (idempotency_keys w)"
    using that by (auto simp: key_states_of_def find_None_iff list_ex_iff)
  then show ?thesis
    unfolding idem_step.simps reserve_key_def claim_key_def
    by (intro wp_rules) (simp_all add: idem_refines_def key_states_claim, simp_all add: key_states_of_def)
qed

lemma set_response_refines:
  "wp (thenE (set_response tenant key code b) (ret None)) (\<lambda>r w'. case r of
       Inl _ \<Rightarrow> key_states_of (idempotency_keys w') = key_states_of (idempotency_keys w)
     | Inr out \<Rightarrow> out = None \<and> key_states_of (idempotency_keys w') = (case key_states_of (idempotency_keys w) (tenant, key) of
           None \<Rightarrow> key_states_of (idempotency_keys w)
         | Some _ \<Rightarrow> (key_states_of (idempotency_keys w))((tenant, key) := Some (Some (code, b))))) w"
  unfolding set_response_def by (intro wp_rules) (simp_all add: key_states_response)

lemma complete_refines: "wp (idem_step (Complete tenant key code body)) (idem_refines (Complete tenant key code body) w) w"
proof -
  have stored: "wp (thenE (set_response tenant key code b) (ret None)) (idem_refines (Complete tenant key code body) w) w"
    if "b = (case body of RawJson b \<Rightarrow> Some b | _ \<Rightarrow> None)" for b
    unfolding that [symmetric] idem_step.simps
    by (rule wp_conseq [OF set_response_refines]) (auto simp: idem_refines_def that split: sum.splits option.splits)
  show ?thesis
  proof (cases body)
    case RawInvalid
    then show ?thesis
      by (simp add: complete_key_def) (intro wp_rules, simp_all add: idem_refines_def)
  qed (use stored in \<open>simp_all add: complete_key_def\<close>)
qed

lemma idem_step_refines: "wp (idem_step op) (idem_refines op w) w"
  by (cases op) (simp_all only: reserve_refines complete_refines)

fun idem_run :: "idem_op list \<Rightarrow> world \<Rightarrow> (idem_op \<times> (err + idem_outcome option)) list" where
  "idem_run [] w = []"
| "idem_run (op # ops) w = (case idem_step op w of (r, w') \<Rightarrow> (op, r) # idem_run ops w')"

definition claims :: "uuid \<Rightarrow> string \<Rightarrow> (idem_op \<times> (err + idem_outcome option)) list \<Rightarrow> nat" where
  "claims tenant key xs = count_where (\<lambda>x. x = (Reserve tenant key, Inr (Some Claimed))) xs"

text \<open>The response of the last \<open>Complete\<close> of the key that succeeded.\<close>

fun answered :: "uuid \<Rightarrow> string \<Rightarrow> (idem_op \<times> (err + idem_outcome option)) list \<Rightarrow> (int \<times> json option) option \<Rightarrow> (int \<times> json option) option" where
  "answered tenant key [] r = r"
| "answered tenant key ((op, out) # xs) r = answered tenant key xs (case (op, out) of
       (Complete t k code body, Inr _) \<Rightarrow>
         if t = tenant \<and> k = key then Some (code, case body of RawJson b \<Rightarrow> Some b | _ \<Rightarrow> None) else r
     | _ \<Rightarrow> r)"

definition replays :: "uuid \<Rightarrow> string \<Rightarrow> (int \<times> json option) option \<Rightarrow> (idem_op \<times> (err + idem_outcome option)) list \<Rightarrow> bool" where
  "replays tenant key r xs \<longleftrightarrow> (\<forall>i < length xs. \<forall>code body. xs ! i = (Reserve tenant key, Inr (Some (Completed code body))) \<longrightarrow>
     answered tenant key (take i xs) r = Some (code, body))"

lemma replays_Cons:
  "replays tenant key r (x # xs) \<longleftrightarrow>
     (\<forall>code body. x = (Reserve tenant key, Inr (Some (Completed code body))) \<longrightarrow> r = Some (code, body)) \<and>
     replays tenant key (answered tenant key [x] r) xs"
  by (cases x) (simp add: replays_def All_less_Suc2 nth_Cons' all_conj_distrib)

definition known_response :: "key_states \<Rightarrow> uuid \<Rightarrow> string \<Rightarrow> (int \<times> json option) option \<Rightarrow> bool" where
  "known_response ks tenant key r \<longleftrightarrow> (\<forall>a. ks (tenant, key) = Some (Some a) \<longrightarrow> r = Some a)"

lemma idem_run_log:
  "known_response (key_states_of (idempotency_keys w)) tenant key r \<Longrightarrow>
   claims tenant key (idem_run ops w) \<le> (if key_states_of (idempotency_keys w) (tenant, key) = None then 1 else 0) \<and>
   replays tenant key r (idem_run ops w)"
proof (induction ops arbitrary: w r)
  case Nil
  then show ?case by (simp add: claims_def replays_def)
next
  case (Cons op ops)
  obtain out w' where step: "idem_step op w = (out, w')" by fastforce
  have ref: "idem_refines op w out w'" using wpD [OF idem_step_refines step] .
  let ?r = "answered tenant key [(op, out)] r"
  have "known_response (key_states_of (idempotency_keys w')) tenant key ?r"
    using ref Cons.prems
    by (cases op; cases out) (auto simp: idem_refines_def known_response_def split: option.splits if_splits)
  note IH = Cons.IH [OF this]
  show ?case
    using IH ref Cons.prems step
    by (cases op; cases out)
      (auto simp: replays_Cons claims_def idem_refines_def known_response_def split: option.splits if_splits)
qed

text \<open>
  However the calls interleave and whichever statements fail, a tenant's key is claimed at most
  once, and a request that is answered from the store gets the response of the last \<open>Complete\<close> of
  that key that succeeded before it.
\<close>

lemma key_claimed_once:
  assumes "idempotency_keys w = []"
  shows "claims tenant key (idem_run ops w) \<le> 1 \<and> replays tenant key None (idem_run ops w)"
proof -
  have "known_response (key_states_of (idempotency_keys w)) tenant key None"
    using assms by (simp add: known_response_def key_states_of_def)
  from idem_run_log [OF this, of ops] show ?thesis by (auto split: if_splits)
qed

end
