(* ===== verification/Tenant.thy ===== *)
theory Tenant
  imports Gateway Compliance
begin

text \<open>
  The tenants of \<^verbatim>\<open>internal/tenant\<close>: their accounts, portal logins, API keys, corridor
  entitlements and webhook endpoints, and the check of an outbound webhook's destination
  (\<^verbatim>\<open>internal/platform/webhookurl\<close>). The columns of the tables are the records of \<open>Schema\<close>; a
  token is the hexadecimal text of random bytes, of which the tables keep the SHA-256 only.
  The lemmas show that a dead credential stays dead, that a login link is good for one login, that a
  tenant cannot undo what an administrator switched off, and what the middleware of \<open>Gateway\<close>
  guarantees when this package looks the keys up.
\<close>

definition PortalMagicLinkTTL :: time where "PortalMagicLinkTTL = 15 * minute"
definition PortalSessionTTL :: time where "PortalSessionTTL = 12 * 60 * minute"

definition StatusPendingKYB :: string where "StatusPendingKYB = ''pending_kyb''"
definition StatusActive :: string where "StatusActive = ''active''"
definition StatusSuspended :: string where "StatusSuspended = ''suspended''"
definition StatusDeleted :: string where "StatusDeleted = ''deleted''"

lemmas tenant_statuses = StatusPendingKYB_def StatusActive_def StatusSuspended_def StatusDeleted_def

abbreviation "TenantNotFound \<equiv> Sentinel ''tenant: not found''"
abbreviation "ErrInvalidStatusTransition \<equiv> Sentinel ''tenant: invalid status transition''"
abbreviation "ErrInvalidWebhookURL \<equiv> Sentinel ''tenant: invalid webhook url''"
abbreviation "ErrEmailTaken \<equiv> Sentinel ''tenant: email already registered''"
abbreviation "ErrInvalidMagicLink \<equiv> Sentinel ''tenant: invalid or expired magic link''"
abbreviation "ErrPortalSessionInvalid \<equiv> Sentinel ''tenant: invalid or expired session''"
abbreviation "ErrEmailDeliveryUnavailable \<equiv> Sentinel ''tenant: email delivery not configured''"
abbreviation "ErrInvalidPortalURL \<equiv> Sentinel ''tenant: invalid portal_url''"
abbreviation "ErrJurisdictionNotApproved \<equiv> Sentinel ''tenant: jurisdiction not approved by KYB''"
abbreviation "ErrEntitlementDisabledByAdmin \<equiv> Sentinel ''tenant: corridor disabled by an admin''"
abbreviation "ErrTenantNotActive \<equiv> Sentinel ''tenant: tenant is not active''"

section \<open>Random tokens\<close>

text \<open>\<open>rand.Read\<close> does not fail (Go 1.24 and later stop the process instead).\<close>

definition random_bytes :: "nat \<Rightarrow> string run" where
  "random_bytes n = bindE (gets (\<lambda>w. x_random (env w) (uuid_next w) n)) (\<lambda>s.
     thenE (modify (\<lambda>w. w\<lparr>uuid_next := Suc (uuid_next w)\<rparr>)) (ret s))"

definition random_hex :: "nat \<Rightarrow> string run" where
  "random_hex n = bindE (random_bytes n) (\<lambda>b. ret (hex_encode b))"

definition hash_token :: "externals \<Rightarrow> string \<Rightarrow> string" where
  "hash_token e token = hex_encode (x_sha256 e token)"

definition new_portal_token :: "(string \<times> string) run" where
  "new_portal_token = bindE (random_hex 32) (\<lambda>raw. bindE (gets env) (\<lambda>e. ret (raw, hash_token e raw)))"

section \<open>Accounts\<close>

definition find_tenant :: "uuid \<Rightarrow> world \<Rightarrow> tenant option" where
  "find_tenant i w = find (\<lambda>t. tn_id t = i) (tenants w)"

definition tenant_row :: "string \<Rightarrow> string option \<Rightarrow> uuid \<Rightarrow> time \<Rightarrow> tenant" where
  "tenant_row name email i t = \<lparr>tn_id = i, tn_name = name, tn_status = StatusPendingKYB, tn_email = email, tn_webhook = None,
     tn_secret = None, tn_created = t, tn_deleted = None\<rparr>"

definition insert_tenant :: "string \<Rightarrow> string option \<Rightarrow> uuid run" where
  "insert_tenant name email = stmt (bindE (gets (\<lambda>w. email \<noteq> None \<and> list_ex (\<lambda>t. tn_email t = email) (tenants w))) (\<lambda>dup.
     if dup then fail (UniqueErr ''tenants_contact_email_key'')
     else bindE gen_uuid (\<lambda>i. thenE (modify (\<lambda>w. w\<lparr>tenants := tenants w @ [tenant_row name email i (now w)]\<rparr>)) (ret i))))"

definition create_tenant :: "string \<Rightarrow> uuid run" where
  "create_tenant name = insert_tenant name None"

definition register_tenant :: "string \<Rightarrow> string \<Rightarrow> uuid run" where
  "register_tenant name email = onErr (insert_tenant name (Some email))
     (\<lambda>e. case e of UniqueErr _ \<Rightarrow> fail ErrEmailTaken | _ \<Rightarrow> fail e)"

definition get_tenant :: "uuid \<Rightarrow> tenant run" where
  "get_tenant i = bindE (query (find_tenant i)) (\<lambda>r. case r of None \<Rightarrow> fail TenantNotFound | Some t \<Rightarrow> ret t)"

definition list_tenants :: "string option \<Rightarrow> int \<Rightarrow> int \<Rightarrow> (tenant list \<times> nat) run" where
  "list_tenants status limit offset = (let wanted = (\<lambda>t. status = None \<or> status = Some (tn_status t)) in
     bindE (query (\<lambda>w. count_where wanted (tenants w))) (\<lambda>total.
     bindE (query (\<lambda>w. page limit offset (sort_key (\<lambda>t. - tn_created t) (filter wanted (tenants w))))) (\<lambda>rows.
     ret (rows, total))))"

text \<open>\<open>UPDATE tenants SET .. WHERE id = $1 AND ..\<close>, and the number of rows it changed.\<close>

definition update_tenant :: "uuid \<Rightarrow> (tenant \<Rightarrow> bool) \<Rightarrow> (time \<Rightarrow> tenant \<Rightarrow> tenant) \<Rightarrow> unit run" where
  "update_tenant i c f = bindE (stmt (bindE (gets (\<lambda>w. count_where (\<lambda>t. tn_id t = i \<and> c t) (tenants w))) (\<lambda>n.
       thenE (modify (\<lambda>w. w\<lparr>tenants := update_where (\<lambda>t. tn_id t = i \<and> c t) (f (now w)) (tenants w)\<rparr>)) (ret n))))
     (\<lambda>n. guardE (n \<noteq> 0) ErrInvalidStatusTransition)"

definition delete_sessions :: "uuid \<Rightarrow> unit run" where
  "delete_sessions i = exec (\<lambda>w. w\<lparr>portal_sessions := filter (\<lambda>s. po_tenant s \<noteq> i) (portal_sessions w)\<rparr>)"

definition revoke_keys :: "(api_key \<Rightarrow> bool) \<Rightarrow> world \<Rightarrow> world" where
  "revoke_keys c w = w\<lparr>api_keys := update_where (\<lambda>k. c k \<and> ak_active k)
     (\<lambda>k. k\<lparr>ak_active := False, ak_revoked := Some (now w)\<rparr>) (api_keys w)\<rparr>"

definition approve_kyb :: "uuid \<Rightarrow> unit run" where
  "approve_kyb i = update_tenant i (\<lambda>t. tn_status t = StatusPendingKYB) (\<lambda>_ t. t\<lparr>tn_status := StatusActive\<rparr>)"

definition suspend :: "uuid \<Rightarrow> unit run" where
  "suspend i = atomically (thenE begin_tx
     (thenE (update_tenant i (\<lambda>t. tn_status t \<noteq> StatusSuspended) (\<lambda>_ t. t\<lparr>tn_status := StatusSuspended\<rparr>))
     (thenE (delete_sessions i) commit_tx)))"

definition delete_account :: "uuid \<Rightarrow> unit run" where
  "delete_account i = atomically (thenE begin_tx
     (thenE (update_tenant i (\<lambda>t. tn_status t \<noteq> StatusDeleted) (\<lambda>n t. t\<lparr>tn_status := StatusDeleted, tn_deleted := Some n\<rparr>))
     (thenE (delete_sessions i)
     (thenE (exec (revoke_keys (\<lambda>k. ak_tenant k = i))) commit_tx))))"

definition restore_account :: "uuid \<Rightarrow> unit run" where
  "restore_account i = update_tenant i (\<lambda>t. tn_status t = StatusDeleted) (\<lambda>_ t. t\<lparr>tn_status := StatusPendingKYB, tn_deleted := None\<rparr>)"

section \<open>API keys\<close>

definition list_api_keys :: "uuid \<Rightarrow> (api_key list) run" where
  "list_api_keys i = query (\<lambda>w. sort_key (\<lambda>k. - ak_created k) (filter (\<lambda>k. ak_tenant k = i) (api_keys w)))"

definition revoke_api_key :: "uuid \<Rightarrow> uuid \<Rightarrow> unit run" where
  "revoke_api_key tenant i = bindE (stmt (bindE (gets (\<lambda>w. count_where (\<lambda>k. ak_id k = i \<and> ak_tenant k = tenant \<and> ak_active k) (api_keys w)))
       (\<lambda>n. thenE (modify (revoke_keys (\<lambda>k. ak_id k = i \<and> ak_tenant k = tenant))) (ret n))))
     (\<lambda>n. guardE (n \<noteq> 0) TenantNotFound)"

definition key_row_for :: "uuid \<Rightarrow> string \<Rightarrow> string \<Rightarrow> string list \<Rightarrow> uuid \<Rightarrow> time \<Rightarrow> api_key" where
  "key_row_for tenant key secret perms i t = \<lparr>ak_id = i, ak_tenant = tenant, ak_key = key, ak_secret = secret, ak_active = True,
     ak_created = t, ak_revoked = None, ak_tier = ''standard'', ak_cidrs = [], ak_permissions = perms\<rparr>"

definition insert_key :: "uuid \<Rightarrow> string \<Rightarrow> string \<Rightarrow> string list \<Rightarrow> unit run" where
  "insert_key tenant key secret perms = stmt (bindE (gets (\<lambda>w. list_ex (\<lambda>k. ak_key k = key) (api_keys w))) (\<lambda>dup.
     if dup then fail (UniqueErr ''tenant_api_keys_api_key_key'')
     else bindE gen_uuid (\<lambda>i. modify (\<lambda>w. w\<lparr>api_keys := api_keys w @ [key_row_for tenant key secret perms i (now w)]\<rparr>))))"

definition encrypt_secret :: "string \<Rightarrow> string run" where
  "encrypt_secret s = bindE (gets (\<lambda>w. x_encrypt (env w) (uuid_next w) (cfg_secret_key (env w)) s)) lift_sum"

definition decrypt_secret :: "string \<Rightarrow> string run" where
  "decrypt_secret s = bindE (gets (\<lambda>w. x_decrypt (env w) (cfg_secret_key (env w)) s)) lift_sum"

definition issue_api_key :: "uuid \<Rightarrow> string list \<Rightarrow> (string \<times> string) run" where
  "issue_api_key tenant perms = bindE (get_tenant tenant) (\<lambda>t.
     if tn_status t \<noteq> StatusActive then fail (OtherErr ''tenant: cannot issue credentials'')
     else bindE (random_hex 16) (\<lambda>suffix. bindE (random_hex 32) (\<lambda>secret. bindE (encrypt_secret secret) (\<lambda>enc.
       thenE (insert_key tenant (''pk_'' @ suffix) enc perms) (ret (''pk_'' @ suffix, secret))))))"

definition find_key :: "string \<Rightarrow> world \<Rightarrow> (api_key \<times> string) option" where
  "find_key key w = (case find (\<lambda>k. ak_key k = key) (api_keys w) of
       None \<Rightarrow> None
     | Some k \<Rightarrow> map_option (\<lambda>t. (k, tn_status t)) (find_tenant (ak_tenant k) w))"

definition lookup_hmac_secret :: "string \<Rightarrow> credentials option run" where
  "lookup_hmac_secret key = bindE (query (find_key key)) (\<lambda>r. case r of
       None \<Rightarrow> ret None
     | Some (k, status) \<Rightarrow>
         if \<not> ak_active k \<or> status \<noteq> StatusActive then ret None
         else bindE (decrypt_secret (ak_secret k)) (\<lambda>secret.
           ret (Some \<lparr>cd_secret = secret, cd_tenant = ak_tenant k, cd_key = ak_id k, cd_tier = ak_tier k,
             cd_cidrs = ak_cidrs k, cd_permissions = ak_permissions k\<rparr>)))"

section \<open>The portal's URLs\<close>

definition allowed_origins :: "externals \<Rightarrow> string list" where
  "allowed_origins e = map (\<lambda>o'. to_lower (trim_slashes o')) (cfg_origins e)"

definition url_origin :: "url_parts \<Rightarrow> string" where
  "url_origin u = to_lower (ur_scheme u @ ''://'' @ ur_host u)"

definition validate_portal_url :: "externals \<Rightarrow> string \<Rightarrow> url_parts option" where
  "validate_portal_url e raw = (if raw = '''' then None
     else case x_url e raw of
       None \<Rightarrow> None
     | Some u \<Rightarrow>
         if (ur_scheme u \<noteq> ''https'' \<and> ur_scheme u \<noteq> ''http'') \<or> ur_host u = '''' \<or> ur_opaque u then None
         else if ur_user u \<or> ur_query u \<or> ur_fragment u then None
         else if url_origin u \<notin> set (allowed_origins e) then None
         else Some u)"

text \<open>\<open>URL.String\<close> and \<open>url.Values.Encode\<close>: the bytes a part of a URL keeps, the others escaped.\<close>

definition is_alnum :: "char \<Rightarrow> bool" where
  "is_alnum c \<longleftrightarrow> is_digit c \<or> (65 \<le> byte c \<and> byte c \<le> 90) \<or> (97 \<le> byte c \<and> byte c \<le> 122)"

definition path_char :: "char \<Rightarrow> bool" where
  "path_char c \<longleftrightarrow> is_alnum c \<or> c \<in> set ''-_.~$&+,/:;=@''"

definition host_char :: "char \<Rightarrow> bool" where
  "host_char c \<longleftrightarrow> is_alnum c \<or> c \<in> set ''-_.~$&+,:;=!()*[]<>'' \<or> byte c = 34 \<or> byte c = 39"

definition query_char :: "char \<Rightarrow> bool" where
  "query_char c \<longleftrightarrow> is_alnum c \<or> c \<in> set ''-_.~''"

definition url_escape :: "(char \<Rightarrow> bool) \<Rightarrow> string \<Rightarrow> string" where
  "url_escape keep s = concat (map (\<lambda>c. if keep c then [c] else ''%'' @ to_upper (hex_encode [c])) s)"

definition query_escape :: "string \<Rightarrow> string" where
  "query_escape s = concat (map (\<lambda>c. if byte c = 32 then ''+'' else url_escape query_char [c]) s)"

definition link_text :: "url_parts \<Rightarrow> string \<Rightarrow> string" where
  "link_text u token = ur_scheme u @ ''://'' @ url_escape host_char (ur_host u) @
     (let path = url_escape path_char (trim_slashes (ur_path u) @ ''/verify'') in if hd path = CHR ''/'' then path else ''/'' @ path) @
     ''?token='' @ query_escape token"

definition magic_link_email_body :: "string \<Rightarrow> url_parts \<Rightarrow> string" where
  "magic_link_email_body token u = ''Use this link to sign in: '' @ link_text u token @
     [CHR 0x0A, CHR 0x0A] @ ''This link expires in '' @ dec_int (PortalMagicLinkTTL div minute) @ '' minutes and can only be used once.''"

section \<open>Login links and portal sessions\<close>

definition locked_out :: "string \<Rightarrow> bool" where
  "locked_out status \<longleftrightarrow> status = StatusSuspended \<or> status = StatusDeleted"

definition insert_link :: "string \<Rightarrow> uuid \<Rightarrow> unit run" where
  "insert_link h tenant = stmt (bindE (gets (\<lambda>w. list_ex (\<lambda>l. ml_hash l = h) (magic_links w))) (\<lambda>dup.
     if dup then fail (UniqueErr ''tenant_magic_links_pkey'')
     else modify (\<lambda>w. w\<lparr>magic_links := magic_links w @
       [\<lparr>ml_hash = h, ml_tenant = tenant, ml_expires = now w + PortalMagicLinkTTL, ml_consumed = None\<rparr>]\<rparr>)))"

text \<open>\<open>newEmailProvider\<close>: any name but \<open>resend\<close> gives the stub, which is off.\<close>

definition email_enabled :: "externals \<Rightarrow> bool" where
  "email_enabled e \<longleftrightarrow> em_provider (cfg_email e) = ''resend'' \<and> em_enabled (cfg_email e)"

definition send_email :: "string \<Rightarrow> string \<Rightarrow> string \<Rightarrow> string option run" where
  "send_email to subject body = ask (CallEmail to subject body) (\<lambda>e l. x_email e l to subject body)"

definition request_magic_link :: "string \<Rightarrow> string \<Rightarrow> unit run" where
  "request_magic_link email portal = bindE (gets (\<lambda>w. validate_portal_url (env w) portal)) (\<lambda>u. case u of
       None \<Rightarrow> fail ErrInvalidPortalURL
     | Some base \<Rightarrow> bindE (query (\<lambda>w. find (\<lambda>t. tn_email t = Some email) (tenants w))) (\<lambda>r. case r of
         None \<Rightarrow> fail TenantNotFound
       | Some t \<Rightarrow> if locked_out (tn_status t) then fail TenantNotFound
           else bindE new_portal_token (\<lambda>(token, h). thenE (insert_link h (tn_id t))
             (bindE (gets (\<lambda>w. email_enabled (env w))) (\<lambda>on.
               if \<not> on then fail ErrEmailDeliveryUnavailable
               else bindE (send_email email ''Your 2Settle dashboard login link'' (magic_link_email_body token base)) (\<lambda>e.
                 guardE (e = None) (OtherErr ''tenant: send magic link email'')))))))"

text \<open>\<open>JOIN tenants\<close>: the row with the status of its tenant.\<close>

definition link_with_status :: "string \<Rightarrow> world \<Rightarrow> (magic_link \<times> string) option" where
  "link_with_status h w = (case find (\<lambda>l. ml_hash l = h) (magic_links w) of
       None \<Rightarrow> None
     | Some l \<Rightarrow> map_option (\<lambda>t. (l, tn_status t)) (find_tenant (ml_tenant l) w))"

definition consume_link :: "string \<Rightarrow> nat run" where
  "consume_link h = stmt (bindE (gets (\<lambda>w. count_where (\<lambda>l. ml_hash l = h \<and> ml_consumed l = None) (magic_links w))) (\<lambda>n.
     thenE (modify (\<lambda>w. w\<lparr>magic_links := update_where (\<lambda>l. ml_hash l = h \<and> ml_consumed l = None)
       (\<lambda>l. l\<lparr>ml_consumed := Some (now w)\<rparr>) (magic_links w)\<rparr>)) (ret n)))"

definition insert_portal_session :: "string \<Rightarrow> uuid \<Rightarrow> unit run" where
  "insert_portal_session h tenant = stmt (bindE (gets (\<lambda>w. list_ex (\<lambda>s. po_hash s = h) (portal_sessions w))) (\<lambda>dup.
     if dup then fail (UniqueErr ''tenant_sessions_pkey'')
     else modify (\<lambda>w. w\<lparr>portal_sessions := portal_sessions w @
       [\<lparr>po_hash = h, po_tenant = tenant, po_expires = now w + PortalSessionTTL\<rparr>]\<rparr>)))"

definition verify_magic_link :: "string \<Rightarrow> (string \<times> uuid) run" where
  "verify_magic_link token = bindE (gets (\<lambda>w. hash_token (env w) token)) (\<lambda>h. bindE (query (link_with_status h)) (\<lambda>r. case r of
       None \<Rightarrow> fail ErrInvalidMagicLink
     | Some (l, status) \<Rightarrow> bindE (gets now) (\<lambda>n.
         if ml_consumed l \<noteq> None \<or> n > ml_expires l then fail ErrInvalidMagicLink
         else if locked_out status then fail ErrInvalidMagicLink
         else bindE (consume_link h) (\<lambda>k.
           if k = 0 then fail ErrInvalidMagicLink
           else bindE new_portal_token (\<lambda>(session, sh). thenE (insert_portal_session sh (ml_tenant l)) (ret (session, ml_tenant l)))))))"

definition session_with_status :: "string \<Rightarrow> world \<Rightarrow> (portal_session \<times> string) option" where
  "session_with_status h w = (case find (\<lambda>s. po_hash s = h) (portal_sessions w) of
       None \<Rightarrow> None
     | Some s \<Rightarrow> map_option (\<lambda>t. (s, tn_status t)) (find_tenant (po_tenant s) w))"

definition authenticate_session :: "string \<Rightarrow> uuid run" where
  "authenticate_session token = bindE (gets (\<lambda>w. hash_token (env w) token)) (\<lambda>h. bindE (query (session_with_status h)) (\<lambda>r. case r of
       None \<Rightarrow> fail ErrPortalSessionInvalid
     | Some (s, status) \<Rightarrow> if locked_out status then fail ErrPortalSessionInvalid
         else bindE (gets now) (\<lambda>n. if n > po_expires s then fail ErrPortalSessionInvalid else ret (po_tenant s))))"

definition logout :: "string \<Rightarrow> unit run" where
  "logout token = bindE (gets (\<lambda>w. hash_token (env w) token)) (\<lambda>h.
     exec (\<lambda>w. w\<lparr>portal_sessions := filter (\<lambda>s. po_hash s \<noteq> h) (portal_sessions w)\<rparr>))"

definition logout_all :: "uuid \<Rightarrow> unit run" where
  "logout_all tenant = delete_sessions tenant"

text \<open>The bearer token of a portal request, and the tenant it stands for.\<close>

definition portal_middleware :: "http_request \<Rightarrow> (string + uuid) run" where
  "portal_middleware r = (case cut_prefix (rq_header r ''Authorization'') ''Bearer '' of
       None \<Rightarrow> ret (Inl ''missing bearer token'')
     | Some token \<Rightarrow> if token = '''' then ret (Inl ''missing bearer token'')
         else bindE (attemptE (authenticate_session token)) (\<lambda>a. case a of
           Inl _ \<Rightarrow> ret (Inl ''unauthorized'') | Inr tenant \<Rightarrow> ret (Inr tenant)))"

section \<open>Corridor entitlements\<close>

definition entitled :: "uuid \<Rightarrow> uuid \<Rightarrow> entitlement \<Rightarrow> bool" where
  "entitled tenant cid en \<longleftrightarrow> en_tenant en = tenant \<and> en_corridor en = cid"

text \<open>The foreign keys of a new row.\<close>

definition entitlement_refs :: "uuid \<Rightarrow> uuid \<Rightarrow> world \<Rightarrow> bool" where
  "entitlement_refs tenant cid w \<longleftrightarrow> find_tenant tenant w \<noteq> None \<and> list_ex (\<lambda>c. co_id c = cid) (corridors w)"

definition upsert_entitlement :: "uuid \<Rightarrow> uuid \<Rightarrow> (entitlement \<Rightarrow> bool) \<Rightarrow> (entitlement \<Rightarrow> entitlement) \<Rightarrow> bool \<Rightarrow> bool \<Rightarrow> nat run" where
  "upsert_entitlement tenant cid c f act dis = stmt (bindE (gets (\<lambda>w. (list_ex (entitled tenant cid) (entitlements w),
       count_where (\<lambda>en. entitled tenant cid en \<and> c en) (entitlements w), entitlement_refs tenant cid w))) (\<lambda>(dup, n, refs).
     if dup then thenE (modify (\<lambda>w. w\<lparr>entitlements := update_where (\<lambda>en. entitled tenant cid en \<and> c en) f (entitlements w)\<rparr>)) (ret n)
     else if \<not> refs then fail (ConstraintErr ''tenant_corridor_entitlements'')
     else thenE (modify (\<lambda>w. w\<lparr>entitlements := entitlements w @ [\<lparr>en_tenant = tenant, en_corridor = cid, en_active = act,
       en_fee_override = None, en_disabled_by_admin = dis\<rparr>]\<rparr>)) (ret 1)))"

definition set_corridor_entitlement :: "uuid \<Rightarrow> uuid \<Rightarrow> bool \<Rightarrow> unit run" where
  "set_corridor_entitlement tenant cid active = bindE (upsert_entitlement tenant cid (\<lambda>_. True)
     (\<lambda>en. en\<lparr>en_active := active, en_disabled_by_admin := \<not> active\<rparr>) active (\<not> active)) (\<lambda>_. ret ())"

definition check_corridor_jurisdiction :: "uuid \<Rightarrow> uuid \<Rightarrow> unit run" where
  "check_corridor_jurisdiction tenant cid = bindE (fiat_currency_for_corridor cid) (\<lambda>fiat.
     bindE (is_jurisdiction_approved tenant fiat) (\<lambda>ok. guardE ok ErrJurisdictionNotApproved))"

definition grant_corridor_entitlement :: "uuid \<Rightarrow> uuid \<Rightarrow> unit run" where
  "grant_corridor_entitlement tenant cid = thenE (check_corridor_jurisdiction tenant cid) (set_corridor_entitlement tenant cid True)"

definition enable_corridor_self_service :: "uuid \<Rightarrow> uuid \<Rightarrow> unit run" where
  "enable_corridor_self_service tenant cid = bindE (get_tenant tenant) (\<lambda>t.
     if tn_status t \<noteq> StatusActive then fail ErrTenantNotActive
     else thenE (check_corridor_jurisdiction tenant cid)
       (bindE (upsert_entitlement tenant cid (\<lambda>en. \<not> en_disabled_by_admin en) (\<lambda>en. en\<lparr>en_active := True\<rparr>) True False) (\<lambda>n.
         guardE (n \<noteq> 0) ErrEntitlementDisabledByAdmin)))"

definition disable_corridor_self_service :: "uuid \<Rightarrow> uuid \<Rightarrow> unit run" where
  "disable_corridor_self_service tenant cid = exec (\<lambda>w. w\<lparr>entitlements :=
     update_where (entitled tenant cid) (\<lambda>en. en\<lparr>en_active := False\<rparr>) (entitlements w)\<rparr>)"

definition list_corridor_entitlements :: "uuid \<Rightarrow> (entitlement list) run" where
  "list_corridor_entitlements tenant = query (\<lambda>w. filter (\<lambda>en. en_tenant en = tenant) (entitlements w))"

section \<open>Webhook endpoints\<close>

fun is_loopback :: "ip_address \<Rightarrow> bool" where
  "is_loopback (IPv4 a) \<longleftrightarrow> drop_bit 24 a = 127"
| "is_loopback (IPv6 a) \<longleftrightarrow> a = 1"

fun is_private :: "ip_address \<Rightarrow> bool" where
  "is_private (IPv4 a) \<longleftrightarrow> drop_bit 24 a = 10 \<or> drop_bit 20 a = 0xAC1 \<or> drop_bit 16 a = 0xC0A8"
| "is_private (IPv6 a) \<longleftrightarrow> drop_bit 121 a = 0x7E"

fun is_link_local_unicast :: "ip_address \<Rightarrow> bool" where
  "is_link_local_unicast (IPv4 a) \<longleftrightarrow> drop_bit 16 a = 0xA9FE"
| "is_link_local_unicast (IPv6 a) \<longleftrightarrow> drop_bit 118 a = 0x3FA"

fun is_link_local_multicast :: "ip_address \<Rightarrow> bool" where
  "is_link_local_multicast (IPv4 a) \<longleftrightarrow> drop_bit 8 a = 0xE00000"
| "is_link_local_multicast (IPv6 a) \<longleftrightarrow> drop_bit 120 a = 0xFF \<and> take_bit 4 (drop_bit 112 a) = 2"

fun is_unspecified :: "ip_address \<Rightarrow> bool" where
  "is_unspecified (IPv4 a) \<longleftrightarrow> a = 0"
| "is_unspecified (IPv6 a) \<longleftrightarrow> a = 0"

definition is_disallowed_ip :: "ip_address \<Rightarrow> bool" where
  "is_disallowed_ip ip \<longleftrightarrow> is_loopback ip \<or> is_private ip \<or> is_link_local_unicast ip \<or> is_link_local_multicast ip \<or> is_unspecified ip"

definition resolve_host :: "string \<Rightarrow> ip_address list option run" where
  "resolve_host h = ask (CallResolve h) (\<lambda>e l. x_resolve e l h)"

definition validate_webhook_url :: "string \<Rightarrow> unit run" where
  "validate_webhook_url raw = bindE (gets (\<lambda>w. x_url (env w) raw)) (\<lambda>u. case u of
       None \<Rightarrow> fail (OtherErr ''invalid url'')
     | Some p \<Rightarrow>
         if ur_scheme p \<noteq> ''https'' then fail (OtherErr ''must use https'')
         else if ur_hostname p = '''' then fail (OtherErr ''missing host'')
         else bindE (resolve_host (ur_hostname p)) (\<lambda>ips. case ips of
             None \<Rightarrow> fail (OtherErr ''could not resolve host'')
           | Some l \<Rightarrow> if l = [] then fail (OtherErr ''host resolved to no addresses'')
               else guardE (\<not> list_ex is_disallowed_ip l) (OtherErr ''resolves to a private/internal address'')))"

definition signing_secret_for :: "string option \<Rightarrow> (string \<times> string) run" where
  "signing_secret_for existing = (case existing of
       Some enc \<Rightarrow> ret ('''', enc)
     | None \<Rightarrow> bindE (random_hex 32) (\<lambda>secret. bindE (encrypt_secret secret) (\<lambda>enc. ret (secret, enc))))"

definition set_webhook_url :: "uuid \<Rightarrow> string \<Rightarrow> string run" where
  "set_webhook_url tenant url = thenE (onErr (validate_webhook_url url) (\<lambda>_. fail ErrInvalidWebhookURL))
     (bindE (query (find_tenant tenant)) (\<lambda>r. case r of
         None \<Rightarrow> fail TenantNotFound
       | Some t \<Rightarrow> bindE (signing_secret_for (tn_secret t)) (\<lambda>(secret, enc).
           thenE (exec (\<lambda>w. w\<lparr>tenants := update_where (\<lambda>t. tn_id t = tenant)
             (\<lambda>t. t\<lparr>tn_webhook := Some url, tn_secret := Some enc\<rparr>) (tenants w)\<rparr>)) (ret secret))))"

definition webhook_config :: "uuid \<Rightarrow> (string \<times> string) option run" where
  "webhook_config tenant = bindE (query (find_tenant tenant)) (\<lambda>r. case r of
       None \<Rightarrow> ret None
     | Some t \<Rightarrow> (case (tn_webhook t, tn_secret t) of
         (Some url, Some enc) \<Rightarrow> bindE (decrypt_secret enc) (\<lambda>secret. ret (Some (url, secret)))
       | _ \<Rightarrow> ret None))"

section \<open>Runs\<close>

text \<open>
  Everything this package does to its tables, in any order, with any failures of the statements,
  and with the time and the decisions of compliance changing between two operations
  (\<open>TOther\<close> stands for whatever another component does to its own tables).
\<close>

datatype tenant_op =
    TCreate string
  | TRegister string string
  | TRequestLink string string
  | TVerifyLink string
  | TLogout string
  | TLogoutAll uuid
  | TApprove uuid
  | TSuspend uuid
  | TDelete uuid
  | TRestore uuid
  | TIssueKey uuid "string list"
  | TRevokeKey uuid uuid
  | TSetEntitlement uuid uuid bool
  | TGrant uuid uuid
  | TEnable uuid uuid
  | TDisable uuid uuid
  | TSetWebhook uuid string
  | TRequest http_request
  | TOther time "bool list" "compliance_case list" "corridor list" "ext_call list"

definition other_component :: "time \<Rightarrow> bool list \<Rightarrow> compliance_case list \<Rightarrow> corridor list \<Rightarrow> ext_call list \<Rightarrow> unit run" where
  "other_component t fs cs crs calls =
     modify (\<lambda>w. w\<lparr>now := t, faults := fs, cases := cs, corridors := crs, ext_log := ext_log w @ calls\<rparr>)"

fun tenant_step :: "tenant_op \<Rightarrow> unit run" where
  "tenant_step (TCreate name) = bindE (create_tenant name) (\<lambda>_. ret ())"
| "tenant_step (TRegister name email) = bindE (register_tenant name email) (\<lambda>_. ret ())"
| "tenant_step (TRequestLink email url) = request_magic_link email url"
| "tenant_step (TVerifyLink token) = bindE (verify_magic_link token) (\<lambda>_. ret ())"
| "tenant_step (TLogout token) = logout token"
| "tenant_step (TLogoutAll i) = logout_all i"
| "tenant_step (TApprove i) = approve_kyb i"
| "tenant_step (TSuspend i) = suspend i"
| "tenant_step (TDelete i) = delete_account i"
| "tenant_step (TRestore i) = restore_account i"
| "tenant_step (TIssueKey i perms) = bindE (issue_api_key i perms) (\<lambda>_. ret ())"
| "tenant_step (TRevokeKey i k) = revoke_api_key i k"
| "tenant_step (TSetEntitlement i c active) = set_corridor_entitlement i c active"
| "tenant_step (TGrant i c) = grant_corridor_entitlement i c"
| "tenant_step (TEnable i c) = enable_corridor_self_service i c"
| "tenant_step (TDisable i c) = disable_corridor_self_service i c"
| "tenant_step (TSetWebhook i url) = bindE (set_webhook_url i url) (\<lambda>_. ret ())"
| "tenant_step (TRequest r) = bindE (hmac_middleware lookup_hmac_secret r) (\<lambda>_. ret ())"
| "tenant_step (TOther t fs cs crs calls) = other_component t fs cs crs calls"

text \<open>A run with the outcome of each operation, and the state it ends in.\<close>

fun tenant_run :: "tenant_op list \<Rightarrow> world \<Rightarrow> (tenant_op \<times> (err + unit)) list \<times> world" where
  "tenant_run [] w = ([], w)"
| "tenant_run (op # ops) w = (case tenant_step op w of (r, w') \<Rightarrow> (case tenant_run ops w' of (l, w'') \<Rightarrow> ((op, r) # l, w'')))"

lemma tenant_run_keeps:
  assumes "\<And>op. op \<in> set ops \<Longrightarrow> keeps P (tenant_step op)" and "P w"
  shows "P (snd (tenant_run ops w))"
  using assms
proof (induction ops arbitrary: w)
  case (Cons op ops)
  then have "P (snd (tenant_step op w))" by (simp add: keepsD)
  with Cons.IH [OF Cons.prems(1)] show ?case by (simp split: prod.split) (metis prod.sel(2))
qed simp

section \<open>Rows that are there for good\<close>

text \<open>There is a row with the key, and all of them have the property.\<close>

definition fixed_row :: "('r \<Rightarrow> bool) \<Rightarrow> ('r \<Rightarrow> bool) \<Rightarrow> 'r list \<Rightarrow> bool" where
  "fixed_row key good rs \<longleftrightarrow> (\<exists>r \<in> set rs. key r) \<and> (\<forall>r \<in> set rs. key r \<longrightarrow> good r)"

lemma fixed_row_update:
  "(\<And>r. c r \<Longrightarrow> key (f r) = key r) \<Longrightarrow> (\<And>r. c r \<Longrightarrow> key r \<Longrightarrow> good r \<Longrightarrow> good (f r)) \<Longrightarrow> fixed_row key good rs \<Longrightarrow>
   fixed_row key good (update_where c f rs)"
  unfolding fixed_row_def set_update_where by blast

lemma fixed_row_insert: "fixed_row key good rs \<Longrightarrow> (key r \<Longrightarrow> \<not> list_ex key rs) \<Longrightarrow> fixed_row key good (rs @ [r])"
  by (auto simp: fixed_row_def list_ex_iff)

lemma fixed_row_set: "\<exists>r \<in> set rs. key r \<and> c r \<Longrightarrow> (\<And>r. r \<in> set rs \<Longrightarrow> key r \<Longrightarrow> c r \<or> good r) \<Longrightarrow>
  (\<And>r. key (f r) = key r) \<Longrightarrow> (\<And>r. key r \<Longrightarrow> good (f r)) \<Longrightarrow> fixed_row key good (update_where c f rs)"
  unfolding fixed_row_def set_update_where by blast

lemma fixed_row_find: "fixed_row key good rs \<Longrightarrow> \<exists>r. find key rs = Some r \<and> good r"
  by (cases "find key rs") (auto simp: fixed_row_def find_None_iff dest: find_Some_mem)

lemma db_mono_table: "(\<And>w bs. f (w\<lparr>faults := bs\<rparr>) = f w) \<Longrightarrow> (\<And>w n. f (w\<lparr>uuid_next := n\<rparr>) = f w) \<Longrightarrow> db_mono (\<lambda>w. P (f w))"
  by (simp add: db_mono_def)

lemmas tenant_steps_but_entitlements = create_tenant_def register_tenant_def insert_tenant_def get_tenant_def request_magic_link_def
  send_email_def verify_magic_link_def consume_link_def insert_portal_session_def logout_def logout_all_def delete_sessions_def
  approve_kyb_def suspend_def delete_account_def restore_account_def update_tenant_def revoke_api_key_def issue_api_key_def
  encrypt_secret_def decrypt_secret_def lookup_hmac_secret_def random_bytes_def random_hex_def new_portal_token_def
  grant_corridor_entitlement_def check_corridor_jurisdiction_def
  fiat_currency_for_corridor_def get_corridor_by_id_def is_jurisdiction_approved_def enable_corridor_self_service_def
  set_webhook_url_def validate_webhook_url_def resolve_host_def signing_secret_for_def
  hmac_middleware_def check_signature_def other_component_def

lemmas tenant_step_defs = tenant_steps_but_entitlements set_corridor_entitlement_def disable_corridor_self_service_def

definition dead_key :: "string \<Rightarrow> world \<Rightarrow> bool" where
  "dead_key key w \<longleftrightarrow> fixed_row (\<lambda>k. ak_key k = key) (\<lambda>k. \<not> ak_active k) (api_keys w)"

definition spent_link :: "string \<Rightarrow> world \<Rightarrow> bool" where
  "spent_link h w \<longleftrightarrow> fixed_row (\<lambda>l. ml_hash l = h) (\<lambda>l. ml_consumed l \<noteq> None) (magic_links w)"

definition switched_off :: "uuid \<Rightarrow> uuid \<Rightarrow> world \<Rightarrow> bool" where
  "switched_off tenant cid w \<longleftrightarrow> fixed_row (entitled tenant cid) (\<lambda>en. \<not> en_active en \<and> en_disabled_by_admin en) (entitlements w)"

lemma db_mono_rows: "db_mono (dead_key key)" "db_mono (spent_link h)" "db_mono (switched_off tenant cid)"
  by (simp_all add: db_mono_def dead_key_def spent_link_def switched_off_def)

lemma keeps_allow_request:
  "(\<And>w l. P w \<Longrightarrow> P (w\<lparr>limiter := l\<rparr>)) \<Longrightarrow> keeps P (allow_request key n)"
  by (simp add: keeps_def allow_request_def split: prod.split)

lemma keeps_inserts:
  "keeps (dead_key key) (insert_key tenant key' secret perms)" "keeps (spent_link h) (insert_link h' tenant)"
  "keeps (spent_link h) (insert_key tenant key' secret perms)" "keeps (dead_key key) (insert_link h' tenant)"
  "keeps (switched_off tenant' cid) (insert_link h' tenant)" "keeps (switched_off tenant' cid) (insert_key tenant key' secret perms)"
  "keeps (dead_key key) (upsert_entitlement tenant cid c f act dis)" "keeps (spent_link h) (upsert_entitlement tenant cid c f act dis)"
  unfolding insert_key_def insert_link_def upsert_entitlement_def
  by (rule keeps_wp; intro wp_rules; auto simp: dead_key_def spent_link_def switched_off_def key_row_for_def list_ex_iff intro!: fixed_row_insert)+

lemma keeps_email_taken: "keeps P (case e of UniqueErr _ \<Rightarrow> fail ErrEmailTaken | _ \<Rightarrow> fail e)"
  by (cases e) (simp_all add: keeps_rules)

lemma dead_key_step: "keeps (dead_key key) (tenant_step op)"
  by (cases op; hypsubst; unfold tenant_step.simps tenant_step_defs Let_def;
      intro keeps_rules keeps_allow_request keeps_inserts keeps_email_taken db_mono_rows; simp add: dead_key_def revoke_keys_def fixed_row_update)

lemma spent_link_step: "keeps (spent_link h) (tenant_step op)"
  by (cases op; hypsubst; unfold tenant_step.simps tenant_step_defs Let_def;
      intro keeps_rules keeps_allow_request keeps_inserts keeps_email_taken db_mono_rows;
      simp add: spent_link_def revoke_keys_def fixed_row_update)

lemma keeps_switched_off_upsert:
  assumes "\<And>en. entitled tenant' cid' (f en) = entitled tenant' cid' en"
    and "tenant' = tenant \<Longrightarrow> cid' = cid \<Longrightarrow> (\<And>en. c en \<Longrightarrow> \<not> en_active en \<and> en_disabled_by_admin en \<Longrightarrow> \<not> en_active (f en) \<and> en_disabled_by_admin (f en))"
    and "\<And>en. entitled tenant' cid' en \<Longrightarrow> entitled tenant cid (f en) = entitled tenant cid en"
  shows "keeps (switched_off tenant cid) (upsert_entitlement tenant' cid' c f act dis)"
proof -
  have "fixed_row (entitled tenant cid) (\<lambda>en. \<not> en_active en \<and> en_disabled_by_admin en) (update_where (\<lambda>en. entitled tenant' cid' en \<and> c en) f es)"
    if "fixed_row (entitled tenant cid) (\<lambda>en. \<not> en_active en \<and> en_disabled_by_admin en) es" for es
    by (rule fixed_row_update [OF _ _ that]) (use assms in \<open>auto simp: entitled_def\<close>)
  then show ?thesis
    unfolding upsert_entitlement_def
    by (intro keeps_wp wp_rules) (auto simp: switched_off_def entitled_def list_ex_iff intro!: fixed_row_insert)
qed

lemma switched_off_entitlements:
  "tenant' \<noteq> tenant \<or> cid' \<noteq> cid \<or> \<not> active \<Longrightarrow> keeps (switched_off tenant cid) (set_corridor_entitlement tenant' cid' active)"
  "keeps (switched_off tenant cid) (disable_corridor_self_service tenant' cid')"
  "keeps (switched_off tenant cid) (upsert_entitlement tenant' cid' (\<lambda>en. \<not> en_disabled_by_admin en) (\<lambda>en. en\<lparr>en_active := True\<rparr>) act dis)"
  unfolding set_corridor_entitlement_def disable_corridor_self_service_def
  by (intro keeps_rules keeps_switched_off_upsert db_mono_rows; auto simp: switched_off_def entitled_def intro!: fixed_row_update)+

lemma switched_off_step:
  assumes "op \<noteq> TGrant tenant cid" and "op \<noteq> TSetEntitlement tenant cid True"
  shows "keeps (switched_off tenant cid) (tenant_step op)"
  using assms
  by (cases op; hypsubst; unfold tenant_step.simps tenant_steps_but_entitlements Let_def;
      intro keeps_rules keeps_allow_request keeps_inserts keeps_email_taken switched_off_entitlements db_mono_rows)
    (simp_all add: switched_off_def revoke_keys_def)

lemma runs_keep:
  "dead_key key w \<Longrightarrow> dead_key key (snd (tenant_run ops w))"
  "spent_link h w \<Longrightarrow> spent_link h (snd (tenant_run ops w))"
  "switched_off tenant cid w \<Longrightarrow> (\<And>op. op \<in> set ops \<Longrightarrow> op \<noteq> TGrant tenant cid \<and> op \<noteq> TSetEntitlement tenant cid True) \<Longrightarrow>
   switched_off tenant cid (snd (tenant_run ops w))"
  using tenant_run_keeps [of ops "dead_key key"] tenant_run_keeps [of ops "spent_link h"] tenant_run_keeps [of ops "switched_off tenant cid"]
    dead_key_step spent_link_step switched_off_step by blast+

section \<open>Who is let in\<close>

text \<open>What the tables have to say of a credential.\<close>

definition valid_credential :: "world \<Rightarrow> string \<Rightarrow> credentials \<Rightarrow> bool" where
  "valid_credential w key cr \<longleftrightarrow> (\<exists>k t. find (\<lambda>k. ak_key k = key) (api_keys w) = Some k \<and> ak_active k \<and>
     find_tenant (ak_tenant k) w = Some t \<and> tn_status t = StatusActive \<and>
     x_decrypt (env w) (cfg_secret_key (env w)) (ak_secret k) = Inr (cd_secret cr) \<and> cd_tenant cr = ak_tenant k \<and>
     cd_key cr = ak_id k \<and> cd_cidrs cr = ak_cidrs k \<and> cd_permissions cr = ak_permissions k)"

lemma lookup_wp:
  "wp (lookup_hmac_secret key) (\<lambda>r w'. (\<exists>bs. w' = w\<lparr>faults := bs\<rparr>) \<and> (\<forall>cr. r = Inr (Some cr) \<longrightarrow> valid_credential w key cr)) w"
  unfolding lookup_hmac_secret_def decrypt_secret_def
  by (intro wp_rules) (auto simp: find_key_def valid_credential_def find_tenant_def split: option.splits)

interpretation creds: credential_lookup lookup_hmac_secret valid_credential
  using lookup_wp by unfold_locales (auto simp: wp_def)

text \<open>
  C4. A request that passes the middleware of the API carries a key that is active in the tables, of
  a tenant whose status is active, a time stamp within the allowed skew of the server's clock, a
  source address in the key's allowlist if it has one, and the HMAC-SHA256 of its canonical string
  under the key's decrypted secret; the identity handed on is that of the key.
\<close>

theorem granted_request_authentic:
  assumes "hmac_middleware lookup_hmac_secret r w = (Inr (Granted tenant key perms), w')"
  shows "\<exists>k t secret ts body. find (\<lambda>k. ak_key k = rq_header r ''X-API-Key'') (api_keys w) = Some k \<and>
    ak_active k \<and> find_tenant (ak_tenant k) w = Some t \<and> tn_status t = StatusActive \<and>
    tenant = ak_tenant k \<and> key = ak_id k \<and> perms = ak_permissions k \<and>
    parse_int64 10 (rq_header r ''X-Timestamp'') = Some ts \<and> \<bar>now w - ts * millisecond\<bar> \<le> cfg_clock_skew (env w) \<and>
    (ak_cidrs k = [] \<or> ip_allowed (env w) (client_ip r) (ak_cidrs k)) \<and> rq_body r = Some body \<and>
    x_decrypt (env w) (cfg_secret_key (env w)) (ak_secret k) = Inr secret \<and>
    rq_header r ''X-Signature'' = compute_signature (env w) secret (rq_method r) (rq_path r) (rq_header r ''X-Timestamp'') body"
  using wpD [OF creds.granted_signed assms]
  by (fastforce simp: creds.admits_def creds.signed_by_def valid_credential_def)

lemma rate_limited: "\<exists>ok l. allow_request key n w = (Inr ok, w\<lparr>limiter := l\<rparr>)"
  by (auto simp: allow_request_def split: prod.split)

text \<open>A tenant that is active, with one key and one login link, for the witnesses.\<close>

definition tenant_world :: world where
  "tenant_world = empty_world\<lparr>tenants := [(tenant_row ''bank'' (Some ''ops@bank'') ''t'' 0)\<lparr>tn_status := StatusActive\<rparr>],
     api_keys := [key_row_for ''t'' ''pk'' ''keysecret'' [] ''k'' 0],
     magic_links := [\<lparr>ml_hash = hash_token sample_env ''tok'', ml_tenant = ''t'', ml_expires = 1, ml_consumed = None\<rparr>]\<rparr>"

definition signed_request :: http_request where
  "signed_request = \<lparr>rq_method = ''GET'', rq_path = ''/v2/x'', rq_header = (\<lambda>h. if h = ''X-API-Key'' then ''pk'' else if h = ''X-Timestamp'' then ''0''
     else if h = ''X-Signature'' then compute_signature sample_env ''secret'' ''GET'' ''/v2/x'' ''0'' '''' else ''''), rq_body = Some '''', rq_remote = ''1.2.3.4:5''\<rparr>"

lemma signed_request_granted:
  "\<exists>w'. hmac_middleware lookup_hmac_secret signed_request tenant_world = (Inr (Granted ''t'' ''k'' []), w')"
proof -
  have ts: "parse_int64 10 ''0'' = Some 0" by code_simp
  have now: "now tenant_world = 0" "faults tenant_world = []" by (simp_all add: tenant_world_def empty_world_def)
  have key: "find_key ''pk'' tenant_world = Some (key_row_for ''t'' ''pk'' ''keysecret'' [] ''k'' 0, StatusActive)"
    by (simp add: find_key_def tenant_world_def empty_world_def key_row_for_def find_tenant_def tenant_row_def)
  have look: "lookup_hmac_secret ''pk'' tenant_world = (Inr (Some \<lparr>cd_secret = ''secret'', cd_tenant = ''t'', cd_key = ''k'', cd_tier = ''standard'',
      cd_cidrs = [], cd_permissions = []\<rparr>), tenant_world)"
    by (simp add: lookup_hmac_secret_def op_simps now key decrypt_secret_def)
      (simp add: key_row_for_def op_simps tenant_world_def empty_world_def sample_env_def)
  have lim: "fst (allow_request k 1000 tenant_world) = Inr True" for k
  proof -
    have "float64 0 = 0" by (simp add: float64_def)
    then have "estimate limit_window 0 \<lparr>bk_start = 0, bk_prev = 0, bk_curr = 0\<rparr> = 0" by (simp add: estimate_def)
    moreover have "float64 1000 = 1000" using float64_int [of 1000] by simp
    ultimately show ?thesis
      by (simp add: allow_request_def allow_def tenant_world_def empty_world_def roll_def Let_def limit_window_def minute_def second_def)
  qed
  have "env tenant_world = sample_env" by (simp add: tenant_world_def empty_world_def)
  moreover have "cfg_clock_skew sample_env = 300 * second" "compute_signature sample_env ''secret'' ''GET'' ''/v2/x'' ''0'' [] \<noteq> []"
    by (simp_all add: sample_env_def compute_signature_def)
  ultimately show ?thesis
    using rate_limited [of "''tenant:t''" 1000 tenant_world] lim [of "''tenant:t''"] ts look
    by (auto simp: hmac_middleware_def Let_def signed_request_def op_simps now check_signature_def limit_for_tier_def tier_limits_def second_def)
qed

theorem granted_request_authentic_witness:
  "\<exists>k. find (\<lambda>k. ak_key k = ''pk'') (api_keys tenant_world) = Some k \<and> ak_active k \<and> ak_tenant k = ''t''"
proof -
  obtain w' where "hmac_middleware lookup_hmac_secret signed_request tenant_world = (Inr (Granted ''t'' ''k'' []), w')"
    using signed_request_granted by blast
  from granted_request_authentic [OF this] show ?thesis by (auto simp: signed_request_def)
qed

lemma count_where_not_0: "count_where c rs \<noteq> 0 \<longleftrightarrow> (\<exists>r \<in> set rs. c r)"
  by (metis count_where_0_iff)

lemma fixed_row_revoked:
  assumes "k \<in> set ks" and "distinct (map ak_key ks)" and "c k"
  shows "fixed_row (\<lambda>k'. ak_key k' = ak_key k) (\<lambda>k. \<not> ak_active k)
    (update_where (\<lambda>k. c k \<and> ak_active k) (\<lambda>k. k\<lparr>ak_active := False, ak_revoked := t\<rparr>) ks)"
proof -
  have "k' = k" if "k' \<in> set ks" "ak_key k' = ak_key k" for k'
    using assms(1,2) that by (auto simp: distinct_map dest: inj_onD)
  moreover have "\<exists>r \<in> set (update_where (\<lambda>k. c k \<and> ak_active k) (\<lambda>k. k\<lparr>ak_active := False, ak_revoked := t\<rparr>) ks). ak_key r = ak_key k"
    using assms(1,3) by (intro bexI [of _ "if ak_active k then k\<lparr>ak_active := False, ak_revoked := t\<rparr> else k"]) (auto simp: set_update_where)
  moreover have "\<not> ak_active r" if "r \<in> set (update_where (\<lambda>k. c k \<and> ak_active k) (\<lambda>k. k\<lparr>ak_active := False, ak_revoked := t\<rparr>) ks)"
    "ak_key r = ak_key k" for r
    using that assms(3) \<open>\<And>k'. k' \<in> set ks \<Longrightarrow> ak_key k' = ak_key k \<Longrightarrow> k' = k\<close> unfolding set_update_where by auto
  ultimately show ?thesis by (auto simp: fixed_row_def)
qed

lemma delete_account_dead:
  assumes "delete_account i w = (Inr (), w')" and "k \<in> set (api_keys w)" and "ak_tenant k = i" and "distinct (map ak_key (api_keys w))"
  shows "dead_key (ak_key k) w'"
proof -
  let ?P = "\<lambda>r v. r = Inr () \<longrightarrow> api_keys v = update_where (\<lambda>k. ak_tenant k = i \<and> ak_active k)
     (\<lambda>k. k\<lparr>ak_active := False, ak_revoked := Some (now w)\<rparr>) (api_keys w)"
  have "wp (delete_account i) ?P w"
    unfolding delete_account_def update_tenant_def delete_sessions_def
    by (intro wp_rules) (simp_all add: revoke_keys_def)
  from wpD [OF this assms(1)] have "api_keys w' = update_where (\<lambda>k. ak_tenant k = i \<and> ak_active k)
     (\<lambda>k. k\<lparr>ak_active := False, ak_revoked := Some (now w)\<rparr>) (api_keys w)" by simp
  then show ?thesis
    using fixed_row_revoked [of k "api_keys w" "\<lambda>k. ak_tenant k = i" "Some (now w)"] assms by (simp add: dead_key_def)
qed

lemma revoke_api_key_dead:
  assumes "revoke_api_key tenant i w = (Inr (), w')" and "k \<in> set (api_keys w)" and "ak_tenant k = tenant" "ak_id k = i"
    and "distinct (map ak_key (api_keys w))"
  shows "dead_key (ak_key k) w'"
proof -
  let ?P = "\<lambda>r v. r = Inr () \<longrightarrow> api_keys v = update_where (\<lambda>k. (ak_id k = i \<and> ak_tenant k = tenant) \<and> ak_active k)
     (\<lambda>k. k\<lparr>ak_active := False, ak_revoked := Some (now w)\<rparr>) (api_keys w)"
  have "wp (revoke_api_key tenant i) ?P w"
    unfolding revoke_api_key_def by (intro wp_rules) (simp_all add: revoke_keys_def)
  from wpD [OF this assms(1)] have "api_keys w' = update_where (\<lambda>k. (ak_id k = i \<and> ak_tenant k = tenant) \<and> ak_active k)
     (\<lambda>k. k\<lparr>ak_active := False, ak_revoked := Some (now w)\<rparr>) (api_keys w)" by simp
  then show ?thesis
    using fixed_row_revoked [of k "api_keys w" "\<lambda>k. ak_id k = i \<and> ak_tenant k = tenant" "Some (now w)"] assms by (simp add: dead_key_def)
qed

lemma dead_key_denied:
  assumes "dead_key key w" and "rq_header r ''X-API-Key'' = key"
  shows "fst (hmac_middleware lookup_hmac_secret r w) \<noteq> Inr (Granted tenant i perms)"
proof
  assume "fst (hmac_middleware lookup_hmac_secret r w) = Inr (Granted tenant i perms)"
  then obtain w' where "hmac_middleware lookup_hmac_secret r w = (Inr (Granted tenant i perms), w')" by (metis prod.collapse)
  from wpD [OF creds.granted_signed this] obtain k where "find (\<lambda>k. ak_key k = key) (api_keys w) = Some k" "ak_active k"
    by (auto simp: creds.admits_def valid_credential_def assms(2))
  with fixed_row_find [OF assms(1) [unfolded dead_key_def]] show False by auto
qed

text \<open>
  A key that its tenant revoked, or that was there when its tenant deleted the account, never
  signs a request again: not after \<open>RestoreAccount\<close>, a new approval and new keys, nor after any other
  operations of tenants and administrators in any order, whatever statements fail and however the
  clock and the compliance decisions move.
\<close>

lemma revoked_key_stays_dead:
  assumes "k \<in> set (api_keys w)" and "ak_tenant k = tenant" and "distinct (map ak_key (api_keys w))"
    and "op = TDelete tenant \<or> op = TRevokeKey tenant (ak_id k)" and "tenant_step op w = (Inr (), w')"
    and "rq_header r ''X-API-Key'' = ak_key k"
  shows "fst (hmac_middleware lookup_hmac_secret r (snd (tenant_run ops w'))) \<noteq> Inr (Granted t i perms)"
proof -
  have "dead_key (ak_key k) w'"
    using assms delete_account_dead [of tenant w w' k] revoke_api_key_dead [of tenant "ak_id k" w w' k] by auto
  from dead_key_denied [OF runs_keep(1) [OF this] assms(6)] show ?thesis .
qed

section \<open>A login link is good for one login\<close>

lemma db_mono_env: "db_mono (\<lambda>w. env w = e)"
  by (simp add: db_mono_def)

lemma env_step: "keeps (\<lambda>w. env w = e) (tenant_step op)"
  by (cases op; hypsubst; unfold tenant_step.simps tenant_step_defs insert_key_def insert_link_def upsert_entitlement_def Let_def;
      intro keeps_rules keeps_allow_request keeps_email_taken db_mono_env; simp add: revoke_keys_def)

lemma verify_spends:
  "wp (verify_magic_link token) (\<lambda>r w'. \<forall>x. r = Inr x \<longrightarrow> spent_link (hash_token (env w) token) w') w"
proof -
  let ?h = "hash_token (env w) token"
  have spent: "spent_link ?h (v\<lparr>magic_links := update_where (\<lambda>l. ml_hash l = ?h \<and> ml_consumed l = None) (\<lambda>l. l\<lparr>ml_consumed := Some t\<rparr>) (magic_links v)\<rparr>)"
    if "count_where (\<lambda>l. ml_hash l = ?h \<and> ml_consumed l = None) (magic_links v) \<noteq> 0" for v :: world and t
    using that unfolding count_where_not_0 spent_link_def by (auto intro!: fixed_row_set)
  have "keeps (spent_link ?h) (bindE new_portal_token (\<lambda>(s, sh). thenE (insert_portal_session sh tn) (ret (s, tn))))" for tn
    unfolding new_portal_token_def random_hex_def random_bytes_def insert_portal_session_def
    by (intro keeps_rules db_mono_rows; simp add: spent_link_def)
  then have keeps: "wp (bindE new_portal_token (\<lambda>(s, sh). thenE (insert_portal_session sh tn) (ret (s, tn)))) (\<lambda>r w'. \<forall>x. r = Inr x \<longrightarrow> spent_link ?h w') v"
    if "spent_link ?h v" for v tn
    using that by (rule wp_keeps) simp
  show ?thesis
    unfolding verify_magic_link_def consume_link_def
    by (intro wp_rules keeps spent; simp)
qed

lemma spent_refused:
  assumes "spent_link (hash_token (env w) token) w"
  shows "wp (verify_magic_link token) (\<lambda>r w'. \<forall>x. r \<noteq> Inr x) w"
proof -
  obtain l where "find (\<lambda>l. ml_hash l = hash_token (env w) token) (magic_links w) = Some l" "ml_consumed l \<noteq> None"
    using fixed_row_find [OF assms [unfolded spent_link_def]] by blast
  then show ?thesis
    unfolding verify_magic_link_def by (intro wp_rules) (auto simp: link_with_status_def find_tenant_def)
qed

definition logins :: "string \<Rightarrow> externals \<Rightarrow> (tenant_op \<times> (err + unit)) list \<Rightarrow> nat" where
  "logins h e l = count_where (\<lambda>(op, r). r = Inr () \<and> (case op of TVerifyLink token \<Rightarrow> hash_token e token = h | _ \<Rightarrow> False)) l"

lemma logins_of_run:
  "env w = e \<Longrightarrow> logins h e (fst (tenant_run ops w)) \<le> (if spent_link h w then 0 else 1)"
proof (induction ops arbitrary: w)
  case Nil
  then show ?case by (simp add: logins_def)
next
  case (Cons op ops)
  obtain r w' where step: "tenant_step op w = (r, w')" by fastforce
  have e: "env w' = e" using keeps_eq [OF env_step step] Cons.prems by simp
  have kept: "spent_link h w \<Longrightarrow> spent_link h w'" using keeps_eq [OF spent_link_step step] .
  have login: "\<not> spent_link h w \<and> spent_link h w'" if "op = TVerifyLink token" "hash_token e token = h" "r = Inr ()" for token
  proof -
    have "bindE (verify_magic_link token) (\<lambda>_. ret ()) w = (Inr (), w')" using step that by simp
    then obtain x where "verify_magic_link token w = (Inr x, w')" by (elim bindE_InrE) (auto simp: ret_def)
    from wpD [OF verify_spends this] wpD [OF spent_refused this] Cons.prems that show ?thesis by auto
  qed
  show ?case
  proof (cases "\<exists>token. op = TVerifyLink token \<and> hash_token e token = h \<and> r = Inr ()")
    case True
    with login have "\<not> spent_link h w" "spent_link h w'" by auto
    with Cons.IH [OF e] True step show ?thesis by (auto simp: logins_def split: prod.split)
  next
    case False
    then have "logins h e (fst (tenant_run (op # ops) w)) = logins h e (fst (tenant_run ops w'))"
      using step by (auto simp: logins_def split: prod.split tenant_op.split)
    with Cons.IH [OF e] kept show ?thesis by (auto split: if_splits)
  qed
qed

text \<open>
  C31. A login link is good for one login: in any run of the tenants' operations, whatever statements
  fail, at most one \<open>VerifyMagicLink\<close> of a token succeeds, and none once it was consumed.
\<close>

theorem magic_link_single_use:
  "logins (hash_token (env w) token) (env w) (fst (tenant_run ops w)) \<le> (if spent_link (hash_token (env w) token) w then 0 else 1)"
  by (rule logins_of_run [OF refl])

section \<open>Webhooks stay outside\<close>

text \<open>The networks a webhook may not point into, as blocks of addresses.\<close>

definition internal_networks :: "(ip_address \<times> nat) list" where
  "internal_networks = [(IPv4 0x7F000000, 8), (IPv4 0x0A000000, 8), (IPv4 0xAC100000, 12), (IPv4 0xC0A80000, 16), (IPv4 0xA9FE0000, 16),
     (IPv4 0xE0000000, 24), (IPv4 0, 32), (IPv6 1, 128), (IPv6 0, 128), (IPv6 (push_bit 120 0xFC), 7), (IPv6 (push_bit 112 0xFE80), 10)]"

definition internal_address :: "ip_address \<Rightarrow> bool" where
  "internal_address ip \<longleftrightarrow> list_ex (\<lambda>n. cidr_contains n ip) internal_networks \<or>
     list_ex (\<lambda>f. cidr_contains (IPv6 (push_bit 112 (0xFF02 + push_bit 4 f)), 16) ip) [0, 1, 2, 3, 4, 5, 6, 7, 8, 9, 10, 11, 12, 13, 14, 15]"

lemma multicast_scopes:
  "n div 256 = 255 \<and> n mod 16 = 2 \<longleftrightarrow>
     list_ex (\<lambda>f. n = 65282 + 16 * f) [0, 1, 2, 3, 4, 5, 6, 7, 8, 9, 10, 11, 12, 13, 14, 15]" (is "?l \<longleftrightarrow> ?r")
  for n :: nat
proof
  assume l: ?l
  let ?m = "n mod 256 div 16"
  have "n = 256 * (n div 256) + n mod 256" by simp
  moreover have "n mod 256 = 16 * ?m + n mod 256 mod 16" by simp
  moreover have "n mod 256 mod 16 = n mod 16" by (simp add: mod_mod_cancel)
  moreover have "n mod 256 < 256" by simp
  then have "?m < 16" by (simp add: div_less_iff_less_mult)
  ultimately have "n = 65282 + 16 * ?m" and "?m < 16" using l by linarith+
  moreover have "[0, 1, 2, 3, 4, 5, 6, 7, 8, 9, 10, 11, 12, 13, 14, 15] = [0..<16]" by (simp add: upt_rec)
  ultimately show ?r unfolding list_ex_iff by auto
next
  assume ?r
  then show ?l by auto
qed

lemma multicast_iff:
  "drop_bit 120 a = 0xFF \<and> take_bit 4 (drop_bit 112 a) = 2 \<longleftrightarrow>
     list_ex (\<lambda>f. cidr_contains (IPv6 (push_bit 112 (0xFF02 + push_bit 4 f)), 16) (IPv6 a)) [0, 1, 2, 3, 4, 5, 6, 7, 8, 9, 10, 11, 12, 13, 14, 15]"
  for a :: "128 word"
proof -
  define n where "n = unat (drop_bit 112 a)"
  have "drop_bit 120 a = 0xFF \<longleftrightarrow> n div 256 = 255"
  proof -
    have "drop_bit 120 a = drop_bit 8 (drop_bit 112 a)" by simp
    then have "unat (drop_bit 120 a) = n div 256" by (simp only: n_def unat_drop_bit_eq drop_bit_eq_div) (simp add: unat_div)
    then show ?thesis by (simp add: word_eq_iff_unsigned [where ?'a = nat])
  qed
  moreover have "take_bit 4 (drop_bit 112 a) = 2 \<longleftrightarrow> n mod 16 = 2"
    by (simp add: n_def word_eq_iff_unsigned [where ?'a = nat] unsigned_take_bit_eq take_bit_eq_mod unat_mod)
  moreover have "drop_bit 112 a = 65282 \<longleftrightarrow> n = 65282" "drop_bit 112 a = 65298 \<longleftrightarrow> n = 65298" "drop_bit 112 a = 65314 \<longleftrightarrow> n = 65314" "drop_bit 112 a = 65330 \<longleftrightarrow> n = 65330"
    "drop_bit 112 a = 65346 \<longleftrightarrow> n = 65346" "drop_bit 112 a = 65362 \<longleftrightarrow> n = 65362" "drop_bit 112 a = 65378 \<longleftrightarrow> n = 65378" "drop_bit 112 a = 65394 \<longleftrightarrow> n = 65394"
    "drop_bit 112 a = 65410 \<longleftrightarrow> n = 65410" "drop_bit 112 a = 65426 \<longleftrightarrow> n = 65426" "drop_bit 112 a = 65442 \<longleftrightarrow> n = 65442" "drop_bit 112 a = 65458 \<longleftrightarrow> n = 65458"
    "drop_bit 112 a = 65474 \<longleftrightarrow> n = 65474" "drop_bit 112 a = 65490 \<longleftrightarrow> n = 65490" "drop_bit 112 a = 65506 \<longleftrightarrow> n = 65506" "drop_bit 112 a = 65522 \<longleftrightarrow> n = 65522"
    by (simp_all add: n_def word_eq_iff_unsigned [where ?'a = nat])
  ultimately show ?thesis using multicast_scopes [of n] by simp
qed

lemma disallowed_iff: "is_disallowed_ip ip \<longleftrightarrow> internal_address ip"
proof (cases ip)
  case (IPv6 a)
  then show ?thesis using multicast_iff [of a] by (auto simp: is_disallowed_ip_def internal_address_def internal_networks_def)
qed (auto simp: is_disallowed_ip_def internal_address_def internal_networks_def)

text \<open>
  C32. A webhook endpoint is stored only when its URL parses, uses https, names a host, and every
  address the name resolves to lies outside the internal networks (loopback, private, link-local,
  link-local multicast, unspecified); whatever fails before, the tenants' endpoints and signing
  secrets are as they were. The secret of an endpoint that is replaced is kept.
\<close>

theorem webhook_never_internal:
  "wp (set_webhook_url tenant url) (\<lambda>r w'. case r of
     Inl _ \<Rightarrow> tenants w' = tenants w
   | Inr _ \<Rightarrow> \<exists>p ips t. x_url (env w) url = Some p \<and> ur_scheme p = ''https'' \<and> ur_hostname p \<noteq> '''' \<and>
       x_resolve (env w) (ext_log w) (ur_hostname p) = Some ips \<and> ips \<noteq> [] \<and> \<not> list_ex internal_address ips \<and>
       find_tenant tenant w = Some t \<and> (\<exists>enc. (tn_secret t = None \<or> tn_secret t = Some enc) \<and>
         tenants w' = update_where (\<lambda>t. tn_id t = tenant) (\<lambda>t. t\<lparr>tn_webhook := Some url, tn_secret := Some enc\<rparr>) (tenants w))) w"
proof -
  let ?ok = "\<lambda>p ips. x_url (env w) url = Some p \<and> ur_scheme p = ''https'' \<and> ur_hostname p \<noteq> '''' \<and>
    x_resolve (env w) (ext_log w) (ur_hostname p) = Some ips \<and> ips \<noteq> [] \<and> \<not> list_ex internal_address ips"
  have valid: "wp (validate_webhook_url url) (\<lambda>r w'. tenants w' = tenants w \<and> (\<forall>u. r = Inr u \<longrightarrow> (\<exists>p ips. ?ok p ips))) w"
    unfolding validate_webhook_url_def resolve_host_def disallowed_iff by (intro wp_rules) (auto simp: disallowed_iff [abs_def])
  have secret: "wp (signing_secret_for old) (\<lambda>r v'. tenants v' = tenants v \<and> (\<forall>s enc. r = Inr (s, enc) \<longrightarrow> old = None \<or> old = Some enc)) v"
    for old and v :: world
    unfolding signing_secret_for_def random_hex_def random_bytes_def encrypt_secret_def by (intro wp_rules) simp_all
  show ?thesis
    unfolding set_webhook_url_def
  proof (intro wp_rules wp_onErr, rule wp_conseq [OF valid], goal_cases)
    case (1 r v)
    then show ?case
      by (cases r) (auto intro!: wp_rules wp_call [OF secret] simp: find_tenant_def)
  qed
qed

section \<open>Where login links go\<close>

text \<open>
  Nobody can have a login link sent to a site of their own: the only call \<open>RequestMagicLink\<close>
  makes is an email to the address it was asked for, registered with a tenant that is neither
  suspended nor deleted, and the link in it is the given portal address, whose origin is on the
  allowlist, with \<open>/verify\<close> and a token that is in the tables only as a hash.
\<close>

lemma login_links_stay_home:
  "wp (request_magic_link email portal) (\<lambda>r w'. ext_log w' = ext_log w \<or> (\<exists>u token t.
     x_url (env w) portal = Some u \<and> url_origin u \<in> set (allowed_origins (env w)) \<and>
     \<not> ur_user u \<and> \<not> ur_query u \<and> \<not> ur_fragment u \<and> find (\<lambda>t. tn_email t = Some email) (tenants w) = Some t \<and> \<not> locked_out (tn_status t) \<and>
     magic_links w' = magic_links w @ [\<lparr>ml_hash = hash_token (env w) token, ml_tenant = tn_id t, ml_expires = now w + PortalMagicLinkTTL, ml_consumed = None\<rparr>] \<and>
     ext_log w' = ext_log w @ [CallEmail email ''Your 2Settle dashboard login link'' (magic_link_email_body token u)])) w"
  unfolding request_magic_link_def new_portal_token_def random_hex_def random_bytes_def insert_link_def send_email_def
  by (intro wp_rules) (auto simp: validate_portal_url_def split: if_splits option.splits)

end
