(* ===== verification/Notify.thy ===== *)
theory Notify
  imports Tenant
begin

text \<open>
  The notifications of \<^verbatim>\<open>internal/notification\<close>: which events become deliveries (\<open>handle_event\<close>, a
  handler of the outbox), the worker that sends them with its retries and dead letters, and the
  operations of the ops team. \<open>delivery_step\<close> is the life of a delivery; the lemmas show that every
  run of the operations, with any failures of the statements, follows it, and that an event is queued
  once for each channel.
\<close>

section \<open>Routing\<close>

definition ChannelWebhook :: string where "ChannelWebhook = ''webhook''"
definition ChannelEmail :: string where "ChannelEmail = ''email''"

definition webhookEvents :: "string list" where
  "webhookEvents = [''session.created'', ''session.deposit_detected'', ''session.deposit_confirmed'', ''settlement.dispatched'',
     ''settlement.completed'', ''settlement.failed'', ''settlement.reversed'']"

definition emailEvents :: "string list" where
  "emailEvents = [''settlement.failed'', ''settlement.reversed'', ''compliance.hold_created'', ''session.sla_breached'', ''ledger.drift_detected'']"

definition backoffSteps :: "time list" where
  "backoffSteps = [30 * second, 2 * minute, 10 * minute, 60 * minute, 6 * 60 * minute]"

abbreviation "DeliveryNotFound \<equiv> Sentinel ''notification: not found''"

definition tenant_id_from_payload :: "externals \<Rightarrow> payload \<Rightarrow> err + uuid option" where
  "tenant_id_from_payload e pl = (case map_of pl ''tenant_id'' of
       None \<Rightarrow> Inr None
     | Some PNull \<Rightarrow> Inr None
     | Some (PStr s) \<Rightarrow> (case x_uuid_parse e s of Some i \<Rightarrow> Inr (Some i) | None \<Rightarrow> Inl (OtherErr ''notification: parse tenant_id''))
     | Some (PDec d) \<Rightarrow> Inl (OtherErr ''notification: parse tenant_id''))"

definition delivery_key :: "delivery \<Rightarrow> uuid \<times> string \<times> string" where
  "delivery_key d = (nd_agg_id d, nd_event d, nd_channel d)"

definition new_delivery :: "event \<Rightarrow> uuid option \<Rightarrow> string \<Rightarrow> string \<Rightarrow> uuid \<Rightarrow> time \<Rightarrow> delivery" where
  "new_delivery ev tenant channel dest i t = \<lparr>nd_id = i, nd_tenant = tenant, nd_event = ev_type ev, nd_agg_type = ev_agg_type ev,
     nd_agg_id = ev_agg_id ev, nd_channel = channel, nd_destination = dest,
     nd_body = \<lparr>db_event = ev_type ev, db_agg_type = ev_agg_type ev, db_agg_id = ev_agg_id ev, db_tenant = tenant,
       db_payload = ev_payload ev, db_created = t\<rparr>,
     nd_status = ''pending_dispatch'', nd_attempts = 0, nd_next = t, nd_error = None, nd_delivered = None, nd_created = t\<rparr>"

definition queue_delivery :: "event \<Rightarrow> uuid option \<Rightarrow> string \<Rightarrow> string \<Rightarrow> unit run" where
  "queue_delivery ev tenant channel dest = stmt (bindE (gets (\<lambda>w. (list_ex (\<lambda>d. delivery_key d = (ev_agg_id ev, ev_type ev, channel)) (deliveries w),
       case tenant of None \<Rightarrow> True | Some i \<Rightarrow> find_tenant i w \<noteq> None))) (\<lambda>(dup, ref).
     if dup then ret ()
     else if \<not> ref then fail (ConstraintErr ''notification_deliveries'')
     else bindE gen_uuid (\<lambda>i. modify (\<lambda>w. w\<lparr>deliveries := deliveries w @ [new_delivery ev tenant channel dest i (now w)]\<rparr>))))"

text \<open>Where a channel sends to, if anywhere.\<close>

definition destination_for :: "uuid option \<Rightarrow> string \<Rightarrow> string option run" where
  "destination_for tenant channel =
     (if channel = ChannelWebhook then (case tenant of
         None \<Rightarrow> ret None
       | Some i \<Rightarrow> bindE (webhook_config i) (\<lambda>c. case c of
           None \<Rightarrow> ret None | Some (url, secret) \<Rightarrow> ret (if url = '''' then None else Some url)))
      else bindE (gets (\<lambda>w. em_ops (cfg_email (env w)))) (\<lambda>ops. ret (if ops = '''' then None else Some ops)))"

definition insert_delivery :: "event \<Rightarrow> uuid option \<Rightarrow> string \<Rightarrow> unit run" where
  "insert_delivery ev tenant channel = bindE (destination_for tenant channel) (\<lambda>dest. case dest of
       None \<Rightarrow> ret () | Some d \<Rightarrow> queue_delivery ev tenant channel d)"

definition handle_event :: "event \<Rightarrow> unit run" where
  "handle_event ev = bindE (gets (\<lambda>w. tenant_id_from_payload (env w) (ev_payload ev))) (\<lambda>r. bindE (lift_sum r) (\<lambda>tenant.
     thenE (if ev_type ev \<in> set webhookEvents then insert_delivery ev tenant ChannelWebhook else ret ())
       (if ev_type ev \<in> set emailEvents then insert_delivery ev tenant ChannelEmail else ret ())))"

definition notification_handlers :: "string \<Rightarrow> (event \<Rightarrow> unit run) list" where
  "notification_handlers ty = (if ty \<in> set webhookEvents \<union> set emailEvents then [handle_event] else [])"

section \<open>Sending\<close>

definition get_delivery :: "uuid \<Rightarrow> delivery run" where
  "get_delivery i = bindE (query (\<lambda>w. find (\<lambda>d. nd_id d = i) (deliveries w)))
     (\<lambda>r. case r of None \<Rightarrow> fail DeliveryNotFound | Some d \<Rightarrow> ret d)"

definition update_delivery :: "uuid \<Rightarrow> (time \<Rightarrow> delivery \<Rightarrow> delivery) \<Rightarrow> unit run" where
  "update_delivery i f = exec (\<lambda>w. w\<lparr>deliveries := update_where (\<lambda>d. nd_id d = i) (f (now w)) (deliveries w)\<rparr>)"

definition due :: "time \<Rightarrow> delivery \<Rightarrow> bool" where
  "due t d \<longleftrightarrow> nd_status d = ''pending_dispatch'' \<and> nd_next d \<le> t"

definition claim_delivery :: "delivery option run" where
  "claim_delivery = stmt (bindE (gets (\<lambda>w. (now w, first_min nd_next (filter (due (now w)) (deliveries w))))) (\<lambda>(t, r). case r of
       None \<Rightarrow> ret None
     | Some d \<Rightarrow> thenE (modify (\<lambda>w. w\<lparr>deliveries := update_where (\<lambda>x. nd_id x = nd_id d) (\<lambda>x. x\<lparr>nd_next := t + 5 * minute\<rparr>) (deliveries w)\<rparr>))
         (ret (Some (d\<lparr>nd_next := t + 5 * minute\<rparr>)))))"

definition delivery_signature :: "externals \<Rightarrow> string \<Rightarrow> string \<Rightarrow> string" where
  "delivery_signature e secret body = hex_encode (x_hmac e secret body)"

definition post_webhook :: "string \<Rightarrow> string \<Rightarrow> string \<Rightarrow> http_reply run" where
  "post_webhook url body sig = ask (CallWebhook url body sig) (\<lambda>e l. x_webhook e l url body sig)"

text \<open>The error of a send, if there is one.\<close>

definition webhook_error :: "http_reply \<Rightarrow> string option" where
  "webhook_error r = (case r of
       NoReply why \<Rightarrow> Some (''notification: webhook post: '' @ why)
     | Reply code _ \<Rightarrow> if 200 \<le> code \<and> code < 300 then None else Some ''notification: webhook returned status'')"

definition send_webhook :: "delivery \<Rightarrow> string option run" where
  "send_webhook d = (case nd_tenant d of
       None \<Rightarrow> ret (Some ''notification: webhook delivery has no tenant_id'')
     | Some i \<Rightarrow> bindE (attemptE (webhook_config i)) (\<lambda>c. case c of
         Inl _ \<Rightarrow> ret (Some ''notification: lookup webhook config'')
       | Inr None \<Rightarrow> ret (Some ''notification: tenant no longer has a webhook configured'')
       | Inr (Some (url, secret)) \<Rightarrow>
           if secret = '''' then ret (Some ''notification: tenant no longer has a webhook configured'')
           else bindE (gets env) (\<lambda>e. let body = x_body_text e (nd_body d) in
             bindE (post_webhook (nd_destination d) body (delivery_signature e secret body)) (\<lambda>r. ret (webhook_error r)))))"

definition send_ops_email :: "delivery \<Rightarrow> string option run" where
  "send_ops_email d = bindE (gets env) (\<lambda>e. send_email (nd_destination d) (nd_event d) (x_body_text e (nd_body d)))"

definition mark_delivered :: "uuid \<Rightarrow> unit run" where
  "mark_delivered i = update_delivery i (\<lambda>t d. d\<lparr>nd_status := ''delivered'', nd_delivered := Some t\<rparr>)"

definition dead_letter :: "uuid \<Rightarrow> string \<Rightarrow> unit run" where
  "dead_letter i reason = update_delivery i (\<lambda>_ d. d\<lparr>nd_status := ''dead_letter'', nd_attempts := Suc (nd_attempts d), nd_error := Some reason\<rparr>)"

definition handle_delivery_failure :: "delivery \<Rightarrow> string \<Rightarrow> unit run" where
  "handle_delivery_failure d why = (let attempt = Suc (nd_attempts d) in
     if attempt > length backoffSteps then dead_letter (nd_id d) why
     else update_delivery (nd_id d) (\<lambda>t x. x\<lparr>nd_status := ''pending_dispatch'', nd_attempts := attempt,
       nd_next := t + backoffSteps ! (attempt - 1), nd_error := Some why\<rparr>))"

definition process_delivery :: "delivery \<Rightarrow> unit run" where
  "process_delivery d = bindE (gets (\<lambda>w. email_enabled (env w))) (\<lambda>on.
     if nd_channel d = ChannelEmail \<and> \<not> on then dead_letter (nd_id d) ''email provider not configured''
     else bindE (if nd_channel d = ChannelWebhook then send_webhook d else if nd_channel d = ChannelEmail then send_ops_email d
         else fail (OtherErr ''notification: unknown channel'')) (\<lambda>e. case e of
         None \<Rightarrow> mark_delivered (nd_id d)
       | Some why \<Rightarrow> handle_delivery_failure d why))"

text \<open>
  The loop of \<open>dispatchBatch\<close>: an error of a delivery is logged, one of the claim ends the round. A claim
  moves the row out of the due ones, so the fuel is the number of those and one more.
\<close>

fun delivery_loop :: "nat \<Rightarrow> world \<Rightarrow> world" where
  "delivery_loop 0 w = w"
| "delivery_loop (Suc n) w = (case claim_delivery w of
       (Inl _, w') \<Rightarrow> w'
     | (Inr None, w') \<Rightarrow> w'
     | (Inr (Some d), w') \<Rightarrow> delivery_loop n (snd (process_delivery d w')))"

definition dispatch_deliveries :: "unit run" where
  "dispatch_deliveries = (\<lambda>w. (Inr (), delivery_loop (Suc (count_where (due (now w)) (deliveries w))) w))"

section \<open>Operations of the ops team\<close>

definition list_deliveries :: "string \<Rightarrow> (delivery list) run" where
  "list_deliveries status = query (\<lambda>w. sort_key (\<lambda>d. - nd_created d) (filter (\<lambda>d. nd_status d = status) (deliveries w)))"

definition list_deliveries_by_tenant :: "uuid \<Rightarrow> string option \<Rightarrow> (delivery list) run" where
  "list_deliveries_by_tenant tenant status = query (\<lambda>w. sort_key (\<lambda>d. - nd_created d)
     (filter (\<lambda>d. nd_tenant d = Some tenant \<and> (status = None \<or> status = Some (nd_status d))) (deliveries w)))"

definition retry_delivery :: "uuid \<Rightarrow> delivery run" where
  "retry_delivery i = stmt (bindE (gets (\<lambda>w. (now w, find (\<lambda>d. nd_id d = i \<and> nd_status d = ''dead_letter'') (deliveries w)))) (\<lambda>(t, r). case r of
       None \<Rightarrow> fail DeliveryNotFound
     | Some d \<Rightarrow> (let f = (\<lambda>d. d\<lparr>nd_status := ''pending_dispatch'', nd_attempts := 0, nd_next := t, nd_error := None\<rparr>) in
         thenE (modify (\<lambda>w. w\<lparr>deliveries := update_where (\<lambda>d. nd_id d = i \<and> nd_status d = ''dead_letter'') f (deliveries w)\<rparr>)) (ret (f d)))))"

section \<open>The life of a delivery\<close>

text \<open>
  A pending delivery is claimed, delivered, put off with one more failed attempt while there are steps
  of the schedule left, or dead; a dead one starts over when the ops team retries it; a delivered one
  does nothing more.
\<close>

inductive delivery_step :: "delivery \<Rightarrow> delivery \<Rightarrow> bool" where
  claimed: "nd_status d = ''pending_dispatch'' \<Longrightarrow> delivery_step d (d\<lparr>nd_next := t\<rparr>)"
| sent: "nd_status d = ''pending_dispatch'' \<Longrightarrow> delivery_step d (d\<lparr>nd_status := ''delivered'', nd_delivered := Some t\<rparr>)"
| put_off: "nd_status d = ''pending_dispatch'' \<Longrightarrow> nd_attempts d < length backoffSteps \<Longrightarrow>
    delivery_step d (d\<lparr>nd_status := ''pending_dispatch'', nd_attempts := Suc (nd_attempts d), nd_next := t + backoffSteps ! nd_attempts d, nd_error := Some why\<rparr>)"
| dead: "nd_status d = ''pending_dispatch'' \<Longrightarrow> nd_attempts d = length backoffSteps \<or> nd_channel d = ChannelEmail \<Longrightarrow>
    delivery_step d (d\<lparr>nd_status := ''dead_letter'', nd_attempts := Suc (nd_attempts d), nd_error := Some why\<rparr>)"
| retried: "nd_status d = ''dead_letter'' \<Longrightarrow>
    delivery_step d (d\<lparr>nd_status := ''pending_dispatch'', nd_attempts := 0, nd_next := t, nd_error := None\<rparr>)"

inductive_simps delivery_step_iff: "delivery_step d d'"

definition delivery_ok :: "delivery \<Rightarrow> bool" where
  "delivery_ok d \<longleftrightarrow> nd_channel d \<in> {ChannelWebhook, ChannelEmail} \<and>
     (nd_status d = ''pending_dispatch'' \<and> nd_attempts d \<le> length backoffSteps \<or>
      nd_status d = ''dead_letter'' \<and> nd_attempts d \<le> Suc (length backoffSteps) \<or> nd_status d = ''delivered'')"

definition same_delivery :: "delivery \<Rightarrow> delivery \<Rightarrow> bool" where
  "same_delivery d d' \<longleftrightarrow> nd_id d' = nd_id d \<and> delivery_key d' = delivery_key d \<and> nd_tenant d' = nd_tenant d \<and>
     nd_destination d' = nd_destination d \<and> nd_body d' = nd_body d"

lemma step_keeps: "delivery_step d d' \<Longrightarrow> same_delivery d d' \<and> (delivery_ok d \<longrightarrow> delivery_ok d')"
  by (induction rule: delivery_step.induct) (auto simp: same_delivery_def delivery_key_def delivery_ok_def)

lemma steps_keep: "delivery_step\<^sup>*\<^sup>* d d' \<Longrightarrow> same_delivery d d' \<and> (delivery_ok d \<longrightarrow> delivery_ok d')"
  by (induction rule: rtranclp_induct) (use step_keeps in \<open>fastforce simp: same_delivery_def\<close>)+

lemma delivered_final: "delivery_step\<^sup>*\<^sup>* d d' \<Longrightarrow> nd_status d = ''delivered'' \<Longrightarrow> d' = d"
  by (induction rule: rtranclp_induct) (auto simp: delivery_step_iff)

definition deliveries_ok :: "world \<Rightarrow> bool" where
  "deliveries_ok w \<longleftrightarrow> ids_fresh (map nd_id (deliveries w)) w \<and> distinct (map delivery_key (deliveries w)) \<and> list_all delivery_ok (deliveries w)"

definition evolved :: "delivery list \<Rightarrow> delivery list \<Rightarrow> bool" where
  "evolved ds ds' \<longleftrightarrow> length ds \<le> length ds' \<and> list_all2 delivery_step\<^sup>*\<^sup>* ds (take (length ds) ds')"

lemma evolved_refl: "evolved ds ds"
  by (simp add: evolved_def list_all2_same)

lemma evolved_append: "evolved ds ds' \<Longrightarrow> evolved ds (ds' @ es)"
  by (simp add: evolved_def)

lemma evolved_update:
  assumes "evolved ds ds'" and "\<And>d. d \<in> set ds' \<Longrightarrow> c d \<Longrightarrow> delivery_step d (f d)"
  shows "evolved ds (update_where c f ds')"
proof -
  have "list_all2 delivery_step\<^sup>*\<^sup>* ds (map (\<lambda>d. if c d then f d else d) (take (length ds) ds'))"
    using assms unfolding evolved_def list_all2_conv_all_nth
    by (auto intro: rtranclp.rtrancl_into_rtrancl)
  with assms(1) show ?thesis by (simp add: evolved_def update_where_def take_map)
qed

text \<open>The state \<open>v\<close> comes from one with the deliveries \<open>ds\<close>.\<close>

definition on_track :: "delivery list \<Rightarrow> world \<Rightarrow> bool" where
  "on_track ds v \<longleftrightarrow> deliveries_ok v \<and> evolved ds (deliveries v)"

lemma db_mono_on_track: "db_mono (on_track ds)"
  unfolding db_mono_def
proof (intro allI impI conjI)
  fix v :: world and bs n assume a: "on_track ds v"
  then show "on_track ds (v\<lparr>faults := bs\<rparr>)" by (simp add: on_track_def deliveries_ok_def)
  assume "uuid_next v \<le> n"
  with a ids_fresh_mono [of "map nd_id (deliveries v)" v "v\<lparr>uuid_next := n\<rparr>"]
  show "on_track ds (v\<lparr>uuid_next := n\<rparr>)" by (simp add: on_track_def deliveries_ok_def)
qed

lemma on_track_update:
  assumes "on_track ds v" and "\<And>d. d \<in> set (deliveries v) \<Longrightarrow> c d \<Longrightarrow> delivery_step d (f d)"
  shows "on_track ds (v\<lparr>deliveries := update_where c f (deliveries v)\<rparr>)"
proof -
  have same: "same_delivery d (f d)" "delivery_ok d \<Longrightarrow> delivery_ok (f d)" if "d \<in> set (deliveries v)" "c d" for d
    using step_keeps [OF assms(2) [OF that]] by auto
  define rows where "rows = update_where c f (deliveries v)"
  have "map nd_id rows = map nd_id (deliveries v)" "map delivery_key rows = map delivery_key (deliveries v)"
    "list_all delivery_ok (deliveries v) \<Longrightarrow> list_all delivery_ok rows"
    using same by (auto simp: same_delivery_def list_all_iff rows_def update_where_def)
  moreover have "ids_fresh (map nd_id (deliveries v)) (v\<lparr>deliveries := rows\<rparr>) = ids_fresh (map nd_id (deliveries v)) v"
    by (simp add: ids_fresh_def)
  ultimately have "on_track ds (v\<lparr>deliveries := rows\<rparr>)"
    using assms evolved_update [of ds "deliveries v" c f] by (simp add: on_track_def deliveries_ok_def rows_def)
  then show ?thesis by (simp add: rows_def)
qed

text \<open>Nothing but the table and the id generator matters.\<close>

lemma on_track_cong: "deliveries v' = deliveries v \<Longrightarrow> uuid_src v' = uuid_src v \<Longrightarrow> uuid_next v' = uuid_next v \<Longrightarrow>
  on_track ds v' = on_track ds v"
  by (simp add: on_track_def deliveries_ok_def ids_fresh_def)

section \<open>Every operation keeps to it\<close>

lemma frame_sends:
  "frame (\<lambda>w. (deliveries w, uuid_src w, uuid_next w)) (webhook_config i)"
  "frame (\<lambda>w. (deliveries w, uuid_src w, uuid_next w)) (send_webhook d)"
  "frame (\<lambda>w. (deliveries w, uuid_src w, uuid_next w)) (send_ops_email d)"
proof -
  let ?f = "\<lambda>w :: world. (deliveries w, uuid_src w)"
  show "frame (\<lambda>w. (deliveries w, uuid_src w, uuid_next w)) (webhook_config i)" for i
    unfolding frame_def webhook_config_def decrypt_secret_def lift_sum_def
    by (auto simp: query_def stmt_def tick_fault_def op_defs split: list.splits option.splits sum.splits)
  then show "frame (\<lambda>w. (deliveries w, uuid_src w, uuid_next w)) (send_webhook d)"
    unfolding send_webhook_def post_webhook_def Let_def by (intro frame_rules; simp)
  show "frame (\<lambda>w. (deliveries w, uuid_src w, uuid_next w)) (send_ops_email d)"
    unfolding send_ops_email_def send_email_def by (intro frame_rules; simp)
qed

lemma on_track_send:
  assumes "on_track ds v" and "frame (\<lambda>w. (deliveries w, uuid_src w, uuid_next w)) m" and "m v = (r, v')"
  shows "on_track ds v' \<and> deliveries v' = deliveries v"
proof -
  have "deliveries v' = deliveries v" "uuid_src v' = uuid_src v" "uuid_next v' = uuid_next v"
    using frame_eq [OF assms(2,3)] by simp_all
  with assms(1) on_track_cong [of v' v ds] show ?thesis by simp
qed

text \<open>The row a worker is handling.\<close>

definition handling :: "delivery \<Rightarrow> delivery list \<Rightarrow> bool" where
  "handling d rows \<longleftrightarrow> d \<in> set rows \<and> nd_status d = ''pending_dispatch''"

lemma only_row: "on_track ds v \<Longrightarrow> handling d (deliveries v) \<Longrightarrow> x \<in> set (deliveries v) \<Longrightarrow> nd_id x = nd_id d \<Longrightarrow> x = d"
  by (auto simp: on_track_def deliveries_ok_def ids_fresh_def handling_def distinct_map dest: inj_onD)

lemma on_track_update_row:
  assumes "on_track ds v" and "handling d (deliveries v)" and "\<And>t. delivery_step d (f t d)"
  shows "wp (update_delivery (nd_id d) f) (\<lambda>_. on_track ds) v"
proof -
  have "on_track ds (v'\<lparr>deliveries := update_where (\<lambda>x. nd_id x = nd_id d) (f (now v')) (deliveries v')\<rparr>)"
    if "v' = v\<lparr>faults := bs\<rparr>" for v' bs
  proof (rule on_track_update)
    show t: "on_track ds v'" using db_mono_faults [OF db_mono_on_track assms(1)] that by simp
    fix x assume "x \<in> set (deliveries v')" and "nd_id x = nd_id d"
    with only_row [OF assms(1,2)] that have "x = d" by simp
    then show "delivery_step x (f (now v') x)" using assms(3) by simp
  qed
  then show ?thesis
    unfolding update_delivery_def
    using db_mono_faults [OF db_mono_on_track assms(1)] by (intro wp_rules) blast+
qed

lemma on_track_failure:
  assumes "on_track ds v" and "handling d (deliveries v)" and "delivery_ok d"
  shows "wp (handle_delivery_failure d why) (\<lambda>_. on_track ds) v"
proof (cases "nd_attempts d < length backoffSteps")
  case True
  then have "\<And>t. delivery_step d (d\<lparr>nd_status := ''pending_dispatch'', nd_attempts := Suc (nd_attempts d),
      nd_next := t + backoffSteps ! (Suc (nd_attempts d) - 1), nd_error := Some why\<rparr>)"
    using put_off [of d] assms(2) by (simp add: handling_def)
  with True on_track_update_row [OF assms(1,2)] show ?thesis by (simp add: handle_delivery_failure_def)
next
  case False
  then have "nd_attempts d = length backoffSteps" using assms(2,3) by (auto simp: delivery_ok_def handling_def)
  with on_track_update_row [OF assms(1,2)] dead [of d] assms(2) show ?thesis
    by (simp add: handle_delivery_failure_def dead_letter_def handling_def)
qed

lemma on_track_process:
  assumes "on_track ds v" and "handling d (deliveries v)"
  shows "on_track ds (snd (process_delivery d v))"
proof -
  have ok: "delivery_ok d" using assms by (auto simp: on_track_def deliveries_ok_def handling_def list_all_iff)
  have final: "wp (case e of None \<Rightarrow> mark_delivered (nd_id d) | Some why \<Rightarrow> handle_delivery_failure d why) (\<lambda>_. on_track ds) v'"
    if "on_track ds v'" "deliveries v' = deliveries v" for e v'
    using that assms(2) on_track_failure [OF that(1) _ ok] on_track_update_row [OF that(1)] sent [of d]
    by (cases e) (simp_all add: mark_delivered_def handling_def)
  have send: "wp m (wp_bind (\<lambda>e. case e of None \<Rightarrow> mark_delivered (nd_id d) | Some why \<Rightarrow> handle_delivery_failure d why) (\<lambda>_. on_track ds)) v"
    if "frame (\<lambda>w. (deliveries w, uuid_src w, uuid_next w)) m" for m
    by (rule wpI) (use on_track_send [OF assms(1) that] final in \<open>auto simp: wp_bind_def split: sum.split\<close>)
  have "wp (process_delivery d) (\<lambda>_. on_track ds) v"
    unfolding process_delivery_def dead_letter_def
    using assms dead [of d]
    by (intro wp_rules send frame_rules frame_sends on_track_update_row) (simp_all add: handling_def)
  then show ?thesis by (simp add: wp_def)
qed

lemma on_track_claim:
  assumes "on_track ds v"
  shows "wp claim_delivery (\<lambda>r v'. on_track ds v' \<and> (\<forall>d. r = Inr (Some d) \<longrightarrow> handling d (deliveries v'))) v"
proof -
  have "on_track ds (v'\<lparr>deliveries := update_where (\<lambda>x. nd_id x = nd_id d) (\<lambda>x. x\<lparr>nd_next := t\<rparr>) (deliveries v')\<rparr>) \<and>
      handling (d\<lparr>nd_next := t\<rparr>) (update_where (\<lambda>x. nd_id x = nd_id d) (\<lambda>x. x\<lparr>nd_next := t\<rparr>) (deliveries v'))"
    if "v' = v\<lparr>faults := bs\<rparr>" "first_min nd_next (filter (due n) (deliveries v')) = Some d" for v' bs d t n
  proof
    have t: "on_track ds v'" using db_mono_faults [OF db_mono_on_track assms] that by simp
    have d: "handling d (deliveries v')" using first_min_in_set [OF that(2)] by (auto simp: handling_def due_def)
    show "on_track ds (v'\<lparr>deliveries := update_where (\<lambda>x. nd_id x = nd_id d) (\<lambda>x. x\<lparr>nd_next := t\<rparr>) (deliveries v')\<rparr>)"
    proof (rule on_track_update [OF t])
      fix x assume "x \<in> set (deliveries v')" "nd_id x = nd_id d"
      with only_row [OF t d] have "x = d" by blast
      then show "delivery_step x (x\<lparr>nd_next := t\<rparr>)" using d claimed [of d t] by (simp add: handling_def)
    qed
    show "handling (d\<lparr>nd_next := t\<rparr>) (update_where (\<lambda>x. nd_id x = nd_id d) (\<lambda>x. x\<lparr>nd_next := t\<rparr>) (deliveries v'))"
      using d by (auto simp: handling_def set_update_where)
  qed
  note claim = this [OF refl]
  show ?thesis
    unfolding claim_delivery_def
    by (intro wp_rules) (use claim db_mono_faults [OF db_mono_on_track assms] in \<open>force+\<close>)
qed

lemma on_track_loop: "on_track ds v \<Longrightarrow> on_track ds (delivery_loop n v)"
proof (induction n arbitrary: v)
  case (Suc n)
  obtain r v' where step: "claim_delivery v = (r, v')" by fastforce
  from wpD [OF on_track_claim [OF Suc.prems] step] have "on_track ds v'" "\<And>d. r = Inr (Some d) \<Longrightarrow> handling d (deliveries v')" by simp_all
  with Suc.IH [OF on_track_process [of ds v']] step show ?case by (auto split: sum.split option.split)
qed simp

lemma on_track_retry: "keeps (on_track ds) (retry_delivery i)"
proof (rule keeps_wp)
  fix v assume v: "on_track ds v"
  have "on_track ds (v'\<lparr>deliveries := update_where (\<lambda>d. nd_id d = i \<and> nd_status d = ''dead_letter'')
      (\<lambda>d. d\<lparr>nd_status := ''pending_dispatch'', nd_attempts := 0, nd_next := t, nd_error := None\<rparr>) (deliveries v')\<rparr>)"
    if "v' = v\<lparr>faults := bs\<rparr>" for v' bs t
    by (rule on_track_update) (use db_mono_faults [OF db_mono_on_track v] that retried in auto)
  note this [OF refl]
  then show "wp (retry_delivery i) (\<lambda>_. on_track ds) v"
    unfolding retry_delivery_def Let_def
    by (intro wp_rules) (use db_mono_faults [OF db_mono_on_track v] in \<open>force+\<close>)
qed

lemma on_track_queue:
  assumes "channel \<in> {ChannelWebhook, ChannelEmail}"
  shows "keeps (on_track ds) (queue_delivery ev tenant channel dest)"
proof (rule keeps_wp)
  fix v assume v: "on_track ds v"
  have "on_track ds (v'\<lparr>uuid_next := Suc (uuid_next v'), deliveries := deliveries v' @ [new_delivery ev tenant channel dest (uuid_src v' (uuid_next v')) t]\<rparr>)"
    if "v' = v\<lparr>faults := bs\<rparr>" "\<not> list_ex (\<lambda>d. delivery_key d = (ev_agg_id ev, ev_type ev, channel)) (deliveries v')" for v' bs t
  proof -
    let ?d = "new_delivery ev tenant channel dest (uuid_src v' (uuid_next v')) t"
    have "on_track ds v'" using db_mono_faults [OF db_mono_on_track v] that by simp
    moreover have "delivery_ok ?d" "nd_id ?d = uuid_src v' (uuid_next v')" "delivery_key ?d = (ev_agg_id ev, ev_type ev, channel)"
      using assms by (auto simp: delivery_ok_def new_delivery_def delivery_key_def)
    moreover have "(ev_agg_id ev, ev_type ev, channel) \<notin> delivery_key ` set (deliveries v')" using that(2) by (auto simp: list_ex_iff)
    moreover have "ids_fresh (map nd_id (deliveries v') @ [uuid_src v' (uuid_next v')]) (v'\<lparr>uuid_next := Suc (uuid_next v'), deliveries := deliveries v' @ [?d]\<rparr>)"
      if "ids_fresh (map nd_id (deliveries v')) v'"
      by (rule ids_fresh_append [OF that]) simp_all
    ultimately show ?thesis
      by (simp add: on_track_def deliveries_ok_def evolved_append)
  qed
  note this [OF refl]
  then show "wp (queue_delivery ev tenant channel dest) (\<lambda>_. on_track ds) v"
    unfolding queue_delivery_def
    by (intro wp_rules) (use db_mono_faults [OF db_mono_on_track v] in \<open>force+\<close>)
qed

lemma on_track_event: "keeps (on_track ds) (handle_event ev)"
proof -
  have "keeps (on_track ds) (webhook_config i)" for i
    by (rule keepsI) (use on_track_send [OF _ frame_sends(1)] in blast)
  then show ?thesis
    unfolding handle_event_def insert_delivery_def destination_for_def
    by (intro keeps_rules on_track_queue; simp)
qed

text \<open>
  A run: the dispatcher of the outbox hands events over (in a transaction each), the worker makes its
  rounds, the ops team retries, and the other components do what they do.
\<close>

datatype notify_op = NEvent event | NRound | NRetry uuid | NOther time "bool list" nat "tenant list" "ext_call list"

fun notify_step :: "notify_op \<Rightarrow> unit run" where
  "notify_step (NEvent ev) = atomically (handle_event ev)"
| "notify_step NRound = dispatch_deliveries"
| "notify_step (NRetry i) = bindE (retry_delivery i) (\<lambda>_. ret ())"
| "notify_step (NOther t fs n ts calls) = modify (\<lambda>w. w\<lparr>now := t, faults := fs, uuid_next := uuid_next w + n, tenants := ts, ext_log := ext_log w @ calls\<rparr>)"

fun notify_run :: "notify_op list \<Rightarrow> world \<Rightarrow> world" where
  "notify_run [] w = w"
| "notify_run (op # ops) w = notify_run ops (snd (notify_step op w))"

lemma on_track_step: "keeps (on_track ds) (notify_step op)"
proof (cases op)
  case NRound
  then show ?thesis by (simp add: keeps_def dispatch_deliveries_def on_track_loop del: delivery_loop.simps)
next
  case (NOther t fs n ts calls)
  have "on_track ds (v\<lparr>now := t, faults := fs, uuid_next := uuid_next v + n, tenants := ts, ext_log := ext_log v @ calls\<rparr>)" if "on_track ds v" for v
    using db_mono_uuid [OF db_mono_on_track that, of "uuid_next v + n"] by (simp add: on_track_def deliveries_ok_def ids_fresh_def)
  with NOther show ?thesis by (auto intro: keeps_modify)
qed (auto intro!: keeps_rules on_track_event on_track_retry db_mono_on_track)

lemma on_track_run: "on_track ds w \<Longrightarrow> on_track ds (notify_run ops w)"
  by (induction ops arbitrary: w) (auto dest: keepsD [OF on_track_step])

text \<open>
  C18. Every delivery lives its life: whatever events arrive (again), however the worker and the ops
  team interleave and whichever statements fail, each row moves along \<open>delivery_step\<close> only (so at most
  five retries before it is dead, and nothing after it is delivered), keeps the tenant, the destination
  and the body it was queued with, and no event is queued twice on a channel.
\<close>

theorem deliveries_follow_life:
  assumes "deliveries_ok w" and "k < length (deliveries w)"
  shows "let w' = notify_run ops w; d = deliveries w ! k; d' = deliveries w' ! k in
    deliveries_ok w' \<and> k < length (deliveries w') \<and> delivery_step\<^sup>*\<^sup>* d d' \<and> same_delivery d d' \<and>
    (nd_status d \<noteq> ''delivered'' \<or> d' = d)"
proof -
  have "on_track (deliveries w) (notify_run ops w)"
    by (rule on_track_run) (simp add: on_track_def assms evolved_refl)
  then have ok: "deliveries_ok (notify_run ops w)" and ev: "evolved (deliveries w) (deliveries (notify_run ops w))"
    by (simp_all add: on_track_def)
  from ev assms(2) have "k < length (deliveries (notify_run ops w))" "delivery_step\<^sup>*\<^sup>* (deliveries w ! k) (deliveries (notify_run ops w) ! k)"
    by (auto simp: evolved_def list_all2_conv_all_nth)
  with ok steps_keep delivered_final show ?thesis by (auto simp: Let_def)
qed

definition failed_event :: event where
  "failed_event = \<lparr>ev_id = ''e'', ev_type = ''settlement.failed'', ev_agg_type = ''settlement'', ev_agg_id = ''s'',
     ev_payload = [(''tenant_id'', PNull)], ev_created = 0, ev_dispatched = None, ev_attempts = 0\<rparr>"

definition notify_world :: world where
  "notify_world = empty_world\<lparr>uuid_next := 1, deliveries := [new_delivery failed_event None ChannelEmail ''ops'' (sample_src 0) 0]\<rparr>"

lemma notify_world_ok: "deliveries_ok notify_world"
  using inj_sample_src
  by (auto simp: deliveries_ok_def notify_world_def empty_world_def ids_fresh_def new_delivery_def delivery_ok_def)

theorem deliveries_follow_life_witness:
  "let w' = notify_run [NEvent failed_event, NRound, NRetry (sample_src 0)] notify_world;
       d = deliveries notify_world ! 0; d' = deliveries w' ! 0 in
    deliveries_ok w' \<and> 0 < length (deliveries w') \<and> delivery_step\<^sup>*\<^sup>* d d' \<and> same_delivery d d' \<and>
    (nd_status d \<noteq> ''delivered'' \<or> d' = d)"
proof -
  have "0 < length (deliveries notify_world)" by (simp add: notify_world_def)
  from deliveries_follow_life [OF notify_world_ok this] show ?thesis .
qed

section \<open>The round ends\<close>

definition due_count :: "world \<Rightarrow> nat" where
  "due_count w = count_where (due (now w)) (deliveries w)"

lemma claim_less:
  "wp claim_delivery (\<lambda>r w'. \<forall>d. r = Inr (Some d) \<longrightarrow> due_count w' < due_count w) w"
proof -
  have "count_where (due t) (update_where (\<lambda>x. nd_id x = nd_id d) (\<lambda>x. x\<lparr>nd_next := t + 5 * minute\<rparr>) ds) < count_where (due t) ds"
    if "first_min nd_next (filter (due t) ds) = Some d" for t d ds
    by (rule count_update_less [where x = d]) (use first_min_in_set [OF that] in \<open>auto simp: due_def minute_def second_def\<close>)
  then show ?thesis
    unfolding claim_delivery_def by (intro wp_rules) (auto simp: due_count_def)
qed

lemma frame_now_sends: "frame (\<lambda>w. (now w, deliveries w)) (send_webhook d)" "frame (\<lambda>w. (now w, deliveries w)) (send_ops_email d)"
proof -
  have "frame (\<lambda>w. (now w, deliveries w)) (webhook_config i)" for i
    unfolding webhook_config_def decrypt_secret_def
    by (intro frame_rules db_viewI; simp)
  then show "frame (\<lambda>w. (now w, deliveries w)) (send_webhook d)"
    unfolding send_webhook_def post_webhook_def Let_def by (intro frame_rules; simp)
  show "frame (\<lambda>w. (now w, deliveries w)) (send_ops_email d)"
    unfolding send_ops_email_def send_email_def by (intro frame_rules; simp)
qed

lemma process_le: "due_count (snd (process_delivery d w)) \<le> due_count w"
proof -
  have update: "wp (update_delivery i f) (\<lambda>_ w'. due_count w' \<le> due_count w) v"
    if "now v = now w" "deliveries v = deliveries w" "\<And>x. \<not> due (now w) (f (now w) x)" for i f v
    unfolding update_delivery_def
    by (intro wp_rules) (use that in \<open>auto simp: due_count_def intro!: count_update_le\<close>)
  have later: "0 < backoffSteps ! n" if "n < length backoffSteps" for n
    using that by (auto simp: backoffSteps_def minute_def second_def nth_Cons' split: if_splits)
  have final: "wp (case e of None \<Rightarrow> mark_delivered (nd_id d) | Some why \<Rightarrow> handle_delivery_failure d why) (\<lambda>_ w'. due_count w' \<le> due_count w) v"
    if "now v = now w" "deliveries v = deliveries w" for e v
    using later [of "nd_attempts d"]
    by (auto intro!: update that simp: mark_delivered_def handle_delivery_failure_def dead_letter_def due_def split: option.split)
  have send: "wp m (wp_bind (\<lambda>e. case e of None \<Rightarrow> mark_delivered (nd_id d) | Some why \<Rightarrow> handle_delivery_failure d why) (\<lambda>_ w'. due_count w' \<le> due_count w)) w"
    if "frame (\<lambda>w. (now w, deliveries w)) m" for m
    by (rule wpI) (use frame_eq [OF that] final in \<open>auto simp: wp_bind_def due_count_def split: sum.split\<close>)
  have "wp (process_delivery d) (\<lambda>_ w'. due_count w' \<le> due_count w) w"
    unfolding process_delivery_def dead_letter_def
    by (intro wp_rules send frame_rules frame_now_sends update) (simp_all add: due_def)
  then show ?thesis by (simp add: wp_def)
qed

text \<open>
  The worker's round ends: with the fuel of the model every further step finds nothing to claim,
  whatever the receivers answer and whichever statements fail, so more fuel changes nothing.
\<close>

lemma delivery_round_ends:
  assumes "count_where (due (now w)) (deliveries w) < n"
  shows "delivery_loop n w = snd (dispatch_deliveries w)"
proof -
  have "delivery_loop n w = delivery_loop m w" if "due_count w < n" "due_count w < m" for m
    using that
  proof (induction n arbitrary: m w)
    case (Suc n)
    obtain m' where m: "m = Suc m'" using Suc.prems(2) by (cases m) auto
    obtain r w' where step: "claim_delivery w = (r, w')" by fastforce
    have "due_count (snd (process_delivery d w')) < n \<and> due_count (snd (process_delivery d w')) < m'" if "r = Inr (Some d)" for d
      using wpD [OF claim_less step] that process_le [of d w'] Suc.prems m by fastforce
    with Suc.IH step m show ?case by (auto split: sum.split option.split)
  qed simp
  from this [of "Suc (due_count w)"] assms show ?thesis
    by (simp add: dispatch_deliveries_def due_count_def del: delivery_loop.simps)
qed

section \<open>How often a receiver is called\<close>

text \<open>The worker takes up one delivery, if it is pending.\<close>

definition try_delivery :: "uuid \<Rightarrow> world \<Rightarrow> world" where
  "try_delivery i w = (case find (\<lambda>d. nd_id d = i \<and> nd_status d = ''pending_dispatch'') (deliveries w) of
       None \<Rightarrow> w | Some d \<Rightarrow> snd (process_delivery d w))"

text \<open>A tenant's webhook that is configured, and an endpoint that never answers with a 2xx.\<close>

definition webhook_down :: "delivery \<Rightarrow> world \<Rightarrow> bool" where
  "webhook_down d w \<longleftrightarrow> faults w = [] \<and> nd_channel d = ChannelWebhook \<and> (\<exists>i t url enc secret. nd_tenant d = Some i \<and>
     find_tenant i w = Some t \<and> tn_webhook t = Some url \<and> tn_secret t = Some enc \<and>
     x_decrypt (env w) (cfg_secret_key (env w)) enc = Inr secret \<and> secret \<noteq> '''' \<and>
     (\<forall>l body sig. webhook_error (x_webhook (env w) l (nd_destination d) body sig) \<noteq> None))"

lemma send_down:
  assumes "webhook_down d w"
  shows "\<exists>why body sig. send_webhook d w = (Inr (Some why), w\<lparr>ext_log := ext_log w @ [CallWebhook (nd_destination d) body sig]\<rparr>)"
proof -
  obtain i t url enc secret where c: "faults w = []" "nd_tenant d = Some i" "find_tenant i w = Some t" "tn_webhook t = Some url"
      "tn_secret t = Some enc" "x_decrypt (env w) (cfg_secret_key (env w)) enc = Inr secret" "secret \<noteq> ''''"
    and down: "\<And>l body sig. webhook_error (x_webhook (env w) l (nd_destination d) body sig) \<noteq> None"
    using assms unfolding webhook_down_def by blast
  have "webhook_config i w = (Inr (Some (url, secret)), w)"
    using c by (simp add: webhook_config_def op_simps decrypt_secret_def)
  then have "\<exists>body sig. send_webhook d w = (Inr (webhook_error (x_webhook (env w) (ext_log w) (nd_destination d) body sig)),
      w\<lparr>ext_log := ext_log w @ [CallWebhook (nd_destination d) body sig]\<rparr>)"
    using c by (simp add: send_webhook_def bindE_def attemptE_def gets_def post_webhook_def ask_def Let_def ret_def) blast
  with down show ?thesis by (metis not_None_eq)
qed

text \<open>What the row and the log look like after \<open>n\<close> attempts.\<close>

definition after_attempts :: "delivery \<Rightarrow> nat \<Rightarrow> world \<Rightarrow> world \<Rightarrow> bool" where
  "after_attempts d n w v \<longleftrightarrow> webhook_down d v \<and> distinct (map nd_id (deliveries v)) \<and>
     (\<exists>calls. ext_log v = ext_log w @ calls \<and> length calls = min n 6 \<and> list_all (\<lambda>c. \<exists>body sig. c = CallWebhook (nd_destination d) body sig) calls) \<and>
     (\<exists>d' \<in> set (deliveries v). same_delivery d d' \<and> nd_attempts d' = min n 6 \<and>
        nd_status d' = (if n < 6 then ''pending_dispatch'' else ''dead_letter''))"

lemma find_row:
  assumes "distinct (map nd_id ds)" and "d \<in> set ds"
  shows "find (\<lambda>x. nd_id x = nd_id d \<and> P x) ds = (if P d then Some d else None)"
proof (cases "find (\<lambda>x. nd_id x = nd_id d \<and> P x) ds")
  case None
  with assms(2) show ?thesis by (auto simp: find_None_iff)
next
  case (Some x)
  from find_Some_mem [OF this] assms have "x = d" by (auto simp: distinct_map dest: inj_onD)
  with Some find_Some_mem [OF Some] show ?thesis by simp
qed

lemma failed_update:
  assumes "faults v = []" and "Suc (nd_attempts d) \<le> 6"
  shows "\<exists>f. (\<forall>x. nd_attempts x = nd_attempts d \<longrightarrow> same_delivery x (f x) \<and> nd_attempts (f x) = Suc (nd_attempts d) \<and>
      nd_status (f x) = (if nd_attempts d < 5 then ''pending_dispatch'' else ''dead_letter'')) \<and>
    handle_delivery_failure d why v = (Inr (), v\<lparr>deliveries := update_where (\<lambda>x. nd_id x = nd_id d) f (deliveries v)\<rparr>)"
proof (cases "nd_attempts d < 5")
  case True
  then show ?thesis
    using assms by (intro exI conjI; (simp add: handle_delivery_failure_def update_delivery_def op_simps backoffSteps_def Let_def; rule refl)?)
      (simp add: same_delivery_def delivery_key_def)
next
  case False
  with assms have "nd_attempts d = 5" by simp
  then show ?thesis
    using assms by (intro exI conjI; (simp add: handle_delivery_failure_def dead_letter_def update_delivery_def op_simps backoffSteps_def; rule refl)?)
      (simp add: same_delivery_def delivery_key_def)
qed

lemma webhook_down_cong: "webhook_down d w \<Longrightarrow> faults v = faults w \<Longrightarrow> tenants v = tenants w \<Longrightarrow> env v = env w \<Longrightarrow> webhook_down d v"
  by (simp add: webhook_down_def find_tenant_def)

lemma webhook_down_same: "webhook_down d w \<Longrightarrow> same_delivery d d' \<Longrightarrow> webhook_down d' w"
  by (simp add: webhook_down_def same_delivery_def delivery_key_def)

lemma attempt_step:
  assumes "after_attempts d n w v"
  shows "after_attempts d (Suc n) w (try_delivery (nd_id d) v)"
proof -
  obtain d' calls where down: "webhook_down d v" and ids: "distinct (map nd_id (deliveries v))" and calls: "ext_log v = ext_log w @ calls" "length calls = min n 6"
      "list_all (\<lambda>c. \<exists>body sig. c = CallWebhook (nd_destination d) body sig) calls"
    and d': "d' \<in> set (deliveries v)" "same_delivery d d'" "nd_attempts d' = min n 6" "nd_status d' = (if n < 6 then ''pending_dispatch'' else ''dead_letter'')"
    using assms unfolding after_attempts_def by blast
  have id: "nd_id d' = nd_id d" "nd_destination d' = nd_destination d" using d'(2) by (simp_all add: same_delivery_def)
  note row = find_row [OF ids d'(1), of "\<lambda>x. nd_status x = ''pending_dispatch''", unfolded id]
  show ?thesis
  proof (cases "n < 6")
    case False
    with row d' have "try_delivery (nd_id d) v = v" by (simp add: try_delivery_def)
    with assms False show ?thesis by (simp add: after_attempts_def)
  next
    case True
    obtain why body sig where send: "send_webhook d' v = (Inr (Some why), v\<lparr>ext_log := ext_log v @ [CallWebhook (nd_destination d) body sig]\<rparr>)"
      using send_down [OF webhook_down_same [OF down d'(2)]] id by auto
    let ?v = "v\<lparr>ext_log := ext_log v @ [CallWebhook (nd_destination d) body sig]\<rparr>"
    have f0: "faults ?v = []" "Suc (nd_attempts d') \<le> 6" using down True d'(3) by (simp_all add: webhook_down_def)
    obtain f where f: "\<And>x. nd_attempts x = nd_attempts d' \<Longrightarrow> same_delivery x (f x) \<and> nd_attempts (f x) = Suc (nd_attempts d') \<and>
        nd_status (f x) = (if nd_attempts d' < 5 then ''pending_dispatch'' else ''dead_letter'')"
      and run: "handle_delivery_failure d' why ?v = (Inr (), ?v\<lparr>deliveries := update_where (\<lambda>x. nd_id x = nd_id d') f (deliveries ?v)\<rparr>)"
      using failed_update [OF f0, of why] by blast
    have "nd_channel d' = ChannelWebhook" using down d'(2) by (simp add: webhook_down_def same_delivery_def delivery_key_def)
    then have "process_delivery d' v = (Inr (), ?v\<lparr>deliveries := update_where (\<lambda>x. nd_id x = nd_id d) f (deliveries v)\<rparr>)"
      using send run id by (simp add: process_delivery_def bindE_def gets_def ChannelEmail_def ChannelWebhook_def)
    then have tried: "try_delivery (nd_id d) v = ?v\<lparr>deliveries := update_where (\<lambda>x. nd_id x = nd_id d) f (deliveries v)\<rparr>"
      using row d' True by (simp add: try_delivery_def)
    have only: "x = d'" if "x \<in> set (deliveries v)" "nd_id x = nd_id d" for x
      using inj_onD [of nd_id "set (deliveries v)" x d'] ids d'(1) id that by (simp add: distinct_map)
    have "map nd_id (update_where (\<lambda>x. nd_id x = nd_id d) f (deliveries v)) = map nd_id (deliveries v)"
      using only f [of d'] by (auto simp: update_where_def same_delivery_def)
    moreover have "f d' \<in> set (update_where (\<lambda>x. nd_id x = nd_id d) f (deliveries v))"
      using d'(1) id by (auto simp: set_update_where)
    moreover have "same_delivery d (f d')" using f [of d'] d'(2) by (simp add: same_delivery_def)
    moreover have "nd_attempts (f d') = min (Suc n) 6" "nd_status (f d') = (if Suc n < 6 then ''pending_dispatch'' else ''dead_letter'')"
      using f [of d'] d'(3) True by (auto simp: min_def)
    moreover have "length (calls @ [CallWebhook (nd_destination d) body sig]) = min (Suc n) 6" using calls(2) True by simp
    ultimately show ?thesis
      unfolding after_attempts_def tried using calls ids webhook_down_cong [OF down] by fastforce
  qed
qed

text \<open>
  A webhook whose endpoint keeps failing is posted to exactly six times, always at the address the
  delivery was queued with, and is then a dead letter that the worker leaves alone.
\<close>

lemma webhook_tried_six_times:
  assumes "webhook_down d w" and "distinct (map nd_id (deliveries w))" and "d \<in> set (deliveries w)"
    and "nd_status d = ''pending_dispatch''" and "nd_attempts d = 0"
  shows "after_attempts d n w ((try_delivery (nd_id d) ^^ n) w)"
proof (induction n)
  case 0
  with assms show ?case by (auto simp: after_attempts_def same_delivery_def intro!: bexI [of _ d])
next
  case (Suc n)
  then show ?case by (simp add: attempt_step)
qed

definition down_world :: world where
  "down_world = empty_world\<lparr>env := sample_env\<lparr>x_webhook := (\<lambda>l url body sig. Reply 500 '''')\<rparr>, uuid_next := 1,
     tenants := [(tenant_row ''bank'' None ''t'' 0)\<lparr>tn_webhook := Some ''https://bank'', tn_secret := Some ''keysecret''\<rparr>],
     deliveries := [new_delivery failed_event (Some ''t'') ChannelWebhook ''https://bank'' (sample_src 0) 0]\<rparr>"

text \<open>
  An event of a type and an aggregate that were notified before is dropped: the second time the same
  settlement fails (after \<open>RetryPayout\<close>), nobody is told.
\<close>

lemma repeated_event_dropped:
  assumes "list_ex (\<lambda>d. delivery_key d = (ev_agg_id ev, ev_type ev, ChannelWebhook)) (deliveries w)"
    and "list_ex (\<lambda>d. delivery_key d = (ev_agg_id ev, ev_type ev, ChannelEmail)) (deliveries w)"
  shows "deliveries (snd (handle_event ev w)) = deliveries w"
proof -
  have "wp (queue_delivery ev tenant channel dest) (\<lambda>_ v'. deliveries v' = deliveries w) v"
    if "deliveries v = deliveries w" "channel \<in> {ChannelWebhook, ChannelEmail}" for tenant channel dest and v :: world
    unfolding queue_delivery_def using assms that by (intro wp_rules) auto
  then have "keeps (\<lambda>v. deliveries v = deliveries w) (queue_delivery ev tenant channel dest)"
    if "channel \<in> {ChannelWebhook, ChannelEmail}" for tenant channel dest
    using that by (auto intro: keeps_wp)
  moreover have "keeps (\<lambda>v. deliveries v = deliveries w) (webhook_config i)" for i
    unfolding webhook_config_def decrypt_secret_def by (intro keeps_rules; simp add: db_mono_def)
  ultimately have "keeps (\<lambda>v. deliveries v = deliveries w) (handle_event ev)"
    unfolding handle_event_def insert_delivery_def destination_for_def
    by (intro keeps_rules; simp)
  then show ?thesis using keepsD [of "\<lambda>v. deliveries v = deliveries w"] by blast
qed

end
