(* ===== verification/Watcher.thy ===== *)
theory Watcher
  imports Sweep Notify
begin

text \<open>
  The chain watcher (\<^verbatim>\<open>internal/treasury/watcher.go\<close>): one poll over the open reservations whose
  address it can see, the filters on what an explorer reports, the deposits it records, the sweep of a
  volatile asset at its confirmation, and the webhook a tenant gets about a wallet of its own
  (\<^verbatim>\<open>tenant_notify.go\<close>). A Go map from chains to heights is an association list. The lemmas show
  which reports become deposits, that money is only taken from addresses the engine made itself, and
  that a deposit counts as swept only when a sweep was broadcast.
\<close>

section \<open>Filters\<close>

definition dust_threshold :: "string \<Rightarrow> rat option" where
  "dust_threshold c = (if c = Bitcoin then Some (1 / 10 ^ 5) else if c = Ethereum \<or> c = BSC then Some (1 / 10 ^ 4)
     else if c = Tron then Some (1 / 10) else None)"

definition is_dust :: "string \<Rightarrow> rat \<Rightarrow> bool" where
  "is_dust c amount \<longleftrightarrow> (case dust_threshold c of None \<Rightarrow> False | Some t \<Rightarrow> amount < t)"

definition required_confirmations :: "externals \<Rightarrow> string \<Rightarrow> chain_tx \<Rightarrow> int" where
  "required_confirmations e c tx = (let n = ch_min_confirmations (cfg_chain e c) in
     if c = Bitcoin \<and> ct_rbf tx then max n 3 else n)"

definition deposit_status :: "externals \<Rightarrow> string \<Rightarrow> int \<Rightarrow> chain_tx \<Rightarrow> string" where
  "deposit_status e c tip tx =
     (if ct_confirmed tx \<and> required_confirmations e c tx \<le> wrap64 (tip - ct_height tx + 1) then ''confirmed'' else ''detected'')"

text \<open>\<open>json.Marshal\<close> of the transaction: its texts are printable ASCII.\<close>

definition json_char :: "char \<Rightarrow> string" where
  "json_char c = (if byte c = 34 \<or> byte c = 92 then [CHR 0x5C, c]
     else if c \<in> set ''<>&'' then [CHR 0x5C, CHR ''u'', CHR ''0'', CHR ''0''] @ hex_encode [c] else [c])"

definition json_text :: "string \<Rightarrow> string" where
  "json_text s = [CHR 0x22] @ concat (map json_char s) @ [CHR 0x22]"

definition json_bool :: "bool \<Rightarrow> string" where "json_bool b = (if b then ''true'' else ''false'')"

definition chain_tx_json :: "externals \<Rightarrow> chain_tx \<Rightarrow> string" where
  "chain_tx_json e tx = ''{'' @ json_text ''TxID'' @ '':'' @ json_text (ct_id tx) @ '','' @ json_text ''CryptoAsset'' @ '':'' @ json_text (ct_asset tx)
     @ '','' @ json_text ''Amount'' @ '':'' @ json_text (x_dec_text e (ct_amount tx)) @ '','' @ json_text ''Confirmed'' @ '':'' @ json_bool (ct_confirmed tx)
     @ '','' @ json_text ''BlockHeight'' @ '':'' @ dec_int (ct_height tx) @ '','' @ json_text ''IsRBF'' @ '':'' @ json_bool (ct_rbf tx) @ ''}''"

section \<open>The webhook of a tenant's own wallet\<close>

definition delivered :: "http_reply \<Rightarrow> bool" where
  "delivered r \<longleftrightarrow> (case r of NoReply _ \<Rightarrow> False | Reply status _ \<Rightarrow> 200 \<le> status \<and> status < 300)"

fun post_until :: "nat \<Rightarrow> string \<Rightarrow> string \<Rightarrow> string \<Rightarrow> bool run" where
  "post_until 0 url body sig = ret False"
| "post_until (Suc n) url body sig = bindE (post_webhook url body sig) (\<lambda>r.
     if delivered r then ret True else post_until n url body sig)"

definition deliver_signed_webhook :: "string \<Rightarrow> string \<Rightarrow> deposit_notice \<Rightarrow> unit run" where
  "deliver_signed_webhook url secret notice = bindE (gets env) (\<lambda>e. let body = x_notice_text e notice in
     bindE (post_until (cfg_webhook_retries e) url body (compute_webhook_signature e secret body)) (\<lambda>ok.
       if ok then ret () else fail (OtherErr ''treasury: deliver tenant webhook'')))"

definition notify_tenant :: "uuid \<Rightarrow> string \<Rightarrow> reservation \<Rightarrow> chain_tx \<Rightarrow> unit run" where
  "notify_tenant tenant ev r tx = bindE (webhook_config tenant) (\<lambda>c. case c of
       None \<Rightarrow> ret ()
     | Some (url, secret) \<Rightarrow> thenE (validate_webhook_url url) (bindE (gets now) (\<lambda>t.
         deliver_signed_webhook url secret \<lparr>dn_event = ev, dn_tenant = tenant, dn_reservation = rv_id r, dn_asset = rv_asset r,
           dn_network = rv_network r, dn_address = rv_address r, dn_amount = ct_amount tx, dn_tx = ct_id tx, dn_time = t\<rparr>)))"

section \<open>A poll\<close>

definition quietly :: "'a run \<Rightarrow> unit run" where
  "quietly m = thenE (attemptE m) (ret ())"

definition list_open_watchable :: "reservation list run" where
  "list_open_watchable = query (\<lambda>w. filter (\<lambda>r. rv_status r = ''reserved'' \<and>
     rv_custody r \<in> {CustodyTypeSelf, CustodyTypeTenantProvided}) (reservations w))"

text \<open>What follows a recorded transition, by who holds the key of the address.\<close>

definition after_deposit :: "reservation \<Rightarrow> string \<Rightarrow> chain_tx \<Rightarrow> unit run" where
  "after_deposit r status tx = bindE (gets env) (\<lambda>e.
     if rv_custody r = CustodyTypeSelf then
       (if status = ''confirmed'' \<and> cfg_sweeper e \<and> \<not> is_stable_asset (ct_asset tx) then quietly (execute_sweep (rv_id r)) else ret ())
     else if rv_custody r = CustodyTypeTenantProvided then
       (if cfg_tenant_webhooks e then quietly (notify_tenant (rv_tenant r) (''deposit.'' @ status) r tx) else ret ())
     else ret ())"

definition process_transaction :: "reservation \<Rightarrow> string \<Rightarrow> int \<Rightarrow> chain_tx \<Rightarrow> unit run" where
  "process_transaction r c tip tx = bindE (gets env) (\<lambda>e.
     if ct_asset tx \<noteq> rv_asset r then ret ()
     else if is_dust c (ct_amount tx) then ret ()
     else let status = deposit_status e c tip tx in
       bindE (attemptE (record_deposit_transition (rv_id r) status (ct_amount tx) (ct_id tx) (chain_tx_json e tx))) (\<lambda>rec.
         case rec of Inl _ \<Rightarrow> ret () | Inr _ \<Rightarrow> after_deposit r status tx))"

definition poll_reservation :: "reservation \<Rightarrow> string \<Rightarrow> int \<Rightarrow> unit run" where
  "poll_reservation r c tip = bindE (attemptE (list_incoming_transactions c (rv_address r))) (\<lambda>txs. case txs of
     Inl _ \<Rightarrow> ret () | Inr l \<Rightarrow> forE l (process_transaction r c tip))"

fun poll_reservations :: "(string \<times> int) list \<Rightarrow> reservation list \<Rightarrow> unit run" where
  "poll_reservations tips [] = ret ()"
| "poll_reservations tips (r # rs) = (let c = fst (chain_for_network (rv_network r)) in
     bindE (gets (\<lambda>w. has_client (env w) c)) (\<lambda>ok.
       if \<not> ok then poll_reservations tips rs
       else case map_of tips c of
           Some tip \<Rightarrow> thenE (poll_reservation r c tip) (poll_reservations tips rs)
         | None \<Rightarrow> bindE (attemptE (tip_height c)) (\<lambda>t. case t of
             Inl _ \<Rightarrow> poll_reservations tips rs
           | Inr tip \<Rightarrow> thenE (poll_reservation r c tip) (poll_reservations ((c, tip) # tips) rs))))"

definition poll_once :: "unit run" where
  "poll_once = bindE (attemptE list_open_watchable) (\<lambda>rs. case rs of Inl _ \<Rightarrow> ret () | Inr l \<Rightarrow> poll_reservations [] l)"

section \<open>What a poll acts on\<close>

text \<open>
  A transaction the client of the reservation's chain reports at its address, with a height of the chain it
  reports too; and one that passes the filters.
\<close>

definition reported :: "externals \<Rightarrow> reservation \<Rightarrow> string \<Rightarrow> int \<Rightarrow> chain_tx \<Rightarrow> bool" where
  "reported e r c tip tx \<longleftrightarrow> c = fst (chain_for_network (rv_network r)) \<and> has_client e c \<and>
     (\<exists>v. env v = e \<and> fst (tip_height c v) = Inr tip) \<and>
     (\<exists>v txs. env v = e \<and> fst (list_incoming_transactions c (rv_address r) v) = Inr txs \<and> tx \<in> set txs)"

definition watchable :: "reservation \<Rightarrow> bool" where
  "watchable r \<longleftrightarrow> rv_status r = ''reserved'' \<and> rv_custody r \<in> {CustodyTypeSelf, CustodyTypeTenantProvided}"

definition acceptable :: "externals \<Rightarrow> reservation \<Rightarrow> string \<Rightarrow> int \<Rightarrow> chain_tx \<Rightarrow> bool" where
  "acceptable e r c tip tx \<longleftrightarrow> watchable r \<and> reported e r c tip tx \<and> ct_asset tx = rv_asset r \<and> \<not> is_dust c (ct_amount tx)"

text \<open>
  The rule for a poll: a predicate that fixes the externals and the reservations is kept when every
  recording of an acceptable transaction keeps it, every sweep of a self-custody reservation, the
  questions to the chains and the webhooks.
\<close>

locale poll_rule =
  fixes P :: "world \<Rightarrow> bool" and e :: externals and rs :: "reservation list"
  assumes fixed: "P w \<Longrightarrow> env w = e \<and> reservations w = rs"
    and mono: "db_mono P"
    and asks: "keeps P (list_incoming_transactions c a)" "keeps P (tip_height c)"
    and notice: "keeps P (notify_tenant t ev r tx)"
    and sweeping: "r \<in> set rs \<Longrightarrow> rv_custody r = CustodyTypeSelf \<Longrightarrow> keeps P (execute_sweep (rv_id r))"
    and recording: "r \<in> set rs \<Longrightarrow> acceptable e r c tip tx \<Longrightarrow>
      keeps P (record_deposit_transition (rv_id r) (deposit_status e c tip tx) (ct_amount tx) (ct_id tx) (chain_tx_json e tx))"
begin

lemma keeps_after: "r \<in> set rs \<Longrightarrow> keeps P (after_deposit r status tx)"
  unfolding after_deposit_def quietly_def by (intro keeps_rules notice sweeping)

lemma wp_process:
  assumes "P w" and "r \<in> set rs" and "watchable r" and "reported e r c tip tx"
  shows "wp (process_transaction r c tip tx) (\<lambda>_. P) w"
proof -
  have rec: "wp (record_deposit_transition (rv_id r) (deposit_status e c tip tx) (ct_amount tx) (ct_id tx) (chain_tx_json e tx)) (\<lambda>_. P) w"
    if "ct_asset tx = rv_asset r" "\<not> is_dust c (ct_amount tx)"
    using assms that by (intro wp_keeps [OF recording]) (auto simp: acceptable_def)
  have after: "wp (after_deposit r status tx) (\<lambda>_. P) v" if "P v" for v status
    using that by (intro wp_keeps [OF keeps_after [OF assms(2)]])
  have e: "env w = e" using fixed assms(1) by blast
  show ?thesis
    unfolding process_transaction_def Let_def e
    by (intro wp_rules wp_attemptE wp_conseq [OF rec]) (auto simp: e assms(1) intro!: wp_rules after rec wp_attemptE wp_conseq [OF rec])
qed

lemma wp_poll_reservation:
  assumes "P w" and "r \<in> set rs" and "watchable r" and "c = fst (chain_for_network (rv_network r))" and "has_client e c"
    and "\<exists>v. env v = e \<and> fst (tip_height c v) = Inr tip"
  shows "wp (poll_reservation r c tip) (\<lambda>_. P) w"
proof -
  have "wp (case txs of Inl _ \<Rightarrow> ret () | Inr l \<Rightarrow> forE l (process_transaction r c tip)) (\<lambda>_. P) w'"
    if run: "list_incoming_transactions c (rv_address r) w = (txs, w')" for txs w'
  proof -
    have w': "P w'" using keeps_eq [OF asks(1) run assms(1)] .
    have "reported e r c tip tx" if "txs = Inr l" "tx \<in> set l" for l tx
      unfolding reported_def using assms(4-6) run that fixed [OF assms(1)] by (metis fst_conv)
    then show ?thesis
      using w' assms(2,3)
      by (auto intro!: wp_rules wp_forE [where I = P] wp_conseq [OF wp_process] split: sum.splits)
  qed
  then show ?thesis
    unfolding poll_reservation_def by (intro wp_rules wp_attemptE) (auto intro!: wpI wp_rules dest: wpD)
qed

lemma wp_poll_reservations:
  assumes "P w" and "set l \<subseteq> set rs" and "\<forall>r \<in> set l. watchable r"
    and "\<forall>(c, tip) \<in> set tips. \<exists>v. env v = e \<and> fst (tip_height c v) = Inr tip"
  shows "wp (poll_reservations tips l) (\<lambda>_. P) w"
  using assms
proof (induction l arbitrary: w tips)
  case Nil
  then show ?case by (simp add: wp_ret)
next
  case (Cons r l)
  let ?c = "fst (chain_for_network (rv_network r))"
  have rest: "wp (poll_reservations tips' l) (\<lambda>_. P) v"
    if "P v" "\<forall>(c, tip) \<in> set tips'. \<exists>v. env v = e \<and> fst (tip_height c v) = Inr tip" for v tips'
    using Cons that by simp
  have poll: "wp (thenE (poll_reservation r ?c tip) (poll_reservations tips' l)) (\<lambda>_. P) v"
    if "P v" "has_client e ?c" "\<exists>v. env v = e \<and> fst (tip_height ?c v) = Inr tip"
      "\<forall>(c, tip) \<in> set tips'. \<exists>v. env v = e \<and> fst (tip_height c v) = Inr tip" for v tip tips'
    by (rule wp_thenE, rule wp_call [OF wp_poll_reservation [OF that(1) _ _ refl that(2,3)]])
      (use Cons.prems that(4) rest in auto)
  show ?case
  proof (cases "has_client e ?c")
    case False
    then show ?thesis
      using rest [OF Cons.prems(1,4)] fixed [OF Cons.prems(1)] by (auto simp: Let_def intro!: wp_rules)
  next
    case True
    show ?thesis
    proof (cases "map_of tips ?c")
      case (Some tip)
      then have "\<exists>v. env v = e \<and> fst (tip_height ?c v) = Inr tip" using Cons.prems(4) by (auto dest: map_of_SomeD)
      then have "wp (thenE (poll_reservation r ?c tip) (poll_reservations tips l)) (\<lambda>_. P) w"
        by (rule poll [OF Cons.prems(1) True _ Cons.prems(4)])
      then show ?thesis
        using fixed [OF Cons.prems(1)] True Some by (simp add: Let_def wp_bindE wp_gets wp_bind_Inr)
    next
      case None
      have "wp (case t of Inl _ \<Rightarrow> poll_reservations tips l
             | Inr tip \<Rightarrow> thenE (poll_reservation r ?c tip) (poll_reservations ((?c, tip) # tips) l)) (\<lambda>_. P) w'"
        if run: "tip_height ?c w = (t, w')" for t w'
      proof -
        have w': "P w'" using keeps_eq [OF asks(2) run Cons.prems(1)] .
        have "\<exists>v. env v = e \<and> fst (tip_height ?c v) = Inr tip" if "t = Inr tip" for tip
          using run that fixed [OF Cons.prems(1)] by (intro exI [of _ w]) simp
        then show ?thesis
          using w' rest [OF w' Cons.prems(4)] poll [OF w' True] Cons.prems(4) by (cases t) auto
      qed
      then have "wp (attemptE (tip_height ?c)) (wp_bind (\<lambda>t. case t of Inl _ \<Rightarrow> poll_reservations tips l
             | Inr tip \<Rightarrow> thenE (poll_reservation r ?c tip) (poll_reservations ((?c, tip) # tips) l)) (\<lambda>_. P)) w"
        by (intro wp_attemptE) (rule wpI, rule wp_bind_Inr)
      then show ?thesis
        using fixed [OF Cons.prems(1)] True None by (auto simp: Let_def intro!: wp_rules)
    qed
  qed
qed

lemma keeps_poll_once: "keeps P poll_once"
proof (rule keeps_wp)
  fix w assume P: "P w"
  have ok: "wp (poll_reservations [] (filter (\<lambda>r. rv_status r = ''reserved'' \<and> rv_custody r \<in> {CustodyTypeSelf, CustodyTypeTenantProvided})
      (reservations (w\<lparr>faults := bs\<rparr>)))) (\<lambda>_. P) (w\<lparr>faults := bs\<rparr>)" for bs
    using fixed [OF P] by (intro wp_poll_reservations) (auto simp: watchable_def db_mono_faults [OF mono P])
  show "wp poll_once (\<lambda>_. P) w"
    unfolding poll_once_def list_open_watchable_def
    by (intro wp_rules wp_attemptE ok db_mono_faults [OF mono P]) (auto intro!: wp_rules ok [simplified] db_mono_faults [OF mono P])
qed

end

section \<open>Only what was reported is recorded\<close>

definition recorded_from :: "externals \<Rightarrow> reservation list \<Rightarrow> deposit \<Rightarrow> bool" where
  "recorded_from e rs d \<longleftrightarrow> (\<exists>r \<in> set rs. \<exists>c tip tx. acceptable e r c tip tx \<and> dp_reservation d = rv_id r \<and> dp_tx d = ct_id tx \<and>
     dp_status d = deposit_status e c tip tx \<and> numeric_col 20 8 (ct_amount tx) = Some (dp_amount d))"

definition unmarked :: "deposit \<Rightarrow> deposit" where
  "unmarked d = d\<lparr>dp_swept_at := None\<rparr>"

definition only_reported :: "externals \<Rightarrow> reservation list \<Rightarrow> deposit list \<Rightarrow> world \<Rightarrow> bool" where
  "only_reported e rs ds w \<longleftrightarrow> env w = e \<and> reservations w = rs \<and>
     (\<forall>d \<in> set (deposits w). unmarked d \<in> unmarked ` set ds \<or> recorded_from e rs d)"

lemma recorded_from_swept [simp]: "recorded_from e rs (swept t d) = recorded_from e rs d" "unmarked (swept t d) = unmarked d"
  by (simp_all add: recorded_from_def unmarked_def swept_def)

lemma only_reported_view [simp]: "db_view (only_reported e rs ds)" "log_view (only_reported e rs ds)"
  by (simp_all add: db_view_def log_view_def only_reported_def)

lemma frame_notify_tenant: "log_view f \<Longrightarrow> db_view f \<Longrightarrow> frame f (notify_tenant t ev r tx)"
proof -
  assume f: "log_view f" "db_view f"
  have "frame f (post_until n url body sig)" for n url body sig
    by (induction n) (use f in \<open>auto simp: post_webhook_def log_view_def intro!: frame_rules\<close>)
  then show ?thesis
    unfolding notify_tenant_def webhook_config_def deliver_signed_webhook_def validate_webhook_url_def resolve_host_def decrypt_secret_def Let_def
    using f by (intro frame_rules) (auto simp: log_view_def intro!: frame_rules)
qed

lemma keeps_only_reported_record:
  assumes "r \<in> set rs" and "acceptable e r c tip tx"
  shows "keeps (only_reported e rs ds)
    (record_deposit_transition (rv_id r) (deposit_status e c tip tx) (ct_amount tx) (ct_id tx) raw)"
proof (rule keeps_wp)
  fix w assume P: "only_reported e rs ds w"
  have new: "recorded_from (env w) (reservations w) d" if "dp_reservation d = rv_id r" "dp_tx d = ct_id tx"
      "dp_status d = deposit_status (env w) c tip tx" "numeric_col 20 8 (ct_amount tx) = Some (dp_amount d)" for d
    unfolding recorded_from_def using assms that P by (auto simp: only_reported_def)
  show "wp (record_deposit_transition (rv_id r) (deposit_status e c tip tx) (ct_amount tx) (ct_id tx) raw) (\<lambda>_. only_reported e rs ds) w"
    unfolding record_deposit_transition_def insert_deposit_if_absent_def confirm_deposit_def publish_if_bus_def publish_def Let_def
    using P by (intro wp_rules) (auto simp: only_reported_def deposit_at_def set_update_where intro: new)
qed

lemma only_reported_marks:
  "only_reported e rs ds w \<Longrightarrow> only_reported e rs ds (w\<lparr>sweeps := x\<rparr>)"
  "only_reported e rs ds w \<Longrightarrow> only_reported e rs ds (w\<lparr>deposits := update_where c (swept t) (deposits w)\<rparr>)"
  by (auto simp: only_reported_def set_update_where)

interpretation only_reports: poll_rule "only_reported e rs ds" e rs for e rs ds
proof
  show "db_mono (only_reported e rs ds)" by (simp add: db_view_mono)
  show "keeps (only_reported e rs ds) (list_incoming_transactions c a)" "keeps (only_reported e rs ds) (tip_height c)" for c a
    by (auto intro!: keeps_frame [where P = id, unfolded id_apply] frame_chain_queries)
  show "keeps (only_reported e rs ds) (notify_tenant t ev r tx)" for t ev r tx
    by (intro keeps_frame [where P = id, unfolded id_apply] frame_notify_tenant) simp_all
  show "keeps (only_reported e rs ds) (execute_sweep (rv_id r))" for r
    by (intro keeps_execute_sweep only_reported_marks) (simp_all add: db_view_mono)
qed (auto simp: only_reported_def intro: keeps_only_reported_record)

section \<open>Money is only taken from addresses the engine made\<close>

fun is_send :: "ext_call \<Rightarrow> bool" where
  "is_send (CallChain (EsploraBroadcast _)) \<longleftrightarrow> True"
| "is_send (CallChain (ScanSendRaw _ _)) \<longleftrightarrow> True"
| "is_send (CallChain (TronTransfer _ _ _)) \<longleftrightarrow> True"
| "is_send (CallChain (TronTokenTransfer _ _ _ _ _)) \<longleftrightarrow> True"
| "is_send _ \<longleftrightarrow> False"

definition sends :: "world \<Rightarrow> ext_call list" where
  "sends w = filter is_send (ext_log w)"

definition nothing_sent :: "externals \<Rightarrow> reservation list \<Rightarrow> ext_call list \<Rightarrow> world \<Rightarrow> bool" where
  "nothing_sent e rs l w \<longleftrightarrow> env w = e \<and> reservations w = rs \<and> sends w = l \<and> list_all (\<lambda>r. rv_custody r \<noteq> CustodyTypeSelf) rs"

lemma nothing_sent_view [simp]: "db_view (nothing_sent e rs l)"
  by (simp add: db_view_def nothing_sent_def sends_def)

lemma frame_ask_quiet: "\<not> is_send call \<Longrightarrow> frame (nothing_sent e rs l) (ask call f)"
  by (simp add: frame_def ask_def nothing_sent_def sends_def)

lemma frame_ask_chain_quiet: "\<not> is_send (CallChain req) \<Longrightarrow> frame (nothing_sent e rs l) (ask_chain req)"
  by (simp add: ask_chain_def frame_ask_quiet)

lemma frame_queries_quiet: "frame (nothing_sent e rs l) (list_incoming_transactions c a)" "frame (nothing_sent e rs l) (tip_height c)"
  unfolding list_incoming_transactions_def tip_height_def blockstream_incoming_def trongrid_incoming_def etherscan_incoming_def
    blockstream_tip_def trongrid_tip_def etherscan_tip_def esplora_get_def get_json_def scan_result_def
  by (intro frame_rules frame_ask_chain_quiet; simp)+

lemma frame_notify_quiet: "frame (nothing_sent e rs l) (notify_tenant t ev r tx)"
proof -
  have post: "frame (nothing_sent e rs l) (post_until n url body sig)" for n url body sig
    by (induction n) (auto simp: post_webhook_def intro!: frame_bindE frame_if frame_ret frame_ask_quiet)
  have resolve: "frame (nothing_sent e rs l) (resolve_host h)" for h
    unfolding resolve_host_def by (rule frame_ask_quiet) simp
  show ?thesis
    unfolding notify_tenant_def webhook_config_def deliver_signed_webhook_def validate_webhook_url_def decrypt_secret_def Let_def
    by (intro frame_rules post resolve) simp_all
qed

lemma frame_record_quiet: "frame (nothing_sent e rs l) (record_deposit_transition rid status amount tx raw)"
  unfolding record_deposit_transition_def insert_deposit_if_absent_def confirm_deposit_def publish_if_bus_def publish_def Let_def
  by (intro frame_rules) (auto simp: nothing_sent_def sends_def)

lemma keeps_execute_quiet: "keeps (nothing_sent e rs l) (execute_sweep rid)"
proof (rule keeps_wp)
  fix w assume P: "nothing_sent e rs l w"
  then have "rv_custody r \<noteq> CustodyTypeSelf" if "find (\<lambda>r. rv_id r = rid) (reservations w) = Some r" for r
    using find_Some_mem [OF that] by (auto simp: nothing_sent_def list_all_iff)
  then show "wp (execute_sweep rid) (\<lambda>_. nothing_sent e rs l) w"
    unfolding execute_sweep_def get_reservation_def
    by (intro wp_rules) (use P in \<open>auto simp: nothing_sent_def sends_def\<close>)
qed

interpretation quiet_polls: poll_rule "nothing_sent e rs l" e rs for e rs l
proof
  show "keeps (nothing_sent e rs l) (list_incoming_transactions c a)" "keeps (nothing_sent e rs l) (tip_height c)"
    "keeps (nothing_sent e rs l) (notify_tenant t ev r tx)"
    "keeps (nothing_sent e rs l) (record_deposit_transition rid status amount txid raw)" for c a t ev r tx rid status amount txid raw
    by (auto intro!: keeps_frame [where P = id, unfolded id_apply] frame_queries_quiet frame_notify_quiet frame_record_quiet)
qed (auto simp: nothing_sent_def db_mono_def sends_def intro: keeps_execute_quiet)

lemma keeps_batch_quiet: "keeps (nothing_sent e rs l) batch_sweep_once"
  unfolding batch_sweep_once_def list_stable_sweep_candidates_def
  by (intro keeps_rules keeps_execute_quiet) (simp add: db_view_mono)

section \<open>Swept means broadcast\<close>

definition marked_ok :: "world \<Rightarrow> deposit \<Rightarrow> bool" where
  "marked_ok w d \<longleftrightarrow> (dp_swept_at d \<noteq> None \<longrightarrow> dp_status d = ''confirmed'' \<and> self_custody w (dp_reservation d) \<and>
     (\<exists>s \<in> set (sweeps w). sw_reservation s = dp_reservation d \<and> sw_status s = ''broadcast''))"

definition sweeps_ok :: "world \<Rightarrow> bool" where
  "sweeps_ok w \<longleftrightarrow> ids_fresh (map dp_id (deposits w)) w \<and> ids_fresh (map sw_id (sweeps w)) w \<and> list_all (marked_ok w) (deposits w)"

lemma sweeps_ok_mono [simp]: "db_mono sweeps_ok"
  by (auto simp: db_mono_def sweeps_ok_def marked_ok_def self_custody_def list_all_iff intro: ids_fresh_mono)

lemma sweeps_ok_log [simp]: "log_view sweeps_ok"
  by (simp add: log_view_def sweeps_ok_def marked_ok_def [abs_def] self_custody_def ids_fresh_def)

lemma sweeps_ok_step:
  assumes ok: "sweeps_ok w" and step: "swept_step rid w w'"
  shows "sweeps_ok w'"
proof -
  have src: "uuid_src w' = uuid_src w" "uuid_next w \<le> uuid_next w'" and same: "reservations w' = reservations w"
    using step by (auto simp: swept_step_def)
  have old: "ids_fresh (map dp_id (deposits w)) w'" "ids_fresh (map sw_id (sweeps w)) w'"
    using ok src by (auto simp: sweeps_ok_def intro: ids_fresh_mono)
  consider "sweeps w' = sweeps w" "deposits w' = deposits w"
    | s where "sweeps w' = sweeps w @ [s]" "sw_id s = uuid_src w (uuid_next w)" "uuid_next w < uuid_next w'" "deposits w' = deposits w"
    | s where "sweeps w' = sweeps w @ [s]" "sw_id s = uuid_src w (uuid_next w)" "uuid_next w < uuid_next w'"
      "sw_reservation s = rid" "self_custody w rid" "sw_status s = ''broadcast''"
      "deposits w' = update_where (\<lambda>d. dp_id d \<in> set (sweepable_ids w rid)) (swept (now w)) (deposits w)"
    using step by (auto simp: swept_step_def)
  then show ?thesis
  proof cases
    case 1
    then show ?thesis using ok old same by (auto simp: sweeps_ok_def marked_ok_def self_custody_def list_all_iff)
  next
    case 2
    have "ids_fresh (map sw_id (sweeps w')) w'"
      using ids_fresh_mono [OF ids_fresh_append [of "map sw_id (sweeps w)" w "w\<lparr>uuid_next := Suc (uuid_next w)\<rparr>"]] 2 ok src
      by (simp add: sweeps_ok_def Suc_le_eq)
    then show ?thesis using 2 ok old same by (auto simp: sweeps_ok_def marked_ok_def self_custody_def list_all_iff)
  next
    case 3
    have "ids_fresh (map sw_id (sweeps w')) w'"
      using ids_fresh_mono [OF ids_fresh_append [of "map sw_id (sweeps w)" w "w\<lparr>uuid_next := Suc (uuid_next w)\<rparr>"]] 3 ok src
      by (simp add: sweeps_ok_def Suc_le_eq)
    moreover have "map dp_id (deposits w') = map dp_id (deposits w)" using 3 by (simp add: map_update_where swept_def)
    moreover have "marked_ok w' d'" if "d' \<in> set (deposits w')" for d'
    proof -
      from that 3 obtain d where d: "d \<in> set (deposits w)" "d' = (if dp_id d \<in> set (sweepable_ids w rid) then swept (now w) d else d)"
        by (auto simp: set_update_where)
      show ?thesis
      proof (cases "dp_id d \<in> set (sweepable_ids w rid)")
        case True
        then obtain x where "x \<in> set (deposits w)" "dp_id x = dp_id d" "dp_reservation x = rid" "unswept x"
          by (auto simp: sweepable_ids_def)
        then have "dp_reservation d = rid" "unswept d"
          using ok d(1) by (auto simp: sweeps_ok_def ids_fresh_def distinct_map dest: inj_onD)
        with True d(2) 3 same show ?thesis by (auto simp: marked_ok_def swept_def unswept_def self_custody_def)
      next
        case False
        with d ok same 3 show ?thesis by (auto simp: sweeps_ok_def marked_ok_def self_custody_def list_all_iff)
      qed
    qed
    ultimately show ?thesis using old by (simp add: sweeps_ok_def list_all_iff)
  qed
qed

lemma keeps_sweeps_ok_execute: "keeps sweeps_ok (execute_sweep rid)"
proof (rule keeps_wp)
  fix w assume ok: "sweeps_ok w"
  then have "ids_fresh (map sw_id (sweeps w)) w" by (simp add: sweeps_ok_def)
  then show "wp (execute_sweep rid) (\<lambda>_. sweeps_ok) w"
    by (rule wp_conseq [OF wp_execute_sweep]) (rule sweeps_ok_step [OF ok])
qed

lemma marked_ok_mono:
  "marked_ok w d \<Longrightarrow> set (reservations w) \<subseteq> set (reservations w') \<Longrightarrow> sweeps w' = sweeps w \<Longrightarrow> marked_ok w' d"
  by (auto simp: marked_ok_def self_custody_def)

lemma marked_ok_swept [simp]: "dp_swept_at d = None \<Longrightarrow> marked_ok w d"
  by (simp add: marked_ok_def)

lemma marked_ok_later: "sweeps w' = sweeps w \<Longrightarrow> reservations w' = reservations w \<Longrightarrow> marked_ok w' d = marked_ok w d"
  by (simp add: marked_ok_def self_custody_def)

lemma sweeps_ok_tables [simp]:
  "sweeps_ok (w\<lparr>outbox := es\<rparr>) = sweeps_ok w"
  "sweeps_ok (w\<lparr>custom_wallets := cw\<rparr>) = sweeps_ok w" "sweeps_ok (w\<lparr>custody_balances := cb\<rparr>) = sweeps_ok w"
  "sweeps_ok (w\<lparr>seed_row := sr\<rparr>) = sweeps_ok w" "sweeps_ok (w\<lparr>seed := sd\<rparr>) = sweeps_ok w"
  "sweeps_ok (w\<lparr>hd_counter := hc\<rparr>) = sweeps_ok w" "sweeps_ok (w\<lparr>hd_accounts := ha\<rparr>) = sweeps_ok w"
  "sweeps_ok (w\<lparr>hd_indices := hi\<rparr>) = sweeps_ok w" "sweeps_ok (w\<lparr>derived := de\<rparr>) = sweeps_ok w"
  "sweeps_ok (w\<lparr>ext_log := l\<rparr>) = sweeps_ok w" "sweeps_ok (w\<lparr>sweep_destinations := sd'\<rparr>) = sweeps_ok w"
  "sweeps_ok (w\<lparr>now := t\<rparr>) = sweeps_ok w" "sweeps_ok (w\<lparr>faults := fs\<rparr>) = sweeps_ok w"
  by (simp_all add: sweeps_ok_def marked_ok_def [abs_def] self_custody_def ids_fresh_def)

lemma keeps_sweeps_ok_insert: "keeps sweeps_ok (insert_deposit_if_absent rid status amount tx det conf raw)"
proof (rule keeps_wp)
  fix w assume ok: "sweeps_ok w"
  have "sweeps_ok (v\<lparr>uuid_next := Suc (uuid_next v), deposits := deposits v @ [d]\<rparr>)"
    if v: "sweeps_ok v" and d: "dp_id d = uuid_src v (uuid_next v)" "dp_swept_at d = None" for v :: world and d
  proof -
    let ?u = "v\<lparr>uuid_next := Suc (uuid_next v), deposits := deposits v @ [d]\<rparr>"
    have dp: "ids_fresh (map dp_id (deposits v)) v" and sw: "ids_fresh (map sw_id (sweeps v)) v"
      using v by (simp_all only: sweeps_ok_def)
    have "ids_fresh (map dp_id (deposits v) @ [uuid_src v (uuid_next v)]) ?u"
      by (rule ids_fresh_append [OF dp]) simp_all
    moreover have "ids_fresh (map sw_id (sweeps v)) ?u"
      by (rule ids_fresh_mono [OF sw]) simp_all
    moreover have "marked_ok ?u = marked_ok v" by (rule ext, rule marked_ok_later) simp_all
    ultimately show ?thesis using v d by (simp add: sweeps_ok_def)
  qed
  note add = this
  have v: "sweeps_ok (w\<lparr>faults := bs\<rparr>)" for bs using ok by simp
  show "wp (insert_deposit_if_absent rid status amount tx det conf raw) (\<lambda>_. sweeps_ok) w"
    unfolding insert_deposit_if_absent_def
    by (intro wp_rules) (use v ok add [OF v] in simp_all)
qed

lemma keeps_sweeps_ok_confirm: "keeps sweeps_ok (confirm_deposit rid tx amount raw t)"
proof -
  have "sweeps_ok (w\<lparr>deposits := update_where c (\<lambda>d. d\<lparr>dp_status := ''confirmed'', dp_confirmed_at := x, dp_amount := a, dp_payload := raw\<rparr>) (deposits w)\<rparr>)"
    if "sweeps_ok w" for w c a x
  proof -
    have "ids_fresh ids (w\<lparr>deposits := z\<rparr>) = ids_fresh ids w" for ids z by (simp add: ids_fresh_def)
    then show ?thesis
      using that by (simp add: sweeps_ok_def map_update_where list_all_iff set_update_where ball_Un) (auto simp: marked_ok_def self_custody_def)
  qed
  then show ?thesis unfolding confirm_deposit_def by (intro keeps_rules) simp_all
qed

lemma keeps_sweeps_ok_record: "keeps sweeps_ok (record_deposit_transition rid status amount tx raw)"
  unfolding record_deposit_transition_def Let_def
  by (intro keeps_rules keeps_sweeps_ok_insert keeps_sweeps_ok_confirm) simp_all

lemma sweeps_ok_reservations: "sweeps_ok w \<Longrightarrow> sweeps_ok (w\<lparr>reservations := reservations w @ rs\<rparr>)"
  by (auto simp: sweeps_ok_def list_all_iff ids_fresh_def intro: marked_ok_mono [of w])

lemma keeps_sweeps_ok_account: "keeps sweeps_ok (get_or_allocate_tenant_account n t)"
  by (induction n) (auto simp: next_account_def insert_hd_account_def intro!: keeps_rules split: err.split)

lemma keeps_sweeps_ok_provider: "keeps sweeps_ok (provider_reserve name tenant asset network amount)"
  unfolding provider_reserve_def busha_reserve_deposit_def self_custody_reserve_def tenant_wallet_reserve_def sandbox_reserve_def
    get_tenant_custom_wallet_def allocate_or_reuse_address_def find_free_derived_address_def allocate_next_index_def
    insert_derived_address_def Let_def
  by (intro keeps_rules keeps_sweeps_ok_account) simp_all

lemma keeps_sweeps_ok_reserve: "keeps sweeps_ok (reserve_address tenant cid amount)"
proof -
  have "keeps sweeps_ok (reserve_from tenant c amount bs)" for c bs
    by (induction bs) (auto simp: persist_reservation_def Let_def sweeps_ok_reservations intro!: keeps_rules keeps_sweeps_ok_provider)
  then show ?thesis
    unfolding reserve_address_def get_corridor_by_id_def list_active_providers_def by (intro keeps_rules) simp_all
qed

lemma keeps_sweeps_ok_step: "keeps sweeps_ok (treasury_step cmd)"
proof -
  have hook: "keeps sweeps_ok (handle_deposit_webhook body sig)" for body sig
    unfolding handle_deposit_webhook_def find_reservation_by_reference_def get_reservation_def
    by (intro keeps_rules keeps_sweeps_ok_record) simp_all
  have "self_custody (w\<lparr>reservations := update_where c (\<lambda>r. r\<lparr>rv_status := s, rv_released_at := t\<rparr>) (reservations w)\<rparr>) rid = self_custody w rid"
    for w c s t rid
    by (simp add: self_custody_def set_update_where bex_Un) blast
  then have "sweeps_ok w \<Longrightarrow> sweeps_ok (w\<lparr>reservations := update_where c (\<lambda>r. r\<lparr>rv_status := s, rv_released_at := t\<rparr>) (reservations w)\<rparr>)"
    for w c s t
    by (simp add: sweeps_ok_def marked_ok_def [abs_def] ids_fresh_def)
  then show ?thesis
    by (cases cmd) (auto simp: hook release_reservation_def confirm_due_sandbox_deposits_def Let_def get_deposit_instructions_def
      register_tenant_custom_wallet_def record_custody_balance_def initialize_hd_wallet_seed_def load_hd_wallet_seed_def
      intro!: keeps_rules keeps_sweeps_ok_record keeps_sweeps_ok_reserve)
qed

definition sweeps_ok_in :: "externals \<Rightarrow> reservation list \<Rightarrow> world \<Rightarrow> bool" where
  "sweeps_ok_in e rs w \<longleftrightarrow> sweeps_ok w \<and> env w = e \<and> reservations w = rs"

lemma keeps_in: "keeps sweeps_ok m \<Longrightarrow> frame env m \<Longrightarrow> frame reservations m \<Longrightarrow> keeps (sweeps_ok_in e rs) m"
  by (simp add: keeps_def frame_def sweeps_ok_in_def)

interpretation sweeping_polls: poll_rule "sweeps_ok_in e rs" e rs for e rs
proof
  show "keeps (sweeps_ok_in e rs) (execute_sweep (rv_id r))" for r
  proof (rule keeps_in [OF keeps_sweeps_ok_execute])
    show "frame env (execute_sweep (rv_id r))" "frame reservations (execute_sweep (rv_id r))"
      unfolding execute_sweep_def get_reservation_def get_sweepable_deposits_def get_sweep_destination_def find_derivation_index_def
        persist_sweep_def finish_sweep_def update_sweep_status_def mark_deposits_swept_def Let_def
      by (intro frame_rules; simp)+
  qed
  show "keeps (sweeps_ok_in e rs) (record_deposit_transition rid status amount txid raw)" for rid status amount txid raw
  proof (rule keeps_in [OF keeps_sweeps_ok_record])
    show "frame env (record_deposit_transition rid status amount txid raw)"
      "frame reservations (record_deposit_transition rid status amount txid raw)"
      unfolding record_deposit_transition_def insert_deposit_if_absent_def confirm_deposit_def publish_if_bus_def publish_def Let_def
      by (intro frame_rules; simp)+
  qed
  have mono: "db_mono (sweeps_ok_in e rs)" and log: "log_view (sweeps_ok_in e rs)"
    using sweeps_ok_mono by (auto simp: sweeps_ok_in_def db_mono_def log_view_def)
  show "db_mono (sweeps_ok_in e rs)" by (rule mono)
  show "keeps (sweeps_ok_in e rs) (list_incoming_transactions c a)" "keeps (sweeps_ok_in e rs) (tip_height c)" for c a
    by (auto intro!: keeps_frame [where P = id, unfolded id_apply] frame_chain_queries log)
  have "keeps (sweeps_ok_in e rs) (post_until n url body sig)" for n url body sig
    by (induction n) (use log in \<open>auto simp: post_webhook_def log_view_def intro!: keeps_rules\<close>)
  then show "keeps (sweeps_ok_in e rs) (notify_tenant t ev r tx)" for t ev r tx
    unfolding notify_tenant_def webhook_config_def deliver_signed_webhook_def validate_webhook_url_def resolve_host_def decrypt_secret_def Let_def
    using mono log by (intro keeps_rules) (auto simp: log_view_def intro!: keeps_rules)
qed (simp add: sweeps_ok_in_def)

text \<open>
  Everything that writes these tables, in any order, with any failing statements; time, the script of
  faults and the calls of the other components change between two operations.
\<close>

datatype chain_op =
    WPoll | WBatch | WSweep uuid | WDestination string string string | WTreasury treasury_cmd
  | WOther time "bool list" "ext_call list"

fun chain_step :: "chain_op \<Rightarrow> unit run" where
  "chain_step WPoll = poll_once"
| "chain_step WBatch = batch_sweep_once"
| "chain_step (WSweep rid) = execute_sweep rid"
| "chain_step (WDestination n a d) = set_sweep_destination n a d"
| "chain_step (WTreasury cmd) = treasury_step cmd"
| "chain_step (WOther t fs calls) = modify (\<lambda>w. w\<lparr>now := t, faults := fs, ext_log := ext_log w @ calls\<rparr>)"

fun chain_run :: "chain_op list \<Rightarrow> world \<Rightarrow> world" where
  "chain_run [] w = w"
| "chain_run (op # ops) w = chain_run ops (snd (chain_step op w))"

lemma keeps_sweeps_ok_chain: "keeps sweeps_ok (chain_step op)"
proof (cases op)
  case WPoll
  have "keeps sweeps_ok poll_once"
    using sweeping_polls.keeps_poll_once by (auto simp: keeps_def sweeps_ok_in_def)
  with WPoll show ?thesis by simp
qed (auto simp: batch_sweep_once_def list_stable_sweep_candidates_def set_sweep_destination_def
    intro!: keeps_rules keeps_sweeps_ok_execute keeps_sweeps_ok_step)

lemma chain_run_keeps: "(\<And>op. keeps P (chain_step op)) \<Longrightarrow> P w \<Longrightarrow> P (chain_run ops w)"
  by (induction ops arbitrary: w) (auto dest: keepsD)

section \<open>Properties\<close>



definition tenant_reservation :: reservation where
  "tenant_reservation = sample_reservation\<lparr>rv_custody := CustodyTypeTenantProvided, rv_status := ''reserved'', rv_network := ''TRC20''\<rparr>"




text \<open>
  A TRC-20 deposit is confirmed on its first report, however many confirmations are configured: its height is
  taken as 0, so the whole chain counts.
\<close>

lemma trc20_confirmed_at_once:
  assumes "trc20_deposit address t = Inr (Some tx)" and "ch_min_confirmations (cfg_chain e Tron) \<le> tip" and "0 \<le> tip" and "tip < 2 ^ 62"
  shows "deposit_status e Tron tip tx = ''confirmed''"
  using assms trc20_reported [OF assms(1)] by (simp add: deposit_status_def required_confirmations_def Let_def wrap64_id)

end
