(* ===== verification/Catalog.thy ===== *)
theory Catalog
  imports Corridor
begin

text \<open>
  The catalog of supported networks and assets, \<^verbatim>\<open>internal/corridor/catalog.go\<close>: what a new
  corridor may use. \<open>networks\<close>, \<open>assets\<close> and \<open>asset_networks\<close> are the tables of migration 38, with
  their keys and references as conditions of the statements; deleting a row of the first two takes its pairs
  along. The lemmas show that the catalog stays well formed, that an entry a corridor uses is never deleted,
  and when a pair is supported.
\<close>

abbreviation ErrInvalidCode :: err where "ErrInvalidCode \<equiv> Sentinel ''corridor: invalid code''"
abbreviation ErrInvalidName :: err where "ErrInvalidName \<equiv> Sentinel ''corridor: name is required''"
abbreviation ErrUnknownNetwork :: err where "ErrUnknownNetwork \<equiv> Sentinel ''corridor: unknown network''"
abbreviation ErrUnsupportedCrypto :: err where "ErrUnsupportedCrypto \<equiv> Sentinel ''corridor: unsupported crypto''"

section \<open>Codes and names\<close>

definition code_char :: "char \<Rightarrow> bool" where
  "code_char c \<longleftrightarrow> (65 \<le> byte c \<and> byte c \<le> 90) \<or> (48 \<le> byte c \<and> byte c \<le> 57) \<or> c = CHR ''_''"

definition code_pattern :: "string \<Rightarrow> bool" where
  "code_pattern s \<longleftrightarrow> 2 \<le> length s \<and> length s \<le> 20 \<and> list_all code_char s"

definition canonical_code :: "string \<Rightarrow> string" where
  "canonical_code code = to_upper (trim_space code)"

definition normalize_code :: "string \<Rightarrow> err + string" where
  "normalize_code code = (let c = canonical_code code in if code_pattern c then Inr c else Inl ErrInvalidCode)"

definition normalize_name :: "string \<Rightarrow> err + string" where
  "normalize_name name = (let n = trim_space name in if n = '''' then Inl ErrInvalidName else Inr n)"

fun normalize_all :: "string list \<Rightarrow> err + string list" where
  "normalize_all [] = Inr []"
| "normalize_all (n # ns) = (case normalize_code n of
       Inl e \<Rightarrow> Inl e
     | Inr c \<Rightarrow> (case normalize_all ns of Inl e \<Rightarrow> Inl e | Inr cs \<Rightarrow> Inr (c # cs)))"

text \<open>Without repetitions, in the order of the bytes.\<close>

definition normalize_network_list :: "string list \<Rightarrow> err + string list" where
  "normalize_network_list ns = map_sum id (\<lambda>cs. fold insert_str cs []) (normalize_all ns)"

definition normalize_opt :: "('a \<Rightarrow> err + 'b) \<Rightarrow> 'a option \<Rightarrow> err + 'b option" where
  "normalize_opt f v = (case v of None \<Rightarrow> Inr None | Some x \<Rightarrow> map_sum id Some (f x))"

section \<open>Rows\<close>

definition find_entry :: "string \<Rightarrow> catalog_entry list \<Rightarrow> catalog_entry option" where
  "find_entry c = find (\<lambda>e. ce_code e = c)"

definition new_entry :: "string \<Rightarrow> string \<Rightarrow> bool \<Rightarrow> time \<Rightarrow> catalog_entry" where
  "new_entry c n active t = \<lparr>ce_code = c, ce_name = n, ce_active = active, ce_created = t, ce_updated = t\<rparr>"

text \<open>\<open>SET name = COALESCE($2, name), active = COALESCE($3, active), updated_at = now()\<close>\<close>

definition set_entry :: "string option \<Rightarrow> bool option \<Rightarrow> time \<Rightarrow> catalog_entry \<Rightarrow> catalog_entry" where
  "set_entry name active t e = e\<lparr>ce_name := (case name of None \<Rightarrow> ce_name e | Some n \<Rightarrow> n),
     ce_active := (case active of None \<Rightarrow> ce_active e | Some a \<Rightarrow> a), ce_updated := t\<rparr>"

fun insert_by :: "('a \<Rightarrow> string) \<Rightarrow> 'a \<Rightarrow> 'a list \<Rightarrow> 'a list" where
  "insert_by k x [] = [x]"
| "insert_by k x (y # ys) = (if ord_class.lexordp (str_key (k x)) (str_key (k y)) then x # y # ys else y # insert_by k x ys)"

definition sort_by :: "('a \<Rightarrow> string) \<Rightarrow> 'a list \<Rightarrow> 'a list" where
  "sort_by k xs = fold (insert_by k) xs []"

section \<open>Networks\<close>

definition list_networks :: "catalog_entry list run" where
  "list_networks = query (\<lambda>w. sort_by ce_code (networks w))"

definition get_network :: "string \<Rightarrow> catalog_entry run" where
  "get_network code = bindE (query (\<lambda>w. find_entry (canonical_code code) (networks w)))
     (\<lambda>r. case r of None \<Rightarrow> fail ErrCorridorNotFound | Some e \<Rightarrow> ret e)"

definition insert_network :: "string \<Rightarrow> string \<Rightarrow> bool \<Rightarrow> catalog_entry run" where
  "insert_network c n active = stmt (bindE (gets (\<lambda>w. (find_entry c (networks w) \<noteq> None, new_entry c n active (now w)))) (\<lambda>(dup, e).
     if dup then fail ErrAlreadyExists
     else thenE (modify (\<lambda>w. w\<lparr>networks := networks w @ [e]\<rparr>)) (ret e)))"

definition create_network :: "string \<Rightarrow> string \<Rightarrow> bool \<Rightarrow> catalog_entry run" where
  "create_network code name active = bindE (lift_sum (normalize_code code)) (\<lambda>c.
     bindE (lift_sum (normalize_name name)) (\<lambda>n. insert_network c n active))"

definition update_network :: "string \<Rightarrow> string option \<Rightarrow> bool option \<Rightarrow> catalog_entry run" where
  "update_network code name active = bindE (lift_sum (normalize_opt normalize_name name)) (\<lambda>n.
     stmt (bindE (gets (\<lambda>w. (now w, find_entry (canonical_code code) (networks w)))) (\<lambda>(t, r). case r of
         None \<Rightarrow> fail ErrCorridorNotFound
       | Some e \<Rightarrow> thenE (modify (\<lambda>w. w\<lparr>networks := update_where (\<lambda>e. ce_code e = canonical_code code) (set_entry n active t) (networks w)\<rparr>))
           (ret (set_entry n active t e)))))"

section \<open>Assets\<close>

text \<open>An asset with the networks it is available on.\<close>

definition networks_of :: "world \<Rightarrow> string \<Rightarrow> string list" where
  "networks_of w c = fold insert_str (map snd (filter (\<lambda>(a, _). a = c) (asset_networks w))) []"

definition list_assets :: "(catalog_entry \<times> string list) list run" where
  "list_assets = query (\<lambda>w. map (\<lambda>e. (e, networks_of w (ce_code e))) (sort_by ce_code (assets w)))"

definition get_asset :: "string \<Rightarrow> (catalog_entry \<times> string list) run" where
  "get_asset code = bindE (query (\<lambda>w. map_option (\<lambda>e. (e, networks_of w (ce_code e))) (find_entry (canonical_code code) (assets w))))
     (\<lambda>r. case r of None \<Rightarrow> fail ErrCorridorNotFound | Some a \<Rightarrow> ret a)"

definition add_asset_network :: "string \<Rightarrow> string \<Rightarrow> unit run" where
  "add_asset_network asset n = stmt (bindE (gets (\<lambda>w. (find_entry asset (assets w) \<noteq> None \<and> find_entry n (networks w) \<noteq> None,
       (asset, n) \<in> set (asset_networks w)))) (\<lambda>(known, dup).
     if \<not> known then fail ErrUnknownNetwork
     else if dup then fail (UniqueErr ''crypto_asset_networks_pkey'')
     else modify (\<lambda>w. w\<lparr>asset_networks := asset_networks w @ [(asset, n)]\<rparr>)))"

definition set_asset_networks :: "string \<Rightarrow> string list \<Rightarrow> unit run" where
  "set_asset_networks asset nets = thenE (exec (\<lambda>w. w\<lparr>asset_networks := filter (\<lambda>(a, _). a \<noteq> asset) (asset_networks w)\<rparr>))
     (forE nets (add_asset_network asset))"

definition insert_asset :: "string \<Rightarrow> string \<Rightarrow> bool \<Rightarrow> unit run" where
  "insert_asset c n active = stmt (bindE (gets (\<lambda>w. (find_entry c (assets w) \<noteq> None, new_entry c n active (now w)))) (\<lambda>(dup, e).
     if dup then fail ErrAlreadyExists else modify (\<lambda>w. w\<lparr>assets := assets w @ [e]\<rparr>)))"

definition create_asset :: "string \<Rightarrow> string \<Rightarrow> bool \<Rightarrow> string list \<Rightarrow> (catalog_entry \<times> string list) run" where
  "create_asset code name active nets = bindE (lift_sum (normalize_code code)) (\<lambda>c.
     bindE (lift_sum (normalize_name name)) (\<lambda>n.
     bindE (lift_sum (normalize_network_list nets)) (\<lambda>ns.
       atomically (thenE begin_tx (thenE (insert_asset c n active) (thenE (set_asset_networks c ns)
         (bindE (get_asset c) (\<lambda>a. thenE commit_tx (ret a)))))))))"

definition set_asset :: "string \<Rightarrow> string option \<Rightarrow> bool option \<Rightarrow> unit run" where
  "set_asset c name active = stmt (bindE (gets (\<lambda>w. find_entry c (assets w))) (\<lambda>r. case r of
       None \<Rightarrow> fail ErrCorridorNotFound
     | Some e \<Rightarrow> modify (\<lambda>w. w\<lparr>assets := update_where (\<lambda>e. ce_code e = c) (set_entry name active (now w)) (assets w)\<rparr>)))"

definition update_asset :: "string \<Rightarrow> string option \<Rightarrow> bool option \<Rightarrow> string list option \<Rightarrow> (catalog_entry \<times> string list) run" where
  "update_asset code name active nets = (let c = canonical_code code in
     bindE (lift_sum (normalize_opt normalize_name name)) (\<lambda>n.
     bindE (lift_sum (normalize_opt normalize_network_list nets)) (\<lambda>ns.
       atomically (thenE begin_tx (thenE (set_asset c n active)
         (thenE (case ns of None \<Rightarrow> ret () | Some l \<Rightarrow> set_asset_networks c l)
           (bindE (get_asset c) (\<lambda>a. thenE commit_tx (ret a)))))))))"

section \<open>Deleting\<close>

datatype catalog_table = CryptoNetworks | CryptoAssets

fun entries_of :: "catalog_table \<Rightarrow> world \<Rightarrow> catalog_entry list" where
  "entries_of CryptoNetworks w = networks w"
| "entries_of CryptoAssets w = assets w"

fun corridor_column :: "catalog_table \<Rightarrow> corridor \<Rightarrow> string" where
  "corridor_column CryptoNetworks = co_network"
| "corridor_column CryptoAssets = co_asset"

text \<open>\<open>DELETE FROM table WHERE code = $1\<close>, with the pairs that refer to the row.\<close>

fun without :: "catalog_table \<Rightarrow> string \<Rightarrow> world \<Rightarrow> world" where
  "without CryptoNetworks c w = w\<lparr>networks := filter (\<lambda>e. ce_code e \<noteq> c) (networks w),
     asset_networks := filter (\<lambda>(_, n). n \<noteq> c) (asset_networks w)\<rparr>"
| "without CryptoAssets c w = w\<lparr>assets := filter (\<lambda>e. ce_code e \<noteq> c) (assets w),
     asset_networks := filter (\<lambda>(a, _). a \<noteq> c) (asset_networks w)\<rparr>"

definition in_use :: "catalog_table \<Rightarrow> string \<Rightarrow> world \<Rightarrow> bool" where
  "in_use t c w \<longleftrightarrow> list_ex (\<lambda>co. to_upper (corridor_column t co) = c) (corridors w)"

definition delete_catalog_entry :: "catalog_table \<Rightarrow> string \<Rightarrow> unit run" where
  "delete_catalog_entry t code = (let c = canonical_code code in
     atomically (thenE begin_tx (bindE (query (\<lambda>w. find_entry c (entries_of t w))) (\<lambda>r. case r of
         None \<Rightarrow> fail ErrCorridorNotFound
       | Some _ \<Rightarrow> bindE (query (in_use t c)) (\<lambda>used.
           if used then fail ErrInUse else thenE (exec (without t c)) commit_tx)))))"

definition delete_network :: "string \<Rightarrow> unit run" where
  "delete_network code = delete_catalog_entry CryptoNetworks code"

definition delete_asset :: "string \<Rightarrow> unit run" where
  "delete_asset code = delete_catalog_entry CryptoAssets code"

section \<open>What a corridor may use\<close>

definition check_crypto_supported :: "string \<Rightarrow> string \<Rightarrow> unit run" where
  "check_crypto_supported asset network = (let a = canonical_code asset; n = canonical_code network in
     bindE (query (\<lambda>w. (map_option ce_active (find_entry a (assets w)), map_option ce_active (find_entry n (networks w)),
         (a, n) \<in> set (asset_networks w)))) (\<lambda>(asset_active, network_active, available).
       if asset_active \<noteq> Some True then fail ErrUnsupportedCrypto
       else if network_active \<noteq> Some True then fail ErrUnsupportedCrypto
       else guardE available ErrUnsupportedCrypto))"

definition ensure_entries :: "string \<Rightarrow> string \<Rightarrow> unit run" where
  "ensure_entries a n = exec (\<lambda>w. w\<lparr>
     networks := (if find_entry n (networks w) = None then networks w @ [new_entry n n True (now w)] else networks w),
     assets := (if find_entry a (assets w) = None then assets w @ [new_entry a a True (now w)] else assets w)\<rparr>)"

definition ensure_pair :: "string \<Rightarrow> string \<Rightarrow> unit run" where
  "ensure_pair a n = stmt (bindE (gets (\<lambda>w. (find_entry a (assets w) \<noteq> None \<and> find_entry n (networks w) \<noteq> None,
       (a, n) \<in> set (asset_networks w)))) (\<lambda>(known, dup).
     if dup then ret () else if \<not> known then fail (ConstraintErr ''crypto_asset_networks'')
     else modify (\<lambda>w. w\<lparr>asset_networks := asset_networks w @ [(a, n)]\<rparr>)))"

definition ensure_crypto :: "string \<Rightarrow> string \<Rightarrow> unit run" where
  "ensure_crypto asset network = bindE (lift_sum (normalize_code asset)) (\<lambda>a. bindE (lift_sum (normalize_code network)) (\<lambda>n.
     thenE (ensure_entries a n) (ensure_pair a n)))"

section \<open>The catalog stays well formed\<close>

definition table_ok :: "catalog_entry list \<Rightarrow> bool" where
  "table_ok es \<longleftrightarrow> distinct (map ce_code es) \<and> list_all (\<lambda>e. code_pattern (ce_code e) \<and> ce_name e \<noteq> '''') es"

text \<open>Codes of the right shape, none twice; a name for everything; pairs of listed entries, none twice.\<close>

definition catalog_ok :: "world \<Rightarrow> bool" where
  "catalog_ok w \<longleftrightarrow> table_ok (networks w) \<and> table_ok (assets w) \<and> distinct (asset_networks w) \<and>
     set (asset_networks w) \<subseteq> ce_code ` set (assets w) \<times> ce_code ` set (networks w)"

datatype catalog_op =
    ListNetworks
  | GetNetwork string
  | CreateNetwork string string bool
  | UpdateNetwork string "string option" "bool option"
  | DeleteNetwork string
  | ListAssets
  | GetAsset string
  | CreateAsset string string bool "string list"
  | UpdateAsset string "string option" "bool option" "string list option"
  | DeleteAsset string
  | CheckCryptoSupported string string
  | EnsureCrypto string string

fun catalog_step :: "catalog_op \<Rightarrow> unit run" where
  "catalog_step ListNetworks = thenE list_networks (ret ())"
| "catalog_step (GetNetwork c) = thenE (get_network c) (ret ())"
| "catalog_step (CreateNetwork c n a) = thenE (create_network c n a) (ret ())"
| "catalog_step (UpdateNetwork c n a) = thenE (update_network c n a) (ret ())"
| "catalog_step (DeleteNetwork c) = delete_network c"
| "catalog_step ListAssets = thenE list_assets (ret ())"
| "catalog_step (GetAsset c) = thenE (get_asset c) (ret ())"
| "catalog_step (CreateAsset c n a ns) = thenE (create_asset c n a ns) (ret ())"
| "catalog_step (UpdateAsset c n a ns) = thenE (update_asset c n a ns) (ret ())"
| "catalog_step (DeleteAsset c) = delete_asset c"
| "catalog_step (CheckCryptoSupported a n) = check_crypto_supported a n"
| "catalog_step (EnsureCrypto a n) = ensure_crypto a n"

text \<open>A sequence of requests; one that fails does not stop the next.\<close>

fun catalog_run :: "catalog_op list \<Rightarrow> world \<Rightarrow> world" where
  "catalog_run [] w = w"
| "catalog_run (op # ops) w = catalog_run ops (snd (catalog_step op w))"

lemma catalog_run_keeps: "(\<And>op. keeps P (catalog_step op)) \<Longrightarrow> P w \<Longrightarrow> P (catalog_run ops w)"
  by (induction ops arbitrary: w) (auto dest: keepsD)

lemma find_entry_None: "find_entry c es = None \<longleftrightarrow> c \<notin> ce_code ` set es"
  by (auto simp: find_entry_def find_None_iff)

lemma find_entry_Some: "find_entry c es = Some e \<Longrightarrow> e \<in> set es \<and> ce_code e = c"
  by (auto simp: find_entry_def dest: find_Some_mem)

lemma normalize_codeD: "normalize_code code = Inr c \<Longrightarrow> code_pattern c"
  by (auto simp: normalize_code_def Let_def split: if_splits)

lemma normalize_nameD: "normalize_name name = Inr n \<Longrightarrow> n \<noteq> ''''"
  by (auto simp: normalize_name_def Let_def split: if_splits)

lemma code_pattern_name: "code_pattern c \<Longrightarrow> c \<noteq> ''''"
  by (auto simp: code_pattern_def)

lemma normalize_opt_nameD: "normalize_opt normalize_name v = Inr (Some n) \<Longrightarrow> n \<noteq> ''''"
  by (cases v; cases "normalize_name (the v)") (auto simp: normalize_opt_def dest: normalize_nameD)

lemma set_entry_simps [simp]:
  "ce_code (set_entry n a t e) = ce_code e" "ce_code (new_entry c m b t) = c" "ce_name (new_entry c m b t) = m"
  by (simp_all add: set_entry_def new_entry_def)

lemma set_entry_name: "ce_name e \<noteq> '''' \<Longrightarrow> n \<noteq> Some '''' \<Longrightarrow> ce_name (set_entry n a t e) \<noteq> ''''"
  by (auto simp: set_entry_def split: option.split)

lemma codes_of_update [simp]: "map ce_code (update_where q (set_entry n a t) es) = map ce_code es"
  by (rule map_update_where) simp

lemma codes_of_update_set [simp]: "ce_code ` set (update_where q (set_entry n a t) es) = ce_code ` set es"
  by (simp flip: set_map)

lemma table_ok_insert: "table_ok es \<Longrightarrow> c \<notin> ce_code ` set es \<Longrightarrow> code_pattern c \<Longrightarrow> n \<noteq> '''' \<Longrightarrow> table_ok (es @ [new_entry c n a t])"
  by (auto simp: table_ok_def)

lemma table_ok_update: "table_ok es \<Longrightarrow> n \<noteq> Some '''' \<Longrightarrow> table_ok (update_where q (set_entry n a t) es)"
  by (auto simp: table_ok_def list_all_iff set_update_where set_entry_name)

lemma table_ok_filter: "table_ok es \<Longrightarrow> table_ok (filter q es)"
  by (auto simp: table_ok_def list_all_iff distinct_map_filter)

lemma db_mono_catalog: "db_mono catalog_ok" "db_mono (\<lambda>w. env w = e)"
  by (simp_all add: db_mono_def catalog_ok_def)

lemma keeps_insert_network:
  "code_pattern c \<Longrightarrow> n \<noteq> '''' \<Longrightarrow> keeps catalog_ok (insert_network c n a)"
  unfolding insert_network_def
  by (rule keeps_wp, intro wp_rules) (auto simp: catalog_ok_def find_entry_None intro: table_ok_insert)

lemma keeps_insert_asset: "code_pattern c \<Longrightarrow> n \<noteq> '''' \<Longrightarrow> keeps catalog_ok (insert_asset c n a)"
  unfolding insert_asset_def
  by (rule keeps_wp, intro wp_rules) (auto simp: catalog_ok_def find_entry_None intro: table_ok_insert)

lemma keeps_set_asset: "n \<noteq> Some '''' \<Longrightarrow> keeps catalog_ok (set_asset c n a)"
  unfolding set_asset_def
  by (rule keeps_wp, intro wp_rules) (auto simp: catalog_ok_def intro: table_ok_update)

lemma keeps_add_pair: "keeps catalog_ok (add_asset_network a n)"
  unfolding add_asset_network_def
  by (rule keeps_wp, intro wp_rules) (auto simp: catalog_ok_def find_entry_None)

lemma keeps_set_pairs: "keeps catalog_ok (set_asset_networks a ns)"
  unfolding set_asset_networks_def
  by (intro keeps_rules keeps_add_pair db_mono_catalog) (auto simp: catalog_ok_def)

lemma keeps_without: "catalog_ok w \<Longrightarrow> catalog_ok (without t c w)"
  by (cases t) (auto simp: catalog_ok_def table_ok_filter)

lemma keeps_delete_entry: "keeps catalog_ok (delete_catalog_entry t c)"
  unfolding delete_catalog_entry_def by (intro keeps_rules db_mono_catalog keeps_without)

lemma keeps_lift_bind: "(\<And>x. r = Inr x \<Longrightarrow> keeps P (k x)) \<Longrightarrow> keeps P (bindE (lift_sum r) k)"
  by (cases r) (simp_all add: keeps_def bindE_def fail_def ret_def)

lemma keeps_update_network: "keeps catalog_ok (update_network c n a)"
  unfolding update_network_def
proof (rule keeps_lift_bind, rule keeps_wp)
  fix m w assume m: "normalize_opt normalize_name n = Inr m" and w: "catalog_ok w"
  from m have "m \<noteq> Some ''''" by (metis normalize_opt_nameD)
  with w show "wp (stmt (bindE (gets (\<lambda>w. (now w, find_entry (canonical_code c) (networks w)))) (\<lambda>(t, r). case r of
      None \<Rightarrow> fail ErrCorridorNotFound
    | Some e \<Rightarrow> thenE (modify (\<lambda>w. w\<lparr>networks := update_where (\<lambda>e. ce_code e = canonical_code c) (set_entry m a t) (networks w)\<rparr>))
        (ret (set_entry m a t e))))) (\<lambda>_. catalog_ok) w"
    by (intro wp_rules) (auto simp: catalog_ok_def intro: table_ok_update)
qed

lemma keeps_create_network: "keeps catalog_ok (create_network c n a)"
  unfolding create_network_def
  by (intro keeps_lift_bind keeps_insert_network) (auto dest: normalize_codeD normalize_nameD)

lemma keeps_get_asset: "keeps catalog_ok (get_asset c)"
  unfolding get_asset_def by (intro keeps_rules db_mono_catalog)

lemma keeps_create_asset: "keeps catalog_ok (create_asset c n a ns)"
  unfolding create_asset_def
  by (intro keeps_lift_bind keeps_atomically keeps_thenE keeps_bindE keeps_tick_fault keeps_ret db_mono_catalog keeps_set_pairs
      keeps_insert_asset keeps_get_asset) (auto dest: normalize_codeD normalize_nameD)

lemma keeps_update_asset: "keeps catalog_ok (update_asset c n a ns)"
  unfolding update_asset_def Let_def
  by (intro keeps_lift_bind keeps_atomically keeps_thenE keeps_bindE keeps_tick_fault keeps_ret keeps_case_option db_mono_catalog
      keeps_set_pairs keeps_set_asset keeps_get_asset) (metis normalize_opt_nameD)

lemma keeps_ensure_entries: "code_pattern a \<Longrightarrow> code_pattern n \<Longrightarrow> keeps catalog_ok (ensure_entries a n)"
  unfolding ensure_entries_def
  by (intro keeps_rules db_mono_catalog)
    (auto simp: catalog_ok_def find_entry_None intro!: table_ok_insert dest: code_pattern_name)

lemma keeps_ensure_pair: "keeps catalog_ok (ensure_pair a n)"
  unfolding ensure_pair_def
  by (rule keeps_wp, intro wp_rules) (auto simp: catalog_ok_def find_entry_None)

lemma keeps_ensure_crypto: "keeps catalog_ok (ensure_crypto a n)"
  unfolding ensure_crypto_def
  by (intro keeps_lift_bind keeps_thenE keeps_ensure_entries keeps_ensure_pair) (auto dest: normalize_codeD)

lemma keeps_catalog_reads:
  "keeps catalog_ok list_networks" "keeps catalog_ok (get_network c)" "keeps catalog_ok list_assets"
  "keeps catalog_ok (check_crypto_supported a n)"
  unfolding list_networks_def get_network_def list_assets_def check_crypto_supported_def Let_def
  by (intro keeps_rules db_mono_catalog)+

lemma keeps_catalog_step: "keeps catalog_ok (catalog_step op)"
  by (cases op)
    (simp_all add: keeps_thenE keeps_ret keeps_catalog_reads keeps_get_asset keeps_create_network keeps_update_network keeps_create_asset
      keeps_update_asset keeps_ensure_crypto keeps_delete_entry delete_network_def delete_asset_def)

text \<open>
  C36. The catalog of supported crypto is well formed after every sequence of catalog requests, whatever they ask for and
  whatever fails: codes are 2 to 20 of A-Z, 0-9 and underscore and occur once per table, every entry has a name,
  and every asset and network pair is listed once and of two existing entries.
\<close>

theorem catalog_well_formed:
  assumes "catalog_ok w"
  shows "catalog_ok (catalog_run ops w)"
  by (rule catalog_run_keeps [OF keeps_catalog_step assms])

definition catalog_world :: world where
  "catalog_world = empty_world\<lparr>networks := [new_entry ''TRON'' ''Tron'' True 0], assets := [new_entry ''USDT'' ''Tether'' True 0],
     asset_networks := [(''USDT'', ''TRON'')], corridors := [sample_corridor\<lparr>co_asset := ''usdt'', co_network := ''Tron''\<rparr>]\<rparr>"

lemma catalog_world_ok: "catalog_ok catalog_world"
  by (simp add: catalog_ok_def catalog_world_def empty_world_def new_entry_def table_ok_def code_pattern_def code_char_def byte_def)

theorem catalog_well_formed_witness:
  "catalog_ok (catalog_run [CreateNetwork '' bsc '' ''BSC'' True, UpdateAsset ''usdt'' None None (Some [''bsc'', ''tron'']), DeleteNetwork ''tron''] catalog_world)"
  by (rule catalog_well_formed [OF catalog_world_ok])

section \<open>What corridors use stays listed\<close>

definition listed :: "catalog_table \<Rightarrow> string \<Rightarrow> world \<Rightarrow> bool" where
  "listed t c w \<longleftrightarrow> in_use t c w \<and> c \<in> ce_code ` set (entries_of t w)"

lemma db_mono_listed: "db_mono (listed t c)"
  by (cases t) (simp_all add: db_mono_def listed_def in_use_def)

lemma listed_without: "listed t c w \<Longrightarrow> \<not> in_use u d w \<Longrightarrow> listed t c (without u d w)"
  by (cases t; cases u) (auto simp: listed_def in_use_def)

lemma listed_delete: "keeps (listed t c) (delete_catalog_entry u code)"
  unfolding delete_catalog_entry_def Let_def
proof (rule keeps_atomically [OF db_mono_listed], rule keeps_wp)
  fix w assume "listed t c w"
  then have w: "listed t c (w\<lparr>faults := bs\<rparr>)" for bs by (rule db_mono_faults [OF db_mono_listed])
  have s: "w\<lparr>faults := a, faults := b\<rparr> = w\<lparr>faults := b\<rparr>" for a b by simp
  have in_use: "in_use u d (w\<lparr>faults := bs\<rparr>) = in_use u d w" for d bs by (simp add: in_use_def)
  show "wp (thenE begin_tx (bindE (query (\<lambda>w. find_entry (canonical_code code) (entries_of u w)))
      (\<lambda>r. case r of None \<Rightarrow> fail ErrCorridorNotFound
        | Some _ \<Rightarrow> bindE (query (in_use u (canonical_code code))) (\<lambda>used.
            if used then fail ErrInUse else thenE (exec (without u (canonical_code code))) commit_tx)))) (\<lambda>_. listed t c) w"
    by (intro wp_rules; simp add: w in_use)
      (auto intro!: db_mono_faults [OF db_mono_listed] listed_without w simp: in_use)
qed
text \<open>A request other than a deletion takes no code away.\<close>

definition codes_kept :: "world \<Rightarrow> world \<Rightarrow> bool" where
  "codes_kept w w' \<longleftrightarrow> corridors w' = corridors w \<and> ce_code ` set (networks w) \<subseteq> ce_code ` set (networks w') \<and>
     ce_code ` set (assets w) \<subseteq> ce_code ` set (assets w')"

lemma codes_kept_listed: "codes_kept w w' \<Longrightarrow> listed t c w \<Longrightarrow> listed t c w'"
  by (cases t) (auto simp: codes_kept_def listed_def in_use_def)

lemma db_mono_codes_kept: "db_mono (codes_kept w)"
  by (simp add: db_mono_def codes_kept_def)

lemma keeps_codes_catalog:
  "keeps (codes_kept v) (insert_network c n a)" "keeps (codes_kept v) (insert_asset c n a)" "keeps (codes_kept v) (set_asset c m b)"
  "keeps (codes_kept v) (add_asset_network c n)" "keeps (codes_kept v) (ensure_entries c n)" "keeps (codes_kept v) (ensure_pair c n)"
  unfolding insert_network_def insert_asset_def set_asset_def add_asset_network_def ensure_entries_def ensure_pair_def
  by (intro keeps_rules db_mono_codes_kept; auto simp: codes_kept_def)+

lemma keeps_codes_update_network: "keeps (codes_kept v) (update_network c m b)"
  unfolding update_network_def
  by (intro keeps_lift_bind keeps_rules db_mono_codes_kept) (auto simp: codes_kept_def)

lemma keeps_codes_pairs: "keeps (codes_kept v) (set_asset_networks c ns)"
  unfolding set_asset_networks_def
  by (intro keeps_rules keeps_codes_catalog db_mono_codes_kept) (auto simp: codes_kept_def)

lemma keeps_codes_step:
  assumes "\<And>c. op \<noteq> DeleteNetwork c" and "\<And>c. op \<noteq> DeleteAsset c"
  shows "keeps (codes_kept v) (catalog_step op)"
  using assms
  by (cases op)
    (simp_all add: list_networks_def get_network_def list_assets_def get_asset_def check_crypto_supported_def create_network_def
      create_asset_def update_asset_def ensure_crypto_def Let_def keeps_rules db_mono_codes_kept keeps_codes_catalog
      keeps_codes_pairs keeps_codes_update_network split: option.split, blast+)

lemma listed_step: "keeps (listed t c) (catalog_step op)"
proof (cases "(\<exists>c. op = DeleteNetwork c) \<or> (\<exists>c. op = DeleteAsset c)")
  case True
  then show ?thesis by (auto simp: delete_network_def delete_asset_def listed_delete)
next
  case False
  then have "codes_kept w (snd (catalog_step op w))" for w
    by (intro keepsD [OF keeps_codes_step]) (auto simp: codes_kept_def)
  then show ?thesis by (auto simp: keeps_def intro: codes_kept_listed)
qed

text \<open>
  C2. A network or asset of the catalog that some corridor uses, in whatever letter case the corridor stores it, is
  still listed after every sequence of catalog requests: deleting it is refused.
\<close>

theorem used_entry_stays_listed:
  assumes "in_use t c w" and "find_entry c (entries_of t w) \<noteq> None"
  shows "find_entry c (entries_of t (catalog_run ops w)) \<noteq> None"
proof -
  have "listed t c (catalog_run ops w)"
    by (rule catalog_run_keeps [OF listed_step]) (use assms in \<open>simp add: listed_def find_entry_None\<close>)
  then show ?thesis by (simp add: listed_def find_entry_None)
qed

lemma upper_sample: "to_upper ''Tron'' = ''TRON''"
  by code_simp

theorem used_entry_stays_listed_witness:
  "find_entry ''TRON'' (entries_of CryptoNetworks (catalog_run [DeleteNetwork '' tron'', DeleteAsset ''USDT''] catalog_world)) \<noteq> None"
  by (rule used_entry_stays_listed)
    (simp_all add: in_use_def catalog_world_def find_entry_def new_entry_def upper_sample empty_world_def sample_corridor_def)

section \<open>The check for a new corridor\<close>

definition supported :: "string \<Rightarrow> string \<Rightarrow> world \<Rightarrow> bool" where
  "supported asset network w \<longleftrightarrow> (\<exists>a \<in> set (assets w). ce_code a = canonical_code asset \<and> ce_active a) \<and>
     (\<exists>n \<in> set (networks w). ce_code n = canonical_code network \<and> ce_active n) \<and>
     (canonical_code asset, canonical_code network) \<in> set (asset_networks w)"

lemma table_find: "table_ok es \<Longrightarrow> find_entry c es = Some e \<longleftrightarrow> e \<in> set es \<and> ce_code e = c"
  by (induction es) (auto simp: table_ok_def find_entry_def)

lemma supported_iff:
  assumes "catalog_ok w" and "faults w = []"
  shows "check_crypto_supported a n w = (if supported a n w then (Inr (), w) else (Inl ErrUnsupportedCrypto, w))"
proof -
  have t: "table_ok (assets w)" "table_ok (networks w)" using assms(1) by (simp_all add: catalog_ok_def)
  have "supported a n w \<longleftrightarrow> map_option ce_active (find_entry (canonical_code a) (assets w)) = Some True \<and>
      map_option ce_active (find_entry (canonical_code n) (networks w)) = Some True \<and>
      (canonical_code a, canonical_code n) \<in> set (asset_networks w)"
    by (auto simp: supported_def table_find [OF t(1)] table_find [OF t(2)])
  with assms(2) show ?thesis by (simp add: check_crypto_supported_def Let_def op_simps)
qed

lemma supported_InrD:
  assumes "catalog_ok w" and "check_crypto_supported a n w = (Inr u, w')"
  shows "supported a n w \<and> (\<exists>bs. w' = w\<lparr>faults := bs\<rparr>)"
proof -
  have t: "table_ok (assets w)" "table_ok (networks w)" using assms(1) by (simp_all add: catalog_ok_def)
  from assms(2) show ?thesis unfolding check_crypto_supported_def Let_def
    by (elim bindE_InrE) (auto dest!: query_InrD simp: supported_def table_find [OF t(1)] table_find [OF t(2)] op_simps split: if_splits)
qed

end
