(* ===== verification/Kyc.thy ===== *)
theory Kyc
  imports Tenant
begin

text \<open>
  Identity checks, \<^verbatim>\<open>internal/kyc\<close>: the request and its normal form (\<^verbatim>\<open>kyc.go\<close>), the comparison of
  names and dates with the official record (\<^verbatim>\<open>match.go\<close>), the sandbox and the Nuban provider
  (\<^verbatim>\<open>sandbox.go\<close>, \<^verbatim>\<open>nuban.go\<close>) and the row that is kept. The vendor's answer and the layouts of
  \<^verbatim>\<open>time.Parse\<close> are external: \<open>x_date layout text\<close> is the date in the form YYYY-MM-DD. Names are
  ASCII. Where a value of an answer is kept as raw JSON, its text is the one \<open>raw_text\<close> gives: strings
  without escapes, whole numbers without a fraction or an exponent. The lemmas show that the normal form
  is stable, when a check is a match, and that nothing of the official record but the outcome is kept or
  returned.
\<close>

abbreviation ErrKycInvalid :: err where "ErrKycInvalid \<equiv> Sentinel ''kyc: invalid request''"
abbreviation ErrKycNotConfigured :: err where "ErrKycNotConfigured \<equiv> Sentinel ''kyc: verification is not available''"
abbreviation ErrKycUnavailable :: err where
  "ErrKycUnavailable \<equiv> Sentinel ''kyc: verification provider unavailable, try again later''"
abbreviation ErrRecordNotFound :: err where "ErrRecordNotFound \<equiv> Sentinel ''kyc: record not found''"

section \<open>Requests and records\<close>

definition IDTypeBVN :: string where "IDTypeBVN = ''bvn''"
definition IDTypeNIN :: string where "IDTypeNIN = ''nin''"
definition IDTypePhone :: string where "IDTypePhone = ''phone''"
definition IDTypeDriversLicense :: string where "IDTypeDriversLicense = ''drivers_license''"

lemmas id_types = IDTypeBVN_def IDTypeNIN_def IDTypePhone_def IDTypeDriversLicense_def

datatype kyc_result = ResultMatch | ResultPartialMatch | ResultNoMatch | ResultNotFound | ResultError

fun result_text :: "kyc_result \<Rightarrow> string" where
  "result_text ResultMatch = ''match''"
| "result_text ResultPartialMatch = ''partial_match''"
| "result_text ResultNoMatch = ''no_match''"
| "result_text ResultNotFound = ''not_found''"
| "result_text ResultError = ''error''"

datatype field_check = FieldMatch | FieldMismatch | FieldNotChecked | FieldUnavailable

fun field_text :: "field_check \<Rightarrow> string" where
  "field_text FieldMatch = ''match''"
| "field_text FieldMismatch = ''mismatch''"
| "field_text FieldNotChecked = ''not_checked''"
| "field_text FieldUnavailable = ''unavailable''"

record kyc_request =
  kq_type :: string
  kq_number :: string
  kq_first :: string
  kq_last :: string
  kq_dob :: string
  kq_consent :: bool

record kyc_record =
  ky_first :: string
  ky_middle :: string
  ky_last :: string
  ky_dob :: string
  ky_fee :: "rat option"
  ky_currency :: string

definition empty_record :: kyc_record where
  "empty_record = \<lparr>ky_first = [], ky_middle = [], ky_last = [], ky_dob = [], ky_fee = None, ky_currency = []\<rparr>"

section \<open>Validation\<close>

definition eleven_digits :: "string \<Rightarrow> bool" where
  "eleven_digits s \<longleftrightarrow> length s = 11 \<and> list_all is_digit s"

definition licence_char :: "char \<Rightarrow> bool" where
  "licence_char c \<longleftrightarrow> (65 \<le> byte c \<and> byte c \<le> 90) \<or> is_digit c"

definition licence_format :: "string \<Rightarrow> bool" where
  "licence_format s \<longleftrightarrow> 5 \<le> length s \<and> length s \<le> 20 \<and> list_all licence_char s"

definition without_chars :: "string \<Rightarrow> string \<Rightarrow> string" where
  "without_chars cs s = filter (\<lambda>c. c \<notin> set cs) s"

definition trim_plus :: "string \<Rightarrow> string" where
  "trim_plus s = (case cut_prefix s ''+'' of None \<Rightarrow> s | Some t \<Rightarrow> t)"

definition normalize_phone :: "string \<Rightarrow> string option" where
  "normalize_phone v = (let s = trim_plus (without_chars '' -()'' v);
       t = (if has_prefix s ''234'' \<and> length s = 13 then ''0'' @ drop 3 s else s)
     in if eleven_digits t \<and> hd t = CHR ''0'' then Some t else None)"

definition normalize_number :: "string \<Rightarrow> string \<Rightarrow> string option" where
  "normalize_number t n = (if t = IDTypeBVN \<or> t = IDTypeNIN then (if eleven_digits n then Some n else None)
     else if t = IDTypePhone then normalize_phone n
     else if t = IDTypeDriversLicense then (let l = to_upper (without_chars '' -'' n) in if licence_format l then Some l else None)
     else None)"

definition validate :: "externals \<Rightarrow> kyc_request \<Rightarrow> err + kyc_request" where
  "validate e req = (if \<not> kq_consent req then Inl ErrKycInvalid
     else let r = req\<lparr>kq_number := trim_space (kq_number req), kq_first := trim_space (kq_first req),
         kq_last := trim_space (kq_last req), kq_dob := trim_space (kq_dob req)\<rparr>
       in if kq_first r = '''' \<or> kq_last r = '''' then Inl ErrKycInvalid
         else case normalize_number (kq_type r) (kq_number r) of
             None \<Rightarrow> Inl ErrKycInvalid
           | Some n \<Rightarrow> (if kq_dob r \<noteq> '''' \<and> x_date e ''2006-01-02'' (kq_dob r) = None then Inl ErrKycInvalid
               else Inr (r\<lparr>kq_number := n\<rparr>)))"

section \<open>Comparison\<close>

definition word_char :: "char \<Rightarrow> char option" where
  "word_char c = (if c = CHR ''-'' \<or> is_space c then Some (CHR '' '') else if is_alnum c then Some c else None)"

fun split_words :: "string \<Rightarrow> string \<Rightarrow> string list" where
  "split_words acc [] = (if acc = [] then [] else [acc])"
| "split_words acc (c # s) = (if is_space c then (if acc = [] then split_words [] s else acc # split_words [] s)
     else split_words (acc @ [c]) s)"

definition name_words :: "string \<Rightarrow> string list" where
  "name_words s = split_words [] (List.map_filter word_char (to_lower s))"

definition name_check :: "string \<Rightarrow> string \<Rightarrow> field_check" where
  "name_check given on_record = (let have = name_words on_record; want = name_words given in
     if have = [] then FieldUnavailable
     else if want = [] then FieldMismatch
     else if list_all (\<lambda>w. w \<in> set have) want then FieldMatch else FieldMismatch)"

definition date_layouts :: "string list" where
  "date_layouts = [''2006-01-02'', ''2006-01-02T15:04:05Z07:00'', ''2006-01-02 15:04:05'', ''02-01-2006'', ''02/01/2006'', ''2-1-2006'',
     ''2/1/2006'', ''02-Jan-2006'', ''2-Jan-2006'', ''02 Jan 2006'', ''2 January 2006'', ''January 2, 2006'']"

fun first_layout :: "externals \<Rightarrow> string list \<Rightarrow> string \<Rightarrow> string option" where
  "first_layout e [] s = None"
| "first_layout e (l # ls) s = (case x_date e l s of Some d \<Rightarrow> Some d | None \<Rightarrow> first_layout e ls s)"

definition parse_date :: "externals \<Rightarrow> string \<Rightarrow> string option" where
  "parse_date e s = (let t = trim_space s in if t = '''' then None else first_layout e date_layouts t)"

definition dob_check :: "externals \<Rightarrow> string \<Rightarrow> string \<Rightarrow> field_check" where
  "dob_check e given on_record = (case parse_date e on_record of
     None \<Rightarrow> FieldUnavailable | Some d \<Rightarrow> if d = given then FieldMatch else FieldMismatch)"

text \<open>The map of the checks, by its keys in order.\<close>

definition compare_record :: "externals \<Rightarrow> kyc_request \<Rightarrow> kyc_record \<Rightarrow> kyc_result \<times> (string \<times> field_check) list" where
  "compare_record e req rec = (let
       f = name_check (kq_first req) (ky_first rec @ '' '' @ ky_middle rec);
       l = name_check (kq_last req) (ky_last rec);
       d = (if kq_dob req \<noteq> '''' then dob_check e (kq_dob req) (ky_dob rec) else FieldNotChecked);
       checks = [(''date_of_birth'', d), (''first_name'', f), (''last_name'', l)]
     in if f \<noteq> FieldMatch \<and> l \<noteq> FieldMatch then (ResultNoMatch, checks)
        else if list_ex (\<lambda>(_, c). c \<noteq> FieldMatch \<and> c \<noteq> FieldNotChecked) checks then (ResultPartialMatch, checks)
        else (ResultMatch, checks))"

section \<open>The providers\<close>

definition sandbox_lookup :: "kyc_lookup \<Rightarrow> err + kyc_record" where
  "sandbox_lookup l = (let c = last (kl_number l) in
     if c = CHR ''0'' then Inl ErrRecordNotFound
     else if c = CHR ''1'' then Inr (empty_record\<lparr>ky_first := ''Sandbox'', ky_last := ''Person'', ky_dob := ''1990-01-31''\<rparr>)
     else if c = CHR ''2'' then Inr (empty_record\<lparr>ky_first := kl_first l, ky_last := ''Different'', ky_dob := ''1990-01-31''\<rparr>)
     else if c = CHR ''9'' then Inl (OtherErr ''sandbox: simulated provider outage'')
     else Inr (empty_record\<lparr>ky_first := trim_space (kl_first l), ky_last := trim_space (kl_last l), ky_dob := ''31-01-1990''\<rparr>))"

definition trim_quotes :: "string \<Rightarrow> string" where
  "trim_quotes s = rev (dropWhile (\<lambda>c. byte c = 34) (rev (dropWhile (\<lambda>c. byte c = 34) s)))"

fun raw_text :: "externals \<Rightarrow> json \<Rightarrow> string" where
  "raw_text e JNull = ''null''"
| "raw_text e (JBool b) = (if b then ''true'' else ''false'')"
| "raw_text e (JNum x) = (if of_int \<lfloor>x\<rfloor> = x then dec_int \<lfloor>x\<rfloor> else x_dec_text e x)"
| "raw_text e (JStr s) = [CHR 0x22] @ s @ [CHR 0x22]"
| "raw_text e (JArr js) = ''[]''"
| "raw_text e (JObj kvs) = ''{}''"

definition raw_field :: "(string \<times> json) list \<Rightarrow> string \<Rightarrow> json option" where
  "raw_field kvs n = fold (\<lambda>j _. Some j) (vals_at kvs n) None"

definition status_ok :: "string \<Rightarrow> bool" where
  "status_ok raw \<longleftrightarrow> trim_quotes (to_lower (trim_space raw)) \<in> {'''', ''true'', ''success'', ''successful'', ''ok'', ''200''}"

fun contains :: "string \<Rightarrow> string \<Rightarrow> bool" where
  "contains [] p = (p = [])"
| "contains (c # s) p = (has_prefix (c # s) p \<or> contains s p)"

definition looks_not_found :: "string \<Rightarrow> bool" where
  "looks_not_found msg = (let m = to_lower msg in
     if list_ex (contains m) [''key'', ''balance'', ''credit'', ''limit'', ''unauthori''] then False
     else contains m ''not found'' \<or> contains m ''no record'' \<or> contains m ''invalid'')"

definition parse_fee :: "externals \<Rightarrow> string \<Rightarrow> rat option" where
  "parse_fee e raw = (let s = trim_quotes (trim_space raw) in if s = '''' \<or> s = ''null'' then None else x_decimal e s)"

definition first_non_empty :: "string \<Rightarrow> string \<Rightarrow> string" where
  "first_non_empty a b = (if trim_space a \<noteq> '''' then a else if trim_space b \<noteq> '''' then b else '''')"

text \<open>The \<open>data\<close> object; the types of its fields are checked before any is used.\<close>

definition decode_nuban :: "externals \<Rightarrow> (string \<times> json) list \<Rightarrow> kyc_record option" where
  "decode_nuban e kvs = (case (str_field kvs ''firstname'', str_field kvs ''lastname'', str_field kvs ''surname'', str_field kvs ''middlename'',
       str_field kvs ''dob'', str_field kvs ''birthdate'', obj_field kvs ''billing'') of
     (Some f, Some l, Some s, Some m, Some d, Some b, Some o') \<Rightarrow> (case str_field o' ''currency'' of
         None \<Rightarrow> None
       | Some cur \<Rightarrow> Some \<lparr>ky_first = f, ky_middle = m, ky_last = first_non_empty l s, ky_dob = first_non_empty d b,
           ky_fee = (case raw_field o' ''verification_fee'' of None \<Rightarrow> None | Some j \<Rightarrow> parse_fee e (raw_text e j)), ky_currency = cur\<rparr>)
   | _ \<Rightarrow> None)"

definition read_nuban :: "externals \<Rightarrow> int \<Rightarrow> string \<Rightarrow> err + kyc_record" where
  "read_nuban e code body = (let env = (case struct_fields (x_json e body) of None \<Rightarrow> [] | Some kvs \<Rightarrow> kvs);
       msg = str_lax env ''message'' in
     if code = 404 then Inl ErrRecordNotFound
     else if code = 400 then Inl ErrRecordNotFound
     else if code < 200 \<or> 299 < code then Inl (OtherErr ''nuban: HTTP'')
     else case (status_ok (case raw_field env ''status'' of None \<Rightarrow> '''' | Some j \<Rightarrow> raw_text e j), raw_field env ''data'') of
         (True, Some JNull) \<Rightarrow> if looks_not_found msg then Inl ErrRecordNotFound else Inl (OtherErr ''nuban: unsuccessful response'')
       | (True, Some (JObj kvs)) \<Rightarrow> (case decode_nuban e kvs of
             None \<Rightarrow> Inl (OtherErr ''nuban: unexpected response shape'')
           | Some rec \<Rightarrow> if ky_first rec = '''' \<and> ky_last rec = '''' then Inl (OtherErr ''nuban: response had no name'') else Inr rec)
       | (True, Some _) \<Rightarrow> Inl (OtherErr ''nuban: unexpected response shape'')
       | _ \<Rightarrow> if looks_not_found msg then Inl ErrRecordNotFound else Inl (OtherErr ''nuban: unsuccessful response''))"

definition nuban_lookup :: "kyc_lookup \<Rightarrow> kyc_record run" where
  "nuban_lookup l = (if kl_type l \<notin> {IDTypeBVN, IDTypeNIN, IDTypePhone, IDTypeDriversLicense} then fail (OtherErr ''nuban: unsupported id type'')
     else bindE (ask (CallKyc l) (\<lambda>e log. x_kyc e log l)) (\<lambda>r. case r of
         NoReply _ \<Rightarrow> fail (OtherErr ''nuban: request failed'')
       | Reply code body \<Rightarrow> bindE (gets env) (\<lambda>e. lift_sum (read_nuban e code body))))"

definition provider_lookup :: "string \<Rightarrow> kyc_lookup \<Rightarrow> kyc_record run" where
  "provider_lookup p l = (if p = ''sandbox'' then lift_sum (sandbox_lookup l) else nuban_lookup l)"

section \<open>A check\<close>

definition hash_id_number :: "externals \<Rightarrow> string \<Rightarrow> string \<Rightarrow> string" where
  "hash_id_number e t n = hex_encode (x_hmac e (x_hmac e (cfg_kyc_secret e) ''kyc-id-number-hash-v1'') (t @ '':'' @ n))"

definition fee_of :: "kyc_record \<Rightarrow> bool \<Rightarrow> (rat \<times> string option) option" where
  "fee_of rec billed = (if billed then map_option (\<lambda>f. (f, if ky_currency rec \<noteq> '''' then Some (ky_currency rec) else None)) (ky_fee rec) else None)"

definition insert_check :: "string \<Rightarrow> uuid \<Rightarrow> uuid option \<Rightarrow> kyc_request \<Rightarrow> kyc_result \<Rightarrow> (string \<times> field_check) list \<Rightarrow> (rat \<times> string option) option \<Rightarrow> kyc_check run" where
  "insert_check p tenant key req result checks fee = stmt (bindE gen_uuid (\<lambda>i. bindE (gets (\<lambda>w.
       (list_ex (\<lambda>t. tn_id t = tenant) (tenants w), case key of None \<Rightarrow> True | Some k \<Rightarrow> list_ex (\<lambda>r. ak_id r = k) (api_keys w),
        \<lparr>kc_id = i, kc_tenant = tenant, kc_api_key = key, kc_provider = p, kc_type = kq_type req,
          kc_hash = hash_id_number (env w) (kq_type req) (kq_number req), kc_result = result_text result,
          kc_checks = map (\<lambda>(k, c). (k, field_text c)) checks, kc_fee = None, kc_created = now w\<rparr>))) (\<lambda>(tenant_ok, key_ok, row).
     if \<not> tenant_ok then fail (ConstraintErr ''kyc_checks_tenant_id_fkey'')
     else if \<not> key_ok then fail (ConstraintErr ''kyc_checks_api_key_id_fkey'')
     else bindE (lift_sum (case fee of None \<Rightarrow> Inr None | Some (f, cur) \<Rightarrow> (case numeric_col 12 2 f of
         None \<Rightarrow> Inl (ConstraintErr ''numeric field overflow'') | Some f' \<Rightarrow> Inr (Some (f', cur))))) (\<lambda>stored.
       thenE (modify (\<lambda>w. w\<lparr>kyc_checks := kyc_checks w @ [row\<lparr>kc_fee := stored\<rparr>]\<rparr>)) (ret (row\<lparr>kc_fee := stored\<rparr>))))))"

definition record_check :: "string \<Rightarrow> uuid \<Rightarrow> uuid option \<Rightarrow> kyc_request \<Rightarrow> kyc_result \<Rightarrow> (string \<times> field_check) list \<Rightarrow> kyc_record \<Rightarrow> bool \<Rightarrow> kyc_check run" where
  "record_check p tenant key req result checks rec billed = insert_check p tenant key req result checks (fee_of rec billed)"

text \<open>What the caller gets: \<open>Check\<close>.\<close>

record kyc_answer =
  kn_id :: uuid
  kn_type :: string
  kn_result :: kyc_result
  kn_checks :: "(string \<times> field_check) list"
  kn_created :: time

definition conclude :: "externals \<Rightarrow> string \<Rightarrow> uuid \<Rightarrow> uuid option \<Rightarrow> kyc_request \<Rightarrow> err + kyc_record \<Rightarrow> kyc_answer run" where
  "conclude e p tenant key q r = (let (result, checks) = (case r of Inr rec \<Rightarrow> compare_record e q rec
       | Inl er \<Rightarrow> if er = ErrRecordNotFound then (ResultNotFound, []) else (ResultError, []))
     in bindE (case r of Inr rec \<Rightarrow> record_check p tenant key q result checks rec True
            | Inl _ \<Rightarrow> record_check p tenant key q result checks empty_record False) (\<lambda>row.
          if result = ResultError then fail ErrKycUnavailable
          else ret \<lparr>kn_id = kc_id row, kn_type = kc_type row, kn_result = result, kn_checks = checks, kn_created = kc_created row\<rparr>))"

definition verify :: "uuid \<Rightarrow> uuid option \<Rightarrow> kyc_request \<Rightarrow> kyc_answer run" where
  "verify tenant key req = bindE (gets env) (\<lambda>e. case cfg_kyc e of
       None \<Rightarrow> fail ErrKycNotConfigured
     | Some p \<Rightarrow> bindE (lift_sum (validate e req)) (\<lambda>q.
         bindE (attemptE (provider_lookup p \<lparr>kl_type = kq_type q, kl_number = kq_number q, kl_first = kq_first q, kl_last = kq_last q\<rparr>))
           (conclude e p tenant key q)))"

section \<open>The normal form is stable\<close>

lemma trim_space_id: "list_all (\<lambda>c. \<not> is_space c) s \<Longrightarrow> trim_space s = s"
proof -
  have id: "dropWhile is_space t = t" if "list_all (\<lambda>c. \<not> is_space c) t" for t
    using that by (cases t) simp_all
  assume "list_all (\<lambda>c. \<not> is_space c) s"
  then show ?thesis by (simp add: trim_space_def id list_all_iff)
qed

lemma trim_space_idem [simp]: "trim_space (trim_space s) = trim_space s"
proof -
  define t where "t = dropWhile is_space s"
  define u where "u = rev (dropWhile is_space (rev t))"
  have "dropWhile is_space u = u"
  proof (cases u)
    case (Cons c v)
    have "t = u @ rev (takeWhile is_space (rev t))"
      unfolding u_def by (metis rev_append rev_rev_ident takeWhile_dropWhile_id)
    then have "hd t = c" "t \<noteq> []" unfolding Cons by (metis append_Cons list.sel(1), metis append_Cons list.distinct(1))
    then have "\<not> is_space c" unfolding t_def using hd_dropWhile by metis
    then show ?thesis using Cons by simp
  qed simp
  then have "trim_space u = rev (dropWhile is_space (rev u))" by (simp add: trim_space_def)
  also have "\<dots> = u" by (simp add: u_def)
  finally show ?thesis by (simp add: trim_space_def u_def t_def)
qed

lemma digit_facts: "is_digit c \<Longrightarrow> \<not> is_space c \<and> c \<notin> set '' -()'' \<and> c \<noteq> CHR ''+''"
  by (auto simp: is_digit_def is_space_def byte_def)

lemma without_chars_id: "list_all (\<lambda>c. c \<notin> set cs) s \<Longrightarrow> without_chars cs s = s"
  by (simp add: without_chars_def list_all_iff filter_id_conv)

lemma normalize_phone_form: "normalize_phone v = Some t \<Longrightarrow> eleven_digits t \<and> hd t = CHR ''0''"
  by (simp add: normalize_phone_def Let_def split: if_splits)

lemma normalize_phone_local:
  assumes "eleven_digits t" and "hd t = CHR ''0''"
  shows "normalize_phone t = Some t"
proof -
  have t: "t \<noteq> []" "list_all is_digit t" "length t = 11" using assms(1) by (auto simp: eleven_digits_def)
  then have plain: "list_all (\<lambda>c. c \<notin> set '' -()'') t" unfolding list_all_iff using digit_facts by blast
  have "hd t \<noteq> CHR ''+''" using assms(2) by simp
  then have "trim_plus t = t" using t(1) by (cases t) (simp_all add: trim_plus_def cut_prefix_def has_prefix_def)
  moreover have "\<not> (has_prefix t ''234'' \<and> length t = 13)" using t(3) by simp
  ultimately show ?thesis
    using assms by (simp only: normalize_phone_def without_chars_id [OF plain] Let_def if_False if_True simp_thms)
qed

lemma licence_char_facts: "licence_char c \<Longrightarrow> \<not> is_space c \<and> c \<notin> set '' -'' \<and> upper_char c = c"
  by (auto simp: licence_char_def is_digit_def is_space_def upper_char_def byte_def)

lemma licence_id:
  assumes "licence_format l"
  shows "to_upper (without_chars '' -'' l) = l" and "trim_space l = l"
proof -
  have "list_all licence_char l" using assms by (simp add: licence_format_def)
  then have "list_all (\<lambda>c. \<not> is_space c) l" "list_all (\<lambda>c. c \<notin> set '' -'') l" "list_all (\<lambda>c. upper_char c = c) l"
    unfolding list_all_iff using licence_char_facts by blast+
  then show "to_upper (without_chars '' -'' l) = l" "trim_space l = l"
    by (simp_all add: without_chars_id trim_space_id to_upper_def list_all_iff map_idI)
qed

lemma eleven_digits_trim: "eleven_digits s \<Longrightarrow> trim_space s = s"
  by (rule trim_space_id) (auto simp: eleven_digits_def list_all_iff dest: digit_facts)

lemma normalize_number_stable:
  assumes "normalize_number t n = Some m"
  shows "normalize_number t m = Some m \<and> trim_space m = m"
proof -
  consider "eleven_digits m" "t = IDTypeBVN \<or> t = IDTypeNIN" | "t = IDTypePhone" "normalize_phone n = Some m"
    | "t = IDTypeDriversLicense" "licence_format m"
    using assms by (auto simp: normalize_number_def Let_def split: if_splits)
  then show ?thesis
    by cases (auto simp: normalize_number_def id_types eleven_digits_trim licence_id normalize_phone_local dest: normalize_phone_form)
qed

lemma validateD:
  assumes "validate e req = Inr r"
  shows "kq_consent r" and "kq_type r = kq_type req" and "kq_first r = trim_space (kq_first req)" and "kq_last r = trim_space (kq_last req)"
    and "kq_dob r = trim_space (kq_dob req)" and "normalize_number (kq_type req) (trim_space (kq_number req)) = Some (kq_number r)"
    and "kq_first r \<noteq> ''''" and "kq_last r \<noteq> ''''" and "kq_dob r \<noteq> '''' \<Longrightarrow> x_date e ''2006-01-02'' (kq_dob r) \<noteq> None"
  using assms by (auto simp: validate_def Let_def split: if_splits option.splits)

text \<open>Validating a normalised request changes nothing: the stored hash of a person's number is always that of one spelling.\<close>

lemma validate_idempotent:
  assumes "validate e req = Inr r"
  shows "validate e r = Inr r"
proof -
  note v = validateD [OF assms]
  have "trim_space (kq_first r) = kq_first r" "trim_space (kq_last r) = kq_last r" "trim_space (kq_dob r) = kq_dob r"
    by (simp_all only: v(3-5) trim_space_idem)
  moreover have "normalize_number (kq_type r) (kq_number r) = Some (kq_number r) \<and> trim_space (kq_number r) = kq_number r"
    using normalize_number_stable [OF v(6)] by (simp only: v(2))
  moreover have "kq_dob r = '''' \<or> x_date e ''2006-01-02'' (kq_dob r) \<noteq> None" using v(9) by blast
  ultimately show ?thesis using v(1, 7, 8) by (simp add: validate_def Let_def del: not_None_eq)
qed

lemma phone_spellings:
  assumes "eleven_digits t" and "hd t = CHR ''0''"
  shows "normalize_phone t = Some t" and "normalize_phone (''234'' @ tl t) = Some t" and "normalize_phone (''+234'' @ tl t) = Some t"
proof -
  obtain u where t: "t = CHR ''0'' # u" using assms by (cases t) (auto simp: eleven_digits_def)
  have u: "length u = 10" "list_all is_digit u" using assms(1) by (simp_all add: t eleven_digits_def)
  then have plain: "without_chars '' -()'' u = u"
    by (intro without_chars_id) (unfold list_all_iff, use digit_facts in blast)
  have wo: "without_chars '' -()'' (c # v) = (if c \<in> set '' -()'' then without_chars '' -()'' v else c # without_chars '' -()'' v)" for c v
    by (simp only: without_chars_def filter.simps split: if_split) simp
  have out: "without_chars '' -()'' (''234'' @ u) = ''234'' @ u" "without_chars '' -()'' (''+234'' @ u) = ''+234'' @ u"
    by (simp_all add: wo plain)
  have plus: "trim_plus (''234'' @ u) = ''234'' @ u" "trim_plus (''+234'' @ u) = ''234'' @ u"
    by (simp_all add: trim_plus_def cut_prefix_def has_prefix_def)
  have pre: "has_prefix (''234'' @ u) ''234'' \<and> length (''234'' @ u) = 13" using u by (simp add: has_prefix_def)
  have local: "''0'' @ drop 3 (''234'' @ u) = t" by (simp add: t)
  show "normalize_phone t = Some t" by (rule normalize_phone_local [OF assms])
  show "normalize_phone (''234'' @ tl t) = Some t" "normalize_phone (''+234'' @ tl t) = Some t"
    using assms unfolding normalize_phone_def Let_def t list.sel
    by (simp_all only: out plus pre simp_thms if_True local t list.sel)
qed

section \<open>When a check is a match\<close>

lemma split_words_space: "split_words acc (s @ CHR '' '' # t) = split_words acc s @ split_words [] t"
proof (induction s arbitrary: acc)
  case Nil
  have "is_space (CHR '' '')" by (simp add: is_space_def byte_def)
  then show ?case by simp
qed auto

lemma name_words_two: "name_words (s @ CHR '' '' # t) = name_words s @ name_words t"
proof -
  have "word_char (lower_char (CHR '' '')) = Some (CHR '' '')" by (simp add: word_char_def lower_char_def is_space_def byte_def)
  then show ?thesis
    by (simp add: name_words_def to_lower_def split_words_space map_filter_def)
qed

lemma name_check_match: "name_check g r = FieldMatch \<longleftrightarrow> name_words g \<noteq> [] \<and> set (name_words g) \<subseteq> set (name_words r)"
  by (cases "name_words g") (auto simp: name_check_def Let_def list_all_iff)

lemma name_checked [simp]: "name_check g r \<noteq> FieldNotChecked"
  by (simp add: name_check_def Let_def)

lemma compare_match: "fst (compare_record e req rec) = ResultMatch \<longleftrightarrow>
    name_check (kq_first req) (ky_first rec @ '' '' @ ky_middle rec) = FieldMatch \<and> name_check (kq_last req) (ky_last rec) = FieldMatch \<and>
    (kq_dob req = '''' \<or> dob_check e (kq_dob req) (ky_dob rec) \<in> {FieldMatch, FieldNotChecked})"
  unfolding compare_record_def Let_def by (auto split: if_split)

lemma dob_checked: "dob_check e g r \<noteq> FieldNotChecked"
  by (simp add: dob_check_def split: option.split)

lemma dob_check_match: "dob_check e g r = FieldMatch \<longleftrightarrow> parse_date e r = Some g"
  by (simp add: dob_check_def split: option.split)

section \<open>What is kept of the official record\<close>

text \<open>
  The reply of the vendor as the service sees it, and what a reply amounts to: the outcome of the comparison
  and the fee, or that there is no record, or that the vendor could not answer.
\<close>

definition kyc_reply :: "externals \<Rightarrow> ext_call list \<Rightarrow> kyc_lookup \<Rightarrow> err + kyc_record" where
  "kyc_reply e calls l = (case x_kyc e calls l of
     NoReply _ \<Rightarrow> Inl (OtherErr ''nuban: request failed'') | Reply code body \<Rightarrow> read_nuban e code body)"

definition kyc_outcome :: "externals \<Rightarrow> kyc_request \<Rightarrow> err + kyc_record \<Rightarrow> (kyc_result \<times> (string \<times> field_check) list) \<times> (rat \<times> string option) option" where
  "kyc_outcome e req r = (case r of
     Inr rec \<Rightarrow> (compare_record e req rec, fee_of rec True)
   | Inl er \<Rightarrow> (if er = ErrRecordNotFound then (ResultNotFound, []) else (ResultError, []), None))"

definition lookup_of :: "kyc_request \<Rightarrow> kyc_lookup" where
  "lookup_of q = \<lparr>kl_type = kq_type q, kl_number = kq_number q, kl_first = kq_first q, kl_last = kq_last q\<rparr>"

lemma validate_known_type: "validate e req = Inr r \<Longrightarrow> kq_type r \<in> {IDTypeBVN, IDTypeNIN, IDTypePhone, IDTypeDriversLicense}"
  using validateD(2, 6) [of e req r] by (auto simp: normalize_number_def split: if_splits)

lemma x_kyc_elsewhere [simp]:
  "first_layout (e\<lparr>x_kyc := f\<rparr>) ls s = first_layout e ls s"
  "validate (e\<lparr>x_kyc := f\<rparr>) req = validate e req"
  "hash_id_number (e\<lparr>x_kyc := f\<rparr>) t n = hash_id_number e t n"
  by (induction ls) (simp_all add: validate_def Let_def hash_id_number_def split: option.split)

lemma compare_elsewhere [simp]: "compare_record (e\<lparr>x_kyc := f\<rparr>) q rec = compare_record e q rec"
  by (simp add: compare_record_def dob_check_def parse_date_def Let_def)

lemma kyc_outcome_elsewhere: "kyc_outcome (e\<lparr>x_kyc := f\<rparr>) q r = kyc_outcome e q r"
  by (simp add: kyc_outcome_def split: sum.split)

text \<open>Storing and answering need the outcome only.\<close>

definition store_check :: "string \<Rightarrow> uuid \<Rightarrow> uuid option \<Rightarrow> kyc_request \<Rightarrow> (kyc_result \<times> (string \<times> field_check) list) \<times> (rat \<times> string option) option \<Rightarrow> kyc_answer run" where
  "store_check p tenant key q out = bindE (insert_check p tenant key q (fst (fst out)) (snd (fst out)) (snd out)) (\<lambda>row.
     if fst (fst out) = ResultError then fail ErrKycUnavailable
     else ret \<lparr>kn_id = kc_id row, kn_type = kc_type row, kn_result = fst (fst out), kn_checks = snd (fst out), kn_created = kc_created row\<rparr>)"

lemma conclude_outcome: "conclude e p tenant key q r = store_check p tenant key q (kyc_outcome e q r)"
proof (cases r)
  case (Inr rec)
  obtain res checks where "compare_record e q rec = (res, checks)" by (cases "compare_record e q rec")
  with Inr show ?thesis by (simp add: conclude_def store_check_def kyc_outcome_def record_check_def cong: if_cong)
qed (simp add: conclude_def store_check_def kyc_outcome_def record_check_def fee_of_def)

lemma nuban_asks:
  assumes "kl_type l \<in> {IDTypeBVN, IDTypeNIN, IDTypePhone, IDTypeDriversLicense}"
  shows "nuban_lookup l w = (kyc_reply (env w) (ext_log w) l, w\<lparr>ext_log := ext_log w @ [CallKyc l]\<rparr>)"
proof (cases "x_kyc (env w) (ext_log w) l")
  case (Reply code body)
  then show ?thesis
    using assms by (cases "read_nuban (env w) code body") (simp_all add: nuban_lookup_def kyc_reply_def bindE_def ask_def gets_def fail_def ret_def)
qed (use assms in \<open>simp add: nuban_lookup_def kyc_reply_def bindE_def ask_def fail_def\<close>)

lemma verify_nuban:
  assumes "cfg_kyc (env w) = Some p" and "p \<noteq> ''sandbox''" and v: "validate (env w) req = Inr q"
  shows "verify tenant key req w = store_check p tenant key q (kyc_outcome (env w) q (kyc_reply (env w) (ext_log w) (lookup_of q)))
    (w\<lparr>ext_log := ext_log w @ [CallKyc (lookup_of q)]\<rparr>)"
proof -
  have "kl_type (lookup_of q) \<in> {IDTypeBVN, IDTypeNIN, IDTypePhone, IDTypeDriversLicense}"
    using validate_known_type [OF v] by (simp add: lookup_of_def)
  note ask = nuban_asks [OF this, of w]
  have "verify tenant key req w = bindE (attemptE (nuban_lookup (lookup_of q))) (conclude (env w) p tenant key q) w"
    using assms by (simp add: verify_def provider_lookup_def lookup_of_def bindE_steps)
  also have "\<dots> = conclude (env w) p tenant key q (kyc_reply (env w) (ext_log w) (lookup_of q)) (w\<lparr>ext_log := ext_log w @ [CallKyc (lookup_of q)]\<rparr>)"
    by (rule bindE_apply_Inr, rule attemptE_apply, rule ask)
  finally show ?thesis by (simp only: conclude_outcome)
qed

text \<open>The same world with another vendor behind the API. Statements do not notice the difference.\<close>

definition swap_vendor :: "(ext_call list \<Rightarrow> kyc_lookup \<Rightarrow> http_reply) \<Rightarrow> world \<Rightarrow> world" where
  "swap_vendor f w = w\<lparr>env := (env w)\<lparr>x_kyc := f\<rparr>\<rparr>"

definition blind :: "(world \<Rightarrow> world) \<Rightarrow> 'a run \<Rightarrow> bool" where
  "blind g m \<longleftrightarrow> (\<forall>w. m (g w) = map_prod id g (m w))"

lemma blind_bindE: "blind g m \<Longrightarrow> (\<And>x. blind g (k x)) \<Longrightarrow> blind g (bindE m k)"
  by (auto simp: blind_def bindE_def split: prod.splits sum.splits)

lemma blind_thenE: "blind g m \<Longrightarrow> blind g k \<Longrightarrow> blind g (thenE m k)"
  by (simp add: thenE_def blind_bindE)

lemma blind_basic:
  "blind g (ret x)" "blind g (fail e)" "blind g (lift_sum r)" "(\<And>w. f (g w) = f w) \<Longrightarrow> blind g (gets f)"
  "(\<And>w. h (g w) = g (h w)) \<Longrightarrow> blind g (modify h)"
  by (simp_all add: blind_def op_defs lift_sum_def split: sum.split)

lemma blind_tick: "blind (swap_vendor f) tick_fault"
  by (simp add: blind_def tick_fault_def swap_vendor_def split: list.split)

lemma blind_uuid: "blind (swap_vendor f) gen_uuid"
  by (simp add: blind_def gen_uuid_def swap_vendor_def)

lemma blind_insert: "blind (swap_vendor f) (insert_check p tenant key q res checks fee)"
proof -
  have "blind (swap_vendor f) (if a then fail e1 else if b then fail e2 else m)" if "blind (swap_vendor f) m" for a b e1 e2 and m :: "kyc_check run"
    using that by (simp add: blind_basic)
  then show ?thesis
    unfolding insert_check_def stmt_def
    by (intro blind_thenE blind_bindE blind_tick blind_uuid blind_basic(4))
      (simp_all add: swap_vendor_def split_beta blind_basic blind_thenE blind_bindE split: option.split)
qed

lemma blind_store: "blind (swap_vendor f) (store_check p tenant key q out)"
  unfolding store_check_def by (intro blind_bindE blind_insert) (simp add: blind_basic)

text \<open>
  C16. Of an official record nothing is kept or told but the outcome: whatever else two answers of the vendor say about
  the person, when they come to the same result of the comparison and the same fee, the caller gets the same
  answer and the database and the log of calls are the same.
\<close>

theorem kyc_keeps_only_outcome:
  assumes "cfg_kyc (env w) = Some ''nuban''" and "validate (env w) req = Inr q"
    and "kyc_outcome (env w) q (kyc_reply ((env w)\<lparr>x_kyc := f\<rparr>) (ext_log w) (lookup_of q)) =
         kyc_outcome (env w) q (kyc_reply (env w) (ext_log w) (lookup_of q))"
  shows "verify tenant key req (swap_vendor f w) = map_prod id (swap_vendor f) (verify tenant key req w)"
proof -
  let ?v = "swap_vendor f w" and ?asked = "w\<lparr>ext_log := ext_log w @ [CallKyc (lookup_of q)]\<rparr>"
  have e: "env ?v = (env w)\<lparr>x_kyc := f\<rparr>" "ext_log ?v = ext_log w"
    and s: "?v\<lparr>ext_log := ext_log w @ [CallKyc (lookup_of q)]\<rparr> = swap_vendor f ?asked"
    by (simp_all add: swap_vendor_def)
  have "kyc_outcome (env ?v) q (kyc_reply (env ?v) (ext_log ?v) (lookup_of q)) = kyc_outcome (env w) q (kyc_reply (env w) (ext_log w) (lookup_of q))"
    using assms(3) by (simp add: e kyc_outcome_elsewhere)
  then have "verify tenant key req ?v = store_check ''nuban'' tenant key q (kyc_outcome (env w) q (kyc_reply (env w) (ext_log w) (lookup_of q)))
      (swap_vendor f ?asked)"
    using verify_nuban [of ?v "''nuban''" req q tenant key] assms(1, 2) by (simp add: e s)
  then show ?thesis
    using verify_nuban [OF assms(1) _ assms(2), of tenant key] blind_store [of f] by (simp add: blind_def)
qed

text \<open>Two answers of the vendor: with and without a date of birth.\<close>

definition kyc_world :: world where
  "kyc_world = empty_world\<lparr>env := sample_env\<lparr>cfg_kyc := Some ''nuban'', x_kyc := (\<lambda>calls l. Reply 200 ''plain''),
     x_json := (\<lambda>s. Some (JObj [(''data'', JObj [(''surname'', JStr ''Obi''), (''dob'', JStr (if s = ''plain'' then '''' else ''31-01-1990''))])]))\<rparr>\<rparr>"

definition kyc_sample :: kyc_request where
  "kyc_sample = \<lparr>kq_type = ''bvn'', kq_number = ''22233344455'', kq_first = ''Ada'', kq_last = ''obi'', kq_dob = [], kq_consent = True\<rparr>"

lemma kyc_sample_valid: "validate (env kyc_world) kyc_sample = Inr kyc_sample"
  by (simp add: validate_def kyc_sample_def trim_space_def is_space_def byte_def normalize_number_def id_types eleven_digits_def is_digit_def)

lemma sample_replies:
  "kyc_reply (env kyc_world) (ext_log kyc_world) (lookup_of kyc_sample) = Inr (empty_record\<lparr>ky_last := ''Obi''\<rparr>)"
  "kyc_reply ((env kyc_world)\<lparr>x_kyc := \<lambda>calls l. Reply 200 ''full''\<rparr>) (ext_log kyc_world) (lookup_of kyc_sample) =
     Inr (empty_record\<lparr>ky_last := ''Obi'', ky_dob := ''31-01-1990''\<rparr>)"
  by (simp_all add: kyc_reply_def kyc_world_def read_nuban_def raw_field_def str_lax_def vals_at_def to_lower_def lower_char_def byte_def
    status_ok_def trim_space_def trim_quotes_def decode_nuban_def str_field_def obj_field_def obj_lax_def first_non_empty_def is_space_def
    empty_record_def)

theorem kyc_keeps_only_outcome_witness:
  "verify ''T'' None kyc_sample (swap_vendor (\<lambda>calls l. Reply 200 ''full'') kyc_world) =
    map_prod id (swap_vendor (\<lambda>calls l. Reply 200 ''full'')) (verify ''T'' None kyc_sample kyc_world)"
proof (rule kyc_keeps_only_outcome [OF _ kyc_sample_valid])
  show "cfg_kyc (env kyc_world) = Some ''nuban''" by (simp add: kyc_world_def)
  show "kyc_outcome (env kyc_world) kyc_sample (kyc_reply ((env kyc_world)\<lparr>x_kyc := \<lambda>calls l. Reply 200 ''full''\<rparr>) (ext_log kyc_world) (lookup_of kyc_sample)) =
      kyc_outcome (env kyc_world) kyc_sample (kyc_reply (env kyc_world) (ext_log kyc_world) (lookup_of kyc_sample))"
    by (simp only: sample_replies) (simp add: kyc_outcome_def compare_record_def fee_of_def kyc_sample_def)
qed

end
