(* ===== verification/Admin.thy ===== *)
theory Admin
  imports Tenant
begin

text \<open>
  The credentials of the staff, \<^verbatim>\<open>internal/platform/adminauth\<close>: password login, single sign-on with its
  one-time binding of an account to the subject of the identity provider, opaque session tokens that are kept
  as hashes, the log of audited actions (\<^verbatim>\<open>adminauth.go\<close>, \<^verbatim>\<open>middleware.go\<close>), the exchange of an
  authorization code (\<^verbatim>\<open>oidc.go\<close>, over the endpoint and the verifier of the OIDC library as parameters) and
  the two routes of the single sign-on (\<^verbatim>\<open>cmd/server/admin_oidc_handlers.go\<close>). Nothing in the code disables an
  administrator: an operator sets the column in the database (\<open>ADisable\<close>). The lemmas show that accounts stay well
  formed, that a token is accepted only for the one it was issued to and for its lifetime, and that a binding
  is never moved.
\<close>

abbreviation ErrInvalidCredentials :: err where "ErrInvalidCredentials \<equiv> Sentinel ''adminauth: invalid email or password''"
abbreviation ErrInvalidSession :: err where "ErrInvalidSession \<equiv> Sentinel ''adminauth: invalid or expired session''"
abbreviation ErrOIDCNonceMismatch :: err where "ErrOIDCNonceMismatch \<equiv> Sentinel ''adminauth: oidc nonce mismatch''"

section \<open>Accounts\<close>

definition insert_admin :: "string \<Rightarrow> string \<Rightarrow> uuid run" where
  "insert_admin email hash = stmt (bindE (gets (\<lambda>w. list_ex (\<lambda>u. au_email u = email) (admin_users w))) (\<lambda>dup.
     if dup then fail (UniqueErr ''admin_users_email_key'')
     else bindE gen_uuid (\<lambda>i. thenE (modify (\<lambda>w. w\<lparr>admin_users := admin_users w @
       [\<lparr>au_id = i, au_email = email, au_hash = Some hash, au_disabled = None, au_subject = None\<rparr>]\<rparr>)) (ret i))))"

definition create_admin :: "string \<Rightarrow> string \<Rightarrow> uuid run" where
  "create_admin email password = bindE (gets (\<lambda>w. x_password_hash (env w) (uuid_next w) password)) (\<lambda>h.
     thenE (modify (\<lambda>w. w\<lparr>uuid_next := Suc (uuid_next w)\<rparr>)) (bindE (lift_sum h) (insert_admin email)))"

definition new_token :: "(string \<times> string) run" where
  "new_token = bindE (random_hex 32) (\<lambda>raw. bindE (gets env) (\<lambda>e. ret (raw, hash_token e raw)))"

definition insert_admin_session :: "string \<Rightarrow> uuid \<Rightarrow> unit run" where
  "insert_admin_session h i = stmt (bindE (gets (\<lambda>w. (list_ex (\<lambda>s. as_hash s = h) (admin_sessions w), list_ex (\<lambda>u. au_id u = i) (admin_users w),
       \<lparr>as_hash = h, as_admin = i, as_expires = now w + cfg_admin_ttl (env w)\<rparr>))) (\<lambda>(dup, known, row).
     if dup then fail (UniqueErr ''admin_sessions_pkey'')
     else if \<not> known then fail (ConstraintErr ''admin_sessions_admin_id_fkey'')
     else modify (\<lambda>w. w\<lparr>admin_sessions := admin_sessions w @ [row]\<rparr>)))"

definition open_session :: "uuid \<Rightarrow> string run" where
  "open_session i = bindE new_token (\<lambda>(token, h). thenE (insert_admin_session h i) (ret token))"

text \<open>A password column that is \<open>NULL\<close> does not scan into a \<open>string\<close>: that is an error of the lookup.\<close>

definition login :: "string \<Rightarrow> string \<Rightarrow> string run" where
  "login email password = bindE (query (\<lambda>w. find (\<lambda>u. au_email u = email) (admin_users w))) (\<lambda>r. case r of
       None \<Rightarrow> fail ErrInvalidCredentials
     | Some u \<Rightarrow> (case au_hash u of
         None \<Rightarrow> fail (OtherErr ''adminauth: lookup admin'')
       | Some h \<Rightarrow> if au_disabled u \<noteq> None then fail ErrInvalidCredentials
           else bindE (gets env) (\<lambda>e. if \<not> x_password e h password then fail ErrInvalidCredentials
             else open_session (au_id u))))"

definition authenticate :: "string \<Rightarrow> uuid run" where
  "authenticate token = bindE (query (\<lambda>w. find (\<lambda>s. as_hash s = hash_token (env w) token) (admin_sessions w))) (\<lambda>r. case r of
       None \<Rightarrow> fail ErrInvalidSession
     | Some s \<Rightarrow> bindE (gets now) (\<lambda>t. if as_expires s < t then fail ErrInvalidSession else ret (as_admin s)))"

section \<open>Single sign-on\<close>

definition bind_subject :: "string \<Rightarrow> uuid \<Rightarrow> unit run" where
  "bind_subject subject i = stmt (bindE (gets (\<lambda>w. list_ex (\<lambda>u. au_id u = i \<and> au_subject u = None) (admin_users w) \<and>
       list_ex (\<lambda>u. au_subject u = Some subject) (admin_users w))) (\<lambda>dup.
     if dup then fail (UniqueErr ''admin_users_oidc_subject_key'')
     else modify (\<lambda>w. w\<lparr>admin_users := update_where (\<lambda>u. au_id u = i \<and> au_subject u = None) (\<lambda>u. u\<lparr>au_subject := Some subject\<rparr>) (admin_users w)\<rparr>)))"

definition unbound_admin :: "string \<Rightarrow> admin_user run" where
  "unbound_admin email = bindE (query (\<lambda>w. find (\<lambda>u. au_email u = email \<and> au_subject u = None) (admin_users w))) (\<lambda>r. case r of
       None \<Rightarrow> fail ErrInvalidCredentials
     | Some u \<Rightarrow> if au_disabled u \<noteq> None then fail ErrInvalidCredentials else ret u)"

definition resolve_oidc_admin :: "string \<Rightarrow> string \<Rightarrow> uuid run" where
  "resolve_oidc_admin subject email = bindE (query (\<lambda>w. find (\<lambda>u. au_subject u = Some subject) (admin_users w))) (\<lambda>r. case r of
       Some u \<Rightarrow> if au_disabled u \<noteq> None then fail ErrInvalidCredentials else ret (au_id u)
     | None \<Rightarrow> bindE (unbound_admin email) (\<lambda>u. thenE (bind_subject subject (au_id u)) (ret (au_id u))))"

definition login_with_oidc :: "string \<Rightarrow> string \<Rightarrow> string run" where
  "login_with_oidc subject email = bindE (resolve_oidc_admin subject email) open_session"

text \<open>
  The identity provider: the exchange of a code (failed, without an ID token, or with one) and the verification of
  an ID token.
\<close>

record id_token =
  it_subject :: string
  it_nonce :: string
  it_email :: "string option"

record idp =
  idp_exchange :: "string \<Rightarrow> string option option"
  idp_verify :: "string \<Rightarrow> id_token option"

definition exchange :: "idp \<Rightarrow> string \<Rightarrow> string \<Rightarrow> err + string \<times> string" where
  "exchange p code nonce = (case idp_exchange p code of
       None \<Rightarrow> Inl (OtherErr ''adminauth: oidc code exchange'')
     | Some raw \<Rightarrow> (case raw of
         None \<Rightarrow> Inl (OtherErr ''adminauth: oidc token response missing id_token'')
       | Some tok \<Rightarrow> if tok = '''' then Inl (OtherErr ''adminauth: oidc token response missing id_token'')
           else (case idp_verify p tok of
               None \<Rightarrow> Inl (OtherErr ''adminauth: oidc id token verification'')
             | Some t \<Rightarrow> if it_nonce t \<noteq> nonce then Inl ErrOIDCNonceMismatch
                 else (case it_email t of None \<Rightarrow> Inl (OtherErr ''adminauth: oidc claims'') | Some email \<Rightarrow> Inr (it_subject t, email)))))"

text \<open>The callback: the cookies of the attempt and the query of the URL; a status and a token or a message.\<close>

definition oidc_callback :: "idp \<Rightarrow> string option \<Rightarrow> string option \<Rightarrow> string \<Rightarrow> string \<Rightarrow> (int \<times> string) run" where
  "oidc_callback p state_cookie nonce_cookie state code = (case state_cookie of
       None \<Rightarrow> ret (400, ''missing or expired login state'')
     | Some st \<Rightarrow> (case nonce_cookie of
         None \<Rightarrow> ret (400, ''missing or expired login state'')
       | Some nonce \<Rightarrow> if state \<noteq> st then ret (400, ''state mismatch'')
           else if code = '''' then ret (400, ''missing code'')
           else case exchange p code nonce of
               Inl _ \<Rightarrow> ret (401, ''exchange failed'')
             | Inr (subject, email) \<Rightarrow> bindE (attemptE (login_with_oidc subject email)) (\<lambda>r. case r of
                 Inl _ \<Rightarrow> ret (401, ''login failed'') | Inr token \<Rightarrow> ret (200, token))))"

text \<open>The start of an attempt: the state and the nonce, for the cookies and the redirect.\<close>

definition oidc_login :: "(string \<times> string) run" where
  "oidc_login = bindE (random_hex 32) (\<lambda>state. bindE (random_hex 32) (\<lambda>nonce. ret (state, nonce)))"

section \<open>Audited actions\<close>

definition log_action :: "uuid \<Rightarrow> string \<Rightarrow> string \<Rightarrow> json option \<Rightarrow> unit run" where
  "log_action admin action target metadata = stmt (bindE gen_uuid (\<lambda>i. bindE (gets (\<lambda>w. (list_ex (\<lambda>u. au_id u = admin) (admin_users w),
       \<lparr>aa_id = i, aa_admin = admin, aa_action = action, aa_target = target,
         aa_metadata = (case metadata of None \<Rightarrow> JNull | Some j \<Rightarrow> j), aa_created = now w\<rparr>))) (\<lambda>(known, row).
     if \<not> known then fail (ConstraintErr ''admin_audit_log_admin_id_fkey'')
     else modify (\<lambda>w. w\<lparr>admin_actions := admin_actions w @ [row]\<rparr>))))"

text \<open>Newest first; a limit of zero or less means all.\<close>

definition actions_of :: "uuid option \<Rightarrow> world \<Rightarrow> admin_action list" where
  "actions_of admin w = filter (\<lambda>a. admin = None \<or> admin = Some (aa_admin a)) (admin_actions w)"

definition list_audit_log :: "uuid option \<Rightarrow> int \<Rightarrow> int \<Rightarrow> (admin_action list \<times> nat) run" where
  "list_audit_log admin limit offset = bindE (query (\<lambda>w. length (actions_of admin w))) (\<lambda>n.
     bindE (query (\<lambda>w. page limit offset (sort_key (\<lambda>a. - aa_created a) (actions_of admin w)))) (\<lambda>rows. ret (rows, n)))"

text \<open>The administrator of a request, or the message of the refusal.\<close>

definition admin_middleware :: "http_request \<Rightarrow> (err + uuid) run" where
  "admin_middleware r = (case cut_prefix (rq_header r ''Authorization'') ''Bearer '' of
       None \<Rightarrow> ret (Inl (OtherErr ''missing bearer token''))
     | Some token \<Rightarrow> if token = '''' then ret (Inl (OtherErr ''missing bearer token'')) else attemptE (authenticate token))"

section \<open>Runs\<close>

datatype admin_op =
    ACreate string string
  | ALogin string string
  | AOidc string string
  | ACallback idp "string option" "string option" string string
  | AAuthenticate string
  | ARequest http_request
  | ALog uuid string string "json option"
  | AList "uuid option" int int
  | ADisable uuid
  | AOther time "bool list"

text \<open>
  A step and the token it hands out, if it does. Time never runs backwards, and the statements that will
  fail are drawn anew.
\<close>

fun admin_step :: "admin_op \<Rightarrow> string option run" where
  "admin_step (ACreate email password) = thenE (create_admin email password) (ret None)"
| "admin_step (ALogin email password) = bindE (login email password) (\<lambda>t. ret (Some t))"
| "admin_step (AOidc subject email) = bindE (login_with_oidc subject email) (\<lambda>t. ret (Some t))"
| "admin_step (ACallback p sc nc st code) = bindE (oidc_callback p sc nc st code) (\<lambda>(status, t). ret (if status = 200 then Some t else None))"
| "admin_step (AAuthenticate token) = thenE (authenticate token) (ret None)"
| "admin_step (ARequest r) = thenE (admin_middleware r) (ret None)"
| "admin_step (ALog i action target m) = thenE (log_action i action target m) (ret None)"
| "admin_step (AList i limit offset) = thenE (list_audit_log i limit offset) (ret None)"
| "admin_step (ADisable i) = thenE (modify (\<lambda>w. w\<lparr>admin_users := update_where (\<lambda>u. au_id u = i) (\<lambda>u. u\<lparr>au_disabled := Some (now w)\<rparr>) (admin_users w)\<rparr>)) (ret None)"
| "admin_step (AOther t fs) = thenE (modify (\<lambda>w. w\<lparr>now := max t (now w), faults := fs\<rparr>)) (ret None)"

fun admin_run :: "admin_op list \<Rightarrow> world \<Rightarrow> world" where
  "admin_run [] w = w"
| "admin_run (op # ops) w = admin_run ops (snd (admin_step op w))"

lemma admin_run_append: "admin_run (ops @ ops') w = admin_run ops' (admin_run ops w)"
  by (induction ops arbitrary: w) simp_all

lemma admin_run_keeps: "(\<And>op. keeps P (admin_step op)) \<Longrightarrow> P w \<Longrightarrow> P (admin_run ops w)"
  by (induction ops arbitrary: w) (auto dest: keepsD)

section \<open>Every session comes from a login\<close>

definition enabled :: "uuid \<Rightarrow> world \<Rightarrow> bool" where
  "enabled i w \<longleftrightarrow> (\<exists>u \<in> set (admin_users w). au_id u = i \<and> au_disabled u = None)"

text \<open>
  What a step does to the sessions: nothing, or it adds the one of the token it hands out, for an
  administrator who is enabled.
\<close>

definition session_for :: "world \<Rightarrow> string \<Rightarrow> uuid \<Rightarrow> admin_session" where
  "session_for w token i = \<lparr>as_hash = hash_token (env w) token, as_admin = i, as_expires = now w + cfg_admin_ttl (env w)\<rparr>"

definition opens :: "world \<Rightarrow> err + string option \<Rightarrow> world \<Rightarrow> bool" where
  "opens w r v \<longleftrightarrow> env v = env w \<and> now w \<le> now v \<and> (admin_sessions v = admin_sessions w \<or>
     (\<exists>token i. r = Inr (Some token) \<and> enabled i w \<and> admin_sessions v = admin_sessions w @ [session_for w token i]))"

lemma opens_same: "env v = env w \<Longrightarrow> now w \<le> now v \<Longrightarrow> admin_sessions v = admin_sessions w \<Longrightarrow> opens w r v"
  by (simp add: opens_def)

definition quiet :: "world \<Rightarrow> 'a run \<Rightarrow> bool" where
  "quiet w m \<longleftrightarrow> keeps (\<lambda>v. env v = env w \<and> now v = now w \<and> admin_sessions v = admin_sessions w) m"

text \<open>From a world that has the same externals, time and sessions and the administrator enabled in it.\<close>

lemma open_session_opens:
  assumes "env v = env w" and "now v = now w" and "admin_sessions v = admin_sessions w" and "enabled i w"
  shows "wp (open_session i) (\<lambda>r. opens w (map_sum id Some r)) v"
  using assms unfolding open_session_def new_token_def random_hex_def random_bytes_def insert_admin_session_def
  by (intro wp_rules) (auto simp: opens_def session_for_def)

lemma login_opens: "wp (login email password) (\<lambda>r. opens w (map_sum id Some r)) w"
  unfolding login_def
  by (intro wp_rules open_session_opens) (auto simp: opens_def enabled_def dest!: find_Some_mem)

lemma resolve_enabled:
  "wp (resolve_oidc_admin subject email) (\<lambda>r v. env v = env w \<and> now v = now w \<and> admin_sessions v = admin_sessions w \<and>
     (case r of Inl _ \<Rightarrow> True | Inr i \<Rightarrow> enabled i w)) w"
  unfolding resolve_oidc_admin_def unbound_admin_def bind_subject_def
  by (intro wp_rules) (auto simp: enabled_def dest!: find_Some_mem)

lemma oidc_opens: "wp (login_with_oidc subject email) (\<lambda>r. opens w (map_sum id Some r)) w"
  unfolding login_with_oidc_def
  by (rule wp_bindE, rule wp_call, rule resolve_enabled) (auto simp: opens_def intro!: open_session_opens)

lemma callback_opens: "wp (oidc_callback p sc nc st code) (\<lambda>r. opens w (map_sum id (\<lambda>(status, t). if status = 200 then Some t else None) r)) w"
  unfolding oidc_callback_def
  by (intro wp_rules; (simp add: opens_def; fail)?)
    (rule wp_attemptE, rule wp_conseq [OF oidc_opens [of _ _ w]], auto simp: opens_def intro!: wp_rules)

lemma opens_bind:
  assumes "wp m (\<lambda>r. opens w (map_sum id f r)) w"
  shows "wp (bindE m (\<lambda>t. ret (f t))) (opens w) w"
  using assms by (auto simp: wp_def bindE_def ret_def opens_def split: prod.splits sum.splits)

lemma step_opens: "wp (admin_step op) (opens w) w"
proof (cases op)
  case (ALogin email password)
  then show ?thesis
    using opens_bind [OF login_opens] by (simp add: split_beta)
next
  case (AOidc subject email)
  then show ?thesis
    using opens_bind [OF oidc_opens] by (simp add: split_beta)
next
  case (ACallback p sc nc st code)
  then show ?thesis
    using opens_bind [OF callback_opens] by (simp add: case_prod_unfold)
next
  case (ACreate email password)
  then show ?thesis
    by (simp add: create_admin_def insert_admin_def [abs_def], intro wp_rules) (auto simp: opens_def)
next
  case (ARequest r)
  then show ?thesis
    by (simp only: admin_step.simps admin_middleware_def authenticate_def) (intro wp_rules wp_attemptE; auto simp: opens_def)
qed (simp_all add: authenticate_def log_action_def list_audit_log_def, (intro wp_rules; auto simp: opens_def)+)

lemma sessions_from_logins:
  assumes "s \<in> set (admin_sessions (admin_run ops w))" and "s \<notin> set (admin_sessions w)"
  shows "\<exists>pre op post v token. ops = pre @ op # post \<and> admin_step op (admin_run pre w) = (Inr (Some token), v) \<and>
    enabled (as_admin s) (admin_run pre w) \<and> s = session_for (admin_run pre w) token (as_admin s)"
  using assms
proof (induction ops rule: rev_induct)
  case Nil
  then show ?case by simp
next
  case (snoc op ops)
  let ?v = "admin_run ops w"
  show ?case
  proof (cases "s \<in> set (admin_sessions ?v)")
    case True
    with snoc show ?thesis by (metis append.assoc append_Cons)
  next
    case False
    obtain r u where step: "admin_step op ?v = (r, u)" by fastforce
    with snoc.prems have "s \<in> set (admin_sessions u)" by (simp add: admin_run_append)
    with False wpD [OF step_opens step] obtain token i
      where "r = Inr (Some token)" "enabled i ?v" "s = session_for ?v token i"
      by (auto simp: opens_def)
    with step show ?thesis by (intro exI [of _ ops] exI [of _ op] exI [of _ "[]"]) (auto simp: session_for_def)
  qed
qed

lemma env_admin_run: "env (admin_run ops w) = env w"
  by (rule admin_run_keeps [of "\<lambda>v. env v = env w"])
    (auto intro!: keeps_wp wp_conseq [OF step_opens] simp: opens_def)

text \<open>
  C15. Where the tables hold no session to begin with, every bearer token the admin routes accept, after any sequence of
  requests, logins, audit records, disabled accounts and failing statements, is one that an earlier login handed out,
  by password or by single sign-on; the account was enabled at that login, and it is no longer ago than the lifetime
  of a session.
\<close>

theorem admin_session_from_login:
  assumes "admin_sessions w = []" and "inj (x_sha256 (env w))" and "fst (authenticate token (admin_run ops w)) = Inr a"
  shows "\<exists>pre op post v. ops = pre @ op # post \<and> admin_step op (admin_run pre w) = (Inr (Some token), v) \<and>
    enabled a (admin_run pre w) \<and> now (admin_run ops w) \<le> now (admin_run pre w) + cfg_admin_ttl (env w)"
proof -
  let ?v = "admin_run ops w"
  obtain x v' where "authenticate token ?v = (Inr a, v')" using assms(3) by (metis fst_conv surj_pair)
  then obtain s where s: "s \<in> set (admin_sessions ?v)" "as_hash s = hash_token (env ?v) token" "as_admin s = a" "now ?v \<le> as_expires s"
    unfolding authenticate_def
    by (auto elim!: bindE_InrE simp: op_simps dest!: query_InrD find_Some_mem split: option.splits if_splits)
  obtain pre op post u t where p: "ops = pre @ op # post" "admin_step op (admin_run pre w) = (Inr (Some t), u)"
    "enabled a (admin_run pre w)" "s = session_for (admin_run pre w) t a"
    using sessions_from_logins [OF s(1)] assms(1) s(3) by auto
  then have "hash_token (env w) t = hash_token (env w) token" using s(2) by (simp add: session_for_def env_admin_run)
  then have "t = token" using injD [OF assms(2)] by (simp add: hash_token_def hex_encode_inject)
  with p s(4) show ?thesis by (fastforce simp: session_for_def env_admin_run)
qed
text \<open>One administrator, who logs in; an hour less a second later the token still works.\<close>

definition admin_world :: world where
  "admin_world = empty_world\<lparr>admin_users := [\<lparr>au_id = ''A'', au_email = ''a'', au_hash = Some ''pw'', au_disabled = None, au_subject = None\<rparr>]\<rparr>"

definition admin_token :: string where
  "admin_token = hex_encode (replicate 1 (CHR ''r''))"

lemma admin_token_accepted:
  "fst (authenticate admin_token (admin_run [ALogin ''a'' ''pw'', AOther 3599000000000 []] admin_world)) = Inr ''A''"
  by code_simp

theorem admin_session_from_login_witness:
  "\<exists>pre op post v. [ALogin ''a'' ''pw'', AOther 3599000000000 []] = pre @ op # post \<and> admin_step op (admin_run pre admin_world) = (Inr (Some admin_token), v) \<and>
    enabled ''A'' (admin_run pre admin_world) \<and>
    now (admin_run [ALogin ''a'' ''pw'', AOther 3599000000000 []] admin_world) \<le> now (admin_run pre admin_world) + cfg_admin_ttl (env admin_world)"
  by (rule admin_session_from_login [OF _ _ admin_token_accepted]) (simp_all add: admin_world_def empty_world_def sample_env_def)

text \<open>The check of a token does not look at the account: disabling it leaves its sessions working.\<close>

lemma disabled_admin_keeps_session:
  "fst (authenticate token (snd (admin_step (ADisable i) w))) = fst (authenticate token w)"
proof -
  let ?v = "snd (admin_step (ADisable i) w)"
  have "env ?v = env w" "now ?v = now w" "faults ?v = faults w" "admin_sessions ?v = admin_sessions w"
    by (simp_all add: thenE_def bindE_def modify_def ret_def)
  then show ?thesis
    by (simp add: authenticate_def query_def stmt_def thenE_def bindE_def gets_def tick_fault_def fail_def ret_def split: list.split option.split)
qed

text \<open>
  An account that has no password is told apart from one that does not exist, and from a wrong password: the lookup
  itself fails.
\<close>

lemma login_without_password:
  assumes "faults w = []" and "find (\<lambda>u. au_email u = email) (admin_users w) = Some u" and "au_hash u = None"
  shows "fst (login email password w) = Inl (OtherErr ''adminauth: lookup admin'')"
  using assms by (simp add: login_def op_simps)

section \<open>A binding stays\<close>

abbreviation bound :: "string \<Rightarrow> uuid \<Rightarrow> admin_user list \<Rightarrow> bool" where
  "bound subject i \<equiv> fixed_row (\<lambda>u. au_subject u = Some subject) (\<lambda>u. au_id u = i)"

lemma bound_insert: "bound s i us \<Longrightarrow> au_subject u = None \<Longrightarrow> bound s i (us @ [u])"
  by (rule fixed_row_insert) simp_all

lemma bound_disable: "bound s i us \<Longrightarrow> bound s i (update_where (\<lambda>u. au_id u = j) (\<lambda>u. u\<lparr>au_disabled := t\<rparr>) us)"
  by (rule fixed_row_update) simp_all

lemma bound_other:
  assumes "bound s i us" and "\<not> (list_ex (\<lambda>u. au_id u = j \<and> au_subject u = None) us \<and> list_ex (\<lambda>u. au_subject u = Some s') us)"
  shows "bound s i (update_where (\<lambda>u. au_id u = j \<and> au_subject u = None) (\<lambda>u. u\<lparr>au_subject := Some s'\<rparr>) us)"
proof (cases "s' = s")
  case True
  then have "count_where (\<lambda>u. au_id u = j \<and> au_subject u = None) us = 0"
    using assms by (auto simp: fixed_row_def list_ex_iff count_where_0_iff)
  then show ?thesis using assms(1) by (simp add: update_where_none)
next
  case False
  then show ?thesis using assms(1) by (auto simp: fixed_row_def set_update_where)
qed

lemma keeps_bound: "keeps (\<lambda>w. bound s i (admin_users w)) (admin_step op)"
proof -
  have db: "db_mono (\<lambda>w. bound s i (admin_users w))" by (rule db_mono_table) simp_all
  have ins: "keeps (\<lambda>w. bound s i (admin_users w)) (insert_admin e h)" for e h
    unfolding insert_admin_def by (intro keeps_rules db) (simp add: bound_insert)
  have mod: "keeps (\<lambda>w. bound s i (admin_users w)) (bind_subject s' j)" for s' j
    unfolding bind_subject_def by (rule keeps_wp, intro wp_rules) (simp_all add: bound_other)
  have ses: "keeps (\<lambda>w. bound s i (admin_users w)) (open_session j)" for j
    unfolding open_session_def new_token_def random_hex_def random_bytes_def insert_admin_session_def
    by (intro keeps_rules db; simp)
  have oidc: "keeps (\<lambda>w. bound s i (admin_users w)) (login_with_oidc s' e)" for s' e
    unfolding login_with_oidc_def resolve_oidc_admin_def unbound_admin_def by (intro keeps_rules db mod ses)
  have call: "keeps (\<lambda>w. bound s i (admin_users w)) (oidc_callback p sc nc st code)" for p sc nc st code
    unfolding oidc_callback_def by (intro keeps_rules oidc)
  show ?thesis
    by (cases op; simp only: admin_step.simps create_admin_def login_def authenticate_def admin_middleware_def log_action_def list_audit_log_def;
      intro keeps_rules db ins oidc call ses; simp add: bound_disable)
qed

text \<open>
  C2. Once an account is bound to a subject of the identity provider it stays bound to it, whatever requests, logins and
  failures follow: signing in with that subject opens a session for this account and for no other, whichever
  email the provider reports.
\<close>

theorem oidc_binding_is_final:
  assumes "bound subject i (admin_users w)"
  shows "case fst (resolve_oidc_admin subject email (admin_run ops w)) of Inr j \<Rightarrow> j = i | Inl e \<Rightarrow> e \<in> {ErrInvalidCredentials, DbErr}"
proof -
  let ?v = "admin_run ops w"
  have "bound subject i (admin_users ?v)" using keeps_bound assms by (rule admin_run_keeps)
  then obtain u where "find (\<lambda>u. au_subject u = Some subject) (admin_users ?v) = Some u" "au_id u = i"
    using fixed_row_find by blast
  then have "wp (resolve_oidc_admin subject email) (\<lambda>r _. case r of Inr j \<Rightarrow> j = i | Inl e \<Rightarrow> e \<in> {ErrInvalidCredentials, DbErr}) ?v"
    unfolding resolve_oidc_admin_def by (intro wp_rules) auto
  then show ?thesis by (simp add: wp_def)
qed

theorem oidc_binding_is_final_witness:
  "case fst (resolve_oidc_admin ''S'' ''other'' (admin_run [AOidc ''T'' ''a'', ADisable ''B''] (admin_world\<lparr>admin_users :=
      [\<lparr>au_id = ''A'', au_email = ''a'', au_hash = None, au_disabled = None, au_subject = Some ''S''\<rparr>]\<rparr>))) of
    Inr j \<Rightarrow> j = ''A'' | Inl e \<Rightarrow> e \<in> {ErrInvalidCredentials, DbErr}"
  by (rule oidc_binding_is_final) (simp add: fixed_row_def)

text \<open>
  Two first logins for one email at the same time: the loser's update changes no row, succeeds all the same, and its
  session is for the account that is now bound to the other subject.
\<close>

lemma lost_binding_goes_on:
  assumes "faults w = []" and "bound other i (admin_users w)" and "\<forall>u \<in> set (admin_users w). au_id u = i \<longrightarrow> au_subject u = Some other"
  shows "bind_subject subject i w = (Inr (), w)"
proof -
  have "count_where (\<lambda>u. au_id u = i \<and> au_subject u = None) (admin_users w) = 0"
    using assms(3) by (auto simp: count_where_0_iff)
  then have "update_where (\<lambda>u. au_id u = i \<and> au_subject u = None) (\<lambda>u. u\<lparr>au_subject := Some subject\<rparr>) (admin_users w) = admin_users w"
    by (rule update_where_none)
  moreover have "\<not> list_ex (\<lambda>u. au_id u = i \<and> au_subject u = None) (admin_users w)"
    using assms(3) by (auto simp: list_ex_iff)
  ultimately show ?thesis using assms(1) by (simp add: bind_subject_def op_simps)
qed

end
