(* ===== verification/RequestLog.thy ===== *)
theory RequestLog
  imports Tenant "HOL-Library.Sublist"
begin

text \<open>
  The log of all requests, \<^verbatim>\<open>internal/platform/audit\<close>: the record of a request (\<^verbatim>\<open>middleware.go\<close>), the
  bounded buffer between the response path and the writer (\<^verbatim>\<open>audit.go\<close>), the administrators' view
  (\<^verbatim>\<open>query.go\<close>) and the purge (\<^verbatim>\<open>retention.go\<close>). The channel is the list of the records in it, next to the
  world; a record and a drain are one step each, as sends and receives on a channel are. The lemmas show that
  what is written is what was recorded, in that order, and when nothing is lost.
\<close>

definition bufferSize :: nat where "bufferSize = 1024"

section \<open>The record of a request\<close>

fun split_slash :: "string \<Rightarrow> string list" where
  "split_slash [] = [[]]"
| "split_slash (c # s) = (case split_slash s of
     [] \<Rightarrow> [[c]] | t # ts \<Rightarrow> if c = CHR ''/'' then [] # t # ts else (c # t) # ts)"

definition trim_set :: "string \<Rightarrow> string \<Rightarrow> string" where
  "trim_set cs s = rev (dropWhile (\<lambda>c. c \<in> set cs) (rev (dropWhile (\<lambda>c. c \<in> set cs) s)))"

definition is_param :: "string \<Rightarrow> bool" where
  "is_param seg \<longleftrightarrow> has_prefix seg ''{'' \<and> has_prefix (rev seg) ''}''"

text \<open>The segment before the first parameter, and the parameter's value; else the last segment.\<close>

fun first_param :: "string \<Rightarrow> string list \<Rightarrow> (string \<times> string) option" where
  "first_param before [] = None"
| "first_param before (s # ss) = (if is_param s then Some (before, s) else first_param s ss)"

definition derive_resource :: "(string \<Rightarrow> string) \<Rightarrow> string \<Rightarrow> string \<times> string" where
  "derive_resource param pattern = (let segs = split_slash (trim_set ''/'' pattern) in
     case first_param '''' segs of
       Some (before, s) \<Rightarrow> (before, param (trim_set ''{}'' s))
     | None \<Rightarrow> if segs \<noteq> [] \<and> last segs \<noteq> '''' then (last segs, '''') else ('''', ''''))"

definition null_if_empty :: "string \<Rightarrow> string option" where
  "null_if_empty s = (if s = '''' then None else Some s)"

text \<open>The box the authentication fills in.\<close>

record identity =
  id_tenant :: "uuid option"
  id_api_key :: "uuid option"
  id_admin :: "uuid option"

definition has_suffix :: "string \<Rightarrow> string \<Rightarrow> bool" where
  "has_suffix s p \<longleftrightarrow> has_prefix (rev s) (rev p)"

definition body_hash :: "externals \<Rightarrow> string option \<Rightarrow> string" where
  "body_hash e b = (case b of None \<Rightarrow> '''' | Some body \<Rightarrow> hex_encode (x_sha256 e body))"

definition record_of :: "externals \<Rightarrow> string \<Rightarrow> http_request \<Rightarrow> string \<Rightarrow> (string \<Rightarrow> string) \<Rightarrow> int \<Rightarrow> identity \<Rightarrow> time \<Rightarrow> request_record" where
  "record_of e req_id r pattern param status who elapsed = (let res = derive_resource param pattern in
     \<lparr>rr_request = req_id, rr_method = rq_method r, rr_path = rq_path r,
       rr_action = rq_method r @ '' '' @ (if pattern \<noteq> '''' then pattern else rq_path r),
       rr_resource = (null_if_empty (fst res), null_if_empty (snd res)), rr_client_ip = client_ip r,
       rr_user_agent = rq_header r ''User-Agent'', rr_body_hash = body_hash e (rq_body r), rr_status = status,
       rr_millis = elapsed div 1000000, rr_tenant = id_tenant who, rr_api_key = id_api_key who, rr_admin = id_admin who\<rparr>)"

section \<open>The buffer and the writer\<close>

definition enqueue :: "request_record \<Rightarrow> request_record list \<Rightarrow> request_record list" where
  "enqueue rec buf = (if length buf < bufferSize then buf @ [rec] else buf)"

text \<open>
  A request through the middleware: what the routes behind it do (their status, the identity they found, the route
  that matched), then the record, unless it is a health check.
\<close>

definition audit_middleware ::
  "(http_request \<Rightarrow> (int \<times> identity \<times> string \<times> (string \<Rightarrow> string)) run) \<Rightarrow> string \<Rightarrow> http_request \<Rightarrow> request_record list \<Rightarrow> (int \<times> request_record list) run" where
  "audit_middleware next_handler req_id r buf =
     (if has_suffix (rq_path r) ''/health'' then bindE (next_handler r) (\<lambda>(status, _). ret (status, buf))
      else bindE (gets now) (\<lambda>start. bindE (next_handler r) (\<lambda>(status, who, pattern, param).
        bindE (gets (\<lambda>w. (env w, now w))) (\<lambda>(e, t). ret (status, enqueue (record_of e req_id r pattern param status who (t - start)) buf)))))"

definition write_record :: "request_record \<Rightarrow> unit run" where
  "write_record rec = stmt (bindE (gets now) (\<lambda>t. modify (\<lambda>w. w\<lparr>request_log := request_log w @ [(t, rec)]\<rparr>)))"

text \<open>One turn of \<open>Run\<close>: an error of the write is logged and the record is gone.\<close>

fun drain_one :: "request_record list \<Rightarrow> request_record list run" where
  "drain_one [] = ret []"
| "drain_one (rec # buf) = thenE (attemptE (write_record rec)) (ret buf)"

definition purge_older_than :: "time \<Rightarrow> unit run" where
  "purge_older_than cutoff = exec (\<lambda>w. w\<lparr>request_log := filter (\<lambda>(t, _). \<not> t < cutoff) (request_log w)\<rparr>)"

definition retention_tick :: "time \<Rightarrow> unit run" where
  "retention_tick retention = bindE (gets now) (\<lambda>t. thenE (attemptE (purge_older_than (t - retention))) (ret ()))"

section \<open>The view\<close>

definition matching :: "uuid option \<Rightarrow> uuid option \<Rightarrow> world \<Rightarrow> (time \<times> request_record) list" where
  "matching tenant admin w = filter (\<lambda>(_, r). (tenant = None \<or> rr_tenant r = tenant) \<and> (admin = None \<or> rr_admin r = admin)) (request_log w)"

definition list_requests :: "uuid option \<Rightarrow> uuid option \<Rightarrow> int \<Rightarrow> int \<Rightarrow> ((time \<times> request_record) list \<times> nat) run" where
  "list_requests tenant admin limit offset = bindE (query (\<lambda>w. length (matching tenant admin w))) (\<lambda>total.
     bindE (query (\<lambda>w. page limit offset (sort_key (\<lambda>(t, _). - t) (matching tenant admin w)))) (\<lambda>rows. ret (rows, total)))"

section \<open>What reaches the table\<close>

text \<open>
  The events of the process: a record, a turn of the writer, a purge with its cutoff, and the passing of time with the
  statements that will fail.
\<close>

datatype audit_event = Recorded request_record | Drained | Purged time | Passed time "bool list"

fun audit_step :: "audit_event \<Rightarrow> request_record list \<times> world \<Rightarrow> request_record list \<times> world" where
  "audit_step (Recorded rec) (buf, w) = (enqueue rec buf, w)"
| "audit_step Drained (buf, w) = (case drain_one buf w of (Inr buf', w') \<Rightarrow> (buf', w') | (Inl e, w') \<Rightarrow> (buf, w'))"
| "audit_step (Purged cutoff) (buf, w) = (buf, snd (purge_older_than cutoff w))"
| "audit_step (Passed t fs) (buf, w) = (buf, w\<lparr>now := t, faults := fs\<rparr>)"

fun audit_run :: "audit_event list \<Rightarrow> request_record list \<times> world \<Rightarrow> request_record list \<times> world" where
  "audit_run [] s = s"
| "audit_run (ev # evs) s = audit_run evs (audit_step ev s)"

fun recorded :: "audit_event list \<Rightarrow> request_record list" where
  "recorded [] = []"
| "recorded (Recorded rec # evs) = rec # recorded evs"
| "recorded (_ # evs) = recorded evs"

text \<open>What is written or waits to be, in order.\<close>

definition trail :: "request_record list \<times> world \<Rightarrow> request_record list" where
  "trail s = map snd (request_log (snd s)) @ fst s"

lemma drain_cases:
  obtains bs where "drain_one (rec # buf) w = (Inr buf, w\<lparr>faults := bs, request_log := request_log w @ [(now w, rec)]\<rparr>)"
  | bs where "drain_one (rec # buf) w = (Inr buf, w\<lparr>faults := bs\<rparr>)"
proof (cases "faults w")
  case Nil
  have "w\<lparr>faults := []\<rparr> = w" using Nil by (cases w) simp
  then have "w\<lparr>faults := [], request_log := l\<rparr> = w\<lparr>request_log := l\<rparr>" for l by (metis)
  with Nil show ?thesis by (intro that(1) [of "[]"]) (simp add: write_record_def op_simps attemptE_def)
next
  case (Cons b bs)
  then show ?thesis
    using that by (cases b) (auto simp: write_record_def stmt_def thenE_def bindE_def attemptE_def tick_fault_def gets_def modify_def ret_def)
qed

lemma trail_drained: "subseq (trail (audit_step Drained s)) (trail s) \<and> length (fst (audit_step Drained s)) \<le> length (fst s)"
proof (cases s)
  case (Pair buf w)
  show ?thesis
  proof (cases buf)
    case (Cons rec buf')
    show ?thesis
      unfolding Pair Cons
      by (rule drain_cases [of rec buf' w]) (simp_all add: trail_def list_emb_append_mono list_emb_Cons)
  qed (simp add: Pair ret_def trail_def)
qed

lemma purge_log: "request_log (snd (purge_older_than c w)) = filter (\<lambda>(t, _). \<not> t < c) (request_log w) \<or> request_log (snd (purge_older_than c w)) = request_log w"
  by (auto simp: purge_older_than_def exec_def stmt_def thenE_def bindE_def tick_fault_def modify_def split: list.split)

lemma subseq_map_filter: "subseq (map f (filter P xs)) (map f xs)"
  by (rule subseq_map) (rule subseq_filter_left)

lemma trail_step: "subseq (trail (audit_step ev s)) (trail s @ recorded [ev])"
proof (cases s)
  case (Pair buf w)
  show ?thesis
  proof (cases ev)
    case (Purged c)
    then show ?thesis using purge_log [of c w] by (auto simp: Pair trail_def intro!: list_emb_append_mono subseq_map_filter)
  next
    case Drained
    then show ?thesis using trail_drained [of s] by simp
  qed (auto simp: Pair trail_def enqueue_def)
qed

lemma recorded_append: "recorded (evs @ evs') = recorded evs @ recorded evs'"
  by (induction evs rule: recorded.induct) simp_all

lemma trail_run: "subseq (trail (audit_run evs s)) (trail s @ recorded evs)"
proof (induction evs arbitrary: s)
  case (Cons ev evs)
  have "subseq (trail (audit_step ev s) @ recorded evs) ((trail s @ recorded [ev]) @ recorded evs)"
    by (intro list_emb_append_mono trail_step subseq_order.order_refl)
  with Cons [of "audit_step ev s"] have "subseq (trail (audit_run evs (audit_step ev s))) ((trail s @ recorded [ev]) @ recorded evs)"
    by (rule subseq_order.order_trans)
  moreover have "recorded (ev # evs) = recorded [ev] @ recorded evs" using recorded_append [of "[ev]" evs] by simp
  ultimately show ?case by simp
qed simp

lemma buffer_step: "length (fst s) \<le> bufferSize \<Longrightarrow> length (fst (audit_step ev s)) \<le> bufferSize"
  using trail_drained [of s] by (cases s; cases ev) (auto simp: enqueue_def)

lemma buffer_run: "length (fst s) \<le> bufferSize \<Longrightarrow> length (fst (audit_run evs s)) \<le> bufferSize"
  by (induction evs arbitrary: s) (auto simp: buffer_step)

text \<open>
  C38. Whatever is recorded, drained, purged and fails, and in whatever order, the table followed by the buffer is a
  subsequence of the requests in the order they were recorded: nothing is made up, repeated or swapped, and never
  more than 1024 records wait.
\<close>

theorem audit_trail_in_order:
  assumes "request_log w = []"
  shows "subseq (trail (audit_run evs ([], w))) (recorded evs) \<and> length (fst (audit_run evs ([], w))) \<le> bufferSize"
  using trail_run [of evs "([], w)"] buffer_run [of "([], w)" evs] assms by (simp add: trail_def)

definition sample_record :: request_record where
  "sample_record = record_of sample_env ''1'' signed_request ''/sessions/{id}'' (\<lambda>_. ''7'') 200 \<lparr>id_tenant = Some ''T'', id_api_key = None, id_admin = None\<rparr> 0"

theorem audit_trail_in_order_witness:
  "subseq (trail (audit_run [Recorded sample_record, Drained, Passed 5 [True], Recorded sample_record, Drained] ([], empty_world))) (recorded [Recorded sample_record, Drained, Passed 5 [True], Recorded sample_record, Drained]) \<and>
    length (fst (audit_run [Recorded sample_record, Drained, Passed 5 [True], Recorded sample_record, Drained] ([], empty_world))) \<le> bufferSize"
  by (rule audit_trail_in_order) (simp add: empty_world_def)

text \<open>Nothing is lost as long as the buffer has room, the writes succeed and nothing is purged.\<close>

fun roomy :: "audit_event list \<Rightarrow> request_record list \<times> world \<Rightarrow> bool" where
  "roomy [] s = True"
| "roomy (ev # evs) s = ((case ev of Recorded _ \<Rightarrow> length (fst s) < bufferSize | Drained \<Rightarrow> faults (snd s) = [] | Purged _ \<Rightarrow> False
     | Passed _ _ \<Rightarrow> True) \<and> roomy evs (audit_step ev s))"

lemma trail_complete: "roomy evs s \<Longrightarrow> trail (audit_run evs s) = trail s @ recorded evs"
proof (induction evs arbitrary: s)
  case (Cons ev evs)
  obtain buf w where s: "s = (buf, w)" by (cases s)
  have "trail (audit_step ev s) = trail s @ recorded [ev]"
    using Cons.prems unfolding s
    by (cases ev; cases buf) (simp_all add: trail_def enqueue_def write_record_def op_simps attemptE_def ret_def)
  with Cons show ?case using recorded_append [of "[ev]" evs] by simp
qed simp

text \<open>A path that ends in \<open>/health\<close> is never recorded, whichever route it belongs to.\<close>

lemma health_suffix_unrecorded:
  assumes "has_suffix (rq_path r) ''/health''" and "audit_middleware next_handler i r buf w = (Inr (status, buf'), w')"
  shows "buf' = buf"
  using assms by (auto simp: audit_middleware_def bindE_def ret_def split: prod.splits sum.splits)

text \<open>What a purge leaves is what is not older than the cutoff.\<close>

lemma purge_exact: "faults w = [] \<Longrightarrow> request_log (snd (purge_older_than c w)) = filter (\<lambda>(t, _). c \<le> t) (request_log w)"
  by (simp add: purge_older_than_def op_simps not_less)

end
