(* ===== verification/Queueing.thy ===== *)
theory Queueing
  imports Notify
begin

text \<open>
  The dispatcher of the outbox with the handler of the notifications: the handler meets the contract of
  \<open>quiet_handlers\<close> (it only writes its own table), so a batch without failures empties the outbox and leaves every
  event queued for its receivers.
\<close>


text \<open>An event whose payload names no tenant or a known one, in a world whose webhook secrets decrypt.\<close>

definition deliverable :: "world \<Rightarrow> event \<Rightarrow> bool" where
  "deliverable w ev \<longleftrightarrow> (case tenant_id_from_payload (env w) (ev_payload ev) of
     Inl _ \<Rightarrow> False | Inr None \<Rightarrow> True | Inr (Some i) \<Rightarrow> find_tenant i w \<noteq> None)"

definition routable :: "world \<Rightarrow> bool" where
  "routable w \<longleftrightarrow> (\<forall>t \<in> set (tenants w). \<forall>enc. tn_secret t = Some enc \<longrightarrow> (\<exists>s. x_decrypt (env w) (cfg_secret_key (env w)) enc = Inr s)) \<and>
     (\<forall>ev \<in> set (outbox w). deliverable w ev)"

text \<open>The channels an event goes to, as the tenants and the configuration stand.\<close>

definition webhook_url :: "uuid \<Rightarrow> world \<Rightarrow> string option" where
  "webhook_url i w = (case find_tenant i w of None \<Rightarrow> None
     | Some t \<Rightarrow> (case (tn_webhook t, tn_secret t) of (Some url, Some enc) \<Rightarrow> Some url | _ \<Rightarrow> None))"

definition wants :: "world \<Rightarrow> event \<Rightarrow> string \<Rightarrow> bool" where
  "wants w ev channel \<longleftrightarrow>
     (channel = ChannelWebhook \<and> ev_type ev \<in> set webhookEvents \<and>
        (\<exists>i url. tenant_id_from_payload (env w) (ev_payload ev) = Inr (Some i) \<and> webhook_url i w = Some url \<and> url \<noteq> '''')) \<or>
     (channel = ChannelEmail \<and> ev_type ev \<in> set emailEvents \<and> em_ops (cfg_email (env w)) \<noteq> '''')"

definition queued :: "event \<Rightarrow> world \<Rightarrow> bool" where
  "queued ev w \<longleftrightarrow> (\<forall>channel. wants w ev channel \<longrightarrow> (ev_agg_id ev, ev_type ev, channel) \<in> delivery_key ` set (deliveries w))"

text \<open>The same world with more deliveries queued and ids used up.\<close>

definition more_queued :: "world \<Rightarrow> world \<Rightarrow> bool" where
  "more_queued w w' \<longleftrightarrow> (\<exists>ds n. w' = w\<lparr>deliveries := deliveries w @ ds, uuid_next := n\<rparr>)"

lemma more_queued_trans: "more_queued u v \<Longrightarrow> more_queued v w \<Longrightarrow> more_queued u w"
  by (fastforce simp: more_queued_def)

lemma more_queued_refl: "more_queued w w"
  unfolding more_queued_def by (rule exI [of _ "[]"], rule exI [of _ "uuid_next w"]) simp

lemma more_queued_same:
  assumes "more_queued w w'"
  shows "faults w' = faults w" and "outbox w' = outbox w" and "routable w' = routable w" and "wants w' ev ch = wants w ev ch"
    and "queued ev w \<Longrightarrow> queued ev w'" and "env w' = env w" and "find_tenant i w' = find_tenant i w"
    and "delivery_key ` set (deliveries w) \<subseteq> delivery_key ` set (deliveries w')"
proof -
  obtain ds n where w': "w' = w\<lparr>deliveries := deliveries w @ ds, uuid_next := n\<rparr>" using assms by (auto simp: more_queued_def)
  show "faults w' = faults w" "outbox w' = outbox w" "env w' = env w" "find_tenant i w' = find_tenant i w"
    "delivery_key ` set (deliveries w) \<subseteq> delivery_key ` set (deliveries w')"
    by (auto simp: w' find_tenant_def)
  have "find_tenant j w' = find_tenant j w" for j by (simp add: w' find_tenant_def)
  then have "deliverable w' e = deliverable w e" for e unfolding deliverable_def by (simp add: w' cong: option.case_cong sum.case_cong)
  then show "routable w' = routable w" by (simp add: routable_def) (simp add: w')
  have wants: "wants w' ev c = wants w ev c" for ev c by (simp add: w' wants_def webhook_url_def find_tenant_def)
  show "wants w' ev ch = wants w ev ch" by (rule wants)
  show "queued ev w \<Longrightarrow> queued ev w'" by (auto simp: queued_def wants) (simp add: w' image_Un)
qed

lemma queue_delivery_runs:
  assumes "faults w = []" and "case tenant of None \<Rightarrow> True | Some i \<Rightarrow> find_tenant i w \<noteq> None"
  shows "\<exists>w'. queue_delivery ev tenant ch dest w = (Inr (), w') \<and> more_queued w w' \<and>
    (ev_agg_id ev, ev_type ev, ch) \<in> delivery_key ` set (deliveries w')"
proof (cases "list_ex (\<lambda>d. delivery_key d = (ev_agg_id ev, ev_type ev, ch)) (deliveries w)")
  case True
  with assms(1) have "queue_delivery ev tenant ch dest w = (Inr (), w)" by (simp add: queue_delivery_def op_simps)
  with True more_queued_refl [of w] show ?thesis by (auto simp: list_ex_iff image_iff) metis
next
  case False
  let ?d = "new_delivery ev tenant ch dest (uuid_src w (uuid_next w)) (now w)"
  have "queue_delivery ev tenant ch dest w = (Inr (), w\<lparr>deliveries := deliveries w @ [?d], uuid_next := Suc (uuid_next w)\<rparr>)"
    using False assms by (simp add: queue_delivery_def op_simps)
  moreover have "delivery_key ?d = (ev_agg_id ev, ev_type ev, ch)" by (simp add: new_delivery_def delivery_key_def)
  ultimately show ?thesis
    by (intro exI [of _ "w\<lparr>deliveries := deliveries w @ [?d], uuid_next := Suc (uuid_next w)\<rparr>"]) (auto simp: more_queued_def)
qed

lemma webhook_config_runs:
  assumes "faults w = []" and "routable w"
  shows "\<exists>c. webhook_config i w = (Inr c, w) \<and> map_option fst c = webhook_url i w"
proof (cases "find_tenant i w")
  case None
  then show ?thesis using assms(1) by (simp add: webhook_config_def webhook_url_def op_simps)
next
  case (Some t)
  then have "t \<in> set (tenants w)" by (auto simp: find_tenant_def dest: find_Some_mem)
  then have "\<exists>s. x_decrypt (env w) (cfg_secret_key (env w)) enc = Inr s" if "tn_secret t = Some enc" for enc
    using assms(2) that by (simp add: routable_def)
  with Some assms(1) show ?thesis
    by (cases "tn_webhook t"; cases "tn_secret t") (force simp: webhook_config_def webhook_url_def decrypt_secret_def op_simps)+
qed

lemma insert_delivery_runs:
  assumes "faults w = []" and "routable w" and "tenant_id_from_payload (env w) (ev_payload ev) = Inr tenant" and "deliverable w ev"
    and "ch = ChannelWebhook \<and> ev_type ev \<in> set webhookEvents \<or> ch = ChannelEmail \<and> ev_type ev \<in> set emailEvents"
  shows "\<exists>w'. insert_delivery ev tenant ch w = (Inr (), w') \<and> more_queued w w' \<and>
    (wants w ev ch \<longrightarrow> (ev_agg_id ev, ev_type ev, ch) \<in> delivery_key ` set (deliveries w'))"
proof -
  have ref: "case tenant of None \<Rightarrow> True | Some i \<Rightarrow> find_tenant i w \<noteq> None"
    using assms(3, 4) by (simp add: deliverable_def split: option.splits)
  obtain dest where d: "destination_for tenant ch w = (Inr dest, w)" "dest = None \<Longrightarrow> \<not> wants w ev ch"
  proof (cases "ch = ChannelWebhook")
    case False
    show ?thesis
    proof (rule that [of "if em_ops (cfg_email (env w)) = '''' then None else Some (em_ops (cfg_email (env w)))"])
      show "destination_for tenant ch w = (Inr (if em_ops (cfg_email (env w)) = '''' then None else Some (em_ops (cfg_email (env w)))), w)"
        using False by (simp add: destination_for_def op_simps)
      show "\<not> wants w ev ch" if "(if em_ops (cfg_email (env w)) = '''' then None else Some (em_ops (cfg_email (env w)))) = None"
        using that False by (simp add: wants_def split: if_splits)
    qed
  next
    case web: True
    show ?thesis
    proof (cases tenant)
      case None
      with web show ?thesis using that [of None] assms(3) by (simp add: destination_for_def op_simps wants_def ChannelWebhook_def ChannelEmail_def)
    next
      case (Some i)
      obtain c where c: "webhook_config i w = (Inr c, w)" "map_option fst c = webhook_url i w"
        using webhook_config_runs [OF assms(1, 2)] by blast
      show ?thesis
      proof (rule that [of "case c of None \<Rightarrow> None | Some (url, s) \<Rightarrow> if url = '''' then None else Some url"])
        show "destination_for tenant ch w = (Inr (case c of None \<Rightarrow> None | Some (url, s) \<Rightarrow> if url = '''' then None else Some url), w)"
          using web Some c(1) by (cases c) (auto simp: destination_for_def op_simps)
        show "\<not> wants w ev ch" if "(case c of None \<Rightarrow> None | Some (url, s) \<Rightarrow> if url = '''' then None else Some url) = None"
        proof -
          have "webhook_url i w = None \<or> webhook_url i w = Some ''''"
            using that c(2) by (cases c) (auto split: if_splits)
          then show ?thesis using web Some assms(3) by (auto simp: wants_def ChannelWebhook_def ChannelEmail_def)
        qed
      qed
    qed
  qed
  show ?thesis
  proof (cases dest)
    case None
    with d show ?thesis using more_queued_refl [of w] by (auto simp: insert_delivery_def op_simps)
  next
    case (Some x)
    with d queue_delivery_runs [OF assms(1) ref, of ev ch x] show ?thesis by (auto simp: insert_delivery_def op_simps)
  qed
qed

lemma maybe_insert:
  assumes "faults w = []" and "routable w" and "tenant_id_from_payload (env w) (ev_payload ev) = Inr tenant" and "deliverable w ev"
    and "b \<longleftrightarrow> ch = ChannelWebhook \<and> ev_type ev \<in> set webhookEvents \<or> ch = ChannelEmail \<and> ev_type ev \<in> set emailEvents"
  shows "\<exists>w'. (if b then insert_delivery ev tenant ch else ret ()) w = (Inr (), w') \<and> more_queued w w' \<and>
    (wants w ev ch \<longrightarrow> (ev_agg_id ev, ev_type ev, ch) \<in> delivery_key ` set (deliveries w'))"
proof (cases b)
  case True
  then show ?thesis using insert_delivery_runs [OF assms(1-4), of ch] assms(5) by simp
next
  case False
  then show ?thesis using assms(5) more_queued_refl [of w] by (auto simp: ret_def wants_def)
qed

lemma handle_event_runs:
  assumes "faults w = []" and "routable w" and "deliverable w ev"
  shows "\<exists>w'. handle_event ev w = (Inr (), w') \<and> more_queued w w' \<and> queued ev w'"
proof -
  obtain tenant where t: "tenant_id_from_payload (env w) (ev_payload ev) = Inr tenant"
    using assms(3) by (cases "tenant_id_from_payload (env w) (ev_payload ev)") (auto simp: deliverable_def)
  have ch: "ChannelWebhook \<noteq> ChannelEmail" by (simp add: ChannelWebhook_def ChannelEmail_def)
  obtain w1 where w1: "(if ev_type ev \<in> set webhookEvents then insert_delivery ev tenant ChannelWebhook else ret ()) w = (Inr (), w1)"
    "more_queued w w1" "wants w ev ChannelWebhook \<longrightarrow> (ev_agg_id ev, ev_type ev, ChannelWebhook) \<in> delivery_key ` set (deliveries w1)"
    using maybe_insert [OF assms(1, 2) t assms(3), of "ev_type ev \<in> set webhookEvents" ChannelWebhook] ch by auto
  note s1 = more_queued_same [OF w1(2)]
  have "faults w1 = []" "routable w1" "tenant_id_from_payload (env w1) (ev_payload ev) = Inr tenant" "deliverable w1 ev"
    using assms t by (simp_all add: s1 deliverable_def split: sum.splits option.splits)
  then obtain w2 where w2: "(if ev_type ev \<in> set emailEvents then insert_delivery ev tenant ChannelEmail else ret ()) w1 = (Inr (), w2)"
    "more_queued w1 w2" "wants w1 ev ChannelEmail \<longrightarrow> (ev_agg_id ev, ev_type ev, ChannelEmail) \<in> delivery_key ` set (deliveries w2)"
    using maybe_insert [of w1 ev tenant "ev_type ev \<in> set emailEvents" ChannelEmail] ch by auto
  note s2 = more_queued_same [OF w2(2)]
  have "handle_event ev w = (Inr (), w2)"
    using w1(1) w2(1) t by (simp add: handle_event_def op_simps)
  moreover have "wants w ev c \<Longrightarrow> c = ChannelWebhook \<or> c = ChannelEmail" for c by (auto simp: wants_def)
  then have "queued ev w2" using w1(3) w2(3) s2(8) unfolding queued_def s1(4) s2(4) by blast
  ultimately show ?thesis using more_queued_trans [OF w1(2) w2(2)] by blast
qed

lemma payload_marked: "ev_payload (dispatched_at t r) = ev_payload r"
  by (simp add: dispatched_at_def)

interpretation queueing: quiet_handlers notification_handlers routable queued
proof
  fix h ev and w :: world
  assume h: "h \<in> set (notification_handlers (ev_type ev))" "ev \<in> set (outbox w)" "routable w" "faults w = []"
  then have "h = handle_event" by (auto simp: notification_handlers_def split: if_splits)
  moreover have "deliverable w ev" using h(2, 3) by (simp add: routable_def)
  then obtain w' where "handle_event ev w = (Inr (), w')" "more_queued w w'" "queued ev w'" using handle_event_runs h(3, 4) by blast
  ultimately show "\<exists>w'. h ev w = (Inr (), w') \<and> faults w' = [] \<and> outbox w' = outbox w \<and> routable w' \<and> queued ev w' \<and>
      (\<forall>e'. queued e' w \<longrightarrow> queued e' w')"
    using more_queued_same [of w w'] h(3, 4) by auto
next
  fix w :: world and c t
  assume "routable w"
  then show "routable (w\<lparr>outbox := update_where c (dispatched_at t) (outbox w)\<rparr>)"
    by (auto simp: routable_def set_update_where deliverable_def find_tenant_def payload_marked split: sum.splits option.splits)
next
  fix w :: world and ev c t
  assume "queued ev w"
  then show "queued ev (w\<lparr>outbox := update_where c (dispatched_at t) (outbox w)\<rparr>)"
    by (simp add: queued_def wants_def webhook_url_def find_tenant_def)
qed


text \<open>A failed settlement of a tenant with a webhook.\<close>

definition queue_world :: world where
  "queue_world = empty_world\<lparr>tenants := [(tenant_row ''N'' None ''T'' 0)\<lparr>tn_webhook := Some ''https://t'', tn_secret := Some ''key1''\<rparr>],
     outbox := [\<lparr>ev_id = ''E'', ev_type = ''settlement.failed'', ev_agg_type = ''settlement'', ev_agg_id = ''S'', ev_payload = [(''tenant_id'', PStr ''T'')],
       ev_created = 0, ev_dispatched = None, ev_attempts = 0\<rparr>]\<rparr>"


end
