(* ===== verification/Http.thy ===== *)
theory Http
  imports Schema
begin

text \<open>
  What the HTTP handlers of \<^verbatim>\<open>src/cmd/server\<close> share: the response they write (\<open>writeJSON\<close>,
  \<open>writeErr\<close> of \<^verbatim>\<open>handlers.go\<close>), the decoding of a JSON request body into a struct, and the ids in a
  path. A handler always answers, so it is an operation that never fails. Log lines have no
  counterpart, and an instant stands for its text in a response.
\<close>

named_theorems sees_rules \<open>an operation tells nothing but a view of the world\<close>

section \<open>Responses\<close>

text \<open>A status with a JSON body, a status with \<open>{"error": ..}\<close>, or a status alone.\<close>

datatype 'a response = Wrote int 'a | Refused int err | Empty int

fun status_of :: "'a response \<Rightarrow> int" where
  "status_of (Wrote n x) = n"
| "status_of (Refused n e) = n"
| "status_of (Empty n) = n"

definition succeeded :: "'a response \<Rightarrow> bool" where
  "succeeded r \<longleftrightarrow> status_of r div 100 = 2"

lemma succeeded_simps [simp]:
  "succeeded (Wrote n x) \<longleftrightarrow> n div 100 = 2" "succeeded (Refused n e) \<longleftrightarrow> n div 100 = 2" "succeeded (Empty n) \<longleftrightarrow> n div 100 = 2"
  by (simp_all add: succeeded_def)

text \<open>\<open>x, err := op(..); if err != nil { writeErr(status of err) }\<close>.\<close>

definition refusing :: "'a run \<Rightarrow> (err \<Rightarrow> int) \<Rightarrow> ('a \<Rightarrow> 'b response run) \<Rightarrow> 'b response run" where
  "refusing m status k = bindE (attemptE m) (\<lambda>r. case r of Inl e \<Rightarrow> ret (Refused (status e) e) | Inr x \<Rightarrow> k x)"

text \<open>An error that is only logged.\<close>

definition best_effort :: "'a run \<Rightarrow> unit run" where
  "best_effort m = bindE (attemptE m) (\<lambda>_. ret ())"

abbreviation bad_request :: "string \<Rightarrow> 'b response run" where
  "bad_request msg \<equiv> ret (Refused 400 (OtherErr msg))"

definition with_tenant :: "uuid option \<Rightarrow> (uuid \<Rightarrow> 'b response run) \<Rightarrow> 'b response run" where
  "with_tenant t k = (case t of None \<Rightarrow> ret (Refused 401 (OtherErr ''missing tenant identity'')) | Some i \<Rightarrow> k i)"

lemma with_tenant_Some: "with_tenant (Some i) k = k i"
  by (simp add: with_tenant_def)

text \<open>\<open>uuid.Parse(chi.URLParam(r, ..))\<close>.\<close>

definition path_id :: "string \<Rightarrow> (uuid \<Rightarrow> 'b response run) \<Rightarrow> 'b response run" where
  "path_id s k = bindE (gets (\<lambda>w. x_uuid_parse (env w) s)) (\<lambda>r. case r of None \<Rightarrow> bad_request ''uuid'' | Some i \<Rightarrow> k i)"

section \<open>Request bodies\<close>

text \<open>
  \<open>json.NewDecoder(r.Body).Decode(&req)\<close>: the first value of the body, into a struct whose fields
  \<open>f\<close> reads. An empty body is an error, a body that is \<open>null\<close> leaves the struct zero.
\<close>

definition decode_body :: "raw_json \<Rightarrow> ((string \<times> json) list \<Rightarrow> 'r option) \<Rightarrow> ('r \<Rightarrow> 'b response run) \<Rightarrow> 'b response run" where
  "decode_body body f k = (case (case body of RawJson j \<Rightarrow> Option.bind (struct_fields (Some j)) f | _ \<Rightarrow> None) of
     None \<Rightarrow> bad_request ''body'' | Some r \<Rightarrow> k r)"

text \<open>A \<open>json.RawMessage\<close>, a \<open>*string\<close>, a \<open>*bool\<close>, a \<open>*int\<close>.\<close>

definition raw_at :: "(string \<times> json) list \<Rightarrow> string \<Rightarrow> raw_json" where
  "raw_at kvs n = (if vals_at kvs n = [] then RawNil else RawJson (last (vals_at kvs n)))"

definition str_ptr :: "(string \<times> json) list \<Rightarrow> string \<Rightarrow> string option option" where
  "str_ptr kvs n = (if list_all (\<lambda>j. case j of JStr t \<Rightarrow> True | JNull \<Rightarrow> True | _ \<Rightarrow> False) (vals_at kvs n)
     then Some (fold (\<lambda>j p. case j of JStr t \<Rightarrow> Some t | _ \<Rightarrow> None) (vals_at kvs n) None) else None)"

definition bool_ptr :: "(string \<times> json) list \<Rightarrow> string \<Rightarrow> bool option option" where
  "bool_ptr kvs n = (if list_all (\<lambda>j. case j of JBool b \<Rightarrow> True | JNull \<Rightarrow> True | _ \<Rightarrow> False) (vals_at kvs n)
     then Some (bool_ptr_lax kvs n) else None)"

definition int_ptr :: "(string \<times> json) list \<Rightarrow> string \<Rightarrow> int option option" where
  "int_ptr kvs n = (if list_all (\<lambda>j. case j of JNum x \<Rightarrow> int64_value x | JNull \<Rightarrow> True | _ \<Rightarrow> False) (vals_at kvs n)
     then Some (fold (\<lambda>j p. case j of JNum x \<Rightarrow> Some \<lfloor>x\<rfloor> | _ \<Rightarrow> None) (vals_at kvs n) None) else None)"

text \<open>
  A \<open>[]string\<close>, where a \<open>null\<close> element is the empty string, and a pointer to one. As for a slice of
  structs, a key that holds two arrays does not occur.
\<close>

fun str_elements :: "json \<Rightarrow> string list option" where
  "str_elements JNull = Some []"
| "str_elements (JArr js) = those (map (\<lambda>j. case j of JStr s \<Rightarrow> Some s | JNull \<Rightarrow> Some [] | _ \<Rightarrow> None) js)"
| "str_elements _ = None"

definition strs_field :: "(string \<times> json) list \<Rightarrow> string \<Rightarrow> string list option" where
  "strs_field kvs n = map_option (\<lambda>xs. if xs = [] then [] else last xs) (those (map str_elements (vals_at kvs n)))"

definition strs_ptr :: "(string \<times> json) list \<Rightarrow> string \<Rightarrow> string list option option" where
  "strs_ptr kvs n = (if vals_at kvs n = [] \<or> last (vals_at kvs n) = JNull
     then map_option (\<lambda>_. None) (strs_field kvs n) else map_option Some (strs_field kvs n))"

section \<open>Rules\<close>

lemma wp_refusing [wp_rules]:
  "wp m (\<lambda>r. wp_bind (\<lambda>r. case r of Inl e \<Rightarrow> ret (Refused (status e) e) | Inr x \<Rightarrow> k x) Q (Inr r)) w \<Longrightarrow> wp (refusing m status k) Q w"
  by (auto simp: refusing_def wp_def bindE_def attemptE_def wp_bind_def split: prod.splits)

lemma wp_refusing_call:
  assumes "wp m R w" and "\<And>e w'. R (Inl e) w' \<Longrightarrow> Q (Inr (Refused (status e) e)) w'" and "\<And>x w'. R (Inr x) w' \<Longrightarrow> wp (k x) Q w'"
  shows "wp (refusing m status k) Q w"
  by (rule wp_refusing, rule wp_conseq [OF assms(1)]) (auto simp: wp_bind_def wp_ret assms(2, 3) split: sum.split)

lemma best_effort_apply: "best_effort m w = (Inr (), snd (m w))"
  by (simp add: best_effort_def bindE_def attemptE_def ret_def split_beta)

lemma keeps_refusing [keeps_rules]: "keeps P m \<Longrightarrow> (\<And>x. keeps P (k x)) \<Longrightarrow> keeps P (refusing m status k)"
  unfolding refusing_def by (intro keeps_rules)

lemma keeps_best_effort [keeps_rules]: "keeps P m \<Longrightarrow> keeps P (best_effort m)"
  unfolding best_effort_def by (intro keeps_rules)

lemma keeps_with_tenant [keeps_rules]: "(\<And>i. keeps P (k i)) \<Longrightarrow> keeps P (with_tenant t k)"
  by (cases t) (auto simp: with_tenant_def intro: keeps_rules)

lemma keeps_path_id [keeps_rules]: "(\<And>i. keeps P (k i)) \<Longrightarrow> keeps P (path_id s k)"
  unfolding path_id_def by (intro keeps_rules)

lemma keeps_decode_body [keeps_rules]: "(\<And>r. keeps P (k r)) \<Longrightarrow> keeps P (decode_body body f k)"
  unfolding decode_body_def by (intro keeps_rules)

text \<open>
  Two runs of an operation from worlds that look the same through \<open>v\<close>: the results are equal and the
  worlds still look the same. An operation with this property tells nothing else.
\<close>

definition sees :: "(world \<Rightarrow> 'v) \<Rightarrow> 'a run \<Rightarrow> bool" where
  "sees v m \<longleftrightarrow> (\<forall>w w'. v w = v w' \<longrightarrow> fst (m w) = fst (m w') \<and> v (snd (m w)) = v (snd (m w')))"

lemma seesI: "(\<And>w w'. v w = v w' \<Longrightarrow> fst (m w) = fst (m w') \<and> v (snd (m w)) = v (snd (m w'))) \<Longrightarrow> sees v m"
  unfolding sees_def by blast

lemma seesD: "sees v m \<Longrightarrow> v w = v w' \<Longrightarrow> fst (m w) = fst (m w') \<and> v (snd (m w)) = v (snd (m w'))"
  unfolding sees_def by blast

lemma sees_basic [sees_rules]: "sees v (ret x)" "sees v (fail e)"
  by (rule seesI, simp add: op_defs)+

lemma sees_gets [sees_rules]:
  assumes "\<And>w w'. v w = v w' \<Longrightarrow> f w = f w'"
  shows "sees v (gets f)"
proof (rule seesI)
  fix w w' assume "v w = v w'"
  then show "fst (gets f w) = fst (gets f w') \<and> v (snd (gets f w)) = v (snd (gets f w'))"
    using assms [of w w'] by (simp only: op_defs) simp
qed

lemma sees_bindE [sees_rules]:
  assumes "sees v m" and "\<And>x. sees v (k x)"
  shows "sees v (bindE m k)"
proof (rule seesI)
  fix w w' assume same: "v w = v w'"
  obtain r u r' u' where run: "m w = (r, u)" "m w' = (r', u')" by fastforce
  with seesD [OF assms(1) same] have "r' = r" "v u = v u'" by simp_all
  then show "fst (bindE m k w) = fst (bindE m k w') \<and> v (snd (bindE m k w)) = v (snd (bindE m k w'))"
    using run seesD [OF assms(2) \<open>v u = v u'\<close>] by (cases r) (simp_all add: bindE_def)
qed

lemma sees_attemptE [sees_rules]: "sees v m \<Longrightarrow> sees v (attemptE m)"
  by (rule seesI, drule seesD, assumption) (simp add: attemptE_def split_beta)

lemma sees_thenE [sees_rules]: "sees v m \<Longrightarrow> sees v k \<Longrightarrow> sees v (thenE m k)"
  unfolding thenE_def by (intro sees_rules)

lemma sees_case_option [sees_rules]: "sees v m \<Longrightarrow> (\<And>x. sees v (k x)) \<Longrightarrow> sees v (case r of None \<Rightarrow> m | Some x \<Rightarrow> k x)"
  by (cases r) simp_all

lemma sees_case_sum [sees_rules]: "(\<And>e. sees v (m e)) \<Longrightarrow> (\<And>x. sees v (k x)) \<Longrightarrow> sees v (case r of Inl e \<Rightarrow> m e | Inr x \<Rightarrow> k x)"
  by (cases r) simp_all

lemma sees_case_prod [sees_rules]: "(\<And>x y. sees v (m x y)) \<Longrightarrow> sees v (case r of (x, y) \<Rightarrow> m x y)"
  by (cases r) simp_all

lemma sees_if [sees_rules]: "sees v m \<Longrightarrow> sees v k \<Longrightarrow> sees v (if b then m else k)"
  by simp

lemma sees_query:
  assumes "\<And>w w'. v w = v w' \<Longrightarrow> faults w = faults w' \<and> f w = f w'" and "\<And>w w' bs. v w = v w' \<Longrightarrow> v (w\<lparr>faults := bs\<rparr>) = v (w'\<lparr>faults := bs\<rparr>)"
  shows "sees v (query f)"
proof -
  have "sees v tick_fault"
  proof (rule seesI)
    fix w w' assume "v w = v w'"
    then show "fst (tick_fault w) = fst (tick_fault w') \<and> v (snd (tick_fault w)) = v (snd (tick_fault w'))"
      using assms [of w w'] by (auto simp: tick_fault_def split: list.split)
  qed
  then show ?thesis
    unfolding query_def stmt_def by (intro sees_rules) (use assms(1) in blast)+
qed

lemma sees_refusing [sees_rules]: "sees v m \<Longrightarrow> (\<And>x. sees v (k x)) \<Longrightarrow> sees v (refusing m status k)"
  unfolding refusing_def by (intro sees_rules)

lemma sees_with_tenant [sees_rules]: "(\<And>i. sees v (k i)) \<Longrightarrow> sees v (with_tenant t k)"
  unfolding with_tenant_def by (intro sees_rules)

end
