(* ===== verification/Portal.thy ===== *)
theory Portal
  imports Http Tenant Session Settlement Notify
begin

text \<open>
  The self-service portal of a tenant, \<^verbatim>\<open>cmd/server/portal_handlers.go\<close>: the passwordless entry
  points and every route behind \<open>PortalMiddleware\<close>, with the responses they write. The lemmas show that
  the login answers the same for every address, and that what a tenant reads through the portal depends on
  its own rows and on the shared configuration only.
\<close>

section \<open>What the responses carry\<close>

record session_response =
  sp_instructions :: "instructions option"
  sp_id :: uuid
  sp_status :: string
  sp_fiat :: string
  sp_amount :: string
  sp_asset :: string
  sp_network :: string
  sp_reservation :: "uuid option"
  sp_created :: time

definition to_session_response :: "externals \<Rightarrow> session \<Rightarrow> session_response" where
  "to_session_response e s = \<lparr>sp_instructions = s_instructions s, sp_id = s_id s, sp_status = s_status s, sp_fiat = s_fiat s,
     sp_amount = x_dec_text e (s_fiat_amount s), sp_asset = s_asset s, sp_network = s_network s,
     sp_reservation = s_reservation s, sp_created = s_created s\<rparr>"

record settlement_response =
  tp_id :: uuid
  tp_session :: uuid
  tp_tenant :: uuid
  tp_status :: string
  tp_asset :: string
  tp_crypto :: string
  tp_fiat :: string
  tp_value :: string
  tp_payable :: string
  tp_attempts :: int
  tp_paged :: bool
  tp_created :: time

definition to_settlement_response :: "externals \<Rightarrow> settlement \<Rightarrow> settlement_response" where
  "to_settlement_response e st = \<lparr>tp_id = st_id st, tp_session = st_session st, tp_tenant = st_tenant st, tp_status = st_status st,
     tp_asset = st_asset st, tp_crypto = x_dec_text e (st_crypto_amount st), tp_fiat = st_fiat st,
     tp_value = x_dec_text e (st_fiat_value st), tp_payable = x_dec_text e (st_payable st), tp_attempts = st_attempts st,
     tp_paged = (st_paged st \<noteq> None), tp_created = st_created st\<rparr>"

record delivery_response =
  dr_id :: uuid
  dr_tenant :: "uuid option"
  dr_event :: string
  dr_channel :: string
  dr_destination :: string
  dr_status :: string
  dr_attempts :: nat
  dr_error :: "string option"
  dr_next :: time
  dr_created :: time

definition to_delivery_response :: "delivery \<Rightarrow> delivery_response" where
  "to_delivery_response d = \<lparr>dr_id = nd_id d, dr_tenant = nd_tenant d, dr_event = nd_event d, dr_channel = nd_channel d,
     dr_destination = nd_destination d, dr_status = nd_status d, dr_attempts = nd_attempts d, dr_error = nd_error d,
     dr_next = nd_next d, dr_created = nd_created d\<rparr>"

text \<open>Of a key everything but its secret, of a KYB case only its id and its status.\<close>

record api_key_response =
  kr_id :: uuid
  kr_key :: string
  kr_active :: bool
  kr_created :: time
  kr_revoked :: "time option"

definition to_api_key_response :: "api_key \<Rightarrow> api_key_response" where
  "to_api_key_response k = \<lparr>kr_id = ak_id k, kr_key = ak_key k, kr_active = ak_active k, kr_created = ak_created k, kr_revoked = ak_revoked k\<rparr>"

record portal_tenant =
  mr_id :: uuid
  mr_name :: string
  mr_status :: string
  mr_webhook :: "string option"
  mr_created :: time

definition to_portal_tenant :: "tenant \<Rightarrow> portal_tenant" where
  "to_portal_tenant t = \<lparr>mr_id = tn_id t, mr_name = tn_name t, mr_status = tn_status t, mr_webhook = tn_webhook t, mr_created = tn_created t\<rparr>"

record portal_corridor =
  cp_id :: uuid
  cp_asset :: string
  cp_network :: string
  cp_fiat :: string
  cp_min :: "string option"
  cp_max :: "string option"
  cp_fields :: "string list"
  cp_entitled :: bool
  cp_disabled :: bool

text \<open>The entitlement is the entry of a map; a corridor without one reads as the zero value.\<close>

definition to_portal_corridor :: "externals \<Rightarrow> corridor \<Rightarrow> entitlement option \<Rightarrow> portal_corridor" where
  "to_portal_corridor e c en = \<lparr>cp_id = co_id c, cp_asset = co_asset c, cp_network = co_network c, cp_fiat = co_fiat c,
     cp_min = map_option (x_dec_text e) (co_min c), cp_max = map_option (x_dec_text e) (co_max c), cp_fields = co_fields c,
     cp_entitled = (case en of None \<Rightarrow> False | Some r \<Rightarrow> en_active r),
     cp_disabled = (case en of None \<Rightarrow> False | Some r \<Rightarrow> en_disabled_by_admin r)\<rparr>"

datatype portal_body =
    BMessage string
  | BToken string
  | BTenant portal_tenant
  | BKyb uuid string
  | BSessions "session_response list"
  | BSession session_response
  | BSettlements "settlement_response list"
  | BBalance string string
  | BDeliveries "delivery_response list"
  | BKey string string
  | BKeys "api_key_response list"
  | BWebhook string "string option"
  | BCorridors "portal_corridor list"
  | BActive bool

section \<open>Entry points\<close>

definition str2 :: "(string \<times> json) list \<Rightarrow> string \<Rightarrow> string \<Rightarrow> (string \<times> string) option" where
  "str2 kvs a b = (case (str_field kvs a, str_field kvs b) of (Some x, Some y) \<Rightarrow> Some (x, y) | _ \<Rightarrow> None)"

definition str3 :: "(string \<times> json) list \<Rightarrow> string \<Rightarrow> string \<Rightarrow> string \<Rightarrow> (string \<times> string \<times> string) option" where
  "str3 kvs a b c = (case (str_field kvs a, str_field kvs b, str_field kvs c) of
     (Some x, Some y, Some z) \<Rightarrow> Some (x, y, z) | _ \<Rightarrow> None)"

definition portal_register :: "raw_json \<Rightarrow> portal_body response run" where
  "portal_register body = decode_body body (\<lambda>kvs. str3 kvs ''name'' ''email'' ''portal_url'') (\<lambda>(name, email, url).
     if name = '''' \<or> email = '''' \<or> url = '''' then bad_request ''name, email and portal_url are required''
     else bindE (gets (\<lambda>w. validate_portal_url (env w) url)) (\<lambda>u. case u of
         None \<Rightarrow> ret (Refused 400 ErrInvalidPortalURL)
       | Some _ \<Rightarrow> refusing (register_tenant name email) (\<lambda>e. if e = ErrEmailTaken then 409 else 500) (\<lambda>_.
           thenE (best_effort (request_magic_link email url)) (ret (Wrote 202 (BMessage ''check your email for a login link''))))))"

definition portal_login :: "raw_json \<Rightarrow> portal_body response run" where
  "portal_login body = decode_body body (\<lambda>kvs. str2 kvs ''email'' ''portal_url'') (\<lambda>(email, url).
     if email = '''' \<or> url = '''' then bad_request ''email and portal_url are required''
     else bindE (gets (\<lambda>w. validate_portal_url (env w) url)) (\<lambda>u. case u of
         None \<Rightarrow> ret (Refused 400 ErrInvalidPortalURL)
       | Some _ \<Rightarrow> thenE (best_effort (request_magic_link email url))
           (ret (Wrote 202 (BMessage ''if that email is registered, a login link has been sent'')))))"

definition portal_verify :: "string \<Rightarrow> portal_body response run" where
  "portal_verify token = (if token = '''' then bad_request ''token query parameter is required''
     else refusing (verify_magic_link token) (\<lambda>e. if e = ErrInvalidMagicLink then 401 else 500)
       (\<lambda>(session, _). ret (Wrote 200 (BToken session))))"

section \<open>The account\<close>

definition portal_logout :: "http_request \<Rightarrow> portal_body response run" where
  "portal_logout r = (case cut_prefix (rq_header r ''Authorization'') ''Bearer '' of
       None \<Rightarrow> ret (Refused 401 (OtherErr ''missing bearer token''))
     | Some token \<Rightarrow> if token = '''' then ret (Refused 401 (OtherErr ''missing bearer token''))
         else refusing (logout token) (\<lambda>_. 500) (\<lambda>_. ret (Wrote 200 (BMessage ''logged out''))))"

definition portal_logout_all :: "uuid option \<Rightarrow> portal_body response run" where
  "portal_logout_all tenant = with_tenant tenant (\<lambda>t. refusing (logout_all t) (\<lambda>_. 500)
     (\<lambda>_. ret (Wrote 200 (BMessage ''logged out of all sessions''))))"

definition portal_delete_account :: "uuid option \<Rightarrow> portal_body response run" where
  "portal_delete_account tenant = with_tenant tenant (\<lambda>t. refusing (delete_account t) (\<lambda>_. 500)
     (\<lambda>_. ret (Wrote 200 (BMessage ''account deleted''))))"

definition portal_me :: "uuid option \<Rightarrow> portal_body response run" where
  "portal_me tenant = with_tenant tenant (\<lambda>t. refusing (get_tenant t) (\<lambda>_. 500)
     (\<lambda>row. ret (Wrote 200 (BTenant (to_portal_tenant row)))))"

section \<open>KYB\<close>

definition portal_kyb_provider :: "bool \<Rightarrow> bool \<Rightarrow> string" where
  "portal_kyb_provider sandbox youverify = (if sandbox then ''sandbox'' else if youverify then ''youverify'' else '''')"

text \<open>\<open>kybProvider\<close> of the handlers; the vendor is registered exactly when the configuration enables it.\<close>

definition kyb_provider :: "externals \<Rightarrow> string" where
  "kyb_provider e = portal_kyb_provider (cfg_sandbox e) (x_screen e ''youverify'' \<noteq> None)"

definition portal_submit_kyb :: "uuid option \<Rightarrow> raw_json \<Rightarrow> portal_body response run" where
  "portal_submit_kyb tenant body = with_tenant tenant (\<lambda>t.
     decode_body body (\<lambda>kvs. map_option (\<lambda>cs. (raw_at kvs ''submitted_data'', cs)) (strs_field kvs ''declared_currencies'')) (\<lambda>(data, currencies).
       refusing (check_kyb_submission_allowed t) (\<lambda>e. if e = ErrKYBUnderReview then 409 else if e = ErrKYBTooManyAttempts then 429 else 500) (\<lambda>_.
       bindE (gets (\<lambda>w. kyb_provider (env w))) (\<lambda>name.
       refusing (screen_tenant t data currencies name) (\<lambda>_. 400) (\<lambda>c.
         if cc_type c = ''kyb'' \<and> cc_status c = StatusApproved
         then refusing (approve_kyb (cc_ref_id c)) (\<lambda>_. 500) (\<lambda>_. ret (Wrote 201 (BKyb (cc_id c) (cc_status c))))
         else ret (Wrote 201 (BKyb (cc_id c) (cc_status c))))))))"

definition portal_get_kyb :: "uuid option \<Rightarrow> portal_body response run" where
  "portal_get_kyb tenant = with_tenant tenant (\<lambda>t. refusing (get_latest_case ''tenant'' t ''kyb'')
     (\<lambda>e. if e = ErrCaseNotFound then 404 else 500) (\<lambda>c. ret (Wrote 200 (BKyb (cc_id c) (cc_status c)))))"

section \<open>Reading\<close>

definition portal_list_sessions :: "uuid option \<Rightarrow> portal_body response run" where
  "portal_list_sessions tenant = with_tenant tenant (\<lambda>t. refusing (list_sessions_by_tenant t 0 0) (\<lambda>_. 500) (\<lambda>(rows, _).
     bindE (gets env) (\<lambda>e. ret (Wrote 200 (BSessions (map (to_session_response e) rows))))))"

definition portal_get_session :: "uuid option \<Rightarrow> string \<Rightarrow> portal_body response run" where
  "portal_get_session tenant sid = with_tenant tenant (\<lambda>t. path_id sid (\<lambda>i.
     refusing (get_session i) (\<lambda>e. if e = ErrSessionNotFound then 404 else 500) (\<lambda>s.
       if s_tenant s \<noteq> t then ret (Refused 404 ErrSessionNotFound)
       else bindE (gets env) (\<lambda>e. ret (Wrote 200 (BSession (to_session_response e s)))))))"

definition status_filter :: "string \<Rightarrow> string option" where
  "status_filter raw = (if raw = '''' then None else Some raw)"

definition portal_list_settlements :: "uuid option \<Rightarrow> string \<Rightarrow> portal_body response run" where
  "portal_list_settlements tenant status = with_tenant tenant (\<lambda>t.
     refusing (list_settlements_by_tenant t (status_filter status)) (\<lambda>_. 500) (\<lambda>rows.
       bindE (gets env) (\<lambda>e. ret (Wrote 200 (BSettlements (map (to_settlement_response e) rows))))))"

definition portal_get_balance :: "uuid option \<Rightarrow> string \<Rightarrow> portal_body response run" where
  "portal_get_balance tenant fiat = with_tenant tenant (\<lambda>t.
     if fiat = '''' then bad_request ''fiat_currency query parameter is required''
     else refusing (get_balance_for_tenant t ''tenant_payable'' fiat) (\<lambda>_. 500) (\<lambda>b.
       bindE (gets env) (\<lambda>e. ret (Wrote 200 (BBalance fiat (x_dec_text e b))))))"

definition portal_list_notifications :: "uuid option \<Rightarrow> string \<Rightarrow> portal_body response run" where
  "portal_list_notifications tenant status = with_tenant tenant (\<lambda>t.
     refusing (list_deliveries_by_tenant t (status_filter status)) (\<lambda>_. 500)
       (\<lambda>rows. ret (Wrote 200 (BDeliveries (map to_delivery_response rows)))))"

section \<open>Keys and webhook\<close>

definition portal_issue_api_key :: "uuid option \<Rightarrow> portal_body response run" where
  "portal_issue_api_key tenant = with_tenant tenant (\<lambda>t. refusing (issue_api_key t []) (\<lambda>_. 400)
     (\<lambda>(key, secret). ret (Wrote 201 (BKey key secret))))"

definition portal_list_api_keys :: "uuid option \<Rightarrow> portal_body response run" where
  "portal_list_api_keys tenant = with_tenant tenant (\<lambda>t. refusing (list_api_keys t) (\<lambda>_. 500)
     (\<lambda>ks. ret (Wrote 200 (BKeys (map to_api_key_response ks)))))"

definition portal_revoke_api_key :: "uuid option \<Rightarrow> string \<Rightarrow> portal_body response run" where
  "portal_revoke_api_key tenant kid = with_tenant tenant (\<lambda>t. path_id kid (\<lambda>i.
     refusing (revoke_api_key t i) (\<lambda>e. if e = TenantNotFound then 404 else 500) (\<lambda>_. ret (Empty 200))))"

definition portal_set_webhook_url :: "uuid option \<Rightarrow> raw_json \<Rightarrow> portal_body response run" where
  "portal_set_webhook_url tenant body = with_tenant tenant (\<lambda>t.
     decode_body body (\<lambda>kvs. str_field kvs ''url'') (\<lambda>url.
       refusing (set_webhook_url t url) (\<lambda>_. 400) (\<lambda>secret.
         ret (Wrote 200 (BWebhook url (if secret = '''' then None else Some secret))))))"

section \<open>Corridors\<close>

definition portal_list_corridors :: "uuid option \<Rightarrow> portal_body response run" where
  "portal_list_corridors tenant = with_tenant tenant (\<lambda>t. refusing (list_corridors True 0 0) (\<lambda>_. 500) (\<lambda>(cs, _).
     refusing (list_corridor_entitlements t) (\<lambda>_. 500) (\<lambda>ens. bindE (gets env) (\<lambda>e.
       ret (Wrote 200 (BCorridors (map (\<lambda>c. to_portal_corridor e c (find (\<lambda>en. en_corridor en = co_id c) ens)) cs)))))))"

definition enable_status :: "err \<Rightarrow> int" where
  "enable_status e = (if e = ErrEntitlementDisabledByAdmin then 403
     else if e = ErrJurisdictionNotApproved \<or> e = ErrTenantNotActive then 400 else 500)"

definition portal_set_corridor :: "uuid option \<Rightarrow> string \<Rightarrow> raw_json \<Rightarrow> portal_body response run" where
  "portal_set_corridor tenant cid body = with_tenant tenant (\<lambda>t. path_id cid (\<lambda>i.
     decode_body body (\<lambda>kvs. bool_ptr kvs ''active'') (\<lambda>active. case active of
         None \<Rightarrow> bad_request ''active is required''
       | Some on \<Rightarrow> refusing (get_corridor_by_id i) (\<lambda>e. if e = ErrCorridorNotFound then 404 else 500) (\<lambda>c.
           if \<not> co_active c then ret (Refused 404 ErrCorridorNotFound)
           else if \<not> on then refusing (disable_corridor_self_service t i) (\<lambda>_. 500) (\<lambda>_. ret (Wrote 200 (BActive False)))
           else refusing (enable_corridor_self_service t i) enable_status (\<lambda>_. ret (Wrote 200 (BActive True)))))))"

section \<open>The routes behind the middleware\<close>

datatype portal_route =
    RMe | RLogout | RLogoutAll | RDeleteAccount | RSubmitKyb raw_json | RGetKyb
  | RSessions | RSession string | RSettlements string | RBalance string | RNotifications string
  | RIssueKey | RKeys | RRevokeKey string | RWebhook raw_json | RCorridors | RSetCorridor string raw_json

fun serve_route :: "portal_route \<Rightarrow> http_request \<Rightarrow> uuid option \<Rightarrow> portal_body response run" where
  "serve_route RMe r t = portal_me t"
| "serve_route RLogout r t = portal_logout r"
| "serve_route RLogoutAll r t = portal_logout_all t"
| "serve_route RDeleteAccount r t = portal_delete_account t"
| "serve_route (RSubmitKyb body) r t = portal_submit_kyb t body"
| "serve_route RGetKyb r t = portal_get_kyb t"
| "serve_route RSessions r t = portal_list_sessions t"
| "serve_route (RSession i) r t = portal_get_session t i"
| "serve_route (RSettlements status) r t = portal_list_settlements t status"
| "serve_route (RBalance fiat) r t = portal_get_balance t fiat"
| "serve_route (RNotifications status) r t = portal_list_notifications t status"
| "serve_route RIssueKey r t = portal_issue_api_key t"
| "serve_route RKeys r t = portal_list_api_keys t"
| "serve_route (RRevokeKey k) r t = portal_revoke_api_key t k"
| "serve_route (RWebhook body) r t = portal_set_webhook_url t body"
| "serve_route RCorridors r t = portal_list_corridors t"
| "serve_route (RSetCorridor c body) r t = portal_set_corridor t c body"

definition portal_serve :: "http_request \<Rightarrow> portal_route \<Rightarrow> portal_body response run" where
  "portal_serve r route = bindE (portal_middleware r) (\<lambda>v. case v of
     Inl msg \<Rightarrow> ret (Refused 401 (OtherErr msg)) | Inr t \<Rightarrow> serve_route route r (Some t))"

section \<open>The login tells nothing\<close>

text \<open>What a request for a login link may leave behind: nothing, or one fresh link for the account behind the address.\<close>

definition link_added :: "string \<Rightarrow> world \<Rightarrow> world \<Rightarrow> bool" where
  "link_added email w w' \<longleftrightarrow> magic_links w' = magic_links w \<or> (\<exists>t h. find (\<lambda>t. tn_email t = Some email) (tenants w) = Some t \<and>
     \<not> locked_out (tn_status t) \<and> magic_links w' = magic_links w @
       [\<lparr>ml_hash = h, ml_tenant = tn_id t, ml_expires = now w + PortalMagicLinkTTL, ml_consumed = None\<rparr>])"

lemma wp_request_link:
  "wp (request_magic_link email url) (\<lambda>_ w'. link_added email w w' \<and> tenants w' = tenants w \<and> portal_sessions w' = portal_sessions w \<and>
     api_keys w' = api_keys w) w"
  unfolding request_magic_link_def new_portal_token_def random_hex_def random_bytes_def insert_link_def send_email_def
  by (intro wp_rules) (auto simp: link_added_def)

text \<open>
  C40. The login of the portal does not tell whether an address is registered: its answer is the same whatever the
  tables hold and whatever fails inside. All it can leave behind is one fresh link for the account with that address; no
  account, session or key changes.
\<close>

theorem login_tells_nothing:
  assumes "env w = env v" and "portal_login body w = (r, w')"
  shows "fst (portal_login body v) = r \<and> tenants w' = tenants w \<and> portal_sessions w' = portal_sessions w \<and> api_keys w' = api_keys w \<and>
    (\<exists>email. link_added email w w')"
proof -
  have same: "fst (portal_login body v) = fst (portal_login body w)"
    by (simp add: portal_login_def decode_body_def bindE_def thenE_def gets_def ret_def best_effort_apply assms(1) split: option.split prod.split)
  have "wp (portal_login body) (\<lambda>_ w'. tenants w' = tenants w \<and> portal_sessions w' = portal_sessions w \<and> api_keys w' = api_keys w \<and>
      (\<exists>email. link_added email w w')) w"
    unfolding portal_login_def decode_body_def best_effort_def
    by (intro wp_rules wp_attemptE; (rule wp_conseq [OF wp_request_link])?) (auto intro!: wp_rules simp: link_added_def)
  from wpD [OF this assms(2)] same assms(2) show ?thesis by simp
qed

definition login_body :: raw_json where
  "login_body = RawJson (JObj [(''email'', JStr ''ops@bank''), (''portal_url'', JStr ''https://portal'')])"

definition portal_env :: externals where
  "portal_env = sample_env\<lparr>x_url := (\<lambda>s. Some \<lparr>ur_scheme = ''https'', ur_host = ''portal'', ur_hostname = ''portal'', ur_path = [], ur_opaque = False,
     ur_user = False, ur_query = False, ur_fragment = False\<rparr>)\<rparr>"

lemma login_unknown_address:
  "portal_login login_body (empty_world\<lparr>env := portal_env\<rparr>) =
    (Inr (Wrote 202 (BMessage ''if that email is registered, a login link has been sent'')), empty_world\<lparr>env := portal_env\<rparr>)"
proof -
  let ?w = "empty_world\<lparr>env := portal_env\<rparr>"
  obtain u where u: "validate_portal_url portal_env ''https://portal'' = Some u"
    by (simp add: validate_portal_url_def portal_env_def sample_env_def url_origin_def allowed_origins_def trim_slashes_def to_lower_def
      lower_char_def byte_def)
  have "request_magic_link ''ops@bank'' ''https://portal'' ?w = (Inl TenantNotFound, ?w)"
    by (simp add: request_magic_link_def op_simps u) (simp add: empty_world_def op_simps)
  then show ?thesis
    by (simp add: portal_login_def login_body_def decode_body_def str2_def str_field_def str_lax_def vals_at_def to_lower_def lower_char_def
      byte_def u op_simps best_effort_apply)
qed

theorem login_tells_nothing_witness:
  "fst (portal_login login_body (tenant_world\<lparr>env := portal_env\<rparr>)) =
    Inr (Wrote 202 (BMessage ''if that email is registered, a login link has been sent''))"
  using login_tells_nothing [OF _ login_unknown_address, of "tenant_world\<lparr>env := portal_env\<rparr>"] by simp

section \<open>A tenant reads its own rows\<close>

text \<open>What a tenant may learn from: its own rows, and what all tenants share.\<close>

record own_rows =
  ow_faults :: "bool list"
  ow_now :: time
  ow_env :: externals
  ow_corridors :: "corridor list"
  ow_tenants :: "tenant list"
  ow_keys :: "api_key list"
  ow_sessions :: "session list"
  ow_settlements :: "settlement list"
  ow_deliveries :: "delivery list"
  ow_entitlements :: "entitlement list"
  ow_cases :: "compliance_case list"
  ow_balances :: "(string \<times> string \<times> rat option) list"

definition own_rows_of :: "uuid \<Rightarrow> world \<Rightarrow> own_rows" where
  "own_rows_of t w = \<lparr>ow_faults = faults w, ow_now = now w, ow_env = env w, ow_corridors = corridors w,
     ow_tenants = filter (\<lambda>r. tn_id r = t) (tenants w), ow_keys = filter (\<lambda>r. ak_tenant r = t) (api_keys w),
     ow_sessions = filter (\<lambda>r. s_tenant r = t) (sessions w), ow_settlements = filter (\<lambda>r. st_tenant r = t) (settlements w),
     ow_deliveries = filter (\<lambda>r. nd_tenant r = Some t) (deliveries w),
     ow_entitlements = filter (\<lambda>r. en_tenant r = t) (entitlements w),
     ow_cases = filter (\<lambda>r. cc_ref_type r = ''tenant'' \<and> cc_ref_id r = t) (cases w),
     ow_balances = map (\<lambda>r. (acc_type r, acc_asset r, map_of (balances w) (acc_id r))) (filter (\<lambda>r. acc_tenant r = Some t) (accounts w))\<rparr>"

fun reading :: "portal_route \<Rightarrow> bool" where
  "reading RMe = True"
| "reading RGetKyb = True"
| "reading RSessions = True"
| "reading (RSession i) = True"
| "reading (RSettlements s) = True"
| "reading (RBalance c) = True"
| "reading (RNotifications s) = True"
| "reading RKeys = True"
| "reading RCorridors = True"
| "reading _ = False"

lemma find_filtered: "(\<And>x. P x \<Longrightarrow> Q x) \<Longrightarrow> find P xs = find P (filter Q xs)"
  by (induction xs) auto

lemma filter_filtered: "(\<And>x. P x \<Longrightarrow> Q x) \<Longrightarrow> filter P xs = filter P (filter Q xs)"
  by (induction xs) auto

lemma own_rows_faults: "own_rows_of t w = own_rows_of t v \<Longrightarrow> own_rows_of t (w\<lparr>faults := bs\<rparr>) = own_rows_of t (v\<lparr>faults := bs\<rparr>)"
  by (simp add: own_rows_of_def)

lemma own_fields:
  assumes "own_rows_of t w = own_rows_of t v"
  shows "faults w = faults v" "env w = env v" "corridors w = corridors v"
    "filter (\<lambda>r. tn_id r = t) (tenants w) = filter (\<lambda>r. tn_id r = t) (tenants v)"
    "filter (\<lambda>r. ak_tenant r = t) (api_keys w) = filter (\<lambda>r. ak_tenant r = t) (api_keys v)"
    "filter (\<lambda>r. s_tenant r = t) (sessions w) = filter (\<lambda>r. s_tenant r = t) (sessions v)"
    "filter (\<lambda>r. st_tenant r = t) (settlements w) = filter (\<lambda>r. st_tenant r = t) (settlements v)"
    "filter (\<lambda>r. nd_tenant r = Some t) (deliveries w) = filter (\<lambda>r. nd_tenant r = Some t) (deliveries v)"
    "filter (\<lambda>r. en_tenant r = t) (entitlements w) = filter (\<lambda>r. en_tenant r = t) (entitlements v)"
    "filter (\<lambda>r. cc_ref_type r = ''tenant'' \<and> cc_ref_id r = t) (cases w) = filter (\<lambda>r. cc_ref_type r = ''tenant'' \<and> cc_ref_id r = t) (cases v)"
    "ow_balances (own_rows_of t w) = ow_balances (own_rows_of t v)"
  using assms by (simp_all add: own_rows_of_def)

lemma sees_own_query:
  assumes "\<And>w v. own_rows_of t w = own_rows_of t v \<Longrightarrow> f w = f v"
  shows "sees (own_rows_of t) (query f)"
  by (rule sees_query, rule conjI, erule own_fields, erule assms, erule own_rows_faults)

lemma sees_own_gets:
  "sees (own_rows_of t) (gets env)" "sees (own_rows_of t) (gets (\<lambda>w. x_uuid_parse (env w) s))"
  by (rule sees_gets, drule own_fields(2), simp only:)+

lemma own_tenant: "own_rows_of t w = own_rows_of t v \<Longrightarrow> find_tenant t w = find_tenant t v"
proof (drule own_fields(4))
  assume "filter (\<lambda>r. tn_id r = t) (tenants w) = filter (\<lambda>r. tn_id r = t) (tenants v)"
  moreover have "find_tenant t u = find (\<lambda>r. tn_id r = t) (filter (\<lambda>r. tn_id r = t) (tenants u))" for u
    unfolding find_tenant_def by (rule find_filtered)
  ultimately show ?thesis by simp
qed

lemma filter_refined:
  "filter Q xs = filter Q ys \<Longrightarrow> (\<And>x. P x \<Longrightarrow> Q x) \<Longrightarrow> filter P xs = filter P ys"
  by (metis filter_filtered)

lemma own_settlements:
  "own_rows_of t w = own_rows_of t v \<Longrightarrow>
   filter (\<lambda>s. st_tenant s = t \<and> c s) (settlements w) = filter (\<lambda>s. st_tenant s = t \<and> c s) (settlements v)"
  by (erule filter_refined [OF own_fields(7)]) simp

lemma own_deliveries:
  "own_rows_of t w = own_rows_of t v \<Longrightarrow>
   filter (\<lambda>d. nd_tenant d = Some t \<and> c d) (deliveries w) = filter (\<lambda>d. nd_tenant d = Some t \<and> c d) (deliveries v)"
  by (erule filter_refined [OF own_fields(8)]) simp

lemma own_cases:
  "own_rows_of t w = own_rows_of t v \<Longrightarrow>
   filter (\<lambda>c. cc_ref_type c = ''tenant'' \<and> cc_ref_id c = t \<and> cc_type c = ty) (cases w) =
   filter (\<lambda>c. cc_ref_type c = ''tenant'' \<and> cc_ref_id c = t \<and> cc_type c = ty) (cases v)"
  by (erule filter_refined [OF own_fields(10)]) simp

text \<open>The balance of an account of the tenant, read off its own rows.\<close>

definition balance_in :: "string \<Rightarrow> string \<Rightarrow> (string \<times> string \<times> rat option) list \<Rightarrow> rat" where
  "balance_in ty c bs = (case find (\<lambda>(ty', c', b). ty' = ty \<and> c' = c) bs of Some (_, _, Some b) \<Rightarrow> b | _ \<Rightarrow> 0)"

lemma balance_of_own_rows:
  "(case find (\<lambda>r. acc_tenant r = Some t \<and> acc_type r = ty \<and> acc_asset r = c) (accounts w) of
       None \<Rightarrow> 0 | Some r \<Rightarrow> (case map_of (balances w) (acc_id r) of None \<Rightarrow> 0 | Some b \<Rightarrow> b)) =
   balance_in ty c (ow_balances (own_rows_of t w))"
proof -
  have "(case find (\<lambda>r. acc_tenant r = Some t \<and> acc_type r = ty \<and> acc_asset r = c) rs of
       None \<Rightarrow> 0 | Some r \<Rightarrow> (case map_of (balances w) (acc_id r) of None \<Rightarrow> 0 | Some b \<Rightarrow> b)) =
     balance_in ty c (map (\<lambda>r. (acc_type r, acc_asset r, map_of (balances w) (acc_id r))) (filter (\<lambda>r. acc_tenant r = Some t) rs))" for rs
    by (induction rs) (auto simp: balance_in_def split: option.split)
  then show ?thesis by (simp add: own_rows_of_def)
qed

text \<open>Every reading route but the one of a single session.\<close>

lemma sees_own_reads:
  "sees (own_rows_of t) (get_tenant t)" "sees (own_rows_of t) (get_latest_case ''tenant'' t ty)"
  "sees (own_rows_of t) (list_sessions_by_tenant t n k)" "sees (own_rows_of t) (list_settlements_by_tenant t status)"
  "sees (own_rows_of t) (get_balance_for_tenant t aty c)" "sees (own_rows_of t) (list_deliveries_by_tenant t status)"
  "sees (own_rows_of t) (list_api_keys t)" "sees (own_rows_of t) (list_corridors only n k)"
  "sees (own_rows_of t) (list_corridor_entitlements t)"
proof -
  show "sees (own_rows_of t) (get_tenant t)"
    unfolding get_tenant_def by (intro sees_rules sees_own_query) (rule own_tenant)
  show "sees (own_rows_of t) (get_latest_case ''tenant'' t ty)"
    unfolding get_latest_case_def by (intro sees_rules sees_own_query) (drule own_cases [where ty = ty], simp only:)
  show "sees (own_rows_of t) (list_sessions_by_tenant t n k)"
    unfolding list_sessions_by_tenant_def count_where_def by (intro sees_rules sees_own_query; drule own_fields(6), simp only:)
  show "sees (own_rows_of t) (list_settlements_by_tenant t status)"
    unfolding list_settlements_by_tenant_def by (rule sees_own_query, drule own_settlements [where c = "\<lambda>s. status = None \<or> status = Some (st_status s)"], simp only:)
  show "sees (own_rows_of t) (get_balance_for_tenant t aty c)"
    unfolding get_balance_for_tenant_def balance_of_own_rows by (rule sees_own_query) (rule arg_cong [where f = "balance_in aty c"], rule own_fields)
  show "sees (own_rows_of t) (list_deliveries_by_tenant t status)"
    unfolding list_deliveries_by_tenant_def by (rule sees_own_query, drule own_deliveries [where c = "\<lambda>d. status = None \<or> status = Some (nd_status d)"], simp only:)
  show "sees (own_rows_of t) (list_api_keys t)"
    unfolding list_api_keys_def by (rule sees_own_query, drule own_fields(5), simp only:)
  show "sees (own_rows_of t) (list_corridors only n k)"
    unfolding list_corridors_def count_where_def by (intro sees_rules sees_own_query; drule own_fields(3), simp only:)
  show "sees (own_rows_of t) (list_corridor_entitlements t)"
    unfolding list_corridor_entitlements_def by (rule sees_own_query, rule own_fields)
qed

lemma sees_reading:
  assumes "reading route" and "\<And>i. route \<noteq> RSession i"
  shows "sees (own_rows_of t) (serve_route route r (Some t))"
proof -
  note handlers = portal_me_def portal_get_kyb_def portal_list_sessions_def portal_list_settlements_def portal_get_balance_def
    portal_list_notifications_def portal_list_api_keys_def portal_list_corridors_def
  show ?thesis
    using assms by (cases route) (simp_all only: serve_route.simps reading.simps handlers with_tenant_Some, auto intro!: sees_rules sees_own_reads sees_own_gets)
qed

text \<open>A single session is looked up by its id alone, and then compared with the tenant.\<close>

lemma own_session:
  "distinct (map s_id ss) \<Longrightarrow> (case find (\<lambda>s. s_id s = i) ss of None \<Rightarrow> None | Some s \<Rightarrow> if s_tenant s = t then Some s else None) =
   find (\<lambda>s. s_id s = i) (filter (\<lambda>s. s_tenant s = t) ss)"
proof (induction ss)
  case (Cons s ss)
  have "find (\<lambda>s. s_id s = i) (filter (\<lambda>s. s_tenant s = t) ss) = None" if "s_id s = i"
    using that Cons.prems by (simp add: find_None_iff) (metis image_eqI)
  with Cons show ?case by auto
qed simp

definition session_reply :: "externals \<Rightarrow> session option \<Rightarrow> err + portal_body response" where
  "session_reply e r = Inr (case r of None \<Rightarrow> Refused 404 ErrSessionNotFound | Some s \<Rightarrow> Wrote 200 (BSession (to_session_response e s)))"

lemma fst_get_session:
  assumes "distinct (map s_id (sessions w))"
  shows "fst (portal_get_session (Some t) sid w) = (case x_uuid_parse (env w) sid of None \<Rightarrow> Inr (Refused 400 (OtherErr ''uuid''))
     | Some i \<Rightarrow> if faults w \<noteq> [] \<and> hd (faults w) then Inr (Refused 500 DbErr)
         else session_reply (env w) (find (\<lambda>s. s_id s = i) (filter (\<lambda>s. s_tenant s = t) (sessions w))))"
  unfolding own_session [OF assms, symmetric]
  by (cases "faults w")
    (auto simp: portal_get_session_def with_tenant_Some path_id_def refusing_def get_session_def query_def stmt_def tick_fault_def attemptE_def
      session_reply_def op_defs split: option.split)

text \<open>
  C19. What a tenant reads through the portal depends on its own rows and on what all tenants share (the corridors, the time, the
  configuration) only: two states that differ in the rows of other tenants, in whatever way, give the same answer on every
  reading route. In particular a session of another tenant is answered like one that does not exist.
\<close>

theorem portal_reads_own_rows:
  assumes "reading route" and "own_rows_of t w = own_rows_of t v"
    and "distinct (map s_id (sessions w))" and "distinct (map s_id (sessions v))"
  shows "fst (serve_route route r (Some t) w) = fst (serve_route route r (Some t) v)"
proof (cases "\<exists>i. route = RSession i")
  case True
  then obtain i where "route = RSession i" by blast
  then show ?thesis
    by (simp only: serve_route.simps fst_get_session [OF assms(3)] fst_get_session [OF assms(4)] own_fields(1, 2, 6) [OF assms(2)])
next
  case False
  then show ?thesis using seesD [OF sees_reading [OF assms(1)] assms(2)] by blast
qed

definition foreign_session :: session where
  "foreign_session = \<lparr>s_id = ''S'', s_tenant = ''other'', s_corridor = ''C'', s_status = ''pending'', s_fiat = ''NGN'',
     s_fiat_amount = 700, s_asset = ''USDT'', s_network = ''TRC20'', s_case = None, s_lock = None,
     s_reservation = None, s_sla = None, s_destination = JNull, s_instructions = None, s_created = 0, s_updated = 0\<rparr>"

definition bearer :: "string \<Rightarrow> http_request" where
  "bearer token = \<lparr>rq_method = ''POST'', rq_path = ''/v2/portal'', rq_header = (\<lambda>h. if h = ''Authorization'' then ''Bearer '' @ token else ''''),
     rq_body = None, rq_remote = ''1.2.3.4:5''\<rparr>"

theorem portal_reads_own_rows_witness:
  "fst (serve_route (RSession ''S'') (bearer ''tok'') (Some ''t'') (empty_world\<lparr>sessions := [foreign_session]\<rparr>)) =
   fst (serve_route (RSession ''S'') (bearer ''tok'') (Some ''t'') empty_world)"
  by (rule portal_reads_own_rows) (simp_all add: own_rows_of_def foreign_session_def, simp_all add: empty_world_def)

section \<open>KYB through the portal\<close>

lemma frame_screen_tenant: "frame tenants (screen_tenant t data currencies name)"
  unfolding screen_tenant_def validate_declared_currencies_def get_required_fields_def screen_with_def create_case_def insert_case_def
    publish_if_hold_def Let_def
  by (intro frame_rules) (auto intro!: frame_rules simp: db_view_def split: raw_json.split)

definition kyb_outcome :: "uuid \<Rightarrow> world \<Rightarrow> world \<Rightarrow> bool" where
  "kyb_outcome t w w' \<longleftrightarrow> tenants w' = tenants w \<or>
     (\<exists>c d js. kyb_provider (env w) \<noteq> '''' \<and> c \<in> set (cases w') \<and> kyb_case_of t c \<and> cc_status c = StatusApproved \<and>
        cc_provider c = Some (kyb_provider (env w)) \<and>
        vendor_said (env w) (kyb_provider (env w)) (case_for ''kyb'' ''tenant'' t js) d \<and> de_approved d \<and> \<not> de_hold d \<and>
        tenants w' = update_where (\<lambda>r. tn_id r = t \<and> tn_status r = StatusPendingKYB) (\<lambda>r. r\<lparr>tn_status := StatusActive\<rparr>) (tenants w))"

lemma wp_portal_submit_kyb: "wp (portal_submit_kyb (Some t) body) (\<lambda>_ w'. kyb_outcome t w w') w"
proof -
  have none: "wp m (\<lambda>_ w'. kyb_outcome t w w') w" if "\<And>w'. tenants (snd (m w)) = tenants w" for m :: "portal_body response run"
    using that by (simp add: wp_def kyb_outcome_def)
  have approve: "wp (approve_kyb t) (\<lambda>r w'. cases w' = cases v \<and> (tenants w' = tenants v \<or>
      tenants w' = update_where (\<lambda>r. tn_id r = t \<and> tn_status r = StatusPendingKYB) (\<lambda>r. r\<lparr>tn_status := StatusActive\<rparr>) (tenants v))) v" for v
    unfolding approve_kyb_def update_tenant_def by (intro wp_rules) simp_all
  have screen: "wp (screen_tenant t data currencies name) (\<lambda>r w'. tenants w' = tenants v \<and>
      (case r of Inl e \<Rightarrow> True | Inr c \<Rightarrow> \<exists>data. tenant_screened t data currencies name v c w')) v" for data currencies name v
    by (rule wp_conj, simp add: wp_def frameD [OF frame_screen_tenant], rule wp_conseq [OF wp_screen_tenant [OF refl]])
      (auto split: sum.splits)
  have decided: "wp (refusing (screen_tenant t data currencies (kyb_provider (env w))) (\<lambda>_. 400) (\<lambda>c.
         if cc_type c = ''kyb'' \<and> cc_status c = StatusApproved
         then refusing (approve_kyb (cc_ref_id c)) (\<lambda>_. 500) (\<lambda>_. ret (Wrote 201 (BKyb (cc_id c) (cc_status c))))
         else ret (Wrote 201 (BKyb (cc_id c) (cc_status c))))) (\<lambda>_ w'. kyb_outcome t w w') v"
    if v: "tenants v = tenants w" "env v = env w" for data currencies v
  proof (rule wp_refusing_call [OF screen], goal_cases)
    case (1 e u)
    then show ?case using v by (simp add: kyb_outcome_def)
  next
    case (2 c u)
    then obtain data where u: "tenants u = tenants w" "tenant_screened t data currencies (kyb_provider (env w)) v c u" using v by auto
    then have ref: "cc_ref_id c = t" by (simp add: tenant_screened_def kyb_case_of_def)
    have out: "kyb_outcome t w w'"
      if "cases w' = cases u" "cc_status c = StatusApproved" "tenants w' = tenants u \<or>
        tenants w' = update_where (\<lambda>r. tn_id r = t \<and> tn_status r = StatusPendingKYB) (\<lambda>r. r\<lparr>tn_status := StatusActive\<rparr>) (tenants u)" for w'
      using that u v by (auto simp: kyb_outcome_def tenant_screened_def case_status_defs split: if_splits)
    show ?case
      unfolding ref
      by (intro wp_rules wp_refusing_call [OF approve]) (use out u in \<open>auto simp: kyb_outcome_def\<close>)
  qed
  have start: "wp (check_kyb_submission_allowed t) (\<lambda>_ v. tenants v = tenants w \<and> env v = env w) w"
    unfolding check_kyb_submission_allowed_def by (intro wp_rules) simp_all
  show ?thesis
    unfolding portal_submit_kyb_def with_tenant_Some decode_body_def
  proof (rule wp_case_option, goal_cases)
    case (2 p)
    show ?case
    proof (rule wp_case_prod, rule wp_refusing_call [OF start], goal_cases)
      case (2 data currencies u v)
      then show ?case by (intro wp_bindE wp_gets wp_bind_Inr) (simp add: decided)
    qed (simp add: kyb_outcome_def)
  qed (simp add: wp_ret kyb_outcome_def)
qed

text \<open>
  C39. No tenant approves itself: a submission of KYB documents through the portal changes the tenants table in one way only,
  it activates the submitting tenant if it was pending, and then the provider that the configuration chose (never one named
  in the request, never none) approved the submission outright and the approved case is stored under that provider's name.
\<close>

theorem portal_kyb_needs_provider:
  assumes "portal_submit_kyb (Some t) body w = (r, w')" and "tenants w' \<noteq> tenants w"
  shows "\<exists>c d js. kyb_provider (env w) \<noteq> '''' \<and> c \<in> set (cases w') \<and> kyb_case_of t c \<and> cc_status c = StatusApproved \<and>
    cc_provider c = Some (kyb_provider (env w)) \<and>
    vendor_said (env w) (kyb_provider (env w)) (case_for ''kyb'' ''tenant'' t js) d \<and> de_approved d \<and> \<not> de_hold d \<and>
    tenants w' = update_where (\<lambda>r. tn_id r = t \<and> tn_status r = StatusPendingKYB) (\<lambda>r. r\<lparr>tn_status := StatusActive\<rparr>) (tenants w)"
  using wpD [OF wp_portal_submit_kyb assms(1)] assms(2) by (simp add: kyb_outcome_def)

definition kyb_world :: world where
  "kyb_world = empty_world\<lparr>env := sample_env\<lparr>cfg_sandbox := True\<rparr>, tenants := [tenant_row ''bank'' (Some ''ops@bank'') ''t'' 0]\<rparr>"

definition kyb_body :: raw_json where
  "kyb_body = RawJson (JObj [(''submitted_data'', JObj []), (''declared_currencies'', JArr [JStr ''NGN''])])"

lemma kyb_world_activates: "map tn_status (tenants (snd (portal_submit_kyb (Some ''t'') kyb_body kyb_world))) = [StatusActive]"
  by code_simp

theorem portal_kyb_needs_provider_witness:
  "(StatusApproved, Some ''sandbox'') \<in> (\<lambda>c. (cc_status c, cc_provider c)) ` set (cases (snd (portal_submit_kyb (Some ''t'') kyb_body kyb_world)))"
proof -
  let ?run = "portal_submit_kyb (Some ''t'') kyb_body kyb_world"
  have "tenants (snd ?run) \<noteq> tenants kyb_world"
    using kyb_world_activates by (auto simp: kyb_world_def empty_world_def tenant_row_def tenant_statuses)
  moreover have "kyb_provider (env kyb_world) = ''sandbox''"
    by (simp add: kyb_world_def kyb_provider_def portal_kyb_provider_def)
  ultimately show ?thesis
    using portal_kyb_needs_provider [of "''t''" kyb_body kyb_world "fst ?run" "snd ?run"] by force
qed

section \<open>Switching a corridor on\<close>

lemma wp_enable_self_service:
  "wp (enable_corridor_self_service t cid) (\<lambda>r w'. entitlements w' \<noteq> entitlements w \<longrightarrow>
     (\<exists>row c k. find_tenant t w = Some row \<and> tn_status row = StatusActive \<and> find (\<lambda>c. co_id c = cid) (corridors w) = Some c \<and>
        k \<in> set (cases w) \<and> kyb_case_of t k \<and> cc_status k = StatusApproved \<and> co_fiat c \<in> set (cc_currencies k))) w"
  unfolding enable_corridor_self_service_def check_corridor_jurisdiction_def get_tenant_def fiat_currency_for_corridor_def
    get_corridor_by_id_def is_jurisdiction_approved_def upsert_entitlement_def
  by (intro wp_rules) (auto simp: kyb_case_of_def list_ex_iff find_tenant_def)

section \<open>A tenant changes its own rows\<close>

text \<open>The rows of one tenant, and the tables the portal never writes.\<close>

definition rows_of :: "uuid \<Rightarrow> world \<Rightarrow> own_rows \<times> portal_session list \<times> magic_link list" where
  "rows_of t w = ((own_rows_of t w)\<lparr>ow_faults := []\<rparr>, filter (\<lambda>s. po_tenant s = t) (portal_sessions w), filter (\<lambda>l. ml_tenant l = t) (magic_links w))"

lemma rows_of_view [simp]: "db_view (rows_of t)"
  by (rule db_viewI) (simp_all add: rows_of_def own_rows_of_def)

lemma filter_update_other: "(\<And>x. c x \<Longrightarrow> \<not> Q x \<and> \<not> Q (f x)) \<Longrightarrow> filter Q (update_where c f xs) = filter Q xs"
  by (induction xs) (auto simp: update_where_def)

lemma rows_of_log [simp]: "rows_of t (w\<lparr>ext_log := l\<rparr>) = rows_of t w" "rows_of t (w\<lparr>outbox := es\<rparr>) = rows_of t w"
  "rows_of t (w\<lparr>uuid_next := n\<rparr>) = rows_of t w" "rows_of t (w\<lparr>faults := bs\<rparr>) = rows_of t w"
  by (simp_all add: rows_of_def own_rows_of_def)

lemma frame_wp: "(\<And>w. wp m (\<lambda>_ w'. f w' = f w) w) \<Longrightarrow> frame f m"
  by (simp add: frame_def wp_def)

lemma frame_refusing: "frame f m \<Longrightarrow> (\<And>x. frame f (k x)) \<Longrightarrow> frame f (refusing m status k)"
  unfolding refusing_def by (intro frame_rules)

lemma frame_path_id: "(\<And>i. frame f (k i)) \<Longrightarrow> frame f (path_id s k)"
  unfolding path_id_def by (intro frame_rules)

lemma frame_decode_body: "(\<And>x. frame f (k x)) \<Longrightarrow> frame f (decode_body body g k)"
  unfolding decode_body_def by (intro frame_rules)

lemma rows_of_others:
  assumes "t' \<noteq> t"
  shows "frame (rows_of t') (logout_all t)" "frame (rows_of t') (delete_account t)" "frame (rows_of t') (approve_kyb t)"
    "frame (rows_of t') (issue_api_key t perms)" "frame (rows_of t') (revoke_api_key t k)" "frame (rows_of t') (set_webhook_url t url)"
    "frame (rows_of t') (enable_corridor_self_service t cid)" "frame (rows_of t') (disable_corridor_self_service t cid)"
    "frame (rows_of t') (check_kyb_submission_allowed t)" "frame (rows_of t') (screen_tenant t data currencies name)"
proof -
  have rows: "rows_of t' (w\<lparr>tenants := update_where (\<lambda>r. tn_id r = t \<and> c r) f (tenants w)\<rparr>) = rows_of t' w"
    "rows_of t' (w\<lparr>tenants := update_where (\<lambda>r. tn_id r = t) f (tenants w)\<rparr>) = rows_of t' w"
    if "\<And>r. tn_id (f r) = tn_id r" for w c f
    using assms that by (auto simp: rows_of_def own_rows_of_def intro!: filter_update_other)
  have keys: "rows_of t' (revoke_keys (\<lambda>k. ak_tenant k = t) w) = rows_of t' w" "rows_of t' (revoke_keys (\<lambda>k. ak_id k = i \<and> ak_tenant k = t) w) = rows_of t' w"
    "rows_of t' (w\<lparr>api_keys := api_keys w @ [key_row_for t a b c d e]\<rparr>) = rows_of t' w" for w a b c d e i
    using assms by (auto simp: rows_of_def own_rows_of_def revoke_keys_def key_row_for_def intro!: filter_update_other)
  have gone: "filter (\<lambda>s. po_tenant s \<noteq> t \<and> po_tenant s = t') xs = filter (\<lambda>s. po_tenant s = t') xs" for xs
    by (rule filter_cong) (use assms in auto)
  have sess: "rows_of t' (w\<lparr>portal_sessions := filter (\<lambda>s. po_tenant s \<noteq> t) (portal_sessions w)\<rparr>) = rows_of t' w" for w
    by (simp add: rows_of_def own_rows_of_def gone)
  have ents: "rows_of t' (w\<lparr>entitlements := update_where (\<lambda>en. entitled t cid en \<and> c en) f (entitlements w)\<rparr>) = rows_of t' w"
    "rows_of t' (w\<lparr>entitlements := update_where (entitled t cid) f (entitlements w)\<rparr>) = rows_of t' w"
    if "\<And>en. en_tenant (f en) = en_tenant en" for w c f
    using assms that by (auto simp: rows_of_def own_rows_of_def entitled_def intro!: filter_update_other)
  have ent: "rows_of t' (w\<lparr>entitlements := entitlements w @ [en]\<rparr>) = rows_of t' w" if "en_tenant en = t" for w en
    using assms that by (auto simp: rows_of_def own_rows_of_def)
  note defs = logout_all_def delete_sessions_def delete_account_def update_tenant_def approve_kyb_def issue_api_key_def get_tenant_def random_hex_def
    random_bytes_def encrypt_secret_def insert_key_def revoke_api_key_def set_webhook_url_def validate_webhook_url_def resolve_host_def
    signing_secret_for_def enable_corridor_self_service_def check_corridor_jurisdiction_def fiat_currency_for_corridor_def
    get_corridor_by_id_def is_jurisdiction_approved_def upsert_entitlement_def disable_corridor_self_service_def
    check_kyb_submission_allowed_def screen_tenant_def validate_declared_currencies_def get_required_fields_def screen_with_def
    create_case_def publish_if_hold_def publish_if_bus_def publish_def Let_def
  have ins: "frame (rows_of t') (insert_case ty rty t status pname reason d hold resolved cur)" for ty rty status pname reason d hold resolved cur
    unfolding insert_case_def by (rule frame_wp, cases d; simp; intro wp_rules) (use assms in \<open>auto simp: rows_of_def own_rows_of_def case_for_def\<close>)
  show "frame (rows_of t') (logout_all t)" "frame (rows_of t') (delete_account t)" "frame (rows_of t') (approve_kyb t)"
    "frame (rows_of t') (issue_api_key t perms)" "frame (rows_of t') (revoke_api_key t k)" "frame (rows_of t') (set_webhook_url t url)"
    "frame (rows_of t') (enable_corridor_self_service t cid)" "frame (rows_of t') (disable_corridor_self_service t cid)"
    "frame (rows_of t') (check_kyb_submission_allowed t)" "frame (rows_of t') (screen_tenant t data currencies name)"
    unfolding defs by (intro frame_rules ins; simp add: rows keys sess ents ent)+
qed

lemma rows_of_submit:
  assumes "t' \<noteq> t"
  shows "frame (rows_of t') (portal_submit_kyb (Some t) body)"
proof -
  have tail: "frame (rows_of t') (refusing (screen_tenant t data currencies name) (\<lambda>_. 400) (\<lambda>c.
         if cc_type c = ''kyb'' \<and> cc_status c = StatusApproved
         then refusing (approve_kyb (cc_ref_id c)) (\<lambda>_. 500) (\<lambda>_. ret (Wrote 201 (BKyb (cc_id c) (cc_status c))))
         else ret (Wrote 201 (BKyb (cc_id c) (cc_status c)))))" (is "frame _ ?m") for data currencies name
  proof (rule frame_wp)
    fix w
    have "wp (screen_tenant t data currencies name) (\<lambda>r w'. rows_of t' w' = rows_of t' w \<and> (case r of Inl e \<Rightarrow> True | Inr c \<Rightarrow> cc_ref_id c = t)) w"
      by (rule wp_conj, simp add: wp_def frameD [OF rows_of_others(10) [OF assms]], rule wp_conseq [OF wp_screen_tenant [OF refl]])
        (auto simp: tenant_screened_def kyb_case_of_def split: sum.splits)
    then show "wp ?m (\<lambda>_ w'. rows_of t' w' = rows_of t' w) w"
    proof (rule wp_refusing_call, goal_cases)
      case (2 c u)
      then have "wp (approve_kyb t) (\<lambda>_ w'. rows_of t' w' = rows_of t' w) u"
        by (simp add: wp_def frameD [OF rows_of_others(3) [OF assms]])
      with 2 show ?case by (auto simp: wp_ret intro!: wp_if wp_refusing_call wp_ret)
    qed simp
  qed
  show ?thesis
    unfolding portal_submit_kyb_def with_tenant_Some
    by (rule frame_decode_body, rule frame_case_prod, rule frame_refusing [OF rows_of_others(9) [OF assms]], rule frame_bindE [OF frame_gets], rule tail)
qed

lemma rows_of_route:
  assumes "t' \<noteq> t" and "route \<noteq> RLogout"
  shows "frame (rows_of t') (serve_route route r (Some t))"
proof -
  have reads: "frame (rows_of t') m" if "reads_only m" for m :: "'a run"
    using that by (rule frame_reads) simp
  note defs = portal_me_def portal_get_kyb_def portal_list_sessions_def portal_list_settlements_def portal_get_balance_def
    portal_list_notifications_def portal_list_api_keys_def portal_list_corridors_def portal_logout_all_def portal_delete_account_def
    portal_get_session_def portal_issue_api_key_def portal_revoke_api_key_def portal_set_webhook_url_def portal_set_corridor_def
  note queries = get_tenant_def get_latest_case_def list_sessions_by_tenant_def list_settlements_by_tenant_def get_balance_for_tenant_def
    list_deliveries_by_tenant_def list_api_keys_def list_corridors_def list_corridor_entitlements_def get_session_def get_corridor_by_id_def
  show ?thesis
  proof (cases route)
    case (RSubmitKyb body)
    then show ?thesis using rows_of_submit [OF assms(1)] by simp
  qed (use assms(2) in \<open>simp_all only: serve_route.simps defs queries with_tenant_Some\<close>,
      (intro frame_rules frame_refusing frame_path_id frame_decode_body rows_of_others [OF assms(1)]; simp)+)
qed

text \<open>A bearer token and the live session it stands for.\<close>

definition live_session :: "http_request \<Rightarrow> world \<Rightarrow> portal_session \<Rightarrow> bool" where
  "live_session r w s \<longleftrightarrow> (\<exists>token status. cut_prefix (rq_header r ''Authorization'') ''Bearer '' = Some token \<and>
     session_with_status (hash_token (env w) token) w = Some (s, status) \<and> \<not> locked_out status \<and> now w \<le> po_expires s)"

lemma wp_portal_middleware:
  "wp (portal_middleware r) (\<lambda>v w'. (\<exists>bs. w' = w\<lparr>faults := bs\<rparr>) \<and>
     (\<exists>u. v = Inr u \<and> (\<forall>t. u = Inr t \<longrightarrow> (\<exists>s. live_session r w s \<and> po_tenant s = t)))) w"
proof -
  have same: "\<exists>bs. w = w\<lparr>faults := bs\<rparr>" by (rule same_script)
  show ?thesis
    unfolding portal_middleware_def authenticate_session_def
    by (intro wp_rules wp_attemptE)
      (auto simp: live_session_def session_with_status_def find_tenant_def same split: option.splits)
qed

lemma rows_of_logout:
  assumes "live_session r w s" and "distinct (map po_hash (portal_sessions w))" and "t' \<noteq> po_tenant s"
  shows "wp (portal_logout r) (\<lambda>_ w'. rows_of t' w' = rows_of t' w) (w\<lparr>faults := bs\<rparr>)"
proof -
  obtain token status where tok: "cut_prefix (rq_header r ''Authorization'') ''Bearer '' = Some token"
    and s: "session_with_status (hash_token (env w) token) w = Some (s, status)"
    using assms(1) by (auto simp: live_session_def)
  let ?h = "hash_token (env w) token"
  have "find (\<lambda>s. po_hash s = ?h) (portal_sessions w) = Some s"
    using s by (auto simp: session_with_status_def split: option.splits)
  then have mem: "s \<in> set (portal_sessions w)" and hash: "po_hash s = ?h" by (auto dest: find_Some_mem)
  have "x = s" if "x \<in> set (portal_sessions w)" "po_hash x = ?h" for x
    using inj_onD [of po_hash "set (portal_sessions w)" x s] that assms(2) mem hash by (simp add: distinct_map)
  then have "filter (\<lambda>x. po_hash x \<noteq> ?h \<and> po_tenant x = t') (portal_sessions w) = filter (\<lambda>x. po_tenant x = t') (portal_sessions w)"
    using assms(3) by (intro filter_cong) auto
  then have kept: "rows_of t' (w\<lparr>faults := cs, portal_sessions := filter (\<lambda>x. po_hash x \<noteq> ?h) (portal_sessions w)\<rparr>) = rows_of t' w" for cs
    by (simp add: rows_of_def own_rows_of_def)
  have same: "rows_of t' (w\<lparr>faults := cs\<rparr>) = rows_of t' w" for cs
    by (simp add: rows_of_def own_rows_of_def)
  show ?thesis
    unfolding portal_logout_def logout_def tok option.case
    by (cases "token = []"; simp only: if_True if_False) (intro wp_rules; simp add: kept same wp_bind_def op_defs wp_def)+
qed

text \<open>
  C20. A request to the portal touches only rows of the tenant whose live session its bearer token names: with no such session the
  answer is 401 and nothing is written, and otherwise every other tenant keeps its account, its keys, sessions, entitlements,
  login links and cases, and the shared tables do not change, whatever the route and its body.
\<close>

theorem portal_touches_own_rows:
  assumes "portal_serve r route w = (res, w')" and "distinct (map po_hash (portal_sessions w))"
  shows "(\<exists>msg bs. res = Inr (Refused 401 (OtherErr msg)) \<and> w' = w\<lparr>faults := bs\<rparr>) \<or>
    (\<exists>s. live_session r w s \<and> (\<forall>t'. t' \<noteq> po_tenant s \<longrightarrow> rows_of t' w' = rows_of t' w))"
proof -
  obtain v u where run: "portal_middleware r w = (v, u)" by fastforce
  with wpD [OF wp_portal_middleware] obtain bs x where u: "u = w\<lparr>faults := bs\<rparr>" and v: "v = Inr x"
    and auth: "\<And>t. x = Inr t \<Longrightarrow> \<exists>s. live_session r w s \<and> po_tenant s = t" by blast
  show ?thesis
  proof (cases x)
    case (Inl msg)
    then show ?thesis using assms(1) run by (auto simp: portal_serve_def bindE_def ret_def u v)
  next
    case (Inr t)
    then obtain s where s: "live_session r w s" "po_tenant s = t" using auth by blast
    have "rows_of t' w' = rows_of t' w" if "t' \<noteq> t" for t'
    proof (cases "route = RLogout")
      case True
      then show ?thesis
        using wpD [OF rows_of_logout [OF s(1) assms(2)]] that s(2) assms(1) run Inr by (simp add: portal_serve_def bindE_def u v)
    next
      case False
      then show ?thesis
        using frame_eq [OF rows_of_route [OF that False]] assms(1) run Inr by (simp add: portal_serve_def bindE_def u v)
    qed
    with s show ?thesis by blast
  qed
qed

definition portal_world :: world where
  "portal_world = tenant_world\<lparr>portal_sessions := [\<lparr>po_hash = hash_token sample_env ''tok'', po_tenant = ''t'', po_expires = 1\<rparr>]\<rparr>"

theorem portal_touches_own_rows_witness:
  "rows_of ''other'' (snd (portal_serve (bearer ''tok'') RDeleteAccount portal_world)) = rows_of ''other'' portal_world"
proof -
  let ?run = "portal_serve (bearer ''tok'') RDeleteAccount portal_world"
  have "distinct (map po_hash (portal_sessions portal_world))" by (simp add: portal_world_def)
  moreover have "po_tenant s = ''t''" if "live_session (bearer ''tok'') portal_world s" for s
    using that by (auto simp: live_session_def session_with_status_def portal_world_def split: option.splits if_splits)
  ultimately show ?thesis
    using portal_touches_own_rows [of "bearer ''tok''" RDeleteAccount portal_world "fst ?run" "snd ?run"] by fastforce
qed

end
