(* ===== verification/Spec2Isabelle.thy ===== *)
theory Spec2Isabelle
  imports PayoutLife Watcher Catalog Kyc Admin RequestLog Queueing Portal
begin

text \<open>
  A verification library for the payment engine under \<^verbatim>\<open>src/\<close> (Go): a tenant's customer sends a crypto
  asset, the engine collects it, and pays the agreed amount of fiat to a bank account.

  \<^bold>\<open>How the parts work together.\<close> A signed request of a tenant passes the gateway (\<^verbatim>\<open>platform/gateway\<close>,
  \<^verbatim>\<open>platform/ratelimit\<close>) and creates a session (\<^verbatim>\<open>internal/session\<close>): the corridor is looked up
  (\<^verbatim>\<open>internal/corridor\<close>), the tenant's entitlement and the payment are checked (\<^verbatim>\<open>internal/tenant\<close>,
  \<^verbatim>\<open>internal/compliance\<close>), a rate is locked (\<^verbatim>\<open>internal/rate\<close>) and a deposit address reserved
  (\<^verbatim>\<open>internal/treasury\<close>). A webhook or the chain watcher reports the deposit; the event travels through the
  transactional outbox (\<^verbatim>\<open>platform/eventbus\<close>) to the session and on to the settlement
  (\<^verbatim>\<open>internal/settlement\<close>), which posts the ledger (\<^verbatim>\<open>internal/ledger\<close>) and pays out through a provider or by
  hand over Telegram. Notifications (\<^verbatim>\<open>internal/notification\<close>) tell the tenant and the ops team.

  \<^bold>\<open>The theories.\<close>
  \<^item> \<open>Prelude\<close>: operations as state transformers with an error result, the rules that walk through them
    (\<open>wp_rules\<close>, \<open>keeps_rules\<close>, \<open>frame_rules\<close>), statements that may fail, transactions, tables, decimals.
    \<open>Text\<close>, \<open>Json\<close>, \<open>Numbers\<close>: the functions of the Go library the code calls on strings, JSON and numbers.
  \<^item> \<open>Schema\<close>: a record per table (\<^verbatim>\<open>src/migrations\<close>), the externals, and \<open>world\<close>, the state of the engine.
  \<^item> \<open>Eventbus\<close> (\<^verbatim>\<open>platform/eventbus/eventbus.go\<close>), \<open>Ledger\<close> (\<^verbatim>\<open>internal/ledger\<close>), \<open>Corridor\<close>
    (\<^verbatim>\<open>corridor.go\<close>), \<open>Catalog\<close> (\<^verbatim>\<open>corridor/catalog.go\<close>), \<open>Rate\<close> (\<^verbatim>\<open>internal/rate\<close>), \<open>Wallet\<close>
    (\<^verbatim>\<open>treasury/wallet/wallet.go\<close>), \<open>Treasury\<close> (\<^verbatim>\<open>treasury.go\<close>, \<^verbatim>\<open>hdwallet.go\<close>, \<^verbatim>\<open>tenant_wallet.go\<close>,
    \<^verbatim>\<open>providers.go\<close>, \<^verbatim>\<open>webhook.go\<close>), \<open>Compliance\<close>, \<open>Session\<close> (\<^verbatim>\<open>session.go\<close>, \<^verbatim>\<open>events.go\<close>, \<^verbatim>\<open>ttl.go\<close>).
  \<^item> \<open>Payout\<close> (the provider adapters and their webhooks), \<open>Settlement\<close> (the pipeline, reversals, timeouts, ops and manual
    payouts), \<open>SettlementSafety\<close>, \<open>Payouts\<close>, \<open>PayoutLife\<close> (its invariants, bounds and abstract life).
  \<^item> \<open>Gateway\<close> (HMAC requests, permissions, the sliding-window limiter, \<^verbatim>\<open>platform/idempotency\<close>), \<open>Tenant\<close>
    (\<^verbatim>\<open>tenant.go\<close>, \<^verbatim>\<open>portal_middleware.go\<close>, \<^verbatim>\<open>platform/webhookurl\<close>), \<open>Admin\<close> (\<^verbatim>\<open>platform/adminauth\<close>), \<open>RequestLog\<close>
    (\<^verbatim>\<open>platform/audit\<close>), \<open>Kyc\<close> (\<^verbatim>\<open>internal/kyc\<close>).
  \<^item> \<open>Notify\<close> (\<^verbatim>\<open>internal/notification\<close>), \<open>Queueing\<close> (the dispatcher with its handler); \<open>EvmTx\<close>, \<open>Chains\<close>, \<open>Sweep\<close>,
    \<open>Watcher\<close> (\<^verbatim>\<open>treasury/wallet/rlp.go\<close>, \<^verbatim>\<open>evm.go\<close>, \<^verbatim>\<open>sweep.go\<close>, \<^verbatim>\<open>watcher.go\<close>, \<^verbatim>\<open>tenant_notify.go\<close>).

  \<^bold>\<open>State and operations.\<close> A Go function \<open>(T, error)\<close> over the database is a definition of type \<open>'a run\<close>, from
  the world to an error or a value and the next world. One SQL statement is one \<open>stmt\<close>, whose conditions are the
  WHERE clause, the unique indexes and the foreign keys that the code relies on. The field \<open>faults\<close> is a script that says
  which statements fail; a crash in the middle of an operation is a script of failures. \<open>atomically\<close> is a transaction.
  Operations that can overlap are cut into their statements (\<open>engine_step\<close> of \<open>SettlementSafety\<close>) and interleaved; the others
  run one after the other in any order. Time advances between operations. Decimals are rationals, rounded where a column or
  the library rounds; \<open>float64\<close> values of the limiter are rounded after every operation; 64-bit counters wrap.

  \<^bold>\<open>What comes from outside\<close> is an argument (\<open>externals\<close> of \<open>Schema\<close>, or of a definition): the answers over the network,
  which may depend on everything asked before; HMAC-SHA256, SHA-256, Keccak-256, AES-GCM, bcrypt, signatures and key derivation;
  random bytes; the parsers of JSON, UUIDs, URLs, IP addresses and dates; the division and printing of the decimal library.
  A property that needs something of them says so as a hypothesis (an injective hash, a stream of fresh ids).

  \<^bold>\<open>What the lemmas show.\<close> Ledger: postings are all-or-nothing, balanced, claimed once, and the cached balances are the sums.
  Treasury and sessions: deposits are recorded once, addresses belong to their tenant, sessions follow their state machine and
  never strand funds. Payouts: no reference is sent twice, retries are bounded, every loop ends, and every run refines the
  abstract life of a settlement, in which paid is final. Boundary: a granted request is signed with the secret of a live key,
  revoked keys stay dead, login links work once, bearer tokens of the staff come from logins, of an identity record only the
  outcome is kept. Around them: the catalog is well formed, events reach their queues, deliveries follow their life, the audit
  trail is in order, sweeps only move what was confirmed and broadcast.

  \<^bold>\<open>Interfaces.\<close> \<open>credential_lookup\<close> (what the gateway asks of the tenants), \<open>quiet_handlers\<close> (what the dispatcher asks of a
  handler), \<open>poll_rule\<close> (what a poll asks of a predicate) and the other locales are interpreted on the model's own
  definitions, in the theory that provides them.

  \<^bold>\<open>Bounds and fuel.\<close> \<open>retry_fuel\<close> is 3: an automatic retry needs an attempt count below \<open>MaxAutoRetryAttempts\<close> (3), so the
  mutual recursion of \<open>dispatchAttempt\<close> and \<open>handleAttemptFailure\<close> never goes deeper. The worker rounds of settlements and of
  notifications get the number of waiting rows and one more, as every round takes one row out of the waiting ones; the
  webhook loop gets the configured retries. That the fuel is enough is proved with each of them (\<open>pipeline_ends\<close>,
  \<open>delivery_round_ends\<close>). The audit buffer holds 1024 records.

  \<^bold>\<open>Not modelled.\<close> The tickers and goroutines that call the jobs; reading the configuration (\<^verbatim>\<open>platform/config\<close>), opening and
  migrating the database (\<^verbatim>\<open>platform/db\<close>), the router's headers and most HTTP handlers of \<^verbatim>\<open>cmd/server\<close>, which
  decode a request, call one operation of the model and encode the result; the command-line tools; the HTTP requests of the
  Youverify and Resend clients, of which only the answer counts; the JavaScript-free documentation route. Connection handling,
  logging and response times have no counterpart in the model.
\<close>

end
